(* ===== verification/Rust_Prelude.thy ===== *)
theory Rust_Prelude
  imports Main "HOL-Library.Char_ord"
begin

text \<open>
  What the components share of the Rust language and its standard library.

  A Rust \<open>str\<close> is its UTF-8 byte sequence, here a \<^typ>\<open>string\<close>. The section
  on strings gives the library functions the gateway calls (\<open>split\<close>, \<open>join\<close>,
  \<open>strip_prefix\<close>, \<open>split_once\<close>, \<open>trim_matches\<close>, \<open>eq_ignore_ascii_case\<close>,
  \<open>chars\<close>, \<open>trim\<close>), the section on integers the saturating operations and the
  durations (natural numbers of nanoseconds, capped at \<open>Duration::MAX\<close>). The
  lemmas collected in \<open>str_simps\<close> and \<open>sat_simps\<close> carry the component proofs.
\<close>

named_theorems str_simps
named_theorems sat_simps

section \<open>Results\<close>

text \<open>A Rust \<open>Result<T, E>\<close> is \<^typ>\<open>'e + 'a\<close> with the error on the left.\<close>

type_synonym ('a, 'e) result = "'e + 'a"

text \<open>The \<open>?\<close> operator, and the early return of a failed check.\<close>

definition and_then :: "('a, 'e) result \<Rightarrow> ('a \<Rightarrow> ('b, 'e) result) \<Rightarrow> ('b, 'e) result" where
  "and_then r f = (case r of Inl e \<Rightarrow> Inl e | Inr a \<Rightarrow> f a)"

definition ensure :: "bool \<Rightarrow> 'e \<Rightarrow> (unit, 'e) result" where
  "ensure b e = (if b then Inr () else Inl e)"

lemma and_then_simps [simp]:
  "and_then (Inl e) f = Inl e" "and_then (Inr a) f = f a"
  by (simp_all add: and_then_def)

lemma and_then_Inr_iff: "and_then r f = Inr x \<longleftrightarrow> (\<exists>a. r = Inr a \<and> f a = Inr x)"
  by (cases r) simp_all

lemma and_then_Inl_iff:
  "and_then r f = Inl e \<longleftrightarrow> r = Inl e \<or> (\<exists>a. r = Inr a \<and> f a = Inl e)"
  by (cases r) simp_all

lemma ensure_iff [simp]:
  "ensure b e = Inr u \<longleftrightarrow> b" "ensure b e = Inl e' \<longleftrightarrow> \<not> b \<and> e' = e"
  by (auto simp: ensure_def)

text \<open>\<open>map_err\<close> in front of \<open>?\<close>.\<close>

definition map_err :: "('e \<Rightarrow> 'f) \<Rightarrow> ('a, 'e) result \<Rightarrow> ('a, 'f) result" where
  "map_err f r = (case r of Inl e \<Rightarrow> Inl (f e) | Inr a \<Rightarrow> Inr a)"

lemma map_err_Inr [simp]: "map_err f r = Inr a \<longleftrightarrow> r = Inr a"
  by (cases r) (simp_all add: map_err_def)

text \<open>A loop whose body may return an error.\<close>

fun for_each :: "('a \<Rightarrow> (unit, 'e) result) \<Rightarrow> 'a list \<Rightarrow> (unit, 'e) result" where
  "for_each f [] = Inr ()"
| "for_each f (x # xs) = and_then (f x) (\<lambda>_. for_each f xs)"

lemma for_each_Inr_iff: "for_each f xs = Inr u \<longleftrightarrow> (\<forall>x\<in>set xs. f x = Inr ())"
  by (induction xs) (auto simp: and_then_Inr_iff)

definition is_ok :: "('a, 'e) result \<Rightarrow> bool" where
  "is_ok r = (case r of Inl _ \<Rightarrow> False | Inr _ \<Rightarrow> True)"

lemma is_ok_simps [simp]: "is_ok (Inr x)" "\<not> is_ok (Inl e)"
  by (simp_all add: is_ok_def)

lemma is_ok_iff: "is_ok r \<longleftrightarrow> (\<exists>x. r = Inr x)"
  by (cases r) auto

section \<open>Splitting and joining\<close>

text \<open>\<open>str::split(char)\<close>: always at least one piece.\<close>

fun split_on :: "char \<Rightarrow> string \<Rightarrow> string list" where
  "split_on c [] = [[]]"
| "split_on c (x # xs) =
     (if x = c then [] # split_on c xs
      else case split_on c xs of [] \<Rightarrow> [[x]] | y # ys \<Rightarrow> (x # y) # ys)"

text \<open>\<open>[&str]::join(sep)\<close>.\<close>

fun join :: "string \<Rightarrow> string list \<Rightarrow> string" where
  "join sep [] = []"
| "join sep [x] = x"
| "join sep (x # y # ys) = x @ sep @ join sep (y # ys)"

lemma split_on_ne [simp]: "split_on c s \<noteq> []"
  by (induction s) (auto split: list.splits)

lemma split_on_Cons [simp]:
  "split_on c (x # xs) =
     (if x = c then [] # split_on c xs
      else (x # hd (split_on c xs)) # tl (split_on c xs))"
  by (cases "split_on c xs") auto

declare split_on.simps(2) [simp del]

lemma split_on_free: "p \<in> set (split_on c s) \<Longrightarrow> c \<notin> set p"
proof (induction s arbitrary: p)
  case (Cons x xs)
  have "hd (split_on c xs) \<in> set (split_on c xs)" by simp
  with Cons show ?case
    by (auto split: if_splits dest: list.set_sel(2) [rotated])
qed simp

lemma split_on_chars: "p \<in> set (split_on c s) \<Longrightarrow> set p \<subseteq> set s"
proof (induction s arbitrary: p)
  case (Cons x xs)
  have h: "set (hd (split_on c xs)) \<subseteq> set xs" using Cons.IH by simp
  have t: "set q \<subseteq> set xs" if "q \<in> set (tl (split_on c xs))" for q
    using Cons.IH that by (meson list.set_sel(2) split_on_ne)
  show ?case
    using Cons.prems h t Cons.IH [of p] by (auto split: if_splits dest!: subsetD)
qed simp

lemma split_on_id [simp]: "c \<notin> set s \<Longrightarrow> split_on c s = [s]"
  by (induction s) auto

lemma split_on_append_sep:
  "split_on c (a @ c # b) = split_on c a @ split_on c b"
  by (induction a) auto

lemma split_on_free_append [simp]:
  "c \<notin> set a \<Longrightarrow> split_on c (a @ c # b) = a # split_on c b"
  by (simp add: split_on_append_sep)

lemma join_Cons: "ys \<noteq> [] \<Longrightarrow> join sep (x # ys) = x @ sep @ join sep ys"
  by (cases ys) auto

lemma join_split [simp]: "join [c] (split_on c s) = s"
proof (induction s)
  case (Cons x xs)
  obtain y ys where y: "split_on c xs = y # ys" by (cases "split_on c xs") auto
  with Cons show ?case by (cases ys) auto
qed simp

lemma split_join:
  "xs \<noteq> [] \<Longrightarrow> (\<forall>x\<in>set xs. c \<notin> set x) \<Longrightarrow> split_on c (join [c] xs) = xs"
proof (induction xs)
  case (Cons x xs)
  then show ?case by (cases "xs = []") (auto simp: join_Cons)
qed simp

lemma set_join_subset: "set (join sep xs) \<subseteq> set sep \<union> (\<Union>x\<in>set xs. set x)"
  by (induction sep xs rule: join.induct) auto

lemma join_append:
  "xs \<noteq> [] \<Longrightarrow> ys \<noteq> [] \<Longrightarrow> join sep (xs @ ys) = join sep xs @ sep @ join sep ys"
  by (induction xs) (auto simp: join_Cons split: if_splits, case_tac "xs = []", auto simp: join_Cons)

section \<open>Prefixes, suffixes and single splits\<close>

fun strip_prefix :: "string \<Rightarrow> string \<Rightarrow> string option" where
  "strip_prefix [] s = Some s"
| "strip_prefix (p # ps) [] = None"
| "strip_prefix (p # ps) (x # xs) = (if p = x then strip_prefix ps xs else None)"

definition starts_with :: "string \<Rightarrow> string \<Rightarrow> bool" where
  "starts_with p s = (strip_prefix p s \<noteq> None)"

definition strip_suffix :: "string \<Rightarrow> string \<Rightarrow> string option" where
  "strip_suffix p s = map_option rev (strip_prefix (rev p) (rev s))"

definition ends_with :: "string \<Rightarrow> string \<Rightarrow> bool" where
  "ends_with p s = (strip_suffix p s \<noteq> None)"

lemma strip_prefix_Some_iff [str_simps]: "strip_prefix p s = Some r \<longleftrightarrow> s = p @ r"
  by (induction p s rule: strip_prefix.induct) auto

lemma strip_prefix_append [simp]: "strip_prefix p (p @ r) = Some r"
  by (simp add: strip_prefix_Some_iff)

lemma strip_prefix_None_iff: "strip_prefix p s = None \<longleftrightarrow> (\<nexists>r. s = p @ r)"
  using strip_prefix_Some_iff by (metis not_None_eq)

lemma starts_with_iff [str_simps]: "starts_with p s \<longleftrightarrow> (\<exists>r. s = p @ r)"
  by (auto simp: starts_with_def strip_prefix_Some_iff)

lemma strip_suffix_Some_iff [str_simps]: "strip_suffix p s = Some r \<longleftrightarrow> s = r @ p"
proof
  assume "strip_suffix p s = Some r"
  then obtain q where "strip_prefix (rev p) (rev s) = Some q" "r = rev q"
    by (auto simp: strip_suffix_def)
  then have "rev s = rev p @ q" by (simp add: strip_prefix_Some_iff)
  then have "rev (rev s) = rev (rev p @ q)" by simp
  with \<open>r = rev q\<close> show "s = r @ p" by simp
next
  assume "s = r @ p"
  then show "strip_suffix p s = Some r" by (simp add: strip_suffix_def)
qed

lemma ends_with_iff [str_simps]: "ends_with p s \<longleftrightarrow> (\<exists>r. s = r @ p)"
  by (auto simp: ends_with_def strip_suffix_Some_iff)

text \<open>\<open>str::split_once(char)\<close> and \<open>str::rsplit_once(char)\<close>.\<close>

fun split_once :: "char \<Rightarrow> string \<Rightarrow> (string \<times> string) option" where
  "split_once c [] = None"
| "split_once c (x # xs) =
     (if x = c then Some ([], xs)
      else map_option (\<lambda>(a, b). (x # a, b)) (split_once c xs))"

definition rsplit_once :: "char \<Rightarrow> string \<Rightarrow> (string \<times> string) option" where
  "rsplit_once c s = map_option (\<lambda>(a, b). (rev b, rev a)) (split_once c (rev s))"

lemma split_once_Some_iff [str_simps]:
  "split_once c s = Some (a, b) \<longleftrightarrow> s = a @ c # b \<and> c \<notin> set a"
proof (induction s arbitrary: a)
  case (Cons x xs)
  then show ?case by (cases a) auto
qed simp

lemma split_once_None_iff [str_simps]: "split_once c s = None \<longleftrightarrow> c \<notin> set s"
  by (induction s) auto

lemma rsplit_once_Some_iff [str_simps]:
  "rsplit_once c s = Some (a, b) \<longleftrightarrow> s = a @ c # b \<and> c \<notin> set b"
proof -
  have "rsplit_once c s = Some (a, b) \<longleftrightarrow> split_once c (rev s) = Some (rev b, rev a)"
    by (auto simp: rsplit_once_def)
  also have "\<dots> \<longleftrightarrow> rev s = rev (a @ c # b) \<and> c \<notin> set b"
    by (simp add: split_once_Some_iff)
  also have "rev s = rev (a @ c # b) \<longleftrightarrow> s = a @ c # b" by (rule rev_is_rev_conv)
  finally show ?thesis .
qed

lemma rsplit_once_None_iff [str_simps]: "rsplit_once c s = None \<longleftrightarrow> c \<notin> set s"
  by (simp add: rsplit_once_def split_once_None_iff)

text \<open>\<open>str::split_once(&str)\<close>: at the first occurrence.\<close>

fun split_once_str :: "string \<Rightarrow> string \<Rightarrow> (string \<times> string) option" where
  "split_once_str p [] = (if p = [] then Some ([], []) else None)"
| "split_once_str p (x # xs) =
     (case strip_prefix p (x # xs) of
        Some b \<Rightarrow> Some ([], b)
      | None \<Rightarrow> map_option (\<lambda>(a, b). (x # a, b)) (split_once_str p xs))"

lemma split_once_str_SomeD: "split_once_str p s = Some (a, b) \<Longrightarrow> s = a @ p @ b"
  by (induction p s arbitrary: a rule: split_once_str.induct)
    (auto simp: strip_prefix_Some_iff split: option.splits if_splits)

text \<open>\<open>str::trim_matches(char)\<close>, \<open>trim_start_matches\<close> and \<open>trim_end_matches\<close>.\<close>

definition trim_start_matches :: "char \<Rightarrow> string \<Rightarrow> string" where
  "trim_start_matches c s = dropWhile (\<lambda>x. x = c) s"

definition trim_end_matches :: "char \<Rightarrow> string \<Rightarrow> string" where
  "trim_end_matches c s = rev (dropWhile (\<lambda>x. x = c) (rev s))"

definition trim_matches :: "char \<Rightarrow> string \<Rightarrow> string" where
  "trim_matches c s = trim_end_matches c (trim_start_matches c s)"

lemma trim_start_matches_id:
  "s = [] \<or> hd s \<noteq> c \<Longrightarrow> trim_start_matches c s = s"
  by (cases s) (auto simp: trim_start_matches_def)

lemma trim_end_matches_id:
  "s = [] \<or> last s \<noteq> c \<Longrightarrow> trim_end_matches c s = s"
  by (cases s rule: rev_cases) (auto simp: trim_end_matches_def)

lemma trim_matches_id:
  "s = [] \<or> (hd s \<noteq> c \<and> last s \<noteq> c) \<Longrightarrow> trim_matches c s = s"
  by (auto simp: trim_matches_def trim_start_matches_id trim_end_matches_id)

lemma trim_start_matches_ends:
  "trim_start_matches c s = [] \<or> hd (trim_start_matches c s) \<noteq> c"
  unfolding trim_start_matches_def by (induction s) auto

lemma trim_end_matches_ends:
  "trim_end_matches c s = [] \<or> last (trim_end_matches c s) \<noteq> c"
  using trim_start_matches_ends [of c "rev s"]
  by (auto simp: trim_end_matches_def trim_start_matches_def last_rev)

lemma trim_end_matches_prefix: "\<exists>t. s = trim_end_matches c s @ t"
proof -
  have "rev s = takeWhile (\<lambda>x. x = c) (rev s) @ dropWhile (\<lambda>x. x = c) (rev s)" by simp
  then have "rev (rev s) = rev (dropWhile (\<lambda>x. x = c) (rev s)) @ rev (takeWhile (\<lambda>x. x = c) (rev s))"
    by (metis rev_append)
  then show ?thesis by (auto simp: trim_end_matches_def)
qed

lemma trim_matches_ends:
  assumes "trim_matches c s \<noteq> []"
  shows "hd (trim_matches c s) \<noteq> c" "last (trim_matches c s) \<noteq> c"
proof -
  let ?t = "trim_start_matches c s"
  obtain u where u: "?t = trim_end_matches c ?t @ u" using trim_end_matches_prefix by metis
  have ne: "trim_end_matches c ?t \<noteq> []" using assms by (simp add: trim_matches_def)
  then have "hd ?t = hd (trim_end_matches c ?t)" by (subst u) simp
  moreover have "hd ?t \<noteq> c" using trim_start_matches_ends [of c s] ne u by auto
  ultimately show "hd (trim_matches c s) \<noteq> c" by (simp add: trim_matches_def)
  show "last (trim_matches c s) \<noteq> c"
    using trim_end_matches_ends [of c ?t] assms by (simp add: trim_matches_def)
qed

lemma trim_matches_idem [simp]: "trim_matches c (trim_matches c s) = trim_matches c s"
  using trim_matches_ends trim_matches_id by metis

section \<open>Bytes and ASCII\<close>

abbreviation byte :: "char \<Rightarrow> nat" where
  "byte c \<equiv> of_char c"

lemma byte_lt [simp]: "byte c < 256"
  by simp

definition is_ascii_upper :: "char \<Rightarrow> bool" where
  "is_ascii_upper c = (65 \<le> byte c \<and> byte c \<le> 90)"

definition is_ascii_lower :: "char \<Rightarrow> bool" where
  "is_ascii_lower c = (97 \<le> byte c \<and> byte c \<le> 122)"

definition is_ascii_digit :: "char \<Rightarrow> bool" where
  "is_ascii_digit c = (48 \<le> byte c \<and> byte c \<le> 57)"

definition is_ascii_alphabetic :: "char \<Rightarrow> bool" where
  "is_ascii_alphabetic c = (is_ascii_upper c \<or> is_ascii_lower c)"

definition is_ascii_alphanumeric :: "char \<Rightarrow> bool" where
  "is_ascii_alphanumeric c = (is_ascii_alphabetic c \<or> is_ascii_digit c)"

lemmas ascii_defs = is_ascii_upper_def is_ascii_lower_def is_ascii_digit_def
  is_ascii_alphabetic_def is_ascii_alphanumeric_def

definition ascii_lower :: "char \<Rightarrow> char" where
  "ascii_lower c = (if is_ascii_upper c then char_of (byte c + 32) else c)"

definition ascii_upper :: "char \<Rightarrow> char" where
  "ascii_upper c = (if is_ascii_lower c then char_of (byte c - 32) else c)"

definition to_ascii_lowercase :: "string \<Rightarrow> string" where
  "to_ascii_lowercase = map ascii_lower"

definition to_ascii_uppercase :: "string \<Rightarrow> string" where
  "to_ascii_uppercase = map ascii_upper"

definition eq_ignore_ascii_case :: "string \<Rightarrow> string \<Rightarrow> bool" where
  "eq_ignore_ascii_case a b = (to_ascii_lowercase a = to_ascii_lowercase b)"

lemma byte_ascii_lower:
  "byte (ascii_lower c) = (if is_ascii_upper c then byte c + 32 else byte c)"
  by (simp add: ascii_lower_def is_ascii_upper_def)

lemma ascii_lower_not_upper [simp]: "\<not> is_ascii_upper (ascii_lower c)"
proof (cases "is_ascii_upper c")
  case True
  then have "byte (ascii_lower c) = byte c + 32" by (simp add: byte_ascii_lower)
  with True show ?thesis by (simp add: is_ascii_upper_def)
qed (simp add: ascii_lower_def)

lemma ascii_lower_idem [simp]: "ascii_lower (ascii_lower c) = ascii_lower c"
  using ascii_lower_not_upper [of c] by (simp add: ascii_lower_def [of "ascii_lower c"])

lemma to_ascii_lowercase_idem [simp]:
  "to_ascii_lowercase (to_ascii_lowercase s) = to_ascii_lowercase s"
  by (simp add: to_ascii_lowercase_def)

lemma to_ascii_lowercase_simps [simp]:
  "to_ascii_lowercase [] = []"
  "to_ascii_lowercase (c # s) = ascii_lower c # to_ascii_lowercase s"
  "to_ascii_lowercase (s @ t) = to_ascii_lowercase s @ to_ascii_lowercase t"
  "length (to_ascii_lowercase s) = length s"
  "to_ascii_lowercase s = [] \<longleftrightarrow> s = []"
  by (simp_all add: to_ascii_lowercase_def)

lemma eq_ignore_ascii_case_refl [simp]: "eq_ignore_ascii_case a a"
  by (simp add: eq_ignore_ascii_case_def)

lemma eq_ignore_ascii_case_sym: "eq_ignore_ascii_case a b = eq_ignore_ascii_case b a"
  by (auto simp: eq_ignore_ascii_case_def)

text \<open>\<open>str::parse\<close> for an unsigned integer with maximum \<open>m\<close>: an optional plus
  sign, then at least one digit, and no overflow.\<close>

fun parse_digits :: "nat \<Rightarrow> string \<Rightarrow> nat option" where
  "parse_digits acc [] = Some acc"
| "parse_digits acc (c # cs) =
     (if is_ascii_digit c then parse_digits (10 * acc + (byte c - 48)) cs else None)"

definition parse_uint :: "nat \<Rightarrow> string \<Rightarrow> nat option" where
  "parse_uint m s =
     (let ds = (case s of c # cs \<Rightarrow> if c = CHR ''+'' then cs else s | [] \<Rightarrow> s) in
      if ds = [] then None
      else case parse_digits 0 ds of
             None \<Rightarrow> None
           | Some n \<Rightarrow> if n \<le> m then Some n else None)"

lemma parse_uint_bound: "parse_uint m s = Some n \<Longrightarrow> n \<le> m"
  by (auto simp: parse_uint_def Let_def split: if_splits option.splits)

text \<open>The decimal rendering of an unsigned integer, as \<open>to_string\<close> prints it.\<close>

fun show_nat :: "nat \<Rightarrow> string" where
  "show_nat n = (if n < 10 then [char_of (48 + n)]
                 else show_nat (n div 10) @ [char_of (48 + n mod 10)])"

declare show_nat.simps [simp del]

section \<open>UTF-8 characters\<close>

text \<open>\<open>str::chars\<close> as the byte sequence of each character: a lead byte gives the
  width, which is all a well-formed string needs.\<close>

definition utf8_width :: "char \<Rightarrow> nat" where
  "utf8_width c = (if byte c < 128 then 1 else if byte c < 224 then 2
                   else if byte c < 240 then 3 else 4)"

fun utf8_chars :: "string \<Rightarrow> string list" where
  "utf8_chars [] = []"
| "utf8_chars (x # xs) =
     (x # take (utf8_width x - 1) xs) # utf8_chars (drop (utf8_width x - 1) xs)"

lemma utf8_width_pos: "0 < utf8_width c"
  by (simp add: utf8_width_def)

lemma concat_utf8_chars [simp]: "concat (utf8_chars s) = s"
  by (induction s rule: utf8_chars.induct) auto

lemma utf8_chars_ascii: "\<forall>c\<in>set s. byte c < 128 \<Longrightarrow> utf8_chars s = map (\<lambda>c. [c]) s"
  by (induction s) (auto simp: utf8_width_def)

lemma utf8_chars_ne: "ch \<in> set (utf8_chars s) \<Longrightarrow> ch \<noteq> []"
  by (induction s rule: utf8_chars.induct) auto

text \<open>Well-formedness of UTF-8: the invariant every Rust \<open>str\<close> satisfies (the
  table of Unicode 15, section 3.9, as \<open>core::str::from_utf8\<close> checks it).\<close>

definition cont_byte :: "char \<Rightarrow> bool" where
  "cont_byte c = (0x80 \<le> byte c \<and> byte c \<le> 0xBF)"

definition second_ok :: "char \<Rightarrow> char \<Rightarrow> bool" where
  "second_ok a b =
     (if byte a = 0xE0 then 0xA0 \<le> byte b \<and> byte b \<le> 0xBF
      else if byte a = 0xED then 0x80 \<le> byte b \<and> byte b \<le> 0x9F
      else if byte a = 0xF0 then 0x90 \<le> byte b \<and> byte b \<le> 0xBF
      else if byte a = 0xF4 then 0x80 \<le> byte b \<and> byte b \<le> 0x8F
      else cont_byte b)"

fun is_utf8 :: "string \<Rightarrow> bool" where
  "is_utf8 [] = True"
| "is_utf8 (a # s) =
     (if byte a < 0x80 then is_utf8 s
      else if 0xC2 \<le> byte a \<and> byte a \<le> 0xDF then
        (case s of b # s1 \<Rightarrow> cont_byte b \<and> is_utf8 s1 | _ \<Rightarrow> False)
      else if 0xE0 \<le> byte a \<and> byte a \<le> 0xEF then
        (case s of b # c # s2 \<Rightarrow> second_ok a b \<and> cont_byte c \<and> is_utf8 s2 | _ \<Rightarrow> False)
      else if 0xF0 \<le> byte a \<and> byte a \<le> 0xF4 then
        (case s of b # c # d # s3 \<Rightarrow>
           second_ok a b \<and> cont_byte c \<and> cont_byte d \<and> is_utf8 s3 | _ \<Rightarrow> False)
      else False)"

lemma is_utf8_append: "is_utf8 a \<Longrightarrow> is_utf8 b \<Longrightarrow> is_utf8 (a @ b)"
  by (induction a rule: is_utf8.induct) (auto split: if_splits list.splits)

lemma second_ok_cont: "second_ok a b \<Longrightarrow> cont_byte b"
  by (auto simp: second_ok_def cont_byte_def split: if_splits)

text \<open>An ASCII separator never falls inside a character, so both sides of it are
  well-formed.\<close>

lemma is_utf8_split_sep:
  "is_utf8 (a @ c # b) \<Longrightarrow> byte c < 128 \<Longrightarrow> is_utf8 a \<and> is_utf8 b"
proof (induction "length a" arbitrary: a rule: less_induct)
  case less
  have nc1: "\<not> cont_byte c" using less.prems(2) by (auto simp: cont_byte_def)
  then have nc: "\<not> cont_byte c" "\<And>y. \<not> second_ok y c"
    using second_ok_cont by blast+
  show ?case
  proof (cases a)
    case Nil
    then show ?thesis using less.prems by simp
  next
    case (Cons x s)
    have IH: "is_utf8 (t @ c # b) \<Longrightarrow> is_utf8 t \<and> is_utf8 b" if "length t \<le> length s" for t
      using less.hyps [of t] less.prems(2) that Cons by simp
    consider "s = []" | y where "s = [y]" | y z where "s = [y, z]"
      | y z w s' where "s = y # z # w # s'"
      by (metis list.exhaust)
    then show ?thesis
      using less.prems(1) nc Cons IH [of s] IH [of "tl s"] IH [of "tl (tl s)"]
        IH [of "tl (tl (tl s))"]
      by cases (simp_all add: is_utf8.simps(2) [of x] del: is_utf8.simps(2)
          split: if_splits list.splits)
  qed
qed

lemma is_utf8_split_on:
  "is_utf8 s \<Longrightarrow> byte c < 128 \<Longrightarrow> p \<in> set (split_on c s) \<Longrightarrow> is_utf8 p"
proof (induction "length s" arbitrary: s rule: less_induct)
  case less
  show ?case
  proof (cases "split_once c s")
    case None
    then show ?thesis using less.prems by (simp add: split_once_None_iff)
  next
    case (Some ab)
    obtain a b where ab: "ab = (a, b)" by (cases ab)
    with Some have s: "s = a @ c # b" "c \<notin> set a" by (auto simp: split_once_Some_iff)
    then have "is_utf8 a" "is_utf8 b" using is_utf8_split_sep less.prems by blast+
    moreover have "p = a \<or> p \<in> set (split_on c b)"
      using less.prems s by (auto simp: split_on_append_sep)
    moreover have "length b < length s" using s by simp
    ultimately show ?thesis using less.hyps [of b] less.prems(2) by blast
  qed
qed

lemma is_utf8_join:
  "is_utf8 sep \<Longrightarrow> (\<forall>x\<in>set xs. is_utf8 x) \<Longrightarrow> is_utf8 (join sep xs)"
  by (induction sep xs rule: join.induct) (auto intro!: is_utf8_append)

lemma is_utf8_ascii: "\<forall>c\<in>set s. byte c < 128 \<Longrightarrow> is_utf8 s"
  by (induction s) auto

text \<open>\<open>char::is_whitespace\<close> (the Unicode \<open>White_Space\<close> property) and
  \<open>char::is_control\<close> on a character's bytes.\<close>

definition is_whitespace :: "string \<Rightarrow> bool" where
  "is_whitespace ch = (case map byte ch of
     [a] \<Rightarrow> 9 \<le> a \<and> a \<le> 13 \<or> a = 32
   | [a, b] \<Rightarrow> a = 0xC2 \<and> (b = 0x85 \<or> b = 0xA0)
   | [a, b, c] \<Rightarrow>
       a = 0xE1 \<and> b = 0x9A \<and> c = 0x80
       \<or> a = 0xE2 \<and> b = 0x80 \<and> (0x80 \<le> c \<and> c \<le> 0x8A \<or> c = 0xA8 \<or> c = 0xA9 \<or> c = 0xAF)
       \<or> a = 0xE2 \<and> b = 0x81 \<and> c = 0x9F
       \<or> a = 0xE3 \<and> b = 0x80 \<and> c = 0x80
   | _ \<Rightarrow> False)"

definition is_control :: "string \<Rightarrow> bool" where
  "is_control ch = (case map byte ch of
     [a] \<Rightarrow> a < 32 \<or> a = 127
   | [a, b] \<Rightarrow> a = 0xC2 \<and> 0x80 \<le> b \<and> b \<le> 0x9F
   | _ \<Rightarrow> False)"

definition trim_start :: "string \<Rightarrow> string" where
  "trim_start s = concat (dropWhile is_whitespace (utf8_chars s))"

definition trim_end :: "string \<Rightarrow> string" where
  "trim_end s = concat (rev (dropWhile is_whitespace (rev (utf8_chars s))))"

definition trim :: "string \<Rightarrow> string" where
  "trim s = concat (rev (dropWhile is_whitespace (rev (dropWhile is_whitespace (utf8_chars s)))))"

lemma trim_Nil [simp]: "trim [] = []"
  by (simp add: trim_def)

section \<open>Machine integers and durations\<close>

abbreviation U32_MAX :: nat where "U32_MAX \<equiv> 4294967295"
abbreviation U64_MAX :: nat where "U64_MAX \<equiv> 18446744073709551615"
abbreviation I64_MAX :: nat where "I64_MAX \<equiv> 9223372036854775807"

text \<open>\<open>saturating_add\<close> and \<open>saturating_mul\<close> at the maximum \<open>m\<close> of the type;
  \<open>saturating_sub\<close> is the truncating minus of \<^typ>\<open>nat\<close>.\<close>

definition sat_add :: "nat \<Rightarrow> nat \<Rightarrow> nat \<Rightarrow> nat" where
  "sat_add m a b = min m (a + b)"

definition sat_mul :: "nat \<Rightarrow> nat \<Rightarrow> nat \<Rightarrow> nat" where
  "sat_mul m a b = min m (a * b)"

lemma sat_add_le [simp]: "sat_add m a b \<le> m"
  by (simp add: sat_add_def)

lemma sat_add_exact [sat_simps]: "a + b \<le> m \<Longrightarrow> sat_add m a b = a + b"
  by (simp add: sat_add_def)

lemma sat_add_le_sum: "sat_add m a b \<le> a + b"
  by (simp add: sat_add_def)

lemma sat_add_ge: "a \<le> m \<Longrightarrow> a \<le> sat_add m a b"
  by (simp add: sat_add_def)

lemma sat_add_mono: "a \<le> a' \<Longrightarrow> b \<le> b' \<Longrightarrow> sat_add m a b \<le> sat_add m a' b'"
  by (simp add: sat_add_def min_def)

lemma sat_mul_le [simp]: "sat_mul m a b \<le> m"
  by (simp add: sat_mul_def)

lemma sat_mul_exact [sat_simps]: "a * b \<le> m \<Longrightarrow> sat_mul m a b = a * b"
  by (simp add: sat_mul_def)

text \<open>An \<open>Instant\<close> and a \<open>Duration\<close> are counts of nanoseconds.\<close>

type_synonym instant = nat
type_synonym duration = nat

abbreviation NANOS :: nat where "NANOS \<equiv> 1000000000"

definition DUR_MAX :: duration where
  "DUR_MAX = U64_MAX * NANOS + 999999999"

definition from_secs :: "nat \<Rightarrow> duration" where
  "from_secs n = n * NANOS"

definition as_secs :: "duration \<Rightarrow> nat" where
  "as_secs d = d div NANOS"

lemma as_secs_from_secs [simp]: "as_secs (from_secs n) = n"
  by (simp add: as_secs_def from_secs_def)

lemma from_secs_mono [simp]: "from_secs a \<le> from_secs b \<longleftrightarrow> a \<le> b"
  by (simp add: from_secs_def)

lemma from_secs_0 [simp]: "from_secs 0 = 0"
  by (simp add: from_secs_def)

section \<open>Lists\<close>

lemma find_map_None_iff: "find P xs = None \<longleftrightarrow> (\<forall>x\<in>set xs. \<not> P x)"
  by (induction xs) auto

lemma find_SomeD: "find P xs = Some x \<Longrightarrow> x \<in> set xs \<and> P x"
  by (induction xs) (auto split: if_splits)

section \<open>Invariants of step relations\<close>

text \<open>The interface of a state machine with an invariant. A component interprets
  it on its own step relation and gets the invariant on every reachable state.\<close>

locale invariant_system =
  fixes init :: "'s \<Rightarrow> bool"
    and step :: "'s \<Rightarrow> 's \<Rightarrow> bool"
    and inv :: "'s \<Rightarrow> bool"
  assumes init_inv: "init s \<Longrightarrow> inv s"
    and step_inv: "inv s \<Longrightarrow> step s t \<Longrightarrow> inv t"
begin

lemma steps_inv: "step\<^sup>*\<^sup>* s t \<Longrightarrow> inv s \<Longrightarrow> inv t"
  by (induction rule: rtranclp_induct) (auto intro: step_inv)

lemma reachable_inv: "init s \<Longrightarrow> step\<^sup>*\<^sup>* s t \<Longrightarrow> inv t"
  using init_inv steps_inv by blast

end

end
