(* ===== verification/Headers.thy ===== *)
theory Headers
  imports Rust_Prelude
begin

text \<open>
  Outbound header construction and the client address (\<open>headers.rs\<close>).

  A header map of the \<open>http\<close> crate is the function from a lower-case name to its
  values in order. The gateway reads a value only through \<open>to_str\<close>, so a value
  is \<open>Text\<close> when that succeeds and \<open>Opaque\<close> otherwise. \<open>IpAddr\<close> parsing of the
  standard library is written out, since it decides which forwarded addresses
  are believed.
\<close>

section \<open>Header maps\<close>

datatype header_value = Text string | Opaque string

type_synonym header_map = "string \<Rightarrow> header_value list"

fun to_str :: "header_value \<Rightarrow> string option" where
  "to_str (Text s) = Some s"
| "to_str (Opaque _) = None"

definition header_get :: "header_map \<Rightarrow> string \<Rightarrow> header_value option" where
  "header_get h name = (case h name of [] \<Rightarrow> None | v # _ \<Rightarrow> Some v)"

text \<open>\<open>headers.get(name).and_then(|v| v.to_str().ok())\<close>\<close>

definition header_text :: "header_map \<Rightarrow> string \<Rightarrow> string option" where
  "header_text h name = Option.bind (header_get h name) to_str"

definition HOP_BY_HOP :: "string list" where
  "HOP_BY_HOP = [''connection'', ''keep-alive'', ''proxy-authenticate'',
     ''proxy-authorization'', ''te'', ''trailer'', ''transfer-encoding'', ''upgrade'']"

section \<open>Header plans\<close>

record header_plan =
  hp_set :: "(string \<times> string) list"
  hp_remove :: "string set"

definition plan_new :: header_plan where
  "plan_new = \<lparr> hp_set = [], hp_remove = {} \<rparr>"

definition plan_set :: "string \<Rightarrow> string \<Rightarrow> header_plan \<Rightarrow> header_plan" where
  "plan_set name value plan =
     (let n = to_ascii_lowercase name in
      \<lparr> hp_set = filter (\<lambda>(k, _). k \<noteq> n) (hp_set plan) @ [(n, value)],
        hp_remove = insert n (hp_remove plan) \<rparr>)"

definition plan_strip :: "string \<Rightarrow> header_plan \<Rightarrow> header_plan" where
  "plan_strip name plan = plan \<lparr> hp_remove := insert (to_ascii_lowercase name) (hp_remove plan) \<rparr>"

text \<open>The plan's invariant: one value per name, and every name that is set is also
  removed from what the client sent.\<close>

definition plan_wf :: "header_plan \<Rightarrow> bool" where
  "plan_wf plan =
     (distinct (map fst (hp_set plan)) \<and> fst ` set (hp_set plan) \<subseteq> hp_remove plan)"

lemma plan_wf_new [simp]: "plan_wf plan_new"
  by (simp add: plan_wf_def plan_new_def)

lemma plan_wf_set [simp]: "plan_wf plan \<Longrightarrow> plan_wf (plan_set n v plan)"
  by (auto simp: plan_wf_def plan_set_def Let_def distinct_map_filter)

lemma plan_wf_strip [simp]: "plan_wf plan \<Longrightarrow> plan_wf (plan_strip n plan)"
  by (auto simp: plan_wf_def plan_strip_def)

lemma map_of_filter_ne:
  "map_of (filter (\<lambda>(k, _). k \<noteq> n) xs) k = (if k = n then None else map_of xs k)"
  by (induction xs) auto

lemma plan_set_lookup [simp]:
  "map_of (hp_set (plan_set n v plan)) k =
     (if k = to_ascii_lowercase n then Some v else map_of (hp_set plan) k)"
  by (auto simp: plan_set_def Let_def map_add_def map_of_filter_ne split: option.splits)

lemma plan_set_remove [simp]:
  "hp_remove (plan_set n v plan) = insert (to_ascii_lowercase n) (hp_remove plan)"
  by (simp add: plan_set_def Let_def)

lemma plan_strip_simps [simp]:
  "hp_remove (plan_strip n plan) = insert (to_ascii_lowercase n) (hp_remove plan)"
  "hp_set (plan_strip n plan) = hp_set plan"
  by (simp_all add: plan_strip_def)

section \<open>IP addresses\<close>

text \<open>\<open>core::net::parser\<close>: a number of at most \<open>max\<close> digits in the radix, where a
  leading zero is refused unless \<open>zero_ok\<close>. The result is the number of digits,
  the value and the rest.\<close>

definition digit_value :: "nat \<Rightarrow> char \<Rightarrow> nat option" where
  "digit_value radix c =
     (if is_ascii_digit c then Some (byte c - 48)
      else if radix = 16 \<and> 65 \<le> byte c \<and> byte c \<le> 70 then Some (byte c - 55)
      else if radix = 16 \<and> 97 \<le> byte c \<and> byte c \<le> 102 then Some (byte c - 87)
      else None)"

fun read_digits :: "nat \<Rightarrow> string \<Rightarrow> nat \<Rightarrow> nat \<Rightarrow> nat \<times> nat \<times> string" where
  "read_digits radix [] n v = (n, v, [])"
| "read_digits radix (c # cs) n v =
     (case digit_value radix c of
        Some d \<Rightarrow> read_digits radix cs (Suc n) (radix * v + d)
      | None \<Rightarrow> (n, v, c # cs))"

definition read_number :: "nat \<Rightarrow> nat \<Rightarrow> nat \<Rightarrow> bool \<Rightarrow> string \<Rightarrow> (nat \<times> string) option" where
  "read_number radix max_digits max_value zero_ok s =
     (let (n, v, rest) = read_digits radix s 0 0 in
      if n = 0 \<or> max_digits < n \<or> max_value < v then None
      else if \<not> zero_ok \<and> hd s = CHR ''0'' \<and> 1 < n then None
      else Some (v, rest))"

definition read_char :: "char \<Rightarrow> string \<Rightarrow> string option" where
  "read_char c s = (case s of x # xs \<Rightarrow> if x = c then Some xs else None | [] \<Rightarrow> None)"

definition read_octet :: "string \<Rightarrow> string option" where
  "read_octet s = map_option snd (read_number 10 3 255 False s)"

definition read_dot_octet :: "string \<Rightarrow> string option" where
  "read_dot_octet s = Option.bind (read_char CHR ''.'' s) read_octet"

definition read_ipv4 :: "string \<Rightarrow> string option" where
  "read_ipv4 s = Option.bind (read_octet s) (\<lambda>s1. Option.bind (read_dot_octet s1)
     (\<lambda>s2. Option.bind (read_dot_octet s2) read_dot_octet))"

definition read_sep :: "nat \<Rightarrow> string \<Rightarrow> string option" where
  "read_sep i s = (if i = 0 then Some s else read_char CHR '':'' s)"

text \<open>Up to \<open>fuel\<close> more groups of an IPv6 address, \<open>i\<close> already read: the number
  read, whether an embedded IPv4 address ended them, and the rest.\<close>

fun read_groups :: "nat \<Rightarrow> nat \<Rightarrow> string \<Rightarrow> nat \<times> bool \<times> string" where
  "read_groups i 0 s = (i, False, s)"
| "read_groups i (Suc fuel) s =
     (case (if 0 < fuel then Option.bind (read_sep i s) read_ipv4 else None) of
        Some rest \<Rightarrow> (i + 2, True, rest)
      | None \<Rightarrow>
          (case Option.bind (read_sep i s) (read_number 16 4 65535 True) of
             Some (_, rest) \<Rightarrow> read_groups (Suc i) fuel rest
           | None \<Rightarrow> (i, False, s)))"

definition read_ipv6 :: "string \<Rightarrow> string option" where
  "read_ipv6 s =
     (let (head_size, head_ipv4, rest) = read_groups 0 8 s in
      if head_size = 8 then Some rest
      else if head_ipv4 then None
      else case strip_prefix ''::'' rest of
             None \<Rightarrow> None
           | Some rest1 \<Rightarrow>
               (let (_, _, rest2) = read_groups 0 (8 - (head_size + 1)) rest1 in Some rest2))"

definition parses_as_ip :: "string \<Rightarrow> bool" where
  "parses_as_ip s = (case read_ipv4 s of Some rest \<Rightarrow> rest = [] | None \<Rightarrow> read_ipv6 s = Some [])"

section \<open>The client address\<close>

definition trusted_suffix :: "string option \<Rightarrow> string option \<Rightarrow> nat \<Rightarrow> string list" where
  "trusted_suffix forwarded_for peer trusted_proxies =
     (case peer of
        None \<Rightarrow> []
      | Some peer \<Rightarrow>
          (let entries = (case forwarded_for of
                            None \<Rightarrow> [] | Some value \<Rightarrow> map trim (split_on CHR '','' value)) in
           if trusted_proxies = 0 \<or> length entries < trusted_proxies then [peer]
           else (let suffix = drop (length entries - trusted_proxies) entries in
                 if \<not> list_all parses_as_ip suffix then [peer] else suffix @ [peer])))"

definition client_address :: "string option \<Rightarrow> string option \<Rightarrow> nat \<Rightarrow> string option" where
  "client_address forwarded_for peer trusted_proxies =
     (case trusted_suffix forwarded_for peer trusted_proxies of
        [] \<Rightarrow> None | a # _ \<Rightarrow> Some a)"

fun collect_text :: "header_value list \<Rightarrow> string list option" where
  "collect_text [] = Some []"
| "collect_text (v # vs) =
     (case to_str v of
        None \<Rightarrow> None
      | Some s \<Rightarrow> map_option (\<lambda>ss. s # ss) (collect_text vs))"

definition forwarded_for_chain :: "header_map \<Rightarrow> string option" where
  "forwarded_for_chain headers =
     (case collect_text (headers ''x-forwarded-for'') of
        None \<Rightarrow> None
      | Some values \<Rightarrow> if values = [] then None else Some (join '', '' values))"

definition forwarded_for :: "header_map \<Rightarrow> string option \<Rightarrow> nat \<Rightarrow> string option \<times> string option" where
  "forwarded_for client_headers peer trusted_proxies =
     (let prior = (if 0 < trusted_proxies then forwarded_for_chain client_headers else None);
          chain = trusted_suffix prior peer trusted_proxies;
          real_ip = (case chain of [] \<Rightarrow> None | a # _ \<Rightarrow> Some a);
          xff = (if chain = [] then None else Some (join '', '' chain)) in
      (xff, real_ip))"

section \<open>Bodies\<close>

definition content_length_over_limit :: "header_map \<Rightarrow> nat \<Rightarrow> bool" where
  "content_length_over_limit headers max_bytes =
     (case header_text headers ''content-length'' of
        None \<Rightarrow> False
      | Some raw \<Rightarrow> (case parse_uint U64_MAX raw of Some n \<Rightarrow> n > max_bytes | None \<Rightarrow> True))"

definition add_body_chunk :: "nat \<Rightarrow> nat \<Rightarrow> nat \<Rightarrow> nat option" where
  "add_body_chunk already chunk_len max_bytes =
     (let n = sat_add U64_MAX already chunk_len in if n \<le> max_bytes then Some n else None)"

fun contains_str :: "string \<Rightarrow> string \<Rightarrow> bool" where
  "contains_str p [] = (p = [])"
| "contains_str p (c # cs) = (starts_with p (c # cs) \<or> contains_str p cs)"

definition is_upload_content_type :: "string option \<Rightarrow> bool" where
  "is_upload_content_type content_type =
     (let v = to_ascii_lowercase (case content_type of None \<Rightarrow> [] | Some s \<Rightarrow> s) in
      contains_str ''multipart/'' v \<or> contains_str ''application/octet-stream'' v
      \<or> starts_with ''image/'' v \<or> starts_with ''application/pdf'' v
      \<or> starts_with ''video/'' v \<or> starts_with ''audio/'' v)"

text \<open>The body filter folds \<open>add_body_chunk\<close> over the chunks of a request, and
  stops at the first refusal.\<close>

fun count_body :: "nat \<Rightarrow> nat \<Rightarrow> nat list \<Rightarrow> nat option" where
  "count_body max_bytes already [] = Some already"
| "count_body max_bytes already (n # ns) =
     Option.bind (add_body_chunk already n max_bytes) (\<lambda>a. count_body max_bytes a ns)"

lemma count_body_sum:
  assumes "max_bytes < U64_MAX"
  shows "count_body max_bytes already ns =
     (if ns = [] \<or> already + sum_list ns \<le> max_bytes then Some (already + sum_list ns) else None)"
  using assms
proof (induction ns arbitrary: already)
  case (Cons n ns)
  show ?case
  proof (cases "already + n \<le> max_bytes")
    case True
    then have "add_body_chunk already n max_bytes = Some (already + n)"
      using assms by (simp add: add_body_chunk_def sat_add_def)
    then show ?thesis using Cons True by (simp add: add.assoc)
  next
    case False
    then have "add_body_chunk already n max_bytes = None"
      using assms by (simp add: add_body_chunk_def sat_add_def Let_def min_def)
    then show ?thesis using False by simp
  qed
qed simp

lemma trusted_suffix_Nil [simp]: "trusted_suffix ff peer n = [] \<longleftrightarrow> peer = None"
  by (cases peer) (simp_all add: trusted_suffix_def Let_def)

lemma trusted_suffix_ignores_prefix:
  assumes "0 < n" "length (split_on CHR '','' t) = n"
  shows "trusted_suffix (Some (forged @ CHR '','' # t)) peer n = trusted_suffix (Some t) peer n"
  using assms
  by (cases peer) (simp_all add: trusted_suffix_def Let_def split_on_append_sep)

lemma forwarded_for_eq:
  "forwarded_for h peer n =
     (map_option (\<lambda>_. join '', '' (trusted_suffix (if 0 < n then forwarded_for_chain h else None) peer n)) peer,
      client_address (if 0 < n then forwarded_for_chain h else None) peer n)"
  by (cases peer) (auto simp: forwarded_for_def client_address_def Let_def)

lemma collect_text_append:
  "collect_text (xs @ ys) =
     (case (collect_text xs, collect_text ys) of (Some a, Some b) \<Rightarrow> Some (a @ b) | _ \<Rightarrow> None)"
  by (induction xs) (auto split: option.splits)

lemma forwarded_for_chain_append:
  assumes "h ''x-forwarded-for'' = map Text forged @ [Text t]"
  shows "forwarded_for_chain h =
    Some (if forged = [] then t else join '', '' forged @ CHR '','' # CHR '' '' # t)"
proof -
  have "collect_text (map Text xs) = Some xs" for xs by (induction xs) auto
  then show ?thesis using assms
    by (auto simp: forwarded_for_chain_def collect_text_append join_append)
qed

lemma split_on_prepend_length:
  "c \<noteq> x \<Longrightarrow> length (split_on c (x # t)) = length (split_on c t)"
  by (simp add: Suc_diff_1)

lemma trim_prepend_space: "trim (CHR '' '' # s) = trim s"
  by (simp add: trim_def utf8_width_def is_whitespace_def)

lemma split_on_space_trim:
  "map trim (split_on CHR '','' (CHR '' '' # t)) = map trim (split_on CHR '','' t)"
  by (cases "split_on CHR '','' t") (simp_all add: trim_prepend_space)

lemma trusted_suffix_space:
  "trusted_suffix (Some (CHR '' '' # t)) peer n = trusted_suffix (Some t) peer n"
  by (simp only: trusted_suffix_def option.case split_on_space_trim)

section \<open>Properties\<close>



end
