(* ===== verification/Auth.thy ===== *)
theory Auth
  imports Headers
begin

text \<open>
  Identities, claims and the credentials of a request (\<open>auth/mod.rs\<close>).

  A \<open>serde_json\<close> value is the datatype \<open>json\<close>: a number is kept as its decimal
  rendering, which is all the gateway asks of it, and an object as its list of
  members, read with \<open>map_of\<close>.
\<close>

section \<open>Claims\<close>

datatype json =
    JNull
  | JBool bool
  | JNumber string
  | JString string
  | JArray "json list"
  | JObject "(string \<times> json) list"

definition as_object :: "json \<Rightarrow> (string \<times> json) list option" where
  "as_object v = (case v of JObject m \<Rightarrow> Some m | _ \<Rightarrow> None)"

definition as_str :: "json \<Rightarrow> string option" where
  "as_str v = (case v of JString s \<Rightarrow> Some s | _ \<Rightarrow> None)"

record identity =
  id_subject :: string
  id_issuer :: string
  id_audience :: string
  id_claims :: "(string \<times> json) list"

fun to_snake_case :: "string \<Rightarrow> string" where
  "to_snake_case [] = []"
| "to_snake_case (c # cs) =
     (if is_ascii_upper c then CHR ''_'' # ascii_lower c # to_snake_case cs
      else c # to_snake_case cs)"

text \<open>\<open>map.get(name).or_else(|| map.get(&to_snake_case(name)))\<close>\<close>

definition get_either :: "(string \<times> json) list \<Rightarrow> string \<Rightarrow> json option" where
  "get_either m name =
     (case map_of m name of Some v \<Rightarrow> Some v | None \<Rightarrow> map_of m (to_snake_case name))"

fun claim_walk :: "json \<Rightarrow> string list \<Rightarrow> json option" where
  "claim_walk current [] = Some current"
| "claim_walk current (segment # segments) =
     Option.bind (as_object current) (\<lambda>object.
     Option.bind (get_either object segment) (\<lambda>next. claim_walk next segments))"

definition claim_at :: "identity \<Rightarrow> string \<Rightarrow> json option" where
  "claim_at ident path =
     (case split_on CHR ''.'' path of
        [] \<Rightarrow> None
      | first # segments \<Rightarrow>
          Option.bind (get_either (id_claims ident) first) (\<lambda>current. claim_walk current segments))"

definition claim_str :: "identity \<Rightarrow> string \<Rightarrow> string option" where
  "claim_str ident name =
     (case Option.bind (map_of (id_claims ident) name) as_str of
        Some v \<Rightarrow> Some v
      | None \<Rightarrow> Option.bind (map_of (id_claims ident) (to_snake_case name)) as_str)"

definition claim_raw :: "identity \<Rightarrow> string \<Rightarrow> json option" where
  "claim_raw ident name = get_either (id_claims ident) name"

section \<open>Tokens\<close>

datatype auth_error = AuthInvalid string | UnknownIssuer string | Unavailable string

text \<open>Base64 and JSON decoding are the crates' (parameters).\<close>

definition unverified_issuer ::
  "(string \<Rightarrow> string option) \<Rightarrow> (string \<Rightarrow> json option) \<Rightarrow> string \<Rightarrow> (string, auth_error) result" where
  "unverified_issuer b64_decode json_parse token =
     (case split_on CHR ''.'' token of
        _ # payload # _ \<Rightarrow>
          (case b64_decode payload of
             None \<Rightarrow> Inl (AuthInvalid ''token payload is not base64url'')
           | Some bytes \<Rightarrow>
               (case json_parse bytes of
                  None \<Rightarrow> Inl (AuthInvalid ''token payload is not JSON'')
                | Some v \<Rightarrow>
                    (case Option.bind (as_object v) (\<lambda>m. Option.bind (map_of m ''iss'') as_str) of
                       Some iss \<Rightarrow> Inr iss
                     | None \<Rightarrow> Inl (AuthInvalid ''token has no `iss` claim''))))
      | _ \<Rightarrow> Inl (AuthInvalid ''token is not a JWT''))"

definition split_once_ws :: "string \<Rightarrow> (string \<times> string) option" where
  "split_once_ws s =
     (case dropWhile (\<lambda>ch. \<not> is_whitespace ch) (utf8_chars s) of
        [] \<Rightarrow> None
      | _ # rest \<Rightarrow>
          Some (concat (takeWhile (\<lambda>ch. \<not> is_whitespace ch) (utf8_chars s)), concat rest))"

definition bearer_token :: "string \<Rightarrow> string option" where
  "bearer_token value0 =
     (case split_once_ws (trim value0) of
        None \<Rightarrow> None
      | Some (scheme, rest0) \<Rightarrow>
          if \<not> eq_ignore_ascii_case scheme ''bearer'' then None
          else (let rest = trim rest0 in if rest = [] then None else Some rest))"

section \<open>Cookies\<close>

definition cookie_pair :: "string \<Rightarrow> (string \<times> string) option" where
  "cookie_pair pair = map_option (\<lambda>(name, v). (trim name, trim v)) (split_once CHR ''='' pair)"

definition cookie_pieces :: "string list \<Rightarrow> string list" where
  "cookie_pieces headers = concat (map (split_on CHR '';'') headers)"

definition cookie_pairs :: "string list \<Rightarrow> (string \<times> string) list" where
  "cookie_pairs headers = List.map_filter cookie_pair (cookie_pieces headers)"

definition unquote :: "string \<Rightarrow> string" where
  "unquote v =
     (case strip_prefix [CHR 0x22] v of
        None \<Rightarrow> v
      | Some w \<Rightarrow> (case strip_suffix [CHR 0x22] w of None \<Rightarrow> v | Some u \<Rightarrow> u))"

fun cookie_token :: "string list \<Rightarrow> string list \<Rightarrow> string option" where
  "cookie_token headers [] = None"
| "cookie_token headers (wanted # names) =
     (case find (\<lambda>(name, _). name = wanted) (cookie_pairs headers) of
        Some (_, v) \<Rightarrow> if unquote v \<noteq> [] then Some (unquote v) else cookie_token headers names
      | None \<Rightarrow> cookie_token headers names)"

definition cookie_name :: "string \<Rightarrow> string" where
  "cookie_name pair = (case split_once CHR ''='' pair of Some (n, _) \<Rightarrow> trim n | None \<Rightarrow> pair)"

definition strip_cookies :: "string list \<Rightarrow> string list \<Rightarrow> string option" where
  "strip_cookies headers names =
     (let kept = filter (\<lambda>pair. cookie_name pair \<notin> set names)
                   (filter (\<lambda>pair. pair \<noteq> []) (map trim (cookie_pieces headers))) in
      if kept = [] then None else Some (join ''; '' kept))"

section \<open>Stripping the credential\<close>

lemma cookie_pair_space: "cookie_pair (CHR '' '' # s) = cookie_pair s"
  by (cases "split_once CHR ''='' s") (auto simp: cookie_pair_def trim_prepend_space)

lemma cookie_pair_name: "cookie_pair p = Some (n, v) \<Longrightarrow> cookie_name p = n"
  by (auto simp: cookie_pair_def cookie_name_def)

lemma trim_chars: "set (trim s) \<subseteq> set s"
proof -
  have "set (trim s) \<subseteq> (\<Union>ch\<in>set (utf8_chars s). set ch)"
    unfolding trim_def by (auto dest!: set_dropWhileD)
  also have "\<dots> = set (concat (utf8_chars s))" by (simp only: set_concat)
  finally show ?thesis by simp
qed

lemma cookie_pieces_join:
  assumes "\<forall>p\<in>set ps. CHR '';'' \<notin> set p" "ps \<noteq> []"
  shows "cookie_pieces [join ''; '' ps] = hd ps # map (\<lambda>p. CHR '' '' # p) (tl ps)"
  using assms
proof (induction ps)
  case (Cons p ps)
  show ?case
  proof (cases "ps = []")
    case False
    have "cookie_pieces [join ''; '' (p # ps)]
        = p # split_on CHR '';'' (CHR '' '' # join ''; '' ps)"
      using Cons.prems False by (simp add: cookie_pieces_def join_Cons)
    also have "\<dots> = p # (CHR '' '' # hd ps) # map (\<lambda>p. CHR '' '' # p) (tl ps)"
      using Cons False by (auto simp: cookie_pieces_def)
    finally show ?thesis using False by (cases ps) auto
  qed (use Cons in \<open>simp add: cookie_pieces_def\<close>)
qed simp

lemma map_filter_cong: "(\<And>x. x \<in> set xs \<Longrightarrow> f x = g x) \<Longrightarrow> List.map_filter f xs = List.map_filter g xs"
  by (induction xs) (auto simp: List.map_filter_simps split: option.splits)

lemma map_filter_map: "List.map_filter f (map g xs) = List.map_filter (f \<circ> g) xs"
  by (induction xs) (auto simp: List.map_filter_simps split: option.splits)

lemma cookie_pairs_join:
  assumes "\<forall>p\<in>set ps. CHR '';'' \<notin> set p" "ps \<noteq> []"
  shows "cookie_pairs [join ''; '' ps] = List.map_filter cookie_pair ps"
proof -
  have "List.map_filter cookie_pair (map (\<lambda>p. CHR '' '' # p) qs) = List.map_filter cookie_pair qs" for qs
    by (simp add: map_filter_map comp_def cookie_pair_space)
  then show ?thesis
    unfolding cookie_pairs_def cookie_pieces_join [OF assms]
    using assms(2) by (cases ps) (auto simp: List.map_filter_simps split: option.split)
qed

lemma cookie_pieces_free: "p \<in> set (cookie_pieces hs) \<Longrightarrow> CHR '';'' \<notin> set p"
  using split_on_free by (auto simp: cookie_pieces_def)

lemma stripped_pairs:
  assumes "strip_cookies hs names = Some s"
  shows "cookie_pairs [s] = List.map_filter cookie_pair
    (filter (\<lambda>p. cookie_name p \<notin> set names) (filter (\<lambda>p. p \<noteq> []) (map trim (cookie_pieces hs))))"
    (is "_ = List.map_filter cookie_pair ?kept")
proof -
  have s: "s = join ''; '' ?kept" "?kept \<noteq> []"
    using assms by (auto simp: strip_cookies_def Let_def split: if_splits)
  have "\<forall>p\<in>set ?kept. CHR '';'' \<notin> set p"
    using cookie_pieces_free trim_chars by fastforce
  then show ?thesis using cookie_pairs_join s by simp
qed

text \<open>On ASCII text, which is what a readable header value is, trimming works on
  bytes and commutes with splitting a pair.\<close>

definition ascii :: "string \<Rightarrow> bool" where
  "ascii s = list_all (\<lambda>c. byte c < 128) s"

definition ws_byte :: "char \<Rightarrow> bool" where
  "ws_byte c = is_whitespace [c]"

lemma ws_byte_simps [simp]: "\<not> ws_byte CHR ''=''" "\<not> ws_byte CHR '';''" "ws_byte CHR '' ''"
  by (simp_all add: ws_byte_def is_whitespace_def)

lemma concat_singletons: "concat (map (\<lambda>c. [c]) s) = s"
  by (induction s) auto

lemma trim_ascii: "ascii s \<Longrightarrow> trim s = rev (dropWhile ws_byte (rev (dropWhile ws_byte s)))"
  by (simp add: trim_def ascii_def list_all_iff utf8_chars_ascii dropWhile_map rev_map
      comp_def ws_byte_def [symmetric] concat_singletons)

lemma trim_ascii_parts: "ascii s \<Longrightarrow> \<exists>a b. s = a @ trim s @ b \<and> list_all ws_byte (a @ b)"
proof -
  assume "ascii s"
  let ?d = "dropWhile ws_byte s"
  have "s = takeWhile ws_byte s @ ?d" by simp
  moreover have "?d = rev (dropWhile ws_byte (rev ?d)) @ rev (takeWhile ws_byte (rev ?d))"
    by (metis rev_append rev_rev_ident takeWhile_dropWhile_id)
  ultimately have "s = takeWhile ws_byte s @ trim s @ rev (takeWhile ws_byte (rev ?d))"
    using trim_ascii [OF \<open>ascii s\<close>] by metis
  moreover have "list_all ws_byte (takeWhile ws_byte s @ rev (takeWhile ws_byte (rev ?d)))"
    by (auto simp: list_all_iff dest: set_takeWhileD)
  ultimately show ?thesis by blast
qed

lemma dropWhile_append_all: "list_all P a \<Longrightarrow> dropWhile P (a @ b) = dropWhile P b"
  by (induction a) auto

lemma trim_ascii_pad:
  assumes "ascii (a @ s @ b)" "list_all ws_byte (a @ b)"
  shows "trim (a @ s @ b) = trim s"
proof (cases "list_all ws_byte s")
  case True
  have d: "dropWhile ws_byte (a @ s @ b) = []" "dropWhile ws_byte s = []"
    using assms(2) True by (simp_all only: list_all_iff dropWhile_eq_Nil_conv set_append) auto
  have "ascii s" using assms(1) by (simp add: ascii_def)
  then show ?thesis using trim_ascii [OF assms(1)] trim_ascii [of s] d by simp
next
  case False
  then have ne: "dropWhile ws_byte s \<noteq> []" by (auto simp: list_all_iff dropWhile_eq_Nil_conv)
  have "dropWhile ws_byte (a @ s @ b) = dropWhile ws_byte s @ b"
    using assms(2) False by (simp add: dropWhile_append_all)
      (metis False dropWhile_append1 list_all_iff)
  then have "trim (a @ s @ b) = rev (dropWhile ws_byte (rev b @ rev (dropWhile ws_byte s)))"
    using assms(1) by (simp add: trim_ascii)
  also have "\<dots> = rev (dropWhile ws_byte (rev (dropWhile ws_byte s)))"
    using assms(2) by (simp add: dropWhile_append_all)
  finally show ?thesis using assms(1) by (simp add: trim_ascii ascii_def)
qed

lemma ascii_append [simp]: "ascii (a @ b) \<longleftrightarrow> ascii a \<and> ascii b"
  by (simp add: ascii_def)

lemma ascii_Cons [simp]: "ascii (c # b) \<longleftrightarrow> byte c < 128 \<and> ascii b"
  by (simp add: ascii_def)

lemma ascii_Nil [simp]: "ascii []"
  by (simp add: ascii_def)

lemma cookie_pair_trim:
  assumes "ascii p"
  shows "cookie_pair (trim p) = cookie_pair p"
proof -
  obtain a b where p: "p = a @ trim p @ b" and ws: "list_all ws_byte (a @ b)"
    using trim_ascii_parts [OF assms] by blast
  have free: "CHR ''='' \<notin> set a" "CHR ''='' \<notin> set b"
    using ws ws_byte_simps(1) unfolding list_all_iff set_append by blast+
  show ?thesis
  proof (cases "split_once CHR ''='' (trim p)")
    case None
    then have "CHR ''='' \<notin> set (a @ trim p @ b)" using free by (simp add: split_once_None_iff)
    then have "split_once CHR ''='' p = None" using p by (simp add: split_once_None_iff)
    with None show ?thesis by (simp add: cookie_pair_def)
  next
    case (Some nv)
    then obtain n v where nv: "nv = (n, v)" "trim p = n @ CHR ''='' # v" "CHR ''='' \<notin> set n"
      by (cases nv) (auto simp: split_once_Some_iff)
    have p': "p = (a @ n) @ CHR ''='' # (v @ b)" using p nv(2) by simp
    then have so: "split_once CHR ''='' p = Some (a @ n, v @ b)"
      using free nv(3) by (intro iffD2 [OF split_once_Some_iff]) simp
    have asc: "ascii (a @ n)" "ascii (v @ b)" using assms p' by simp_all
    have "trim (a @ n) = trim n" "trim (v @ b) = trim v"
      using trim_ascii_pad [of a n "[]"] trim_ascii_pad [of "[]" v b] asc ws by simp_all
    then show ?thesis using so Some nv(1) by (simp add: cookie_pair_def)
  qed
qed

lemma cookie_pieces_ascii:
  assumes "\<forall>h\<in>set hs. ascii h" "p \<in> set (cookie_pieces hs)"
  shows "ascii p"
proof -
  obtain h where "h \<in> set hs" "p \<in> set (split_on CHR '';'' h)"
    using assms(2) by (auto simp: cookie_pieces_def)
  then show ?thesis using assms(1) split_on_chars [of p _ h] by (fastforce simp: ascii_def list_all_iff)
qed

lemma kept_pairs:
  "\<forall>p\<in>set ps. ascii p \<Longrightarrow>
   List.map_filter cookie_pair
     (filter (\<lambda>p. cookie_name p \<notin> set names) (filter (\<lambda>p. p \<noteq> []) (map trim ps)))
   = filter (\<lambda>(n, _). n \<notin> set names) (List.map_filter cookie_pair ps)"
proof (induction ps)
  case (Cons p ps)
  have c: "cookie_pair (trim p) = cookie_pair p" using Cons.prems cookie_pair_trim by simp
  have "cookie_pair p = None" if "trim p = []"
    using that c by (simp add: cookie_pair_def)
  then show ?case
    using Cons c cookie_pair_name [of "trim p"]
    by (auto simp: List.map_filter_simps split: option.splits)
qed (simp add: List.map_filter_simps)

lemma cookie_token_None:
  "\<forall>n\<in>set names. \<forall>v. (n, v) \<notin> set (cookie_pairs hs) \<Longrightarrow> cookie_token hs names = None"
proof (induction names)
  case (Cons n names)
  have "find (\<lambda>(name, _). name = n) (cookie_pairs hs) = None"
    using Cons.prems by (auto simp: find_None_iff)
  with Cons show ?case by simp
qed simp

section \<open>Properties\<close>

text \<open>Stripping cookies removes the caller's credential and nothing else. The
  header sent upstream yields no token for any of the names, and its pairs are
  exactly the request's other pairs, in order; when no header is sent, every
  pair of the request carried one of the names. (Readable header values are
  ASCII.)\<close>

theorem strip_cookies_exact:
  assumes "\<forall>h\<in>set hs. ascii h"
  shows "(\<forall>s. strip_cookies hs names = Some s \<longrightarrow>
            cookie_pairs [s] = filter (\<lambda>(n, _). n \<notin> set names) (cookie_pairs hs)
            \<and> cookie_token [s] names = None)
    \<and> (strip_cookies hs names = None \<longrightarrow>
            filter (\<lambda>(n, _). n \<notin> set names) (cookie_pairs hs) = [])"
proof (intro conjI allI impI)
  have asc: "\<forall>p\<in>set (cookie_pieces hs). ascii p" using cookie_pieces_ascii assms by blast
  show e: "cookie_pairs [s] = filter (\<lambda>(n, _). n \<notin> set names) (cookie_pairs hs)"
    if "strip_cookies hs names = Some s" for s
    using stripped_pairs [OF that] kept_pairs [OF asc] by (simp add: cookie_pairs_def)
  show "cookie_token [s] names = None" if "strip_cookies hs names = Some s" for s
    using e [OF that] by (intro cookie_token_None) auto
  show "filter (\<lambda>(n, _). n \<notin> set names) (cookie_pairs hs) = []"
    if "strip_cookies hs names = None"
  proof -
    have "filter (\<lambda>p. cookie_name p \<notin> set names)
        (filter (\<lambda>p. p \<noteq> []) (map trim (cookie_pieces hs))) = []"
      using that unfolding strip_cookies_def Let_def by (simp split: if_splits)
    then show ?thesis using kept_pairs [OF asc, of names]
      by (simp only: cookie_pairs_def List.map_filter_simps)
  qed
qed

theorem strip_cookies_exact_witness:
  "strip_cookies [''a=1; session=tok; b=2''] [''session''] = Some ''a=1; b=2''
   \<and> cookie_token [''a=1; session=tok; b=2''] [''session''] = Some ''tok''
   \<and> cookie_token [''a=1; b=2''] [''session''] = None"
proof -
  have s: "strip_cookies [''a=1; session=tok; b=2''] [''session''] = Some ''a=1; b=2''"
    by code_simp
  have t: "cookie_token [''a=1; session=tok; b=2''] [''session''] = Some ''tok''"
    by code_simp
  have "\<forall>h\<in>set [''a=1; session=tok; b=2'']. ascii h" by (simp add: ascii_def)
  then show ?thesis using s t strip_cookies_exact by blast
qed

end
