(* ===== verification/Rust_F64.thy ===== *)
theory Rust_F64
  imports Rust_Prelude Complex_Main
begin

text \<open>
  The \<open>f64\<close> arithmetic of the rate limiter.

  A finite \<open>f64\<close> is its rational value, and every operation is the exact one
  followed by \<open>f64_round\<close>, the rounding to a 53-bit significand with ties to
  even. The values the gateway computes with (counts below \<open>2^64\<close>, fractions of
  an interval, durations in seconds) stay away from overflow and from the
  subnormal range, so the exponent is not bounded here. The locale
  \<open>f64_rounding\<close> is what the limiter's proofs use of it.
\<close>

section \<open>The interface\<close>

locale f64_rounding =
  fixes rnd :: "rat \<Rightarrow> rat"
  assumes rnd_mono: "x \<le> y \<Longrightarrow> rnd x \<le> rnd y"
    and rnd_int: "\<bar>n\<bar> \<le> 2 ^ 53 \<Longrightarrow> rnd (of_int n) = of_int n"
    and rnd_idem [simp]: "rnd (rnd x) = rnd x"
begin

lemma rnd_0 [simp]: "rnd 0 = 0"
  using rnd_int [of 0] by simp

lemma rnd_1 [simp]: "rnd 1 = 1"
  using rnd_int [of 1] by simp

lemma rnd_nat: "n \<le> 2 ^ 53 \<Longrightarrow> rnd (of_nat n) = of_nat n"
  using rnd_int [of "int n"] by simp

lemma rnd_nonneg: "0 \<le> x \<Longrightarrow> 0 \<le> rnd x"
  using rnd_mono [of 0 x] by simp

lemma rnd_le_nat: "n \<le> 2 ^ 53 \<Longrightarrow> x \<le> of_nat n \<Longrightarrow> rnd x \<le> of_nat n"
  using rnd_mono [of x "of_nat n"] rnd_nat by simp

lemma rnd_le_1: "x \<le> 1 \<Longrightarrow> rnd x \<le> 1"
  using rnd_mono [of x 1] by simp

lemma rnd_less_imp_less: "rnd x < rnd y \<Longrightarrow> x < y"
  using rnd_mono not_less by blast

end

section \<open>Rounding to nearest, ties to even\<close>

fun nlog2 :: "nat \<Rightarrow> nat" where
  "nlog2 n = (if n < 2 then 0 else Suc (nlog2 (n div 2)))"

declare nlog2.simps [simp del]

lemma nlog2_bounds: "0 < n \<Longrightarrow> 2 ^ nlog2 n \<le> n \<and> n < 2 ^ Suc (nlog2 n)"
proof (induction n rule: nlog2.induct)
  case (1 n)
  show ?case
  proof (cases "n < 2")
    case True
    with 1 show ?thesis by (simp add: nlog2.simps [of n])
  next
    case False
    then have IH: "2 ^ nlog2 (n div 2) \<le> n div 2" "n div 2 < 2 ^ Suc (nlog2 (n div 2))"
      using 1 by auto
    have "nlog2 n = Suc (nlog2 (n div 2))" using False by (simp add: nlog2.simps [of n])
    with IH show ?thesis by auto
  qed
qed

text \<open>The exponent \<open>e\<close> with \<open>2^e \<le> x < 2^(e+1)\<close>.\<close>

definition rat_exponent :: "rat \<Rightarrow> int" where
  "rat_exponent x =
     (let (a, b) = quotient_of x; e = int (nlog2 (nat a)) - int (nlog2 (nat b)) in
      if 2 powi e \<le> x then e else e - 1)"

definition round_even :: "rat \<Rightarrow> int" where
  "round_even q =
     (let f = \<lfloor>q\<rfloor>; r = q - of_int f in
      if r < 1 / 2 then f else if r > 1 / 2 then f + 1 else if even f then f else f + 1)"

definition f64_round_pos :: "rat \<Rightarrow> rat" where
  "f64_round_pos x =
     (let u = 2 powi (rat_exponent x - 52) in of_int (round_even (x / u)) * u)"

definition f64_round :: "rat \<Rightarrow> rat" where
  "f64_round x = (if x = 0 then 0 else if 0 < x then f64_round_pos x else - f64_round_pos (- x))"

lemma rat_exponent_bounds:
  assumes "0 < x"
  shows "2 powi rat_exponent x \<le> x" "x < 2 powi (rat_exponent x + 1)"
proof -
  obtain a b where ab: "quotient_of x = (a, b)" by (cases "quotient_of x")
  have b: "0 < b" using ab quotient_of_denom_pos by blast
  have x: "x = of_int a / of_int b" using ab by (rule quotient_of_div)
  with assms b have a: "0 < a" by (simp add: zero_less_divide_iff)
  let ?la = "nlog2 (nat a)" and ?lb = "nlog2 (nat b)"
  let ?e = "int ?la - int ?lb"
  have na: "2 ^ ?la \<le> nat a" "nat a < 2 ^ Suc ?la" using nlog2_bounds [of "nat a"] a by auto
  have nb: "2 ^ ?lb \<le> nat b" "nat b < 2 ^ Suc ?lb" using nlog2_bounds [of "nat b"] b by auto
  have pow: "(2::rat) ^ k \<le> of_int c \<and> of_int c < (2::rat) ^ Suc k"
    if "2 ^ k \<le> nat c" "nat c < 2 ^ Suc k" "0 < c" for k c
  proof -
    have "of_nat (2 ^ k) \<le> (of_nat (nat c) :: rat)" "(of_nat (nat c) :: rat) < of_nat (2 ^ Suc k)"
      using that(1,2) of_nat_le_iff of_nat_less_iff by blast+
    then show ?thesis using that(3) by simp
  qed
  have ra: "(2::rat) ^ ?la \<le> of_int a" "of_int a < (2::rat) ^ Suc ?la"
    using pow [OF na a] by auto
  have rb: "(2::rat) ^ ?lb \<le> of_int b" "of_int b < (2::rat) ^ Suc ?lb"
    using pow [OF nb b] by auto
  have pe: "(2::rat) powi ?e = 2 ^ ?la / 2 ^ ?lb"
    by (simp add: power_int_diff)
  have up: "x < 2 powi (?e + 1)"
  proof -
    have "of_int a * 2 ^ ?lb < (2::rat) ^ Suc ?la * of_int b"
      using a ra rb by (intro mult_less_le_imp_less) auto
    then have "x < 2 * (2 ^ ?la / 2 ^ ?lb)"
      using b by (simp add: x field_simps)
    then show ?thesis by (simp add: power_int_add pe mult.commute)
  qed
  have lo: "2 powi (?e - 1) \<le> x"
  proof -
    have "(2::rat) ^ ?la * of_int b \<le> of_int a * 2 ^ Suc ?lb"
      using a b ra rb by (intro mult_mono) auto
    then have "2 ^ ?la / 2 ^ ?lb / 2 \<le> x"
      using b by (simp add: x field_simps)
    then show ?thesis by (simp add: power_int_diff pe)
  qed
  have d: "rat_exponent x = (if 2 powi ?e \<le> x then ?e else ?e - 1)"
    by (simp add: rat_exponent_def ab)
  show "2 powi rat_exponent x \<le> x" using d lo by simp
  show "x < 2 powi (rat_exponent x + 1)" using d up by (simp split: if_splits)
qed

lemma round_even_int [simp]: "round_even (of_int n) = n"
  by (simp add: round_even_def)

lemma round_even_mono: "p \<le> q \<Longrightarrow> round_even p \<le> round_even q"
proof -
  assume pq: "p \<le> q"
  then have f: "\<lfloor>p\<rfloor> \<le> \<lfloor>q\<rfloor>" by (rule floor_mono)
  show ?thesis
  proof (cases "\<lfloor>p\<rfloor> = \<lfloor>q\<rfloor>")
    case True
    then show ?thesis using pq by (auto simp: round_even_def Let_def)
  next
    case False
    then have "round_even p \<le> \<lfloor>p\<rfloor> + 1" "\<lfloor>q\<rfloor> \<le> round_even q" "\<lfloor>p\<rfloor> + 1 \<le> \<lfloor>q\<rfloor>"
      using f by (auto simp: round_even_def Let_def)
    then show ?thesis by linarith
  qed
qed

lemma f64_round_pos_bounds:
  assumes "0 < x"
  shows "2 powi rat_exponent x \<le> f64_round_pos x" "f64_round_pos x \<le> 2 powi (rat_exponent x + 1)"
proof -
  let ?e = "rat_exponent x"
  let ?u = "2 powi (?e - 52) :: rat"
  have u: "0 < ?u" by simp
  have p52: "2 powi ?e = of_int (2 ^ 52) * ?u" and p53: "2 powi (?e + 1) = of_int (2 ^ 53) * ?u"
    by (simp_all add: power_int_diff power_int_add)
  have "of_int (2 ^ 52) \<le> x / ?u" "x / ?u \<le> of_int (2 ^ 53)"
    using rat_exponent_bounds [OF assms] u p52 p53 by (simp_all add: field_simps)
  then have "2 ^ 52 \<le> round_even (x / ?u)" "round_even (x / ?u) \<le> 2 ^ 53"
    using round_even_mono round_even_int by metis+
  then have "of_int (2 ^ 52) * ?u \<le> of_int (round_even (x / ?u)) * ?u"
    "of_int (round_even (x / ?u)) * ?u \<le> of_int (2 ^ 53) * ?u"
    using u by (auto intro!: mult_right_mono simp del: of_int_power)
  then show "2 powi ?e \<le> f64_round_pos x" "f64_round_pos x \<le> 2 powi (?e + 1)"
    unfolding p52 p53 f64_round_pos_def Let_def by simp_all
qed

lemma f64_round_pos_mono:
  assumes "0 < x" "x \<le> y"
  shows "f64_round_pos x \<le> f64_round_pos y"
proof -
  have y: "0 < y" using assms by simp
  note bx = rat_exponent_bounds [OF assms(1)] and byy = rat_exponent_bounds [OF y]
  have "2 powi rat_exponent x < (2::rat) powi (rat_exponent y + 1)"
    using bx(1) assms(2) byy(2) by linarith
  then have "rat_exponent x < rat_exponent y + 1"
    by (metis linorder_not_le one_le_numeral power_int_increasing)
  then consider "rat_exponent x = rat_exponent y" | "rat_exponent x + 1 \<le> rat_exponent y"
    by linarith
  then show ?thesis
  proof cases
    case 1
    let ?u = "2 powi (rat_exponent y - 52) :: rat"
    have "x / ?u \<le> y / ?u" using assms(2) by (simp add: divide_right_mono)
    then have "round_even (x / ?u) \<le> round_even (y / ?u)" by (rule round_even_mono)
    then show ?thesis using 1 by (simp add: f64_round_pos_def Let_def)
  next
    case 2
    have "f64_round_pos x \<le> 2 powi (rat_exponent x + 1)"
      using f64_round_pos_bounds assms(1) by blast
    also have "\<dots> \<le> 2 powi rat_exponent y" using 2 by (simp add: power_int_increasing)
    also have "\<dots> \<le> f64_round_pos y" using f64_round_pos_bounds y by blast
    finally show ?thesis .
  qed
qed

lemma f64_round_pos_pos: "0 < x \<Longrightarrow> 0 < f64_round_pos x"
  by (rule less_le_trans [OF _ f64_round_pos_bounds(1)]) simp_all

lemma powi_less_imp_less: "(2::rat) powi a < 2 powi b \<Longrightarrow> a < b"
  by (metis linorder_not_le one_le_numeral power_int_increasing)

lemma rat_exponent_less:
  assumes "0 < x" "x < 2 powi k"
  shows "rat_exponent x < k"
  using rat_exponent_bounds(1) [OF assms(1)] assms(2)
  by (intro powi_less_imp_less) (rule le_less_trans)

lemma f64_round_pos_int:
  assumes n: "0 < n" "n \<le> 2 ^ 53"
  shows "f64_round_pos (of_int n) = of_int n"
proof -
  let ?x = "of_int n :: rat"
  let ?e = "rat_exponent ?x"
  have x: "0 < ?x" using n by simp
  have xle: "?x \<le> of_int (2 ^ 53)" using n(2) of_int_le_iff by blast
  then have "?x < 2 powi 54" by simp
  then have e: "?e < 54" using x by (rule rat_exponent_less [rotated])
  have "\<exists>m. ?x = of_int m * 2 powi (?e - 52)"
  proof (cases "?e = 53")
    case True
    then have "(2::rat) powi 53 \<le> ?x" using rat_exponent_bounds(1) [OF x] by simp
    with xle have "?x = of_int (2 ^ 52) * 2 powi (?e - 52)" using True by simp
    then show ?thesis by blast
  next
    case False
    with e have "(2::rat) powi (52 - ?e) = of_int (2 ^ nat (52 - ?e))"
      by (simp add: power_int_def)
    moreover have "(2::rat) powi (52 - ?e) * 2 powi (?e - 52) = 1"
      by (simp flip: power_int_add)
    ultimately have "?x = of_int (n * 2 ^ nat (52 - ?e)) * 2 powi (?e - 52)"
      by (simp add: mult.assoc)
    then show ?thesis by blast
  qed
  then obtain m where m: "?x = of_int m * 2 powi (?e - 52)" by blast
  have nz: "(2::rat) powi (?e - 52) \<noteq> 0" by simp
  have d: "?x / 2 powi (?e - 52) = of_int m"
    by (rule iffD2 [OF nonzero_divide_eq_eq [OF nz] m])
  show ?thesis
    unfolding f64_round_pos_def Let_def d round_even_int by (rule m [symmetric])
qed

lemma rat_exponent_unique:
  assumes "2 powi e \<le> x" "x < 2 powi (e + 1)"
  shows "rat_exponent x = e"
proof -
  have x: "0 < x" using assms(1) by (rule less_le_trans [rotated]) simp
  note b = rat_exponent_bounds [OF x]
  have "rat_exponent x < e + 1" using x assms(2) by (rule rat_exponent_less)
  moreover have "(2::rat) powi e < 2 powi (rat_exponent x + 1)" using assms(1) b(2) by (rule le_less_trans)
  then have "e < rat_exponent x + 1" by (rule powi_less_imp_less)
  ultimately show ?thesis by linarith
qed

lemma f64_round_pos_grid:
  assumes "2 powi e \<le> x" "x < 2 powi (e + 1)" "x = of_int m * 2 powi (e - 52)"
  shows "f64_round_pos x = x"
proof -
  have nz: "(2::rat) powi (e - 52) \<noteq> 0" by simp
  have d: "x / 2 powi (e - 52) = of_int m"
    by (rule iffD2 [OF nonzero_divide_eq_eq [OF nz] assms(3)])
  show ?thesis
    unfolding f64_round_pos_def Let_def rat_exponent_unique [OF assms(1,2)] d round_even_int
    by (rule assms(3) [symmetric])
qed

lemma f64_round_pos_idem:
  assumes "0 < x"
  shows "f64_round_pos (f64_round_pos x) = f64_round_pos x"
proof -
  let ?e = "rat_exponent x" and ?y = "f64_round_pos x"
  let ?m = "round_even (x / 2 powi (?e - 52))"
  have y: "?y = of_int ?m * 2 powi (?e - 52)" by (simp add: f64_round_pos_def Let_def)
  note b = f64_round_pos_bounds [OF assms]
  show ?thesis
  proof (cases "?y < 2 powi (?e + 1)")
    case True
    show ?thesis by (rule f64_round_pos_grid [OF b(1) True y])
  next
    case False
    then have e: "?y = 2 powi (?e + 1)" using b(2) by simp
    have g: "?y = of_int (2 ^ 52) * 2 powi (?e + 1 - 52)"
      unfolding e by (simp add: power_int_diff power_int_add)
    have "(2::rat) powi (?e + 1) < 2 powi (?e + 1 + 1)"
      by (rule power_int_strict_increasing) simp_all
    then show ?thesis
      by (intro f64_round_pos_grid [OF _ _ g]) (simp_all only: e order_refl)
  qed
qed

interpretation f64: f64_rounding f64_round
proof unfold_locales
  fix x :: rat
  show "f64_round (f64_round x) = f64_round x"
    using f64_round_pos_idem [of x] f64_round_pos_idem [of "- x"]
      f64_round_pos_pos [of x] f64_round_pos_pos [of "- x"]
    by (auto simp: f64_round_def)
next
  fix x y :: rat
  assume xy: "x \<le> y"
  consider "0 < x" | "x \<le> 0" "0 \<le> y" | "y < 0" by linarith
  then show "f64_round x \<le> f64_round y"
  proof cases
    case 1
    then show ?thesis using xy f64_round_pos_mono by (simp add: f64_round_def)
  next
    case 2
    have "f64_round x \<le> 0" "0 \<le> f64_round y"
      using 2 f64_round_pos_pos [of y] f64_round_pos_pos [of "- x"] by (auto simp: f64_round_def)
    then show ?thesis by linarith
  next
    case 3
    then show ?thesis using xy f64_round_pos_mono [of "- y" "- x"] by (simp add: f64_round_def)
  qed
next
  fix n :: int
  assume n: "\<bar>n\<bar> \<le> 2 ^ 53"
  consider "n = 0" | "0 < n" | "n < 0" by linarith
  then show "f64_round (of_int n) = of_int n"
    using n f64_round_pos_int [of n] f64_round_pos_int [of "- n"]
    by cases (auto simp: f64_round_def)
qed

end
