(* ===== verification/Ratelimit.thy ===== *)
theory Ratelimit
  imports Rust_F64 Headers
begin

text \<open>
  The sliding-window rate limiter (\<open>ratelimit/mod.rs\<close>, with its configuration
  types from \<open>config/mod.rs\<close>): the estimate and the decision, one key's window,
  and the key a request is counted under. The \<open>f64\<close> operations are those of
  \<open>Rust_F64\<close>; the laws of rounding are used through \<open>f64_rounding\<close> only.
\<close>

section \<open>Configuration\<close>

datatype rate_limit_key = KeyIp | KeyIdentity | KeyRoute | KeyHeader string

datatype missing_key = MissingReject | MissingRoute | MissingIp | MissingSkip

datatype counter_kind = CounterExact | CounterSketch | CounterShared

datatype limit_mode = Approximate | ExactMode

record rate_limit_config =
  rl_requests :: nat
  rl_interval :: duration
  rl_key :: rate_limit_key
  rl_missing_key :: missing_key
  rl_trusted_proxies :: nat
  rl_max_keys :: nat
  rl_counter :: counter_kind
  rl_mode :: limit_mode

text \<open>\<open>RateLimitKey::deserialize\<close>. Whether a name is a header name is the
  \<open>http\<close> crate's test, a parameter; \<open>None\<close> is the error.\<close>

definition parse_rate_limit_key :: "(string \<Rightarrow> bool) \<Rightarrow> string \<Rightarrow> rate_limit_key option" where
  "parse_rate_limit_key is_header_name raw =
     (if raw = ''ip'' then Some KeyIp
      else if raw = ''identity'' then Some KeyIdentity
      else if raw = ''route'' then Some KeyRoute
      else case strip_prefix ''header.'' raw of
             Some name \<Rightarrow>
               if is_header_name name then Some (KeyHeader (to_ascii_lowercase name)) else None
           | None \<Rightarrow> None)"

record connection_limit_config =
  cl_connections :: nat
  cl_interval :: duration
  cl_max_tracked :: nat

definition as_rate_limit :: "connection_limit_config \<Rightarrow> rate_limit_config" where
  "as_rate_limit c = \<lparr> rl_requests = cl_connections c, rl_interval = cl_interval c,
     rl_key = KeyIp, rl_missing_key = MissingReject, rl_trusted_proxies = 0,
     rl_max_keys = cl_max_tracked c, rl_counter = CounterExact, rl_mode = Approximate \<rparr>"

section \<open>The decision\<close>

record decision =
  d_allowed :: bool
  d_limit :: nat
  d_remaining :: nat
  d_retry_after :: duration

definition decision_allow :: "nat \<Rightarrow> nat \<Rightarrow> decision" where
  "decision_allow limit remaining = \<lparr> d_allowed = True, d_limit = limit,
     d_remaining = remaining, d_retry_after = 0 \<rparr>"

definition decision_refuse :: "nat \<Rightarrow> duration \<Rightarrow> decision" where
  "decision_refuse limit retry_after = \<lparr> d_allowed = False, d_limit = limit,
     d_remaining = 0, d_retry_after = max retry_after (from_secs 1) \<rparr>"

definition F64_MIN_POSITIVE :: rat where
  "F64_MIN_POSITIVE = 2 powi (- 1022)"

definition as_secs_f64 :: "duration \<Rightarrow> rat" where
  "as_secs_f64 d =
     f64_round (f64_round (of_nat (d div NANOS)) + f64_round (of_nat (d mod NANOS) / of_nat NANOS))"

definition clamp01 :: "rat \<Rightarrow> rat" where
  "clamp01 x = (if x < 0 then 0 else if 1 < x then 1 else x)"

text \<open>\<open>x as u64\<close> truncates and saturates; \<open>Duration::from_secs_f64\<close> is applied to
  whole numbers of seconds only.\<close>

definition f64_as_u64 :: "rat \<Rightarrow> nat" where
  "f64_as_u64 x = min U64_MAX (nat \<lfloor>x\<rfloor>)"

definition estimate :: "(rat \<Rightarrow> rat) \<Rightarrow> nat \<Rightarrow> nat \<Rightarrow> rat \<Rightarrow> rat" where
  "estimate rnd previous current progress =
     rnd (rnd (rnd (of_nat previous) * rnd (1 - progress)) + rnd (of_nat current))"

definition remaining_after :: "(rat \<Rightarrow> rat) \<Rightarrow> nat \<Rightarrow> rat \<Rightarrow> rat" where
  "remaining_after rnd limit estimated = max 0 (rnd (rnd (rnd (of_nat limit) - estimated) - 1))"

definition decide :: "nat \<Rightarrow> nat \<Rightarrow> rat \<Rightarrow> nat \<Rightarrow> duration \<Rightarrow> decision" where
  "decide previous current progress0 limit interval =
     (let interval_secs = max (as_secs_f64 interval) F64_MIN_POSITIVE;
          progress = clamp01 progress0;
          estimated = estimate f64_round previous current progress in
      if f64_round (of_nat limit) \<le> estimated then
        (let remaining_window = f64_round (interval_secs * f64_round (1 - progress)) in
         \<lparr> d_allowed = False, d_limit = limit, d_remaining = 0,
           d_retry_after = from_secs (nat \<lceil>max remaining_window 1\<rceil>) \<rparr>)
      else
        \<lparr> d_allowed = True, d_limit = limit,
          d_remaining = f64_as_u64 (remaining_after f64_round limit estimated),
          d_retry_after = 0 \<rparr>)"

section \<open>One key's window\<close>

record window =
  w_start :: instant
  w_current :: nat
  w_previous :: nat

definition window_new :: "instant \<Rightarrow> window" where
  "window_new now = \<lparr> w_start = now, w_current = 0, w_previous = 0 \<rparr>"

definition window_roll :: "instant \<Rightarrow> duration \<Rightarrow> window \<Rightarrow> window \<times> duration" where
  "window_roll now interval w =
     (let elapsed = now - w_start w in
      if sat_mul DUR_MAX interval 2 \<le> elapsed then (window_new now, 0)
      else if interval \<le> elapsed then
        (w \<lparr> w_previous := w_current w, w_current := 0, w_start := w_start w + interval \<rparr>,
         elapsed - interval)
      else (w, elapsed))"

definition window_check :: "instant \<Rightarrow> nat \<Rightarrow> duration \<Rightarrow> window \<Rightarrow> decision \<times> window" where
  "window_check now limit interval w =
     (let interval_secs = max (as_secs_f64 interval) F64_MIN_POSITIVE;
          (w1, elapsed) = window_roll now interval w;
          progress = clamp01 (f64_round (as_secs_f64 elapsed / interval_secs));
          d = decide (w_previous w1) (w_current w1) progress limit interval in
      (d, if d_allowed d then w1 \<lparr> w_current := sat_add U64_MAX (w_current w1) 1 \<rparr> else w1))"

section \<open>Keys\<close>

definition key_for ::
  "rate_limit_key \<Rightarrow> nat \<Rightarrow> string \<Rightarrow> string option \<Rightarrow> string option \<Rightarrow> string option \<Rightarrow>
   (string \<Rightarrow> string option) \<Rightarrow> string option" where
  "key_for key trusted_proxies route_id subject forwarded peer header =
     (let raw = (case key of
                   KeyIp \<Rightarrow> client_address forwarded peer trusted_proxies
                 | KeyIdentity \<Rightarrow>
                     (case subject of Some s \<Rightarrow> if s = [] then None else Some s | None \<Rightarrow> None)
                 | KeyRoute \<Rightarrow> Some []
                 | KeyHeader name \<Rightarrow> header name) in
      map_option (\<lambda>r. route_id @ ''|'' @ r) raw)"

datatype key_error = KeyMissing | KeyInvalid

definition trim_ows :: "string \<Rightarrow> string" where
  "trim_ows s = (let p = (\<lambda>c. c = CHR '' '' \<or> byte c = 9) in rev (dropWhile p (rev (dropWhile p s))))"

definition header_key :: "header_map \<Rightarrow> string \<Rightarrow> (string option, key_error) result" where
  "header_key headers name =
     (case headers name of
        [] \<Rightarrow> Inr None
      | value # others \<Rightarrow>
          if others \<noteq> [] then Inl KeyInvalid
          else case to_str value of
                 None \<Rightarrow> Inl KeyInvalid
               | Some raw \<Rightarrow>
                   (let v = trim_ows raw in
                    if v = [] \<or> list_ex (\<lambda>b. \<not> (0x21 \<le> byte b \<and> byte b \<le> 0x7e) \<or> b = CHR '','') v
                    then Inl KeyInvalid else Inr (Some v)))"

definition admission_key ::
  "rate_limit_key \<Rightarrow> missing_key \<Rightarrow> nat \<Rightarrow> string \<Rightarrow> string option \<Rightarrow> string option \<Rightarrow>
   string option \<Rightarrow> header_map \<Rightarrow> (string option, key_error) result" where
  "admission_key key missing trusted_proxies route_id subject forwarded peer headers =
     (case (case key of KeyHeader name \<Rightarrow> header_key headers name | _ \<Rightarrow> Inr None) of
        Inl e \<Rightarrow> Inl e
      | Inr value \<Rightarrow>
          (case key_for key trusted_proxies route_id subject forwarded peer (\<lambda>_. value) of
             Some k \<Rightarrow> Inr (Some k)
           | None \<Rightarrow>
               (case missing of
                  MissingReject \<Rightarrow> Inl KeyMissing
                | MissingRoute \<Rightarrow> Inr (Some (route_id @ ''|''))
                | MissingIp \<Rightarrow>
                    (case peer of Some ip \<Rightarrow> Inr (Some (route_id @ ''|'' @ ip)) | None \<Rightarrow> Inl KeyMissing)
                | MissingSkip \<Rightarrow> Inr None)))"

section \<open>Facts about the estimate\<close>

lemma clamp01_range [simp]: "0 \<le> clamp01 x" "clamp01 x \<le> 1"
  by (auto simp: clamp01_def)

lemma clamp01_id: "0 \<le> x \<Longrightarrow> x \<le> 1 \<Longrightarrow> clamp01 x = x"
  by (simp add: clamp01_def)

context f64_rounding
begin

lemma weighted_nonneg:
  "0 \<le> p \<Longrightarrow> p \<le> 1 \<Longrightarrow> 0 \<le> rnd (rnd (of_nat previous) * rnd (1 - p))"
  by (intro rnd_nonneg mult_nonneg_nonneg) simp_all

lemma estimate_ge_current:
  assumes "0 \<le> p" "p \<le> 1"
  shows "rnd (of_nat current) \<le> estimate rnd previous current p"
proof -
  have "rnd (rnd (of_nat current)) \<le> estimate rnd previous current p"
    unfolding estimate_def using weighted_nonneg [OF assms] by (intro rnd_mono) simp
  then show ?thesis by simp
qed

lemma estimate_ge_weighted:
  assumes "0 \<le> p" "p \<le> 1"
  shows "rnd (rnd (of_nat previous) * rnd (1 - p)) \<le> estimate rnd previous current p"
proof -
  have "rnd (rnd (rnd (of_nat previous) * rnd (1 - p))) \<le> estimate rnd previous current p"
    unfolding estimate_def by (intro rnd_mono) (simp add: rnd_nonneg)
  then show ?thesis by simp
qed

lemma admitted_below_limit:
  "0 \<le> p \<Longrightarrow> p \<le> 1 \<Longrightarrow> estimate rnd previous current p < rnd (of_nat limit) \<Longrightarrow> current < limit"
  using estimate_ge_current rnd_less_imp_less of_nat_less_iff by (metis le_less_trans)

lemma estimate_no_history:
  "current \<le> 2 ^ 53 \<Longrightarrow> 0 \<le> p \<Longrightarrow> p \<le> 1 \<Longrightarrow> estimate rnd 0 current p = of_nat current"
  by (simp add: estimate_def rnd_nat)

lemma remaining_bound:
  assumes "0 \<le> p" "p \<le> 1" "limit \<le> 2 ^ 53" "estimate rnd previous current p < rnd (of_nat limit)"
  shows "remaining_after rnd limit (estimate rnd previous current p) \<le> of_nat (limit - current - 1)"
proof -
  let ?e = "estimate rnd previous current p"
  have c: "current < limit" using assms admitted_below_limit by blast
  then have "of_nat current \<le> ?e"
    using estimate_ge_current [OF assms(1,2), of current previous] assms(3) rnd_nat [of current]
    by simp
  then have "rnd (rnd (of_nat limit) - ?e) \<le> of_nat (limit - current)"
    using assms(3) c by (intro rnd_le_nat) (auto simp: rnd_nat of_nat_diff)
  then have "rnd (rnd (rnd (of_nat limit) - ?e) - 1) \<le> of_nat (limit - current - 1)"
    using assms(3) c by (intro rnd_le_nat) (auto simp: of_nat_diff)
  then show ?thesis by (simp add: remaining_after_def)
qed

end

lemma decide_allowed_iff:
  "d_allowed (decide previous current progress limit interval) \<longleftrightarrow>
   estimate f64_round previous current (clamp01 progress) < f64_round (of_nat limit)"
  by (auto simp: decide_def Let_def)

lemma decide_allowed_current:
  "d_allowed (decide previous current progress limit interval) \<Longrightarrow> current < limit"
  using f64.admitted_below_limit decide_allowed_iff clamp01_range by blast

lemma decide_limit [simp]: "d_limit (decide previous current progress limit interval) = limit"
  by (simp add: decide_def Let_def)

lemma decide_refused:
  "\<not> d_allowed (decide previous current progress limit interval) \<Longrightarrow>
   d_remaining (decide previous current progress limit interval) = 0 \<and>
   from_secs 1 \<le> d_retry_after (decide previous current progress limit interval)"
  by (auto simp: decide_def Let_def le_nat_iff intro: le_ceiling_iff [THEN iffD2])

lemma decide_remaining:
  assumes "d_allowed (decide previous current progress limit interval)" "limit \<le> 2 ^ 53"
  shows "d_remaining (decide previous current progress limit interval) \<le> limit - current - 1"
proof -
  let ?e = "estimate f64_round previous current (clamp01 progress)"
  have "remaining_after f64_round limit ?e \<le> of_nat (limit - current - 1)"
    using assms decide_allowed_iff by (intro f64.remaining_bound) auto
  then have "\<lfloor>remaining_after f64_round limit ?e\<rfloor> \<le> int (limit - current - 1)"
    by (metis floor_mono floor_of_nat)
  then have "nat \<lfloor>remaining_after f64_round limit ?e\<rfloor> \<le> limit - current - 1" by simp
  then show ?thesis
    using assms(1) by (auto simp: decide_def Let_def f64_as_u64_def)
qed

lemma decide_no_history:
  assumes "limit \<le> 2 ^ 53" "current \<le> 2 ^ 53"
  shows "d_allowed (decide 0 current progress limit interval) \<longleftrightarrow> current < limit"
  using assms by (simp add: decide_allowed_iff f64.estimate_no_history f64.rnd_nat)

section \<open>Windows over time\<close>

definition window_inv :: "nat \<Rightarrow> window \<Rightarrow> bool" where
  "window_inv limit w = (w_current w \<le> limit \<and> w_previous w \<le> limit)"

lemma window_inv_new [simp]: "window_inv limit (window_new now)"
  by (simp add: window_inv_def window_new_def)

lemma window_inv_roll:
  "window_inv limit w \<Longrightarrow> window_roll now interval w = (w1, elapsed) \<Longrightarrow> window_inv limit w1"
  by (auto simp: window_inv_def window_roll_def window_new_def Let_def split: if_splits)

lemma window_check_cases:
  assumes "window_check now limit interval w = (d, w')"
    and "window_roll now interval w = (w1, elapsed)"
  shows "w_start w' = w_start w1" "w_previous w' = w_previous w1"
    and "d_allowed d \<Longrightarrow> w_current w1 < limit \<and> w_current w' = sat_add U64_MAX (w_current w1) 1"
    and "\<not> d_allowed d \<Longrightarrow> w' = w1"
  using assms decide_allowed_current
  by (auto simp: window_check_def Let_def split: prod.splits if_splits)

lemma window_inv_check:
  assumes "window_inv limit w" "window_check now limit interval w = (d, w')"
  shows "window_inv limit w'"
proof -
  obtain w1 e where r: "window_roll now interval w = (w1, e)" by fastforce
  show ?thesis
    using window_check_cases [OF assms(2) r] window_inv_roll [OF assms(1) r]
      sat_add_le_sum [of U64_MAX "w_current w1" 1]
    by (cases "d_allowed d") (auto simp: window_inv_def)
qed

text \<open>The decisions for a sequence of requests under one key.\<close>

fun window_run :: "nat \<Rightarrow> duration \<Rightarrow> window \<Rightarrow> instant list \<Rightarrow> decision list \<times> window" where
  "window_run limit interval w [] = ([], w)"
| "window_run limit interval w (t # ts) =
     (let (d, w1) = window_check t limit interval w;
          (ds, w2) = window_run limit interval w1 ts in (d # ds, w2))"

definition admitted :: "decision list \<Rightarrow> nat" where
  "admitted ds = length (filter d_allowed ds)"

lemma window_run_inv:
  "window_inv limit w \<Longrightarrow> window_run limit interval w ts = (ds, w') \<Longrightarrow> window_inv limit w'"
proof (induction ts arbitrary: w ds w')
  case (Cons t ts)
  obtain d w1 where c: "window_check t limit interval w = (d, w1)" by fastforce
  obtain ds' where r: "window_run limit interval w1 ts = (ds', w')"
    using Cons.prems(2) c by (auto split: prod.splits)
  show ?case by (rule Cons.IH [OF window_inv_check [OF Cons.prems(1) c] r])
qed simp

lemma window_check_same:
  assumes "now - w_start w < interval" "interval \<le> DUR_MAX"
  shows "window_roll now interval w = (w, now - w_start w)"
  using assms by (auto simp: window_roll_def sat_mul_def Let_def min_def split: if_splits)

lemma window_run_quota:
  assumes "w_current w \<le> limit" "limit \<le> U64_MAX" "interval \<le> DUR_MAX"
    and "\<forall>t\<in>set ts. t - w_start w < interval"
    and "window_run limit interval w ts = (ds, w')"
  shows "w_current w + admitted ds = w_current w' \<and> w_current w' \<le> limit \<and>
         w_start w' = w_start w \<and> w_previous w' = w_previous w"
  using assms
proof (induction ts arbitrary: w ds w')
  case Nil
  then show ?case by (simp add: admitted_def)
next
  case (Cons t ts)
  obtain d w1 where c: "window_check t limit interval w = (d, w1)" by fastforce
  obtain ds' where r: "window_run limit interval w1 ts = (ds', w')" and ds: "ds = d # ds'"
    using Cons.prems(5) c by (auto split: prod.splits)
  have roll: "window_roll t interval w = (w, t - w_start w)"
    using Cons.prems by (intro window_check_same) auto
  note cc = window_check_cases [OF c roll]
  have cur: "w_current w1 = w_current w + (if d_allowed d then 1 else 0)" "w_current w1 \<le> limit"
    using cc(3,4) Cons.prems(1,2) by (cases "d_allowed d"; simp add: sat_add_def)+
  have "w_current w1 + admitted ds' = w_current w' \<and> w_current w' \<le> limit \<and>
      w_start w' = w_start w1 \<and> w_previous w' = w_previous w1"
    using Cons.IH [OF cur(2) Cons.prems(2,3) _ r] Cons.prems(4) cc(1) by simp
  then show ?case using cur(1) cc(1,2) by (auto simp: ds admitted_def split: if_splits)
qed

section \<open>Scoped keys\<close>

lemma key_for_scoped:
  "key_for key tp route subject ff peer header = Some k \<Longrightarrow> \<exists>r. k = route @ CHR ''|'' # r"
  by (auto simp: key_for_def Let_def)

lemma admission_key_scoped:
  assumes "admission_key key missing tp route subject ff peer headers = Inr (Some k)"
  shows "\<exists>r. k = route @ CHR ''|'' # r"
proof -
  obtain v where
    "(case key_for key tp route subject ff peer (\<lambda>_. v) of
        Some k \<Rightarrow> Inr (Some k)
      | None \<Rightarrow> (case missing of MissingReject \<Rightarrow> Inl KeyMissing
                | MissingRoute \<Rightarrow> Inr (Some (route @ ''|''))
                | MissingIp \<Rightarrow> (case peer of Some ip \<Rightarrow> Inr (Some (route @ ''|'' @ ip)) | None \<Rightarrow> Inl KeyMissing)
                | MissingSkip \<Rightarrow> Inr None)) = Inr (Some k)"
    using assms unfolding admission_key_def by (auto split: sum.splits)
  then show ?thesis
    by (cases missing) (auto split: option.splits dest: key_for_scoped)
qed

section \<open>Properties\<close>

text \<open>C11: the quota holds in every window. From any window a limiter can be in, the
  requests that arrive within one interval of its start are admitted at most up
  to the limit, counting those admitted before, however the \<open>f64\<close> arithmetic
  rounds; and both counters stay within the limit whatever arrives later.\<close>

theorem window_quota:
  assumes "window_inv limit w" "limit \<le> U64_MAX" "interval \<le> DUR_MAX"
    and "window_run limit interval w ts = (ds, w')"
  shows "((\<forall>t\<in>set ts. t - w_start w < interval) \<longrightarrow> w_current w + admitted ds \<le> limit)
    \<and> w_current w' \<le> limit \<and> w_previous w' \<le> limit"
proof (intro conjI impI)
  show "w_current w + admitted ds \<le> limit" if "\<forall>t\<in>set ts. t - w_start w < interval"
    using window_run_quota [OF _ assms(2,3) that assms(4)] assms(1) by (simp add: window_inv_def)
  show "w_current w' \<le> limit" "w_previous w' \<le> limit"
    using window_run_inv [OF assms(1,4)] by (simp_all add: window_inv_def)
qed

theorem window_quota_witness:
  "window_inv 2 (window_new 5)
   \<and> admitted (fst (window_run 2 10 (window_new 5) [6, 7, 8])) \<le> 2"
proof -
  let ?r = "window_run 2 10 (window_new 5) [6, 7, 8]"
  have r: "?r = (fst ?r, snd ?r)" by simp
  have "w_current (window_new 5) + admitted (fst ?r) \<le> 2"
    by (rule window_quota [OF window_inv_new _ _ r, THEN conjunct1, THEN mp])
      (simp_all add: DUR_MAX_def window_new_def)
  then show ?thesis by simp
qed

text \<open>What a decision says. A refusal leaves no allowance and asks for at least
  a second; an admission never promises more than the limit leaves after this
  request; a key with no history is admitted exactly while its count is below
  the limit, and a full quota in the previous window refuses at the boundary, so
  a client cannot send one quota on each side of it. (The exact parts are for
  limits that a 53-bit significand represents.)\<close>

theorem decision_contract:
  fixes previous current :: nat and progress :: rat and interval :: duration
  assumes "limit \<le> 2 ^ 53"
  defines "d \<equiv> decide previous current progress limit interval"
  shows "(\<not> d_allowed d \<longrightarrow> d_remaining d = 0 \<and> from_secs 1 \<le> d_retry_after d)
    \<and> (d_allowed d \<longrightarrow> current + d_remaining d + 1 \<le> limit \<and> d_retry_after d = 0)
    \<and> (current \<le> limit \<longrightarrow>
         d_allowed (decide 0 current progress limit interval) = (current < limit))
    \<and> \<not> d_allowed (decide limit current 0 limit interval)"
proof (intro conjI impI)
  show "d_remaining d = 0" "from_secs 1 \<le> d_retry_after d" if "\<not> d_allowed d"
    using that decide_refused by (simp_all add: d_def)
  show "current + d_remaining d + 1 \<le> limit" if "d_allowed d"
  proof -
    have "current < limit" using that decide_allowed_current by (simp add: d_def)
    moreover have "d_remaining d \<le> limit - current - 1"
      using that assms(1) decide_remaining by (simp add: d_def)
    ultimately show ?thesis by simp
  qed
  show "d_retry_after d = 0" if "d_allowed d"
    using that by (auto simp: d_def decide_def Let_def split: if_splits)
  show "d_allowed (decide 0 current progress limit interval) = (current < limit)"
    if "current \<le> limit"
    using that assms(1) by (intro decide_no_history) auto
  have "f64_round (of_nat limit) \<le> estimate f64_round limit current 0"
    using f64.estimate_ge_weighted [of 0 limit current] by simp
  then show "\<not> d_allowed (decide limit current 0 limit interval)"
    by (simp add: decide_allowed_iff clamp01_def)
qed

theorem decision_contract_witness:
  "d_allowed (decide 0 1 (1 / 2) 2 10)
   \<and> \<not> d_allowed (decide 2 0 0 2 10)
   \<and> from_secs 1 \<le> d_retry_after (decide 2 0 0 2 10)"
  using decision_contract [of 2 2 0 0 10] decision_contract [of 2 0 1 "1 / 2" 10] by auto



end
