(* ===== verification/Rejection.thy ===== *)
theory Rejection
  imports Auth Ratelimit
begin

text \<open>
  The answers the gateway gives itself (\<open>error.rs\<close>): status, JSON body, log event
  and reason. Only the status and the body reach the client.
\<close>

record rejection =
  rj_status :: nat
  rj_body :: json
  rj_event :: string
  rj_reason :: string

definition rejection_new :: "nat \<Rightarrow> json \<Rightarrow> string \<Rightarrow> string \<Rightarrow> rejection" where
  "rejection_new status body event reason =
     \<lparr> rj_status = status, rj_body = body, rj_event = event, rj_reason = reason \<rparr>"

definition jnat :: "nat \<Rightarrow> json" where
  "jnat n = JNumber (show_nat n)"

text \<open>The common envelope, and its extra members.\<close>

definition envelope :: "nat \<Rightarrow> string \<Rightarrow> string \<Rightarrow> (string \<times> json) list \<Rightarrow> json" where
  "envelope status message err extra =
     JObject ([(''statusCode'', jnat status), (''message'', JString message), (''error'', JString err)]
              @ extra)"

definition not_found :: "string \<Rightarrow> string \<Rightarrow> rejection" where
  "not_found event reason =
     rejection_new 404 (envelope 404 ''Not Found'' ''Not Found'' []) event reason"

definition limit_key_rejection :: "key_error \<Rightarrow> rejection" where
  "limit_key_rejection err =
     rejection_new 400 (envelope 400 ''A valid policy key is required'' ''Bad Request'' [])
       ''gateway.limit_key.rejected''
       (case err of KeyMissing \<Rightarrow> ''missing_limit_key'' | KeyInvalid \<Rightarrow> ''invalid_limit_key'')"

definition rate_limited :: "nat \<Rightarrow> rejection" where
  "rate_limited retry_after_secs =
     rejection_new 429
       (envelope 429 ''Too many requests'' ''Too Many Requests'' [(''retryAfter'', jnat retry_after_secs)])
       ''gateway.rate_limited'' ''rate_limited''"

definition circuit_open :: "nat \<Rightarrow> rejection" where
  "circuit_open retry_after_secs =
     rejection_new 503
       (envelope 503 ''The upstream service is temporarily unavailable.'' ''Service Unavailable''
         [(''retryAfter'', jnat retry_after_secs)])
       ''gateway.circuit_open'' ''circuit_open''"

definition concurrency_limited :: "bool \<Rightarrow> nat \<Rightarrow> rejection" where
  "concurrency_limited caller retry_after_secs =
     (let (status, message, err) =
            (if caller then (429, ''Too many concurrent requests'', ''Too Many Requests'')
             else (503, ''The upstream service is at capacity.'', ''Service Unavailable'')) in
      rejection_new status
        (envelope status message err [(''retryAfter'', jnat retry_after_secs)])
        ''gateway.concurrency_limited'' ''concurrency_limited'')"

definition missing_bearer :: rejection where
  "missing_bearer =
     rejection_new 401
       (envelope 401 ''Authentication required. Please provide a valid bearer token in the Authorization header.''
         ''Unauthorized'' [(''hint'', JString ''Use: Authorization: Bearer <token>'')])
       ''gateway.auth.rejected'' ''missing_bearer''"

definition invalid_token :: "string \<Rightarrow> rejection" where
  "invalid_token detail =
     rejection_new 401
       (envelope 401 ''Invalid token'' ''Unauthorized''
         [(''hint'', JString ''Refresh the token or sign in again, then retry.'')])
       ''gateway.auth.rejected'' (''invalid_token: '' @ detail)"

definition missing_client_key :: "string \<Rightarrow> rejection" where
  "missing_client_key header =
     rejection_new 401
       (envelope 401 ''Client key required'' ''Unauthorized''
         [(''hint'', JString (''Send the key in the '' @ header @ '' header.''))])
       ''gateway.client_key.rejected'' ''missing_client_key''"

definition invalid_client_key :: rejection where
  "invalid_client_key =
     rejection_new 401 (envelope 401 ''Invalid client key'' ''Unauthorized'' [])
       ''gateway.client_key.rejected'' ''bad_client_key''"

definition forbidden :: "string \<Rightarrow> string \<Rightarrow> rejection" where
  "forbidden message reason =
     rejection_new 403 (envelope 403 message ''Forbidden'' []) ''gateway.request.forbidden'' reason"

definition unavailable :: "string \<Rightarrow> string \<Rightarrow> rejection" where
  "unavailable message reason =
     rejection_new 503 (envelope 503 message ''Service Unavailable'' [])
       ''gateway.upstream.unavailable'' reason"

definition gateway_timeout :: rejection where
  "gateway_timeout =
     rejection_new 504 (envelope 504 ''Gateway Timeout'' ''Gateway Timeout'' [])
       ''gateway.upstream.timeout'' ''upstream_timeout''"

definition payload_too_large :: rejection where
  "payload_too_large =
     rejection_new 413 (envelope 413 ''Payload Too Large'' ''Payload Too Large'' [])
       ''gateway.request.too_large'' ''body_too_large''"

text \<open>\<open>json\<close> is serialized by the crate; an unserializable body becomes \<open>{}\<close>.\<close>

definition body_bytes :: "(json \<Rightarrow> string option) \<Rightarrow> rejection \<Rightarrow> string" where
  "body_bytes to_vec r = (case to_vec (rj_body r) of Some b \<Rightarrow> b | None \<Rightarrow> ''{}'')"

lemmas rejection_defs =
  rejection_new_def not_found_def limit_key_rejection_def rate_limited_def circuit_open_def
  concurrency_limited_def missing_bearer_def invalid_token_def missing_client_key_def
  invalid_client_key_def forbidden_def unavailable_def gateway_timeout_def payload_too_large_def

lemma rejection_status [simp]:
  "rj_status (not_found ev rs) = 404"
  "rj_status (limit_key_rejection err) = 400"
  "rj_status (rate_limited n) = 429"
  "rj_status (circuit_open n) = 503"
  "rj_status (concurrency_limited b n) = (if b then 429 else 503)"
  "rj_status missing_bearer = 401"
  "rj_status (invalid_token d) = 401"
  "rj_status (missing_client_key h) = 401"
  "rj_status invalid_client_key = 401"
  "rj_status (forbidden m r) = 403"
  "rj_status (unavailable m r) = 503"
  "rj_status gateway_timeout = 504"
  "rj_status payload_too_large = 413"
  by (simp_all add: rejection_defs)

text \<open>Every refusal to route looks the same to the client.\<close>

lemma not_found_body: "rj_body (not_found ev rs) = rj_body (not_found ev' rs')"
  by (simp add: rejection_defs)

end
