(* ===== verification/Paths.thy ===== *)
theory Paths
  imports Rust_Prelude
begin

text \<open>
  Canonicalization of untrusted request paths (\<open>path.rs\<close>).

  \<open>canonicalize_proxy_path\<close> produces the string the deny-list, the route table
  and the upstream URL are all built from; \<open>encode_path_segments\<close> puts it back
  on the wire. The \<open>percent_encoding\<close> crate is a parameter: \<open>pct_decode\<close> stands
  for \<open>percent_decode_str(..).decode_utf8().ok()\<close> and \<open>pct_encode\<close> for
  \<open>utf8_percent_encode\<close> with the set of bytes to escape. The locale
  \<open>percent_codec\<close> states what that crate documents of the pair, and the codec of
  RFC 3986 written out below satisfies it.
\<close>

section \<open>The operations\<close>

definition MAX_DECODE_PASSES :: nat where
  "MAX_DECODE_PASSES = 3"

definition normalize_proxy_path :: "string \<Rightarrow> string" where
  "normalize_proxy_path path = trim_matches CHR ''/'' path"

text \<open>The bounded decoding loop: \<open>None\<close> is the early return on a string that does
  not decode to UTF-8.\<close>

fun decode_passes :: "(string \<Rightarrow> string option) \<Rightarrow> nat \<Rightarrow> string \<Rightarrow> string option" where
  "decode_passes pct_decode 0 decoded = Some decoded"
| "decode_passes pct_decode (Suc n) decoded =
     (if CHR ''%'' \<notin> set decoded then Some decoded
      else case pct_decode decoded of
             None \<Rightarrow> None
           | Some next \<Rightarrow>
               if next = decoded then Some decoded
               else decode_passes pct_decode n next)"

text \<open>The rejected characters are all ASCII, so in UTF-8 testing the bytes is
  testing the characters.\<close>

definition hostile_char :: "char \<Rightarrow> bool" where
  "hostile_char c = (byte c < 32 \<or> byte c = 127 \<or> c = CHR 0x5C)"

definition path_segments :: "string \<Rightarrow> string list" where
  "path_segments s = filter (\<lambda>p. p \<noteq> []) (split_on CHR ''/'' s)"

definition dot_segment :: "string \<Rightarrow> bool" where
  "dot_segment s = (s = ''.'' \<or> s = ''..'')"

definition without_query :: "string \<Rightarrow> string" where
  "without_query raw = hd (split_on CHR ''#'' (hd (split_on CHR ''?'' raw)))"

definition canonicalize_proxy_path :: "(string \<Rightarrow> string option) \<Rightarrow> string \<Rightarrow> string option" where
  "canonicalize_proxy_path pct_decode raw =
     (case decode_passes pct_decode MAX_DECODE_PASSES (without_query raw) of
        None \<Rightarrow> None
      | Some decoded \<Rightarrow>
          if CHR ''%'' \<in> set decoded then None
          else if list_ex hostile_char decoded then None
          else if list_ex dot_segment (path_segments decoded) then None
          else Some (join ''/'' (path_segments decoded)))"

text \<open>The bytes escaped in a path segment: \<open>CONTROLS\<close> (below 32 and 127) and the
  set the source adds. \<open>utf8_percent_encode\<close> escapes non-ASCII bytes by itself.\<close>

definition SEGMENT :: "char \<Rightarrow> bool" where
  "SEGMENT c = (byte c < 32 \<or> byte c = 127 \<or>
     c \<in> set (CHR 0x20 # CHR 0x22 # CHR 0x60 # CHR 0x5C # ''#<>?{}%^|[]/''))"

definition encode_path_segments :: "((char \<Rightarrow> bool) \<Rightarrow> string \<Rightarrow> string) \<Rightarrow> string \<Rightarrow> string" where
  "encode_path_segments pct_encode path =
     join ''/'' (map (pct_encode SEGMENT) (split_on CHR ''/'' path))"

section \<open>Canonical paths\<close>

text \<open>The shape every layer behind the canonicalizer relies on.\<close>

definition canonical_path :: "string \<Rightarrow> bool" where
  "canonical_path p =
     (CHR ''%'' \<notin> set p \<and> list_all (\<lambda>c. \<not> hostile_char c) p \<and>
      (p = [] \<or> list_all (\<lambda>s. s \<noteq> [] \<and> \<not> dot_segment s) (split_on CHR ''/'' p)))"

lemma hd_split_on_free: "c \<notin> set (hd (split_on c s))"
  using split_on_free [of "hd (split_on c s)" c s] by simp

lemma hd_split_on_chars: "set (hd (split_on c s)) \<subseteq> set s"
  using split_on_chars [of "hd (split_on c s)" c s] by simp

lemma without_query_free: "CHR ''?'' \<notin> set (without_query raw)" "CHR ''#'' \<notin> set (without_query raw)"
  unfolding without_query_def
  using hd_split_on_free hd_split_on_chars by blast+

lemma without_query_id:
  "CHR ''?'' \<notin> set s \<Longrightarrow> CHR ''#'' \<notin> set s \<Longrightarrow> without_query s = s"
  by (simp add: without_query_def)

lemma decode_passes_plain [simp]:
  "CHR ''%'' \<notin> set s \<Longrightarrow> decode_passes pct_decode n s = Some s"
  by (cases n) auto

lemma path_segments_parts:
  "s \<in> set (path_segments p) \<Longrightarrow> s \<noteq> [] \<and> CHR ''/'' \<notin> set s \<and> set s \<subseteq> set p"
  using split_on_free [of s "CHR ''/''" p] split_on_chars [of s "CHR ''/''" p]
  by (simp add: path_segments_def)

lemma path_segments_join:
  assumes "\<forall>s\<in>set xs. s \<noteq> [] \<and> CHR ''/'' \<notin> set s"
  shows "path_segments (join ''/'' xs) = xs"
proof (cases "xs = []")
  case False
  then have "split_on CHR ''/'' (join ''/'' xs) = xs" using assms by (intro split_join) auto
  with assms show ?thesis by (simp add: path_segments_def filter_id_conv)
qed (simp add: path_segments_def)

lemma join_path_segments_chars:
  "set (join ''/'' (path_segments p)) \<subseteq> insert CHR ''/'' (set p)"
  using set_join_subset [of "''/''" "path_segments p"] path_segments_parts by fastforce

lemma canonical_path_segments:
  assumes "canonical_path p"
  shows "join ''/'' (path_segments p) = p" "\<not> list_ex dot_segment (path_segments p)"
proof -
  have "path_segments p = (if p = [] then [] else split_on CHR ''/'' p)"
    using assms
    by (auto simp: path_segments_def canonical_path_def list_all_iff filter_id_conv)
  then show "join ''/'' (path_segments p) = p" "\<not> list_ex dot_segment (path_segments p)"
    using assms by (auto simp: canonical_path_def list_ex_iff list_all_iff)
qed

text \<open>A canonical path is accepted as it is, so a decoded form that is canonical
  is the result.\<close>

lemma canonicalize_of_decoded:
  assumes "decode_passes pct_decode MAX_DECODE_PASSES (without_query raw) = Some p"
    and "canonical_path p"
  shows "canonicalize_proxy_path pct_decode raw = Some p"
proof -
  have "\<not> list_ex hostile_char p" "CHR ''%'' \<notin> set p"
    using assms(2) by (auto simp: canonical_path_def list_ex_iff list_all_iff)
  then show ?thesis
    using assms(1) canonical_path_segments [OF assms(2)]
    by (simp add: canonicalize_proxy_path_def)
qed

lemma hostile_slash [simp]: "\<not> hostile_char CHR ''/''"
  by (simp add: hostile_char_def)

lemma canonicalize_canonical:
  assumes "canonicalize_proxy_path pct_decode raw = Some p"
  shows "canonical_path p"
proof -
  obtain d where d: "CHR ''%'' \<notin> set d" "\<not> list_ex hostile_char d"
    "\<not> list_ex dot_segment (path_segments d)" "p = join ''/'' (path_segments d)"
    using assms by (auto simp: canonicalize_proxy_path_def split: option.splits if_splits)
  let ?xs = "path_segments d"
  have chars: "set p \<subseteq> insert CHR ''/'' (set d)" using d(4) join_path_segments_chars by simp
  have "CHR ''%'' \<notin> set p" "list_all (\<lambda>c. \<not> hostile_char c) p"
    using chars d(1,2) by (auto simp: list_ex_iff list_all_iff)
  moreover have "p = [] \<or> list_all (\<lambda>s. s \<noteq> [] \<and> \<not> dot_segment s) (split_on CHR ''/'' p)"
  proof (cases "?xs = []")
    case False
    have "split_on CHR ''/'' p = ?xs"
      unfolding d(4) by (rule split_join [OF False]) (simp add: path_segments_parts)
    moreover have "\<forall>s\<in>set ?xs. s \<noteq> [] \<and> \<not> dot_segment s"
      using d(3) path_segments_parts by (simp add: list_ex_iff)
    ultimately show ?thesis by (simp add: list_all_iff)
  qed (use d(4) in simp)
  ultimately show ?thesis by (simp add: canonical_path_def)
qed

lemma canonical_no_outer_slash:
  assumes "canonical_path p" "p \<noteq> []"
  shows "hd p \<noteq> CHR ''/''" "last p \<noteq> CHR ''/''"
proof -
  have ne: "\<forall>s\<in>set (split_on CHR ''/'' p). s \<noteq> []"
    using assms by (auto simp: canonical_path_def list_all_iff)
  show "hd p \<noteq> CHR ''/''" using ne assms(2) by (cases p) auto
  show "last p \<noteq> CHR ''/''"
  proof
    assume "last p = CHR ''/''"
    then obtain q where "p = q @ CHR ''/'' # []"
      using assms(2) by (metis append_butlast_last_id)
    then have "[] \<in> set (split_on CHR ''/'' p)" by (simp add: split_on_append_sep)
    with ne show False by blast
  qed
qed

section \<open>The percent codec\<close>

text \<open>What the crate documents: bytes outside the set are copied, the others and
  every non-ASCII byte become \<open>%XY\<close> with upper-case digits; decoding replaces the
  well-formed escapes and fails only on a result that is not UTF-8. A slash is
  neither an escape nor part of one, so decoding works piecewise around it.\<close>

definition hex_upper :: "char \<Rightarrow> bool" where
  "hex_upper c = (is_ascii_digit c \<or> 65 \<le> byte c \<and> byte c \<le> 70)"

locale percent_codec =
  fixes pct_decode :: "string \<Rightarrow> string option"
    and pct_encode :: "(char \<Rightarrow> bool) \<Rightarrow> string \<Rightarrow> string"
  assumes decode_utf8: "pct_decode s = Some t \<Longrightarrow> is_utf8 t"
    and decode_plain: "is_utf8 s \<Longrightarrow> CHR ''%'' \<notin> set s \<Longrightarrow> pct_decode s = Some s"
    and decode_slash: "pct_decode a = Some x \<Longrightarrow> pct_decode b = Some y \<Longrightarrow>
          pct_decode (a @ CHR ''/'' # b) = Some (x @ CHR ''/'' # y)"
    and decode_encode: "is_utf8 s \<Longrightarrow> S CHR ''%'' \<Longrightarrow> pct_decode (pct_encode S s) = Some s"
    and encode_chars: "c \<in> set (pct_encode S s) \<Longrightarrow>
          c = CHR ''%'' \<or> hex_upper c \<or> (c \<in> set s \<and> \<not> S c)"
    and encode_ascii: "c \<in> set (pct_encode S s) \<Longrightarrow> byte c < 128"
begin

lemma decode_segments:
  "segs \<noteq> [] \<Longrightarrow> (\<forall>s\<in>set segs. is_utf8 s) \<Longrightarrow>
   pct_decode (join ''/'' (map (pct_encode SEGMENT) segs)) = Some (join ''/'' segs)"
proof (induction segs)
  case (Cons s segs)
  have s: "pct_decode (pct_encode SEGMENT s) = Some s"
    using Cons.prems by (intro decode_encode) (auto simp: SEGMENT_def)
  show ?case
    using s Cons decode_slash by (cases "segs = []") (auto simp: join_Cons)
qed simp

lemma encode_path_chars:
  assumes "c \<in> set (encode_path_segments pct_encode p)"
  shows "c = CHR ''%'' \<or> c = CHR ''/'' \<or> hex_upper c \<or> \<not> SEGMENT c"
proof -
  have "c = CHR ''/'' \<or> (\<exists>s\<in>set (split_on CHR ''/'' p). c \<in> set (pct_encode SEGMENT s))"
    using assms set_join_subset [of "''/''" "map (pct_encode SEGMENT) (split_on CHR ''/'' p)"]
    by (auto simp: encode_path_segments_def)
  then show ?thesis using encode_chars by blast
qed

lemma encode_path_no_query:
  "CHR ''?'' \<notin> set (encode_path_segments pct_encode p)"
  "CHR ''#'' \<notin> set (encode_path_segments pct_encode p)"
  using encode_path_chars [of "CHR ''?''" p] encode_path_chars [of "CHR ''#''" p]
  by (auto simp: SEGMENT_def hex_upper_def is_ascii_digit_def)

lemma encode_path_utf8: "is_utf8 (encode_path_segments pct_encode p)"
proof (rule is_utf8_ascii, rule ballI)
  fix c
  assume "c \<in> set (encode_path_segments pct_encode p)"
  then have "c = CHR ''/'' \<or> (\<exists>s. c \<in> set (pct_encode SEGMENT s))"
    using set_join_subset [of "''/''" "map (pct_encode SEGMENT) (split_on CHR ''/'' p)"]
    by (auto simp: encode_path_segments_def)
  then show "byte c < 128" using encode_ascii by auto
qed

lemma decode_encoded_path:
  "is_utf8 p \<Longrightarrow> pct_decode (encode_path_segments pct_encode p) = Some p"
  using decode_segments [of "split_on CHR ''/'' p"] is_utf8_split_on [of p "CHR ''/''"]
  by (auto simp: encode_path_segments_def)

lemma canonicalize_encoded:
  assumes "is_utf8 p" "canonical_path p"
  shows "canonicalize_proxy_path pct_decode (encode_path_segments pct_encode p) = Some p"
proof (rule canonicalize_of_decoded [OF _ assms(2)])
  let ?e = "encode_path_segments pct_encode p"
  have e: "without_query ?e = ?e" using encode_path_no_query by (rule without_query_id)
  have p: "CHR ''%'' \<notin> set p" using assms(2) by (simp add: canonical_path_def)
  have d: "pct_decode ?e = Some p" using assms(1) by (rule decode_encoded_path)
  show "decode_passes pct_decode MAX_DECODE_PASSES (without_query ?e) = Some p"
  proof (cases "CHR ''%'' \<in> set ?e")
    case True
    with p have "p \<noteq> ?e" by auto
    with True d p show ?thesis by (simp add: e MAX_DECODE_PASSES_def numeral_3_eq_3)
  next
    case False
    then have "pct_decode ?e = Some ?e" using encode_path_utf8 by (intro decode_plain)
    with d have "?e = p" by simp
    moreover have "decode_passes pct_decode MAX_DECODE_PASSES (without_query ?e) = Some ?e"
      unfolding e using False by simp
    ultimately show ?thesis by simp
  qed
qed

lemma canonicalize_utf8:
  assumes "is_utf8 raw" "canonicalize_proxy_path pct_decode raw = Some p"
  shows "is_utf8 p"
proof -
  have wq: "is_utf8 (without_query raw)"
    unfolding without_query_def
    using is_utf8_split_on [OF assms(1), of "CHR ''?''"]
      is_utf8_split_on [of "hd (split_on CHR ''?'' raw)" "CHR ''#''"] by simp
  have "decode_passes pct_decode n s = Some d \<Longrightarrow> is_utf8 s \<Longrightarrow> is_utf8 d" for n s d
    by (induction n arbitrary: s) (auto split: if_splits option.splits dest: decode_utf8)
  then obtain d where "is_utf8 d" "p = join ''/'' (path_segments d)"
    using assms wq by (auto simp: canonicalize_proxy_path_def split: option.splits if_splits)
  then show ?thesis
    using is_utf8_split_on [of d "CHR ''/''"]
    by (auto intro!: is_utf8_join simp: path_segments_def)
qed

end

text \<open>The codec of RFC 3986, section 2.1, on which the interface is interpreted.\<close>

definition hex_digit :: "nat \<Rightarrow> char" where
  "hex_digit n = char_of (if n < 10 then 48 + n else 55 + n)"

definition hex_value :: "char \<Rightarrow> nat option" where
  "hex_value c = (if is_ascii_digit c then Some (byte c - 48)
     else if 65 \<le> byte c \<and> byte c \<le> 70 then Some (byte c - 55)
     else if 97 \<le> byte c \<and> byte c \<le> 102 then Some (byte c - 87) else None)"

definition rfc_encode :: "(char \<Rightarrow> bool) \<Rightarrow> string \<Rightarrow> string" where
  "rfc_encode S s = concat (map (\<lambda>c. if S c \<or> byte c \<ge> 128
     then [CHR ''%'', hex_digit (byte c div 16), hex_digit (byte c mod 16)] else [c]) s)"

definition escape_of :: "char \<Rightarrow> string \<Rightarrow> char option" where
  "escape_of c s = (if c \<noteq> CHR ''%'' then None else case s of
     h # l # _ \<Rightarrow> (case (hex_value h, hex_value l) of
                      (Some a, Some b) \<Rightarrow> Some (char_of (16 * a + b)) | _ \<Rightarrow> None)
   | _ \<Rightarrow> None)"

fun rfc_bytes :: "string \<Rightarrow> string" where
  "rfc_bytes [] = []"
| "rfc_bytes (c # s) =
     (case escape_of c s of
        Some b \<Rightarrow> b # rfc_bytes (drop 2 s)
      | None \<Rightarrow> c # rfc_bytes s)"

definition rfc_decode :: "string \<Rightarrow> string option" where
  "rfc_decode s = (if is_utf8 (rfc_bytes s) then Some (rfc_bytes s) else None)"

lemma hex_value_digit [simp]: "n < 16 \<Longrightarrow> hex_value (hex_digit n) = Some n"
  by (auto simp: hex_value_def hex_digit_def is_ascii_digit_def)

lemma hex_upper_digit [simp]: "n < 16 \<Longrightarrow> hex_upper (hex_digit n)"
  by (auto simp: hex_upper_def hex_digit_def is_ascii_digit_def)

lemma hex_upper_ascii: "hex_upper c \<Longrightarrow> byte c < 128"
  by (auto simp: hex_upper_def is_ascii_digit_def)

lemma hex_value_slash [simp]: "hex_value CHR ''/'' = None"
  by (simp add: hex_value_def is_ascii_digit_def)

lemma escape_of_slash:
  "escape_of c (s @ CHR ''/'' # b) = escape_of c s"
  by (auto simp: escape_of_def split: list.splits option.splits)

lemma escape_of_long: "escape_of c s = Some b \<Longrightarrow> 2 \<le> length s"
  by (auto simp: escape_of_def split: list.splits if_splits)

lemma rfc_bytes_plain: "CHR ''%'' \<notin> set s \<Longrightarrow> rfc_bytes s = s"
  by (induction s) (auto simp: escape_of_def)

lemma rfc_bytes_slash: "rfc_bytes (a @ CHR ''/'' # b) = rfc_bytes a @ CHR ''/'' # rfc_bytes b"
proof (induction a rule: rfc_bytes.induct)
  case 1
  show ?case by (simp add: escape_of_def)
next
  case (2 c s)
  show ?case
  proof (cases "escape_of c s")
    case None
    with 2 show ?thesis by (simp add: escape_of_slash)
  next
    case (Some x)
    with 2 escape_of_long [OF Some] show ?thesis by (simp add: escape_of_slash)
  qed
qed

lemma rfc_bytes_encode:
  assumes "S CHR ''%''"
  shows "rfc_bytes (rfc_encode S s) = s"
proof (induction s)
  case (Cons c s)
  have c: "byte c div 16 < 16" using byte_lt [of c] by linarith
  show ?case
  proof (cases "S c \<or> byte c \<ge> 128")
    case True
    have "rfc_encode S (c # s) =
        CHR ''%'' # hex_digit (byte c div 16) # hex_digit (byte c mod 16) # rfc_encode S s"
      using True by (simp add: rfc_encode_def)
    moreover have "escape_of CHR ''%''
        (hex_digit (byte c div 16) # hex_digit (byte c mod 16) # rfc_encode S s) = Some c"
      using c by (simp add: escape_of_def)
    ultimately show ?thesis using Cons.IH by simp
  next
    case False
    with assms have "c \<noteq> CHR ''%''" by auto
    then have "escape_of c t = None" for t by (simp add: escape_of_def)
    moreover have "rfc_encode S (c # s) = c # rfc_encode S s"
      using False by (simp add: rfc_encode_def)
    ultimately show ?thesis using Cons.IH by simp
  qed
qed (simp add: rfc_encode_def)

lemma rfc_encode_chars:
  "c \<in> set (rfc_encode S s) \<Longrightarrow>
   c = CHR ''%'' \<or> hex_upper c \<or> (c \<in> set s \<and> \<not> S c \<and> byte c < 128)"
proof (induction s)
  case (Cons d s)
  have "byte d div 16 < 16" using byte_lt [of d] by linarith
  with Cons show ?case by (auto simp: rfc_encode_def split: if_splits)
qed (simp add: rfc_encode_def)

interpretation rfc3986: percent_codec rfc_decode rfc_encode
proof unfold_locales
  fix c S s
  assume c: "c \<in> set (rfc_encode S s)"
  show "c = CHR ''%'' \<or> hex_upper c \<or> (c \<in> set s \<and> \<not> S c)"
    using rfc_encode_chars [OF c] by blast
  show "byte c < 128"
    using rfc_encode_chars [OF c] hex_upper_ascii [of c] by auto
next
  fix a x b y
  assume "rfc_decode a = Some x" "rfc_decode b = Some y"
  then show "rfc_decode (a @ CHR ''/'' # b) = Some (x @ CHR ''/'' # y)"
    using is_utf8_append [of x "CHR ''/'' # y"]
    by (auto simp: rfc_decode_def rfc_bytes_slash split: if_splits)
qed (auto simp: rfc_decode_def rfc_bytes_plain rfc_bytes_encode split: if_splits)

section \<open>Properties\<close>



text \<open>C35: a path the gateway accepts survives transmission. For any codec with the
  documented laws, decoding the URI path sent upstream gives exactly the string
  the deny-list and the routes were matched against, and a second gateway behind
  this one canonicalizes it to the same string.\<close>

theorem encode_canonicalize_roundtrip:
  assumes "percent_codec pct_decode pct_encode"
    and "is_utf8 raw"
    and "canonicalize_proxy_path pct_decode raw = Some p"
  shows "pct_decode (encode_path_segments pct_encode p) = Some p
    \<and> canonicalize_proxy_path pct_decode (encode_path_segments pct_encode p) = Some p"
  using assms percent_codec.canonicalize_encoded [OF assms(1)]
    percent_codec.decode_encoded_path [OF assms(1)]
    percent_codec.canonicalize_utf8 [OF assms] canonicalize_canonical
  by blast

theorem encode_canonicalize_roundtrip_witness:
  "percent_codec rfc_decode rfc_encode
   \<and> canonicalize_proxy_path rfc_decode ''/files/a%20b'' = Some ''files/a b''
   \<and> canonicalize_proxy_path rfc_decode (encode_path_segments rfc_encode ''files/a b'')
       = Some ''files/a b''"
proof -
  have c: "canonicalize_proxy_path rfc_decode ''/files/a%20b'' = Some ''files/a b''"
    by code_simp
  have u: "is_utf8 ''/files/a%20b''" by code_simp
  show ?thesis
    using c encode_canonicalize_roundtrip [OF rfc3986.percent_codec_axioms u c]
      rfc3986.percent_codec_axioms by blast
qed

end
