(* ===== verification/Retry.thy ===== *)
theory Retry
  imports Rust_Prelude
begin

text \<open>
  Retrying a failed upstream attempt (\<open>retry.rs\<close>, with its configuration from
  \<open>config/mod.rs\<close>), and the two hooks of \<open>proxy.rs\<close> that apply it:
  \<open>fail_to_connect\<close> when no connection was established, \<open>error_while_proxy\<close>
  when it broke afterwards. The hooks see the part \<open>retry_ctx\<close> of the request
  context; that the body is still replayable and whether the connection was a
  reused one are facts of the proxy library, and arguments.
\<close>

section \<open>Policy\<close>

definition IDEMPOTENT :: "string list" where
  "IDEMPOTENT = [''GET'', ''HEAD'', ''OPTIONS'', ''TRACE'', ''PUT'', ''DELETE'']"

definition is_idempotent :: "string \<Rightarrow> bool" where
  "is_idempotent method = list_ex (\<lambda>m. eq_ignore_ascii_case m method) IDEMPOTENT"

datatype failure = Connect | Transport

datatype retry_on = ConnectionFailure | TransportError

text \<open>\<open>RetryOn::deserialize\<close> of a name; a number is refused before this.\<close>

definition parse_retry_on :: "string \<Rightarrow> retry_on option" where
  "parse_retry_on name =
     (if name = ''connection_failure'' then Some ConnectionFailure
      else if name = ''transport_error'' then Some TransportError else None)"

record retry_config =
  rt_attempts :: nat
  rt_on :: "retry_on list"
  rt_non_idempotent :: bool

record policy =
  pol_attempts :: nat
  pol_on_connect :: bool
  pol_on_transport :: bool
  pol_non_idempotent :: bool

definition from_config :: "retry_config \<Rightarrow> policy" where
  "from_config cfg = \<lparr> pol_attempts = rt_attempts cfg,
     pol_on_connect = (ConnectionFailure \<in> set (rt_on cfg)),
     pol_on_transport = (TransportError \<in> set (rt_on cfg)),
     pol_non_idempotent = rt_non_idempotent cfg \<rparr>"

definition should_retry :: "policy \<Rightarrow> failure \<Rightarrow> nat \<Rightarrow> string \<Rightarrow> bool \<Rightarrow> bool" where
  "should_retry pol fail attempts_made method body_replayable =
     (if attempts_made \<ge> pol_attempts pol \<or> \<not> body_replayable then False
      else case fail of
             Connect \<Rightarrow> pol_on_connect pol
           | Transport \<Rightarrow> pol_on_transport pol \<and> (pol_non_idempotent pol \<or> is_idempotent method))"

section \<open>The hooks\<close>

record retry_ctx =
  rx_retry :: "policy option"
  rx_attempts :: nat
  rx_dns_attempts :: nat
  rx_dns_failovers :: nat
  rx_dns_candidates :: nat
  rx_method :: string

text \<open>The result is whether the attempt is repeated, with the new context.
  \<open>already\<close> is the error's own retry mark, which \<open>fail_to_connect\<close> can only
  raise.\<close>

definition fail_to_connect :: "bool \<Rightarrow> bool \<Rightarrow> retry_ctx \<Rightarrow> bool \<times> retry_ctx" where
  "fail_to_connect already replayable ctx =
     (if replayable \<and> sat_add U64_MAX (rx_dns_failovers ctx) 1 < rx_dns_candidates ctx
      then (True, ctx \<lparr> rx_dns_failovers := sat_add U64_MAX (rx_dns_failovers ctx) 1,
                        rx_dns_attempts := sat_add U32_MAX (rx_dns_attempts ctx) 1 \<rparr>)
      else case rx_retry ctx of
             None \<Rightarrow> (already, ctx)
           | Some pol \<Rightarrow>
               if should_retry pol Connect (rx_attempts ctx) (rx_method ctx) replayable
               then (True, ctx \<lparr> rx_attempts := sat_add U32_MAX (rx_attempts ctx) 1,
                                 rx_dns_attempts := sat_add U32_MAX (rx_dns_attempts ctx) 1 \<rparr>)
               else (already, ctx))"

text \<open>\<open>decide_reuse\<close> settles the mark of an error that may be retried only on a
  reused connection; \<open>mark\<close> is that mark afterwards.\<close>

definition error_while_proxy :: "bool \<Rightarrow> bool \<Rightarrow> retry_ctx \<Rightarrow> bool \<times> retry_ctx" where
  "error_while_proxy mark replayable ctx =
     (case rx_retry ctx of
        None \<Rightarrow> (mark, ctx)
      | Some pol \<Rightarrow>
          if \<not> mark then (mark, ctx)
          else if should_retry pol Transport (rx_attempts ctx) (rx_method ctx) replayable
          then (mark, ctx \<lparr> rx_attempts := sat_add U32_MAX (rx_attempts ctx) 1 \<rparr>)
          else (False, ctx))"

section \<open>Attempts of one request\<close>

text \<open>One request meets failures one after the other for as long as they are
  retried. A connect error carries no retry mark of its own.\<close>

datatype attempt = ConnectFails bool | TransportFails bool bool

fun attempt_step :: "attempt \<Rightarrow> retry_ctx \<Rightarrow> bool \<times> retry_ctx" where
  "attempt_step (ConnectFails replayable) ctx = fail_to_connect False replayable ctx"
| "attempt_step (TransportFails mark replayable) ctx = error_while_proxy mark replayable ctx"

fun retries :: "attempt list \<Rightarrow> retry_ctx \<Rightarrow> nat" where
  "retries [] ctx = 0"
| "retries (a # as) ctx =
     (case attempt_step a ctx of
        (True, ctx1) \<Rightarrow> Suc (retries as ctx1)
      | (False, _) \<Rightarrow> 0)"

text \<open>What is left of the two budgets, the policy's and the DNS answer's.\<close>

definition budget :: "policy \<Rightarrow> retry_ctx \<Rightarrow> nat" where
  "budget pol ctx = (pol_attempts pol - rx_attempts ctx)
                    + (rx_dns_candidates ctx - 1 - rx_dns_failovers ctx)"

lemma attempt_step_budget:
  assumes "attempt_step a ctx = (True, ctx1)" "rx_retry ctx = Some pol"
    and "pol_attempts pol \<le> U32_MAX" "rx_dns_candidates ctx \<le> U64_MAX"
  shows "budget pol ctx1 < budget pol ctx \<and> rx_retry ctx1 = Some pol
    \<and> rx_dns_candidates ctx1 = rx_dns_candidates ctx"
proof (cases a)
  case (ConnectFails r)
  then show ?thesis using assms
    by (auto simp: fail_to_connect_def should_retry_def budget_def sat_add_def split: if_splits)
next
  case (TransportFails m r)
  then show ?thesis using assms
    by (auto simp: error_while_proxy_def should_retry_def budget_def sat_add_def split: if_splits)
qed

lemma retries_bounded:
  assumes "rx_retry ctx = Some pol" "pol_attempts pol \<le> U32_MAX" "rx_dns_candidates ctx \<le> U64_MAX"
  shows "retries as ctx \<le> budget pol ctx"
  using assms
proof (induction as arbitrary: ctx)
  case (Cons a as)
  obtain r ctx1 where s: "attempt_step a ctx = (r, ctx1)" by fastforce
  show ?case
  proof (cases r)
    case True
    then have st: "attempt_step a ctx = (True, ctx1)" using s by simp
    have b: "budget pol ctx1 < budget pol ctx" "rx_retry ctx1 = Some pol"
      "rx_dns_candidates ctx1 = rx_dns_candidates ctx"
      using attempt_step_budget [OF st Cons.prems] by auto
    have "retries as ctx1 \<le> budget pol ctx1"
      using Cons.IH [OF b(2) Cons.prems(2)] Cons.prems(3) b(3) by simp
    then show ?thesis using b(1) s True by simp
  qed (use s in simp)
qed simp

section \<open>Properties\<close>

text \<open>A request that may have reached the upstream is repeated only when
  repeating it is safe: after a transport error, a route with a retry policy
  retries only if the policy asks for it, the whole body can be sent again, and
  the method is idempotent or the route declares duplicates harmless.\<close>

theorem transport_retry_safe:
  assumes "error_while_proxy mark replayable ctx = (True, ctx')" "rx_retry ctx = Some pol"
  shows "mark \<and> replayable \<and> pol_on_transport pol
    \<and> (pol_non_idempotent pol \<or> is_idempotent (rx_method ctx))
    \<and> rx_attempts ctx < pol_attempts pol"
  using assms by (auto simp: error_while_proxy_def should_retry_def split: if_splits)

definition sample_retry_ctx :: "string \<Rightarrow> retry_ctx" where
  "sample_retry_ctx method = \<lparr>
     rx_retry = Some (from_config \<lparr> rt_attempts = 2, rt_on = [ConnectionFailure, TransportError],
                                    rt_non_idempotent = False \<rparr>),
     rx_attempts = 0, rx_dns_attempts = 0, rx_dns_failovers = 0, rx_dns_candidates = 2,
     rx_method = method \<rparr>"

theorem transport_retry_safe_witness:
  "fst (error_while_proxy True True (sample_retry_ctx ''GET''))
   \<and> \<not> fst (error_while_proxy True True (sample_retry_ctx ''POST''))
   \<and> is_idempotent (rx_method (sample_retry_ctx ''GET''))"
proof -
  let ?r = "error_while_proxy True True (sample_retry_ctx ''GET'')"
  have i: "is_idempotent ''GET''" "\<not> is_idempotent ''POST''" by code_simp+
  have g: "fst ?r" and p: "\<not> fst (error_while_proxy True True (sample_retry_ctx ''POST''))"
    using i by (simp_all add: error_while_proxy_def should_retry_def sample_retry_ctx_def from_config_def)
  obtain ctx' where r: "?r = (True, ctx')" using g by (cases ?r) auto
  obtain pol where pol: "rx_retry (sample_retry_ctx ''GET'') = Some pol" "\<not> pol_non_idempotent pol"
    by (simp add: sample_retry_ctx_def from_config_def)
  show ?thesis using g p transport_retry_safe [OF r pol(1)] pol(2) by blast
qed



end
