(* ===== verification/Binding.thy ===== *)
theory Binding
  imports Auth
begin

text \<open>
  Binding a request value to the verified caller (\<open>binding.rs\<close>). The
  \<open>percent_encoding\<close> crate's decoder is the parameter \<open>pct_decode\<close>, as in
  \<open>Paths\<close>.
\<close>

section \<open>Operations\<close>

datatype bind_source = SourceQuery string | SourceHeader string

datatype bind_target = TargetSubject | TargetClaim string

record binding =
  b_source :: bind_source
  b_target :: bind_target

definition parse_source :: "string \<Rightarrow> (bind_source, string) result" where
  "parse_source source =
     (case split_once CHR ''.'' source of
        Some (kind, name) \<Rightarrow>
          if kind = ''query'' \<and> name \<noteq> [] then Inr (SourceQuery name)
          else if kind = ''header'' \<and> name \<noteq> [] then Inr (SourceHeader (to_ascii_lowercase name))
          else Inl (''`'' @ source @ ''` is not a bindable source; expected `query.<name>` or `header.<name>`'')
      | None \<Rightarrow>
          Inl (''`'' @ source @ ''` is not a bindable source; expected `query.<name>` or `header.<name>`''))"

definition parse_target :: "string \<Rightarrow> (bind_target, string) result" where
  "parse_target target =
     (if target = ''identity.subject'' \<or> target = ''identity.sub'' then Inr TargetSubject
      else case strip_prefix ''identity.'' target of
             Some claim \<Rightarrow>
               if claim \<noteq> [] then Inr (TargetClaim claim)
               else Inl (''`'' @ target @ ''` is not a bindable target; expected `identity.subject` or `identity.<claim>`'')
           | None \<Rightarrow>
               Inl (''`'' @ target @ ''` is not a bindable target; expected `identity.subject` or `identity.<claim>`''))"

definition binding_parse :: "string \<Rightarrow> string \<Rightarrow> (binding, string) result" where
  "binding_parse source target =
     (case parse_source source of
        Inl e \<Rightarrow> Inl e
      | Inr src \<Rightarrow>
          (case parse_target target of
             Inl e \<Rightarrow> Inl e
           | Inr tgt \<Rightarrow> Inr \<lparr> b_source = src, b_target = tgt \<rparr>))"

definition percent_decode :: "(string \<Rightarrow> string option) \<Rightarrow> string \<Rightarrow> string option" where
  "percent_decode pct_decode s = pct_decode (map (\<lambda>c. if c = CHR ''+'' then CHR '' '' else c) s)"

definition split_pair :: "string \<Rightarrow> string \<times> string" where
  "split_pair pair = (case split_once CHR ''='' pair of Some kv \<Rightarrow> kv | None \<Rightarrow> (pair, []))"

fun query_param_loop ::
  "(string \<Rightarrow> string option) \<Rightarrow> string \<Rightarrow> string list \<Rightarrow> string option \<Rightarrow> string option" where
  "query_param_loop pct_decode name [] found = found"
| "query_param_loop pct_decode name (pair # pairs) found =
     (let (k, v) = split_pair pair in
      case percent_decode pct_decode k of
        None \<Rightarrow> None
      | Some key \<Rightarrow>
          if key = name then
            (if found \<noteq> None then None
             else case percent_decode pct_decode v of
                    None \<Rightarrow> None
                  | Some w \<Rightarrow> query_param_loop pct_decode name pairs (Some w))
          else query_param_loop pct_decode name pairs found)"

definition query_param :: "(string \<Rightarrow> string option) \<Rightarrow> string \<Rightarrow> string \<Rightarrow> string option" where
  "query_param pct_decode query name =
     query_param_loop pct_decode name (split_on CHR ''&'' query) None"

definition scalar_to_string :: "json \<Rightarrow> string option" where
  "scalar_to_string v = (case v of
     JString s \<Rightarrow> Some s
   | JNumber n \<Rightarrow> Some n
   | JBool b \<Rightarrow> Some (if b then ''true'' else ''false'')
   | JNull \<Rightarrow> None | JArray _ \<Rightarrow> None | JObject _ \<Rightarrow> None)"

definition supplied ::
  "(string \<Rightarrow> string option) \<Rightarrow> binding \<Rightarrow> string option \<Rightarrow> (string \<Rightarrow> string option) \<Rightarrow> string option" where
  "supplied pct_decode b query header =
     (case b_source b of
        SourceQuery name \<Rightarrow> Option.bind query (\<lambda>q. query_param pct_decode q name)
      | SourceHeader name \<Rightarrow> header name)"

definition proven :: "binding \<Rightarrow> identity \<Rightarrow> string option" where
  "proven b ident =
     (case b_target b of
        TargetSubject \<Rightarrow> Some (id_subject ident)
      | TargetClaim path \<Rightarrow> Option.bind (claim_at ident path) scalar_to_string)"

definition permits ::
  "(string \<Rightarrow> string option) \<Rightarrow> binding \<Rightarrow> identity \<Rightarrow> string option \<Rightarrow>
   (string \<Rightarrow> string option) \<Rightarrow> bool" where
  "permits pct_decode b ident query header =
     (case (supplied pct_decode b query header, proven b ident) of
        (Some s, Some p) \<Rightarrow> s = p
      | _ \<Rightarrow> False)"

definition describe_source :: "bind_source \<Rightarrow> string" where
  "describe_source s = (case s of SourceQuery n \<Rightarrow> ''query.'' @ n | SourceHeader n \<Rightarrow> ''header.'' @ n)"

definition describe_target :: "bind_target \<Rightarrow> string" where
  "describe_target t = (case t of TargetSubject \<Rightarrow> ''identity.subject'' | TargetClaim c \<Rightarrow> ''identity.'' @ c)"

definition describe :: "binding \<Rightarrow> string" where
  "describe b = describe_source (b_source b) @ '' == '' @ describe_target (b_target b)"

section \<open>Reading one parameter\<close>

text \<open>The pairs whose decoded key is the parameter's name.\<close>

definition named_pairs :: "(string \<Rightarrow> string option) \<Rightarrow> string \<Rightarrow> string list \<Rightarrow> string list" where
  "named_pairs pct_decode name pairs =
     filter (\<lambda>p. percent_decode pct_decode (fst (split_pair p)) = Some name) pairs"

lemma query_param_loop_Some:
  "query_param_loop pct_decode name pairs found = Some v \<Longrightarrow>
   list_all (\<lambda>p. percent_decode pct_decode (fst (split_pair p)) \<noteq> None) pairs \<and>
   (case found of
      Some w \<Rightarrow> w = v \<and> named_pairs pct_decode name pairs = []
    | None \<Rightarrow> \<exists>p. named_pairs pct_decode name pairs = [p] \<and>
                  percent_decode pct_decode (snd (split_pair p)) = Some v)"
proof (induction pairs arbitrary: found)
  case Nil
  then show ?case by (simp add: named_pairs_def)
next
  case (Cons pair pairs)
  obtain k w where kw: "split_pair pair = (k, w)" by fastforce
  obtain key where key: "percent_decode pct_decode k = Some key"
    using Cons.prems kw by (auto split: option.splits)
  show ?case
  proof (cases "key = name")
    case True
    then obtain x where "found = None" "percent_decode pct_decode w = Some x"
      "query_param_loop pct_decode name pairs (Some x) = Some v"
      using Cons.prems kw key by (auto split: if_splits option.splits)
    with Cons.IH [of "Some x"] True kw key show ?thesis
      by (auto simp: named_pairs_def)
  next
    case False
    then have "query_param_loop pct_decode name pairs found = Some v"
      using Cons.prems kw key by simp
    with Cons.IH [of found] False kw key show ?thesis
      by (auto simp: named_pairs_def split: option.splits)
  qed
qed

section \<open>Properties\<close>


definition sample_identity :: identity where
  "sample_identity = \<lparr> id_subject = ''u1'', id_issuer = ''iss'', id_audience = ''aud'',
     id_claims = [(''company_id'', JNumber ''11'')] \<rparr>"

definition sample_binding :: binding where
  "sample_binding = \<lparr> b_source = SourceQuery ''merchantId'', b_target = TargetClaim ''companyId'' \<rparr>"


text \<open>What a binding reports about itself is the configuration that produces it:
  parsing the two halves of the description of a parsed binding gives the binding
  back.\<close>

theorem binding_describe_roundtrip:
  assumes "binding_parse source target = Inr b"
  shows "binding_parse (describe_source (b_source b)) (describe_target (b_target b)) = Inr b"
proof -
  obtain src tgt where p: "parse_source source = Inr src" "parse_target target = Inr tgt"
    "b = \<lparr> b_source = src, b_target = tgt \<rparr>"
    using assms by (auto simp: binding_parse_def split: sum.splits)
  have "parse_source (describe_source src) = Inr src"
  proof -
    have "split_once CHR ''.'' (''query.'' @ n) = Some (''query'', n)"
      "split_once CHR ''.'' (''header.'' @ n) = Some (''header'', n)" for n
      by simp_all
    then show ?thesis
      using p(1) by (auto simp: parse_source_def describe_source_def split: option.splits if_splits)
  qed
  moreover have "parse_target (describe_target tgt) = Inr tgt"
    using p(2)
    by (auto simp: parse_target_def describe_target_def strip_prefix_Some_iff
        split: option.splits if_splits)
  ultimately show ?thesis using p(3) by (simp add: binding_parse_def)
qed

theorem binding_describe_roundtrip_witness:
  "binding_parse ''query.merchantId'' ''identity.companyId'' = Inr sample_binding
   \<and> binding_parse (describe_source (b_source sample_binding))
        (describe_target (b_target sample_binding)) = Inr sample_binding"
proof -
  have p: "binding_parse ''query.merchantId'' ''identity.companyId'' = Inr sample_binding"
    by code_simp
  show ?thesis using p binding_describe_roundtrip [OF p] by blast
qed

end
