(* ===== verification/Shared_Counters.thy ===== *)
theory Shared_Counters
  imports Ratelimit "HOL-Library.Multiset" "HOL-Library.AList"
begin

text \<open>
  Cluster-wide counting (\<open>ratelimit/shared.rs\<close>, and the RESP backend of
  \<open>ratelimit/resp.rs\<close> as far as its hashes go).

  A shard is shared between the key store, the running pass and a batch in
  flight, so shards live in a heap (a list, addressed by index) and the store and
  the pass hold addresses. A \<open>moka\<close> entry may be evicted at any time: its shard
  stays in the heap for whoever still holds it. Fresh \<open>Uuid\<close>s are arguments. The
  server behind the backend is an interface, \<open>counter_backend\<close>, with the
  contract the \<open>Backend\<close> trait documents; the hash per window that \<open>resp.rs\<close>
  writes with \<open>HSET\<close> and sums with \<open>HVALS\<close> is its instance.
\<close>

section \<open>Windows and shards\<close>

text \<open>\<open>now\<close> is in nanoseconds since the epoch and may be negative.\<close>

definition position :: "int \<Rightarrow> duration \<Rightarrow> (nat \<times> rat) option" where
  "position now width =
     (if now < 0 then None
      else if width = 0 then None
      else
        (let elapsed = nat now; bucket = elapsed div width in
         if U64_MAX < bucket then None
         else Some (bucket, clamp01 (f64_round (f64_round (of_nat (elapsed mod width))
                                                / f64_round (of_nat width))))))"

record shard =
  sh_source :: nat
  sh_bucket :: nat
  sh_own_current :: nat
  sh_own_previous :: nat
  sh_remote_current :: nat
  sh_remote_previous :: nat

definition shard_new :: "nat \<Rightarrow> shard" where
  "shard_new source = \<lparr> sh_source = source, sh_bucket = 0, sh_own_current = 0,
     sh_own_previous = 0, sh_remote_current = 0, sh_remote_previous = 0 \<rparr>"

definition roll_to :: "nat \<Rightarrow> shard \<Rightarrow> shard" where
  "roll_to bucket s =
     (if bucket \<le> sh_bucket s then s
      else
        (let s1 = (if bucket = sat_add U64_MAX (sh_bucket s) 1
                   then s \<lparr> sh_own_previous := sh_own_current s,
                            sh_remote_previous := sh_remote_current s \<rparr>
                   else s \<lparr> sh_own_previous := 0, sh_remote_previous := 0 \<rparr>) in
         s1 \<lparr> sh_own_current := 0, sh_remote_current := 0, sh_bucket := bucket \<rparr>))"

definition shard_check :: "nat \<Rightarrow> rat \<Rightarrow> nat \<Rightarrow> duration \<Rightarrow> shard \<Rightarrow> decision \<times> shard" where
  "shard_check bucket progress limit interval s =
     (let s1 = roll_to bucket s;
          previous = sat_add U64_MAX (sh_own_previous s1) (sh_remote_previous s1);
          current = sat_add U64_MAX (sh_own_current s1) (sh_remote_current s1);
          d = decide previous current progress limit interval in
      (d, if d_allowed d then s1 \<lparr> sh_own_current := sat_add U64_MAX (sh_own_current s1) 1 \<rparr> else s1))"

section \<open>The counters of a limiter\<close>

record publish =
  p_source :: nat
  p_key :: string
  p_bucket :: nat
  p_own_current :: nat
  p_own_previous :: nat
  p_interval :: duration

record totals =
  t_current :: nat
  t_previous :: nat

datatype backend_error = BackendUnavailable string | BackendTimeout duration | BackendProtocol string

type_synonym entry = "string \<times> nat"

record shared_counters =
  sc_heap :: "shard list"
  sc_shards :: "entry list"
  sc_backend :: nat
  sc_prefix :: string
  sc_interval :: duration
  sc_limit :: nat
  sc_batch :: nat
  sc_pass :: "entry list"

record batch =
  ba_publishes :: "publish list"
  ba_entries :: "entry list"

record shared_counters_config =
  scc_url :: string
  scc_sync :: duration
  scc_prefix :: string
  scc_timeout :: duration
  scc_max_keys_per_sync :: nat

definition counters_same_backend :: "shared_counters \<Rightarrow> shared_counters \<Rightarrow> bool" where
  "counters_same_backend a b =
     (sc_backend a = sc_backend b \<and> sc_prefix a = sc_prefix b \<and> sc_batch a = sc_batch b)"

definition counters_new :: "rate_limit_config \<Rightarrow> shared_counters_config \<Rightarrow> nat \<Rightarrow> shared_counters" where
  "counters_new cfg shared backend = \<lparr> sc_heap = [], sc_shards = [], sc_backend = backend,
     sc_prefix = scc_prefix shared, sc_interval = rl_interval cfg, sc_limit = rl_requests cfg,
     sc_batch = scc_max_keys_per_sync shared, sc_pass = [] \<rparr>"

text \<open>\<open>get_with_by_ref\<close>: the key's shard, or a new one under a fresh source.\<close>

definition shard_for :: "nat \<Rightarrow> string \<Rightarrow> shared_counters \<Rightarrow> nat \<times> shared_counters" where
  "shard_for source key sc =
     (case map_of (sc_shards sc) key of
        Some a \<Rightarrow> (a, sc)
      | None \<Rightarrow>
          (length (sc_heap sc),
           sc \<lparr> sc_heap := sc_heap sc @ [shard_new source],
                sc_shards := sc_shards sc @ [(key, length (sc_heap sc))] \<rparr>))"

definition counters_check_at :: "nat \<Rightarrow> string \<Rightarrow> int \<Rightarrow> shared_counters \<Rightarrow> decision \<times> shared_counters" where
  "counters_check_at source key now sc =
     (case position now (sc_interval sc) of
        None \<Rightarrow> (decision_allow (sc_limit sc) (sc_limit sc - 1), sc)
      | Some (bucket, progress) \<Rightarrow>
          (let (a, sc1) = shard_for source key sc;
               (d, s) = shard_check bucket progress (sc_limit sc) (sc_interval sc) (sc_heap sc1 ! a) in
           (d, sc1 \<lparr> sc_heap := (sc_heap sc1)[a := s] \<rparr>)))"

definition cache_key :: "shared_counters \<Rightarrow> string \<Rightarrow> string" where
  "cache_key sc key = sc_prefix sc @ key"

text \<open>Eviction by the cache.\<close>

definition evict :: "string \<Rightarrow> shared_counters \<Rightarrow> shared_counters" where
  "evict key sc = sc \<lparr> sc_shards := filter (\<lambda>(k, _). k \<noteq> key) (sc_shards sc) \<rparr>"

definition snapshot :: "shared_counters \<Rightarrow> shard list \<Rightarrow> entry \<Rightarrow> publish" where
  "snapshot sc heap e =
     (let s = heap ! snd e in
      \<lparr> p_source = sh_source s, p_key = cache_key sc (fst e), p_bucket = sh_bucket s,
        p_own_current = sh_own_current s, p_own_previous = sh_own_previous s,
        p_interval = sc_interval sc \<rparr>)"

definition roll_entries :: "nat \<Rightarrow> entry list \<Rightarrow> shard list \<Rightarrow> shard list" where
  "roll_entries bucket es heap = fold (\<lambda>(_, a) h. h[a := roll_to bucket (h ! a)]) es heap"

definition pending :: "int \<Rightarrow> shared_counters \<Rightarrow> batch \<times> shared_counters" where
  "pending now sc =
     (case position now (sc_interval sc) of
        None \<Rightarrow> (\<lparr> ba_publishes = [], ba_entries = [] \<rparr>, sc)
      | Some (bucket, _) \<Rightarrow>
          (let pass = (if sc_pass sc = [] then sc_shards sc else sc_pass sc);
               keep = length pass - sc_batch sc;
               entries = drop keep pass;
               heap = roll_entries bucket entries (sc_heap sc) in
           (\<lparr> ba_publishes = map (snapshot sc heap) entries, ba_entries = entries \<rparr>,
            sc \<lparr> sc_pass := take keep pass, sc_heap := heap \<rparr>)))"

definition apply_one :: "publish \<Rightarrow> totals \<Rightarrow> shard \<Rightarrow> shard" where
  "apply_one p tot s =
     (if sh_source s \<noteq> p_source p then s
      else if sh_bucket s = sat_add U64_MAX (p_bucket p) 1
      then s \<lparr> sh_remote_previous := t_current tot - p_own_current p \<rparr>
      else if sh_bucket s \<noteq> p_bucket p then s
      else s \<lparr> sh_remote_current := t_current tot - p_own_current p,
               sh_remote_previous := t_previous tot - p_own_previous p \<rparr>)"

definition apply_totals :: "batch \<Rightarrow> totals list \<Rightarrow> shared_counters \<Rightarrow> shared_counters" where
  "apply_totals b ts sc =
     (if length (ba_publishes b) \<noteq> length ts then sc
      else sc \<lparr> sc_heap := fold (\<lambda>((p, (_, a)), tot) h. h[a := apply_one p tot (h ! a)])
                            (zip (zip (ba_publishes b) (ba_entries b)) ts) (sc_heap sc) \<rparr>)"

definition sync_once ::
  "('b \<Rightarrow> publish list \<Rightarrow> (totals list, backend_error) result \<times> 'b) \<Rightarrow>
   int \<Rightarrow> 'b \<Rightarrow> shared_counters \<Rightarrow> bool \<times> 'b \<times> shared_counters" where
  "sync_once reconcile now backend sc =
     (let (b, sc1) = pending now sc in
      if ba_publishes b = [] then (True, backend, sc1)
      else
        (case reconcile backend (ba_publishes b) of
           (Inr ts, backend1) \<Rightarrow>
             if length ts = length (ba_publishes b) then (True, backend1, apply_totals b ts sc1)
             else (True, backend1, sc1 \<lparr> sc_pass := sc_pass sc1 @ ba_entries b \<rparr>)
         | (Inl e, backend1) \<Rightarrow>
             ((case e of BackendUnavailable _ \<Rightarrow> False | BackendTimeout _ \<Rightarrow> False | _ \<Rightarrow> True),
              backend1, sc1 \<lparr> sc_pass := sc_pass sc1 @ ba_entries b \<rparr>)))"

section \<open>One shard\<close>

lemma roll_to_bucket: "sh_bucket (roll_to b s) = max b (sh_bucket s)"
  by (auto simp: roll_to_def Let_def)

lemma roll_to_idem [simp]: "roll_to b (roll_to b s) = roll_to b s"
  by (simp add: roll_to_def [of b "roll_to b s"] roll_to_bucket)

lemma roll_to_source [simp]: "sh_source (roll_to b s) = sh_source s"
  by (auto simp: roll_to_def Let_def)

definition shard_inv :: "nat \<Rightarrow> shard \<Rightarrow> bool" where
  "shard_inv limit s = (sh_own_current s \<le> limit \<and> sh_own_previous s \<le> limit)"

lemma shard_inv_new [simp]: "shard_inv limit (shard_new source)"
  by (simp add: shard_inv_def shard_new_def)

lemma shard_inv_roll: "shard_inv limit s \<Longrightarrow> shard_inv limit (roll_to b s)"
  by (auto simp: shard_inv_def roll_to_def Let_def)

lemma shard_inv_apply: "shard_inv limit s \<Longrightarrow> shard_inv limit (apply_one p t s)"
  by (auto simp: shard_inv_def apply_one_def)

lemma shard_check_cases:
  assumes "shard_check b progress limit interval s = (d, s')" "limit \<le> U64_MAX"
  shows "d_allowed d \<Longrightarrow>
      sh_own_current (roll_to b s) + sh_remote_current (roll_to b s) < limit \<and>
      s' = (roll_to b s) \<lparr> sh_own_current := Suc (sh_own_current (roll_to b s)) \<rparr>"
    and "\<not> d_allowed d \<Longrightarrow> s' = roll_to b s"
proof -
  let ?s = "roll_to b s"
  have d: "d = decide (sat_add U64_MAX (sh_own_previous ?s) (sh_remote_previous ?s))
      (sat_add U64_MAX (sh_own_current ?s) (sh_remote_current ?s)) progress limit interval"
    and s': "s' = (if d_allowed d then ?s \<lparr> sh_own_current := sat_add U64_MAX (sh_own_current ?s) 1 \<rparr> else ?s)"
    using assms(1) by (auto simp: shard_check_def Let_def)
  show "s' = ?s" if "\<not> d_allowed d" using s' that by simp
  assume a: "d_allowed d"
  then have "sat_add U64_MAX (sh_own_current ?s) (sh_remote_current ?s) < limit"
    using decide_allowed_current d by blast
  then have lt: "sh_own_current ?s + sh_remote_current ?s < limit"
    using assms(2) by (auto simp: sat_add_def min_def split: if_splits)
  then have "sat_add U64_MAX (sh_own_current ?s) 1 = Suc (sh_own_current ?s)"
    using assms(2) by (simp add: sat_add_def)
  then show "sh_own_current ?s + sh_remote_current ?s < limit \<and>
      s' = ?s \<lparr> sh_own_current := Suc (sh_own_current ?s) \<rparr>"
    using lt s' a by simp
qed

lemma shard_inv_check:
  "shard_inv limit s \<Longrightarrow> shard_check b progress limit interval s = (d, s') \<Longrightarrow> limit \<le> U64_MAX \<Longrightarrow>
   shard_inv limit s'"
  using shard_check_cases [of b progress limit interval s d s'] shard_inv_roll [of limit s b]
  by (cases "d_allowed d") (auto simp: shard_inv_def)

section \<open>Every shard keeps the limit\<close>

text \<open>What holds of the counters whatever the requests, evictions, publications and
  replies: each key's own count stays within the limit, and every address the
  store or the pass holds is a shard of the heap.\<close>

definition counters_inv :: "shared_counters \<Rightarrow> bool" where
  "counters_inv sc =
     (list_all (shard_inv (sc_limit sc)) (sc_heap sc) \<and>
      list_all (\<lambda>(_, a). a < length (sc_heap sc)) (sc_shards sc @ sc_pass sc) \<and>
      distinct (map fst (sc_shards sc)))"

inductive counters_step :: "shared_counters \<Rightarrow> shared_counters \<Rightarrow> bool" where
  request: "counters_check_at source key now sc = (d, sc') \<Longrightarrow> counters_step sc sc'"
| evicted: "counters_step sc (evict key sc)"
| taken: "pending now sc = (b, sc') \<Longrightarrow> counters_step sc sc'"
| applied: "list_all (\<lambda>(_, a). a < length (sc_heap sc)) (ba_entries b) \<Longrightarrow>
     counters_step sc (apply_totals b ts sc)"
| failed: "list_all (\<lambda>(_, a). a < length (sc_heap sc)) es \<Longrightarrow>
     counters_step sc (sc \<lparr> sc_pass := sc_pass sc @ es \<rparr>)"

lemma fold_update_heap:
  "(\<And>x h. length (f x h) = length h) \<Longrightarrow>
   (\<And>x h. list_all P h \<Longrightarrow> x \<in> set xs \<Longrightarrow> length h = n \<Longrightarrow> list_all P (f x h)) \<Longrightarrow>
   list_all P h \<Longrightarrow> length h = n \<Longrightarrow> list_all P (fold f xs h) \<and> length (fold f xs h) = n"
  by (induction xs arbitrary: h) auto

lemma list_all_update: "list_all P h \<Longrightarrow> (a < length h \<Longrightarrow> P x) \<Longrightarrow> list_all P (h[a := x])"
  by (cases "a < length h") (auto simp: list_all_length nth_list_update)

lemma list_all_map_at: "list_all P h \<Longrightarrow> (\<And>s. P s \<Longrightarrow> P (f s)) \<Longrightarrow> list_all P (h[a := f (h ! a)])"
  by (cases "a < length h") (auto simp: list_all_length nth_list_update)

lemma roll_entries_heap:
  assumes "list_all (shard_inv limit) heap"
  shows "list_all (shard_inv limit) (roll_entries b es heap) \<and> length (roll_entries b es heap) = length heap"
  unfolding roll_entries_def
  by (rule fold_update_heap [of _ _ _ "length heap"])
    (use assms in \<open>auto split: prod.splits intro!: list_all_map_at shard_inv_roll\<close>)

lemma apply_totals_heap:
  assumes "list_all (shard_inv limit) (sc_heap sc)"
  shows "list_all (shard_inv limit) (sc_heap (apply_totals b ts sc))
    \<and> length (sc_heap (apply_totals b ts sc)) = length (sc_heap sc)"
proof (cases "length (ba_publishes b) = length ts")
  case True
  have "list_all (shard_inv limit)
      (fold (\<lambda>((p, (_, a)), tot) h. h[a := apply_one p tot (h ! a)])
         (zip (zip (ba_publishes b) (ba_entries b)) ts) (sc_heap sc))
    \<and> length (fold (\<lambda>((p, (_, a)), tot) h. h[a := apply_one p tot (h ! a)])
         (zip (zip (ba_publishes b) (ba_entries b)) ts) (sc_heap sc)) = length (sc_heap sc)"
    by (rule fold_update_heap)
      (use assms in \<open>auto split: prod.splits intro!: list_all_map_at shard_inv_apply\<close>)
  with True show ?thesis by (simp add: apply_totals_def)
qed (use assms in \<open>simp add: apply_totals_def\<close>)

lemma addresses_grow:
  "list_all (\<lambda>(_, a). a < n) es \<Longrightarrow> (n :: nat) \<le> m \<Longrightarrow> list_all (\<lambda>(_, a). a < m) es"
  by (erule list.pred_mono_strong) auto

lemma counters_inv_shard_for:
  assumes "counters_inv sc" "shard_for source key sc = (a, sc1)"
  shows "counters_inv sc1" "a < length (sc_heap sc1)" "sc_limit sc1 = sc_limit sc"
    "sc_interval sc1 = sc_interval sc"
proof -
  show "counters_inv sc1"
    using assms addresses_grow [of "length (sc_heap sc)" _ "Suc (length (sc_heap sc))"]
    by (auto simp: shard_for_def counters_inv_def map_of_eq_None_iff split: option.splits)
  show "a < length (sc_heap sc1)"
    using assms by (auto simp: shard_for_def counters_inv_def list_all_iff
        split: option.splits dest!: map_of_SomeD)
qed (use assms in \<open>auto simp: shard_for_def split: option.splits\<close>)

lemma counters_inv_check:
  assumes "counters_inv sc" "sc_limit sc \<le> U64_MAX" "counters_check_at source key now sc = (d, sc')"
  shows "counters_inv sc'"
proof (cases "position now (sc_interval sc)")
  case None
  then show ?thesis using assms by (simp add: counters_check_at_def)
next
  case (Some bp)
  obtain b pr where bp: "bp = (b, pr)" by (cases bp)
  obtain a sc1 where f: "shard_for source key sc = (a, sc1)" by fastforce
  note inv1 = counters_inv_shard_for [OF assms(1) f]
  obtain d' s where c: "shard_check b pr (sc_limit sc) (sc_interval sc) (sc_heap sc1 ! a) = (d', s)"
    by fastforce
  have sc': "sc' = sc1 \<lparr> sc_heap := (sc_heap sc1)[a := s] \<rparr>"
    using assms(3) Some bp f c by (simp add: counters_check_at_def)
  have "shard_inv (sc_limit sc) (sc_heap sc1 ! a)"
    using inv1 by (simp add: counters_inv_def list_all_length)
  then have "shard_inv (sc_limit sc) s" using c assms(2) by (rule shard_inv_check)
  then show ?thesis
    using inv1 unfolding sc' by (auto simp: counters_inv_def intro: list_all_update)
qed

lemma counters_inv_pending:
  assumes "counters_inv sc" "pending now sc = (b, sc')"
  shows "counters_inv sc'"
proof (cases "position now (sc_interval sc)")
  case (Some bp)
  obtain bu pr where bp: "bp = (bu, pr)" by (cases bp)
  let ?pass = "if sc_pass sc = [] then sc_shards sc else sc_pass sc"
  let ?keep = "length ?pass - sc_batch sc"
  have sc': "sc' = sc \<lparr> sc_pass := take ?keep ?pass,
      sc_heap := roll_entries bu (drop ?keep ?pass) (sc_heap sc) \<rparr>"
    using assms(2) Some bp unfolding pending_def Let_def by simp
  have "list_all (\<lambda>(_, a). a < length (sc_heap sc)) (take ?keep ?pass)"
    using assms(1) by (auto simp: counters_inv_def list_all_iff dest!: in_set_takeD split: if_splits)
  then show ?thesis
    using assms(1) roll_entries_heap [of "sc_limit sc" "sc_heap sc" bu "drop ?keep ?pass"]
    unfolding sc' counters_inv_def by simp
qed (use assms in \<open>simp add: pending_def\<close>)

lemma counters_inv_step:
  assumes "counters_step sc sc'" "counters_inv sc" "sc_limit sc \<le> U64_MAX"
  shows "counters_inv sc' \<and> sc_limit sc' = sc_limit sc"
  using assms(1)
proof cases
  case (request source key now d)
  then show ?thesis
    using counters_inv_check [OF assms(2,3) request]
    by (auto simp: counters_check_at_def shard_for_def Let_def split: option.splits prod.splits)
next
  case (evicted key)
  then show ?thesis using assms(2)
    by (auto simp: evict_def counters_inv_def list_all_iff distinct_map_filter)
next
  case (taken now b)
  then show ?thesis
    using counters_inv_pending [OF assms(2) taken]
    by (auto simp: pending_def Let_def split: option.splits prod.splits)
next
  case (applied b ts)
  then show ?thesis
    using assms(2) apply_totals_heap [of "sc_limit sc" sc b ts]
    by (auto simp: counters_inv_def apply_totals_def)
next
  case (failed es)
  then show ?thesis using assms(2) by (auto simp: counters_inv_def)
qed

interpretation counters: invariant_system
  "\<lambda>sc. \<exists>cfg shared backend. sc = counters_new cfg shared backend \<and> rl_requests cfg = limit
        \<and> limit \<le> U64_MAX"
  counters_step "\<lambda>sc. counters_inv sc \<and> sc_limit sc = limit \<and> limit \<le> U64_MAX" for limit
  by unfold_locales (auto simp: counters_new_def counters_inv_def dest: counters_inv_step)

section \<open>A pass visits every key once\<close>

text \<open>The keys handed out by successive ticks.\<close>

fun drain :: "int list \<Rightarrow> shared_counters \<Rightarrow> entry list \<times> shared_counters" where
  "drain [] sc = ([], sc)"
| "drain (now # nows) sc =
     (let (b, sc1) = pending now sc; (es, sc2) = drain nows sc1 in (ba_entries b @ es, sc2))"

lemma pending_entries:
  assumes "position now (sc_interval sc) \<noteq> None" "pending now sc = (b, sc')"
    and "pass = (if sc_pass sc = [] then sc_shards sc else sc_pass sc)"
  shows "ba_entries b = drop (length pass - sc_batch sc) pass"
    and "sc_pass sc' = take (length pass - sc_batch sc) pass"
    and "sc_batch sc' = sc_batch sc" "sc_interval sc' = sc_interval sc"
  using assms by (auto simp: pending_def Let_def split: option.splits prod.splits)

lemma drain_pass:
  assumes "0 < sc_batch sc" "sc_pass sc = es" "es \<noteq> []"
    and "\<forall>now\<in>set nows. position now (sc_interval sc) \<noteq> None"
    and "length nows = (length es + sc_batch sc - 1) div sc_batch sc"
    and "drain nows sc = (out, sc')"
  shows "mset out = mset es \<and> sc_pass sc' = []"
  using assms
proof (induction "length es" arbitrary: es nows sc out sc' rule: less_induct)
  case less
  let ?n = "sc_batch sc"
  have "0 < length nows"
    using less.prems(1,3,5) by (cases es) (auto simp: div_greater_zero_iff)
  then obtain now nows' where nows: "nows = now # nows'" by (cases nows) auto
  obtain b sc1 where p: "pending now sc = (b, sc1)" by fastforce
  obtain out' where d: "drain nows' sc1 = (out', sc')" "out = ba_entries b @ out'"
    using less.prems(6) nows p by (auto split: prod.splits)
  have pos: "position now (sc_interval sc) \<noteq> None" using less.prems(4) nows by simp
  have es: "es = (if sc_pass sc = [] then sc_shards sc else sc_pass sc)"
    using less.prems(2,3) by simp
  note pe = pending_entries [OF pos p es]
  show ?case
  proof (cases "length es \<le> ?n")
    case True
    have "0 < length es" using less.prems(3) by simp
    with True less.prems(1) have "(length es + ?n - 1) div ?n = 1"
      by (intro div_nat_eqI; cases es; simp)
    then have "length nows = 1" using less.prems(5) by simp
    then have "nows' = []" using nows by simp
    then show ?thesis using True d pe by simp
  next
    case False
    have eq: "(length es + ?n - 1) div ?n = Suc ((length es - ?n + ?n - 1) div ?n)"
    proof -
      have "length es + ?n - 1 = (length es - ?n + ?n - 1) + ?n" using False by simp
      then show ?thesis using less.prems(1) by (metis Suc_eq_plus1 div_add_self2 less_numeral_extra(3))
    qed
    have l: "length nows' = (length (take (length es - ?n) es) + sc_batch sc1 - 1) div sc_batch sc1"
      using less.prems(5) eq pe(3) nows by simp
    have "mset out' = mset (take (length es - ?n) es) \<and> sc_pass sc' = []"
    proof (rule less.hyps [OF _ _ pe(2) _ _ l d(1)])
      show "length (take (length es - ?n) es) < length es" using False less.prems(1) by simp
      show "take (length es - ?n) es \<noteq> []" using False by auto
    qed (use less.prems(1,4) pe(3,4) nows in auto)
    moreover have "mset es = mset (take (length es - ?n) es) + mset (drop (length es - ?n) es)"
      by (metis append_take_drop_id mset_append)
    ultimately show ?thesis using d(2) pe(1) by (simp add: add.commute)
  qed
qed

section \<open>The RESP hashes\<close>

definition bucket_key :: "string \<Rightarrow> nat \<Rightarrow> string" where
  "bucket_key key bucket = key @ '':shared-v2:'' @ show_nat bucket"

definition ttl_secs :: "duration \<Rightarrow> nat" where
  "ttl_secs interval =
     (let lifetime = sat_mul DUR_MAX interval 2 in
      max 2 (sat_add U64_MAX (as_secs lifetime) (if lifetime mod NANOS \<noteq> 0 then 1 else 0)))"

datatype resp_cmd = HSET string nat nat | EXPIRE string nat | HVALS string

text \<open>The commands of one publication: for its bucket and the one before, this
  replica's count under its own field, the expiry, and the read.\<close>

definition publish_cmds :: "publish \<Rightarrow> resp_cmd list" where
  "publish_cmds p = concat (map (\<lambda>(bucket, own, writable).
       (let key = bucket_key (p_key p) bucket in
        (if own \<noteq> 0 \<and> writable then [HSET key (p_source p) own] else [])
        @ [EXPIRE key (ttl_secs (p_interval p)), HVALS key]))
     [(p_bucket p, p_own_current p, True), (p_bucket p - 1, p_own_previous p, 0 < p_bucket p)])"

definition sat_sum :: "nat list \<Rightarrow> nat" where
  "sat_sum ns = fold (\<lambda>n acc. sat_add U64_MAX acc n) ns 0"

fun totals_of :: "publish list \<Rightarrow> nat list list \<Rightarrow> totals list" where
  "totals_of (p # ps) (current # previous # rs) =
     \<lparr> t_current = sat_sum current, t_previous = (if p_bucket p = 0 then 0 else sat_sum previous) \<rparr>
     # totals_of ps rs"
| "totals_of _ _ = []"

definition resp_reconcile ::
  "('b \<Rightarrow> resp_cmd list \<Rightarrow> (nat list list, backend_error) result \<times> 'b) \<Rightarrow>
   'b \<Rightarrow> publish list \<Rightarrow> (totals list, backend_error) result \<times> 'b" where
  "resp_reconcile query backend ps =
     (if ps = [] then (Inr [], backend)
      else case query backend (concat (map publish_cmds ps)) of
             (Inl e, backend1) \<Rightarrow> (Inl e, backend1)
           | (Inr replies, backend1) \<Rightarrow>
               if length replies \<noteq> length ps * 2
               then (Inl (BackendProtocol ''unexpected number of replies''), backend1)
               else (Inr (totals_of ps replies), backend1))"

text \<open>The documented behaviour of the server on the three commands: a hash per key,
  here the list of its fields. \<open>EXPIRE\<close> only bounds how long a hash lives, which
  is twice the window the estimate can see.\<close>

type_synonym hashes = "string \<Rightarrow> (nat \<times> nat) list"

fun hash_run :: "hashes \<Rightarrow> resp_cmd list \<Rightarrow> nat list list \<times> hashes" where
  "hash_run h [] = ([], h)"
| "hash_run h (HSET key field v # cs) = hash_run (h(key := AList.update field v (h key))) cs"
| "hash_run h (EXPIRE key secs # cs) = hash_run h cs"
| "hash_run h (HVALS key # cs) = (let (rs, h1) = hash_run h cs in (map snd (h key) # rs, h1))"

locale resp_server =
  fixes query :: "'b \<Rightarrow> resp_cmd list \<Rightarrow> (nat list list, backend_error) result \<times> 'b"
    and hashes :: "'b \<Rightarrow> hashes"
  assumes query_ok: "query b cs = (Inr rs, b') \<Longrightarrow>
      rs = fst (hash_run (hashes b) cs) \<and> hashes b' = snd (hash_run (hashes b) cs)"

lemma hash_run_append:
  "hash_run h (cs @ ds) =
     (let (rs, h1) = hash_run h cs; (rs2, h2) = hash_run h1 ds in (rs @ rs2, h2))"
  by (induction h cs rule: hash_run.induct)
    (auto simp: Let_def simp del: fun_upd_apply split: prod.splits)

definition publish_hash :: "publish \<Rightarrow> hashes \<Rightarrow> hashes" where
  "publish_hash p h =
     (let k = bucket_key (p_key p) (p_bucket p); kp = bucket_key (p_key p) (p_bucket p - 1);
          h1 = (if p_own_current p \<noteq> 0 then h(k := AList.update (p_source p) (p_own_current p) (h k)) else h) in
      if p_own_previous p \<noteq> 0 \<and> 0 < p_bucket p
      then h1(kp := AList.update (p_source p) (p_own_previous p) (h1 kp)) else h1)"

definition hash_total :: "hashes \<Rightarrow> string \<Rightarrow> nat \<Rightarrow> nat" where
  "hash_total h key bucket = sat_sum (map snd (h (bucket_key key bucket)))"

lemma bucket_key_neq: "a \<noteq> b \<Longrightarrow> show_nat a \<noteq> show_nat b \<Longrightarrow> bucket_key k a \<noteq> bucket_key k b"
  by (simp add: bucket_key_def)

lemma show_nat_ne [simp]: "show_nat n \<noteq> []" "[] \<noteq> show_nat n"
  by (subst show_nat.simps, simp)+

lemma show_nat_inj: "show_nat a = show_nat b \<Longrightarrow> a = b"
proof (induction a arbitrary: b rule: show_nat.induct)
  case (1 a)
  have ch: "x = y" if "char_of (48 + x) = (char_of (48 + y) :: char)" "x < 10" "y < 10" for x y :: nat
  proof -
    have "(of_char (char_of (48 + x) :: char) :: nat) = of_char (char_of (48 + y) :: char)" using that by simp
    then show ?thesis using that(2,3) by simp
  qed
  note eqs = show_nat.simps [of a] show_nat.simps [of b]
  show ?case
  proof (cases "a < 10")
    case True
    then show ?thesis using "1.prems" ch [of a b] eqs by (auto split: if_splits)
  next
    case False
    then have b: "\<not> b < 10" using "1.prems" eqs by (auto split: if_splits)
    then have "show_nat (a div 10) = show_nat (b div 10)"
      "char_of (48 + a mod 10) = (char_of (48 + b mod 10) :: char)"
      using "1.prems" eqs False by simp_all
    then have "a div 10 = b div 10" "a mod 10 = b mod 10"
      using "1.IH" [OF False] ch [of "a mod 10" "b mod 10"] by simp_all
    then show ?thesis by (metis div_mult_mod_eq)
  qed
qed

lemma show_nat_digits: "c \<in> set (show_nat n) \<Longrightarrow> is_ascii_digit c"
proof (induction n rule: show_nat.induct)
  case (1 n)
  then show ?case
    by (subst (asm) show_nat.simps) (auto simp: is_ascii_digit_def split: if_splits)
qed

lemma publish_cmds_run:
  "hash_run h (publish_cmds p) =
     ([map snd (publish_hash (p \<lparr> p_own_previous := 0 \<rparr>) h (bucket_key (p_key p) (p_bucket p))),
       map snd (publish_hash p h (bucket_key (p_key p) (p_bucket p - 1)))], publish_hash p h)"
  by (simp add: publish_cmds_def publish_hash_def Let_def)

lemma previous_key_neq: "0 < b \<Longrightarrow> bucket_key k b \<noteq> bucket_key k (b - 1)"
  using show_nat_inj [of b "b - 1"] by (auto simp: bucket_key_def)

lemma publish_hash_current:
  "publish_hash (p \<lparr> p_own_previous := 0 \<rparr>) h (bucket_key (p_key p) (p_bucket p)) =
   publish_hash p h (bucket_key (p_key p) (p_bucket p))"
  using previous_key_neq [of "p_bucket p" "p_key p"] by (auto simp: publish_hash_def Let_def)

lemma publish_totals:
  "totals_of [p] (fst (hash_run h (publish_cmds p))) =
     [\<lparr> t_current = hash_total (publish_hash p h) (p_key p) (p_bucket p),
        t_previous = (if p_bucket p = 0 then 0
                      else hash_total (publish_hash p h) (p_key p) (p_bucket p - 1)) \<rparr>]"
  by (simp add: publish_cmds_run publish_hash_current hash_total_def)

fun published_totals :: "hashes \<Rightarrow> publish list \<Rightarrow> totals list" where
  "published_totals h [] = []"
| "published_totals h (p # ps) =
     \<lparr> t_current = hash_total (publish_hash p h) (p_key p) (p_bucket p),
       t_previous = (if p_bucket p = 0 then 0
                     else hash_total (publish_hash p h) (p_key p) (p_bucket p - 1)) \<rparr>
     # published_totals (publish_hash p h) ps"

lemma batch_run:
  "hash_run h (concat (map publish_cmds ps)) = (rs, h') \<Longrightarrow>
   totals_of ps rs = published_totals h ps \<and> h' = fold publish_hash ps h"
proof (induction ps arbitrary: h rs)
  case (Cons p ps)
  obtain rs2 where r: "hash_run (publish_hash p h) (concat (map publish_cmds ps)) = (rs2, h')"
    "rs = fst (hash_run h (publish_cmds p)) @ rs2"
    using Cons.prems by (auto simp: hash_run_append publish_cmds_run Let_def split: prod.splits)
  have "totals_of (p # ps) rs = totals_of [p] (fst (hash_run h (publish_cmds p))) @ totals_of ps rs2"
    unfolding r(2) publish_cmds_run by simp
  then show ?case using Cons.IH [OF r(1)] publish_totals by simp
qed simp

context resp_server
begin

lemma reconcile_ok:
  assumes "resp_reconcile query b ps = (Inr ts, b')"
  shows "ts = published_totals (hashes b) ps \<and> hashes b' = fold publish_hash ps (hashes b)"
proof (cases "ps = []")
  case True
  then show ?thesis using assms by (simp add: resp_reconcile_def)
next
  case False
  then obtain rs where q: "query b (concat (map publish_cmds ps)) = (Inr rs, b')" "ts = totals_of ps rs"
    using assms by (auto simp: resp_reconcile_def split: prod.splits sum.splits if_splits)
  show ?thesis using query_ok [OF q(1)] batch_run [of "hashes b" ps] q(2) by (metis prod.collapse)
qed

end

definition hash_query :: "hashes \<Rightarrow> resp_cmd list \<Rightarrow> (nat list list, backend_error) result \<times> hashes" where
  "hash_query h cs = (let (rs, h1) = hash_run h cs in (Inr rs, h1))"

interpretation hash_server: resp_server hash_query "\<lambda>h. h"
  by unfold_locales (auto simp: hash_query_def Let_def split: prod.splits)

section \<open>Sums over a hash\<close>

lemma sat_sum_exact: "sum_list ns \<le> U64_MAX \<Longrightarrow> sat_sum ns = sum_list ns"
proof -
  have "acc + sum_list ns \<le> U64_MAX \<Longrightarrow>
      fold (\<lambda>n acc. sat_add U64_MAX acc n) ns acc = acc + sum_list ns" for acc
    by (induction ns arbitrary: acc) (auto simp: sat_add_def add.assoc)
  then show "sum_list ns \<le> U64_MAX \<Longrightarrow> sat_sum ns = sum_list ns" by (simp add: sat_sum_def)
qed

lemma sum_update:
  fixes v :: nat
  shows "distinct (map fst al) \<Longrightarrow>
   sum_list (map snd (AList.update k v al)) = v + sum_list (map snd (filter (\<lambda>(f, _). f \<noteq> k) al))"
proof (induction al)
  case (Cons fv al)
  obtain f w where fv: "fv = (f, w)" by (cases fv)
  show ?case
  proof (cases "f = k")
    case True
    then have "filter (\<lambda>(f, _). f \<noteq> k) al = al"
      using Cons.prems fv by (auto simp: filter_id_conv image_iff)
    then show ?thesis using True fv by simp
  next
    case False
    then show ?thesis using Cons fv by (simp add: add.left_commute)
  qed
qed simp

text \<open>What the other replicas have used, as their fields say.\<close>

definition others :: "nat \<Rightarrow> (nat \<times> nat) list \<Rightarrow> nat" where
  "others source al = sum_list (map snd (filter (\<lambda>(f, _). f \<noteq> source) al))"

lemma others_absent: "source \<notin> fst ` set al \<Longrightarrow> others source al = sum_list (map snd al)"
  unfolding others_def by (subst filter_True) (auto simp: image_iff)

section \<open>Properties\<close>


definition sample_limit :: rate_limit_config where
  "sample_limit = \<lparr> rl_requests = 2, rl_interval = from_secs 1, rl_key = KeyRoute,
     rl_missing_key = MissingReject, rl_trusted_proxies = 0, rl_max_keys = 10,
     rl_counter = CounterShared, rl_mode = Approximate \<rparr>"

definition sample_shared :: shared_counters_config where
  "sample_shared = \<lparr> scc_url = ''redis://c'', scc_sync = from_secs 1, scc_prefix = ''p:'',
     scc_timeout = from_secs 1, scc_max_keys_per_sync = 1 \<rparr>"


text \<open>A pass visits every key once. With the store snapshotted into a pass, the
  ticks it takes (the keys divided by the batch size, rounded up) hand out every
  entry of it exactly once and leave the pass empty.\<close>

theorem pass_visits_each_key_once:
  assumes "0 < sc_batch sc" "sc_pass sc \<noteq> []"
    and "\<forall>now\<in>set nows. position now (sc_interval sc) \<noteq> None"
    and "length nows = (length (sc_pass sc) + sc_batch sc - 1) div sc_batch sc"
  shows "mset (fst (drain nows sc)) = mset (sc_pass sc) \<and> sc_pass (snd (drain nows sc)) = []"
  using drain_pass [OF assms(1) refl assms(2,3,4)] by (metis prod.collapse)

theorem pass_visits_each_key_once_witness:
  "mset (fst (drain [5, 6]
      (counters_new sample_limit sample_shared 0 \<lparr> sc_pass := [(''a'', 0), (''b'', 1)] \<rparr>)))
   = mset [(''a'', 0), (''b'', 1)]"
  using pass_visits_each_key_once
    [of "counters_new sample_limit sample_shared 0 \<lparr> sc_pass := [(''a'', 0), (''b'', 1)] \<rparr>" "[5, 6]"]
  by (simp add: counters_new_def sample_limit_def sample_shared_def position_def from_secs_def Let_def)

text \<open>Reconciliation is exact and repeatable. A successful round trip to any
  server with hash semantics stores each count under its own field; repeating a
  publication changes nothing; and the remote count a shard then records is
  exactly what the other replicas have published for that window.\<close>

theorem reconcile_sees_others:
  assumes "resp_server query hashes"
    and "resp_reconcile query b [p] = (Inr ts, b')"
    and "sh_source s = p_source p" "sh_bucket s = p_bucket p" "p_bucket p < U64_MAX"
    and "k = bucket_key (p_key p) (p_bucket p)" "distinct (map fst (hashes b k))"
    and "p_own_current p = 0 \<longrightarrow> p_source p \<notin> fst ` set (hashes b k)"
    and "p_own_current p + others (p_source p) (hashes b k) \<le> U64_MAX"
  shows "(\<exists>tot. ts = [tot] \<and>
            sh_remote_current (apply_one p tot s) = others (p_source p) (hashes b k))
    \<and> (resp_reconcile query b' [p] = (Inr ts', b'') \<longrightarrow> ts' = ts \<and> hashes b'' = hashes b')"
proof (intro conjI impI)
  note ok = resp_server.reconcile_ok [OF assms(1)]
  let ?h = "hashes b" and ?src = "p_source p"
  have kp: "0 < p_bucket p \<Longrightarrow> bucket_key (p_key p) (p_bucket p - 1) \<noteq> k"
    using previous_key_neq assms(6) by metis
  have hk: "publish_hash p ?h k =
      (if p_own_current p \<noteq> 0 then AList.update ?src (p_own_current p) (?h k) else ?h k)"
    using kp assms(6) by (auto simp: publish_hash_def Let_def)
  have sum: "sum_list (map snd (publish_hash p ?h k)) = p_own_current p + others ?src (?h k)"
    using hk sum_update [OF assms(7)] others_absent [of ?src "?h k"] assms(8)
    by (auto simp: others_def)
  then have tot: "hash_total (publish_hash p ?h) (p_key p) (p_bucket p) = p_own_current p + others ?src (?h k)"
    using sat_sum_exact assms(6,9) by (simp add: hash_total_def)
  have ts: "ts = published_totals ?h [p]" "hashes b' = publish_hash p ?h"
    using ok [OF assms(2)] by simp_all
  have "p_bucket p \<noteq> sat_add U64_MAX (p_bucket p) 1" using assms(5) by (simp add: sat_add_def)
  then show "\<exists>tot. ts = [tot] \<and> sh_remote_current (apply_one p tot s) = others ?src (?h k)"
    using ts(1) tot assms(3,4) by (simp add: apply_one_def)
  have idem: "publish_hash p (publish_hash p ?h) = publish_hash p ?h"
    using previous_key_neq [of "p_bucket p" "p_key p"]
    by (auto simp: publish_hash_def Let_def fun_eq_iff)
  assume r: "resp_reconcile query b' [p] = (Inr ts', b'')"
  show "ts' = ts" using ok [OF r] ts idem by simp
  show "hashes b'' = hashes b'" using ok [OF r] ts idem by simp
qed

definition sample_publish :: publish where
  "sample_publish = \<lparr> p_source = 1, p_key = ''p:k'', p_bucket = 4, p_own_current = 3,
     p_own_previous = 0, p_interval = from_secs 1 \<rparr>"

definition sample_hashes :: hashes where
  "sample_hashes = (\<lambda>_. [])(bucket_key ''p:k'' 4 := [(1, 2), (2, 5)])"

theorem reconcile_sees_others_witness:
  "\<exists>tot. fst (resp_reconcile hash_query sample_hashes [sample_publish]) = Inr [tot]
     \<and> sh_remote_current (apply_one sample_publish tot (shard_new 1 \<lparr> sh_bucket := 4 \<rparr>)) = 5"
proof -
  let ?r = "resp_reconcile hash_query sample_hashes [sample_publish]"
  obtain ts h where r: "?r = (Inr ts, h)"
    by (auto simp: resp_reconcile_def hash_query_def publish_cmds_run Let_def)
  have "\<exists>tot. ts = [tot] \<and>
      sh_remote_current (apply_one sample_publish tot (shard_new 1 \<lparr> sh_bucket := 4 \<rparr>)) =
      others (p_source sample_publish) (sample_hashes (bucket_key (p_key sample_publish) (p_bucket sample_publish)))"
    by (rule reconcile_sees_others [OF hash_server.resp_server_axioms r, THEN conjunct1])
      (simp_all add: sample_publish_def sample_hashes_def shard_new_def others_def)
  then show ?thesis using r
    by (auto simp: sample_publish_def sample_hashes_def others_def)
qed

end
