(* ===== verification/Limiter.thy ===== *)
theory Limiter
  imports Shared_Counters
begin

text \<open>
  The limiter over its counting backends (\<open>Limiter\<close> of \<open>ratelimit/mod.rs\<close>) and
  the accept-time limiter built on it (\<open>accept.rs\<close>).

  The exact backend's \<open>moka\<close> cache is the association list of its windows; an
  eviction drops one. The \<open>pingora_limits\<close> sketch is a parameter of the
  operations that use it: \<open>rate_new\<close>, \<open>rate_read\<close> (previous and current samples
  and the fraction of the interval gone) and \<open>rate_observe\<close>.
\<close>

section \<open>State\<close>

datatype 'r counters =
    Exact "(string \<times> window) list"
  | Sketch 'r
  | Shared shared_counters

record 'r limiter =
  lim_counters :: "'r counters"
  lim_limit :: nat
  lim_interval :: duration
  lim_mode :: limit_mode

definition same_backend :: "'r limiter \<Rightarrow> 'r limiter \<Rightarrow> bool" where
  "same_backend a b =
     (case (lim_counters a, lim_counters b) of
        (Shared x, Shared y) \<Rightarrow> counters_same_backend x y
      | (Exact _, Exact _) \<Rightarrow> True
      | (Sketch _, Sketch _) \<Rightarrow> True
      | _ \<Rightarrow> False)"

definition limiter_new :: "(duration \<Rightarrow> 'r) \<Rightarrow> rate_limit_config \<Rightarrow> 'r limiter" where
  "limiter_new rate_new cfg =
     \<lparr> lim_counters = (case rl_counter cfg of
                         CounterExact \<Rightarrow> Exact []
                       | _ \<Rightarrow> Sketch (rate_new (rl_interval cfg))),
       lim_limit = rl_requests cfg, lim_interval = rl_interval cfg, lim_mode = Approximate \<rparr>"

record shared_counter_factory =
  fac_backend :: nat
  fac_cfg :: shared_counters_config

definition factory_build :: "shared_counter_factory \<Rightarrow> rate_limit_config \<Rightarrow> shared_counters" where
  "factory_build fac rl = counters_new rl (fac_cfg fac) (fac_backend fac)"

definition limiter_shared :: "rate_limit_config \<Rightarrow> shared_counter_factory \<Rightarrow> 'r limiter" where
  "limiter_shared cfg fac = \<lparr> lim_counters = Shared (factory_build fac cfg),
     lim_limit = rl_requests cfg, lim_interval = rl_interval cfg, lim_mode = rl_mode cfg \<rparr>"

definition reconciled_counters :: "'r limiter \<Rightarrow> shared_counters option" where
  "reconciled_counters l =
     (case (lim_counters l, lim_mode l) of
        (Shared c, Approximate) \<Rightarrow> Some c
      | _ \<Rightarrow> None)"

section \<open>Operations\<close>

definition check_exact :: "string \<Rightarrow> instant \<Rightarrow> nat \<Rightarrow> duration \<Rightarrow> (string \<times> window) list \<Rightarrow>
    decision \<times> (string \<times> window) list" where
  "check_exact key now limit interval windows =
     (let w = (case map_of windows key of Some w \<Rightarrow> w | None \<Rightarrow> window_new now);
          (d, w1) = window_check now limit interval w in
      (d, AList.update key w1 windows))"

definition check_sketch ::
  "('r \<Rightarrow> string \<Rightarrow> nat \<times> nat \<times> rat) \<Rightarrow> ('r \<Rightarrow> string \<Rightarrow> nat \<Rightarrow> 'r) \<Rightarrow>
   string \<Rightarrow> nat \<Rightarrow> duration \<Rightarrow> 'r \<Rightarrow> decision \<times> 'r" where
  "check_sketch rate_read rate_observe key limit interval rate =
     (let (prev, curr, fraction) = rate_read rate key;
          weighted = estimate f64_round prev curr fraction in
      if f64_round (of_nat limit) \<le> weighted then (decision_refuse limit interval, rate)
      else
        (\<lparr> d_allowed = True, d_limit = limit,
           d_remaining = f64_as_u64 (remaining_after f64_round limit weighted),
           d_retry_after = 0 \<rparr>,
         rate_observe rate key 1))"

definition limiter_check_at ::
  "('r \<Rightarrow> string \<Rightarrow> nat \<times> nat \<times> rat) \<Rightarrow> ('r \<Rightarrow> string \<Rightarrow> nat \<Rightarrow> 'r) \<Rightarrow>
   nat \<Rightarrow> int \<Rightarrow> string \<Rightarrow> instant \<Rightarrow> 'r limiter \<Rightarrow> decision \<times> 'r limiter" where
  "limiter_check_at rate_read rate_observe source wall key now l =
     (case lim_counters l of
        Exact windows \<Rightarrow>
          (let (d, ws) = check_exact key now (lim_limit l) (lim_interval l) windows in
           (d, l \<lparr> lim_counters := Exact ws \<rparr>))
      | Sketch rate \<Rightarrow>
          (let (d, r) = check_sketch rate_read rate_observe key (lim_limit l) (lim_interval l) rate in
           (d, l \<lparr> lim_counters := Sketch r \<rparr>))
      | Shared counters \<Rightarrow>
          (let (d, c) = counters_check_at source key wall counters in
           (d, l \<lparr> lim_counters := Shared c \<rparr>)))"

text \<open>\<open>Limiter::decide\<close>: \<open>ask\<close> is the backend's \<open>check_exact\<close> round trip.\<close>

definition limiter_decide ::
  "(string \<Rightarrow> nat \<Rightarrow> duration \<Rightarrow> (decision, backend_error) result) \<Rightarrow>
   ('r \<Rightarrow> string \<Rightarrow> nat \<times> nat \<times> rat) \<Rightarrow> ('r \<Rightarrow> string \<Rightarrow> nat \<Rightarrow> 'r) \<Rightarrow>
   nat \<Rightarrow> int \<Rightarrow> string \<Rightarrow> instant \<Rightarrow> 'r limiter \<Rightarrow> decision \<times> 'r limiter" where
  "limiter_decide ask rate_read rate_observe source wall key now l =
     (case (lim_mode l, lim_counters l) of
        (ExactMode, Shared c) \<Rightarrow>
          (case ask (cache_key c key) (sc_limit c) (sc_interval c) of
             Inr d \<Rightarrow> (d, l)
           | Inl _ \<Rightarrow> limiter_check_at rate_read rate_observe source wall key now l)
      | _ \<Rightarrow> limiter_check_at rate_read rate_observe source wall key now l)"

definition limiter_evict :: "string \<Rightarrow> 'r limiter \<Rightarrow> 'r limiter" where
  "limiter_evict key l =
     (case lim_counters l of
        Exact windows \<Rightarrow> l \<lparr> lim_counters := Exact (filter (\<lambda>(k, _). k \<noteq> key) windows) \<rparr>
      | Sketch _ \<Rightarrow> l
      | Shared c \<Rightarrow> l \<lparr> lim_counters := Shared (evict key c) \<rparr>)"

section \<open>The accept-time limiter\<close>

definition connection_limiter_new :: "(duration \<Rightarrow> 'r) \<Rightarrow> connection_limit_config \<Rightarrow> 'r limiter" where
  "connection_limiter_new rate_new cfg = limiter_new rate_new (as_rate_limit cfg)"

definition admits ::
  "('r \<Rightarrow> string \<Rightarrow> nat \<times> nat \<times> rat) \<Rightarrow> ('r \<Rightarrow> string \<Rightarrow> nat \<Rightarrow> 'r) \<Rightarrow>
   nat \<Rightarrow> int \<Rightarrow> string \<Rightarrow> instant \<Rightarrow> 'r limiter \<Rightarrow> bool \<times> 'r limiter" where
  "admits rate_read rate_observe source wall ip now l =
     (let (d, l1) = limiter_check_at rate_read rate_observe source wall ip now l in (d_allowed d, l1))"

definition should_accept ::
  "('r \<Rightarrow> string \<Rightarrow> nat \<times> nat \<times> rat) \<Rightarrow> ('r \<Rightarrow> string \<Rightarrow> nat \<Rightarrow> 'r) \<Rightarrow>
   nat \<Rightarrow> int \<Rightarrow> string option \<Rightarrow> instant \<Rightarrow> 'r limiter \<Rightarrow> bool \<times> 'r limiter" where
  "should_accept rate_read rate_observe source wall addr now l =
     (case addr of
        None \<Rightarrow> (True, l)
      | Some ip \<Rightarrow> admits rate_read rate_observe source wall ip now l)"

section \<open>Keys are independent\<close>

text \<open>A sequence of requests against the exact backend, each with its key and time.\<close>

fun exact_run :: "nat \<Rightarrow> duration \<Rightarrow> (string \<times> window) list \<Rightarrow> (string \<times> instant) list \<Rightarrow>
    (string \<times> decision) list \<times> (string \<times> window) list" where
  "exact_run limit interval ws [] = ([], ws)"
| "exact_run limit interval ws ((key, now) # reqs) =
     (let (d, ws1) = check_exact key now limit interval ws;
          (ds, ws2) = exact_run limit interval ws1 reqs in
      ((key, d) # ds, ws2))"

definition of_key :: "string \<Rightarrow> (string \<times> 'a) list \<Rightarrow> 'a list" where
  "of_key k xs = map snd (filter (\<lambda>(k', _). k' = k) xs)"

lemma of_key_simps [simp]:
  "of_key k [] = []"
  "of_key k ((k', x) # xs) = (if k' = k then x # of_key k xs else of_key k xs)"
  by (simp_all add: of_key_def)

lemma check_exact_window:
  assumes "check_exact key now limit interval ws = (d, ws1)"
  shows "map_of ws1 k = (if k = key
      then Some (snd (window_check now limit interval
             (case map_of ws key of Some w \<Rightarrow> w | None \<Rightarrow> window_new now)))
      else map_of ws k)"
    and "d = fst (window_check now limit interval
             (case map_of ws key of Some w \<Rightarrow> w | None \<Rightarrow> window_new now))"
  using assms by (auto simp: check_exact_def Let_def update_conv' split: prod.splits)

text \<open>The decisions one key gets from a store that knows its window.\<close>

lemma exact_run_known:
  assumes "map_of ws k = Some w"
  shows "of_key k (fst (exact_run limit interval ws reqs)) =
           fst (window_run limit interval w (of_key k reqs))"
  using assms
proof (induction reqs arbitrary: ws w)
  case (Cons r reqs)
  obtain key now where r: "r = (key, now)" by (cases r)
  obtain d ws1 where c: "check_exact key now limit interval ws = (d, ws1)" by fastforce
  note cw = check_exact_window [OF c]
  show ?case
  proof (cases "key = k")
    case True
    have "map_of ws1 k = Some (snd (window_check now limit interval w))"
      using cw(1) [of k] True Cons.prems by simp
    then show ?thesis
      using Cons.IH cw(2) True r c Cons.prems by (simp add: Let_def split_def)
  next
    case False
    then have "map_of ws1 k = Some w" using cw(1) [of k] Cons.prems by simp
    then show ?thesis using Cons.IH False r c by (simp add: Let_def split_def)
  qed
qed simp

lemma exact_run_unknown:
  assumes "map_of ws k = None" "of_key k reqs = now # nows"
  shows "of_key k (fst (exact_run limit interval ws reqs)) =
           fst (window_run limit interval (window_new now) (now # nows))"
  using assms
proof (induction reqs arbitrary: ws)
  case (Cons r reqs)
  obtain key t where r: "r = (key, t)" by (cases r)
  obtain d ws1 where c: "check_exact key t limit interval ws = (d, ws1)" by fastforce
  note cw = check_exact_window [OF c]
  show ?case
  proof (cases "key = k")
    case True
    then have n: "t = now" "of_key k reqs = nows" using Cons.prems(2) r by auto
    have "map_of ws1 k = Some (snd (window_check now limit interval (window_new now)))"
      using cw(1) [of k] True Cons.prems(1) n by simp
    from exact_run_known [OF this, of limit interval reqs] show ?thesis
      using cw(2) True r c n Cons.prems(1) by (simp add: Let_def split_def)
  next
    case False
    then have "map_of ws1 k = None" using cw(1) [of k] Cons.prems by simp
    then show ?thesis using Cons.IH [of ws1] Cons.prems False r c by (simp add: Let_def split_def)
  qed
qed simp

section \<open>Properties\<close>

text \<open>A caller is limited by its own traffic and nobody else's. In any
  interleaving of requests under any keys, the decisions of one key are exactly
  those a window of its own gives for that key's arrival times.\<close>

theorem exact_keys_independent:
  assumes "of_key k reqs = now # nows"
  shows "of_key k (fst (exact_run limit interval [] reqs)) =
           fst (window_run limit interval (window_new now) (now # nows))"
  using assms by (intro exact_run_unknown) simp_all

theorem exact_keys_independent_witness:
  "of_key ''a'' (fst (exact_run 1 10 [] [(''b'', 1), (''a'', 2), (''b'', 3), (''a'', 4)])) =
     fst (window_run 1 10 (window_new 2) [2, 4])"
  using exact_keys_independent [of "''a''" "[(''b'', 1), (''a'', 2), (''b'', 3), (''a'', 4)]" 2 "[4]" 1 10]
  by simp

end
