(* ===== verification/Routes.thy ===== *)
theory Routes
  imports Paths Retry Binding Limiter "HOL-Library.Product_Lexorder"
begin

text \<open>
  Route tables (\<open>routes/mod.rs\<close>): host patterns, prefix matching, building a
  table from the route groups of a configuration, the deny-list and the linear
  matcher. The indexed matcher is in \<open>Route_Index\<close>.

  A route's limiter is behind an \<open>Arc\<close> that reloads share, so limiters live in a
  heap (a list) and a route holds the address of its own.
\<close>

section \<open>Tiers and host patterns\<close>

datatype auth_tier = TierPublic | TierOptional | TierMachine | TierRequired

definition verifies :: "auth_tier \<Rightarrow> bool" where
  "verifies t = (t = TierOptional \<or> t = TierRequired)"

definition is_machine :: "auth_tier \<Rightarrow> bool" where
  "is_machine t = (t = TierMachine)"

definition tier_group :: "auth_tier \<Rightarrow> string" where
  "tier_group t = (case t of
     TierPublic \<Rightarrow> ''public'' | TierOptional \<Rightarrow> ''optional''
   | TierMachine \<Rightarrow> ''machine'' | TierRequired \<Rightarrow> ''authenticated'')"

datatype host_pattern = HostExact string | HostSuffix string

datatype host_error = HostEmpty | HostUrl string | HostEmptySuffix string

definition host_parse :: "string \<Rightarrow> (host_pattern, host_error) result" where
  "host_parse raw0 =
     (let raw = to_ascii_lowercase (trim raw0) in
      if raw = [] then Inl HostEmpty
      else if CHR ''/'' \<in> set raw then Inl (HostUrl raw)
      else case strip_prefix ''*.'' raw of
             Some suffix \<Rightarrow> if suffix \<noteq> [] then Inr (HostSuffix suffix) else Inl (HostEmptySuffix raw)
           | None \<Rightarrow> Inr (HostExact raw))"

definition host_matches :: "host_pattern \<Rightarrow> string \<Rightarrow> bool" where
  "host_matches p host = (case p of
     HostExact want \<Rightarrow> host = want
   | HostSuffix suffix \<Rightarrow>
       length host > length suffix + 1
       \<and> ends_with suffix host
       \<and> ends_with ''.'' (take (length host - length suffix) host))"

definition dotted_suffix :: "string \<Rightarrow> string \<Rightarrow> bool" where
  "dotted_suffix a b = (case strip_suffix b a of Some prefix \<Rightarrow> ends_with ''.'' prefix | None \<Rightarrow> False)"

definition overlaps :: "host_pattern \<Rightarrow> host_pattern \<Rightarrow> bool" where
  "overlaps p q = (case (p, q) of
     (HostExact a, HostExact b) \<Rightarrow> a = b
   | (HostExact a, b) \<Rightarrow> host_matches b a
   | (a, HostExact b) \<Rightarrow> host_matches a b
   | (HostSuffix a, HostSuffix b) \<Rightarrow> a = b \<or> dotted_suffix a b \<or> dotted_suffix b a)"

definition normalize_host :: "string \<Rightarrow> string" where
  "normalize_host raw =
     (let host = trim raw in
      if starts_with ''['' host then
        (case split_once CHR '']'' host of
           Some (a, _) \<Rightarrow> a @ '']''
         | None \<Rightarrow> host)
      else case split_once CHR '':'' host of
             Some (h, _) \<Rightarrow> h
           | None \<Rightarrow> host)"

section \<open>Routes\<close>

datatype policy_origin = OriginRoute | OriginGlobal | OriginBuiltIn

record policy_origins =
  po_methods :: policy_origin
  po_retry :: policy_origin
  po_rate_limit :: policy_origin

record concurrency_config =
  cc_max :: nat
  cc_key :: "rate_limit_key option"
  cc_missing_key :: missing_key
  cc_trusted_proxies :: nat

definition concurrency_key :: "concurrency_config \<Rightarrow> rate_limit_key" where
  "concurrency_key c = (case cc_key c of Some k \<Rightarrow> k | None \<Rightarrow> KeyRoute)"

definition per_caller :: "concurrency_config \<Rightarrow> bool" where
  "per_caller c = (concurrency_key c \<noteq> KeyRoute)"

record route_input =
  ri_id :: string
  ri_host :: "string list"
  ri_prefix :: string
  ri_upstream :: string
  ri_methods :: "string list option"
  ri_sse :: bool
  ri_strip_prefix :: bool
  ri_enabled :: bool
  ri_client_key :: "bool option"
  ri_bind :: "(string \<times> string) list"
  ri_cache :: bool
  ri_cache_authenticated :: bool
  ri_retry :: "retry_config option option"
  ri_rate_limit :: "rate_limit_config option option"
  ri_concurrency :: "concurrency_config option"
  ri_extensions :: "string list"

record route_config =
  rc_id :: string
  rc_host :: "string list"
  rc_hosts :: "host_pattern list"
  rc_prefix :: string
  rc_upstream :: string
  rc_methods :: "string list"
  rc_sse :: bool
  rc_strip_prefix :: bool
  rc_enabled :: bool
  rc_client_key :: "bool option"
  rc_bind :: "(string \<times> string) list"
  rc_bindings :: "binding list"
  rc_cache :: bool
  rc_cache_authenticated :: bool
  rc_retry :: "retry_config option"
  rc_retry_policy :: "policy option"
  rc_rate_limit :: "rate_limit_config option"
  rc_limiter :: "nat option"
  rc_concurrency :: "concurrency_config option"
  rc_extensions :: "string list"
  rc_auth :: auth_tier
  rc_origins :: policy_origins

definition origin_of :: "'a option \<Rightarrow> policy_origin" where
  "origin_of x = (if x \<noteq> None then OriginRoute else OriginBuiltIn)"

definition flatten :: "'a option option \<Rightarrow> 'a option" where
  "flatten x = (case x of Some y \<Rightarrow> y | None \<Rightarrow> None)"

definition route_from :: "route_input \<Rightarrow> route_config" where
  "route_from i = \<lparr>
     rc_id = ri_id i, rc_host = ri_host i, rc_hosts = [], rc_prefix = ri_prefix i,
     rc_upstream = ri_upstream i,
     rc_methods = (case ri_methods i of Some ms \<Rightarrow> ms | None \<Rightarrow> []),
     rc_sse = ri_sse i, rc_strip_prefix = ri_strip_prefix i, rc_enabled = ri_enabled i,
     rc_client_key = ri_client_key i, rc_bind = ri_bind i, rc_bindings = [],
     rc_cache = ri_cache i, rc_cache_authenticated = ri_cache_authenticated i,
     rc_retry = flatten (ri_retry i), rc_retry_policy = None,
     rc_rate_limit = flatten (ri_rate_limit i), rc_limiter = None,
     rc_concurrency = ri_concurrency i, rc_extensions = ri_extensions i,
     rc_auth = TierRequired,
     rc_origins = \<lparr> po_methods = origin_of (ri_methods i), po_retry = origin_of (ri_retry i),
                    po_rate_limit = origin_of (ri_rate_limit i) \<rparr> \<rparr>"

definition matches_method :: "route_config \<Rightarrow> string \<Rightarrow> bool" where
  "matches_method r normalized =
     (rc_methods r = [] \<or> list_ex (\<lambda>m. m = normalized) (rc_methods r))"

definition matches_host :: "route_config \<Rightarrow> string option \<Rightarrow> bool" where
  "matches_host r normalized =
     (rc_hosts r = [] \<or>
      (case normalized of Some host \<Rightarrow> list_ex (\<lambda>p. host_matches p host) (rc_hosts r) | None \<Rightarrow> False))"

definition upstream_path :: "route_config \<Rightarrow> string \<Rightarrow> string" where
  "upstream_path r path =
     (if \<not> rc_strip_prefix r then path
      else case strip_prefix (rc_prefix r) path of
             None \<Rightarrow> path
           | Some [] \<Rightarrow> []
           | Some rest \<Rightarrow> (case strip_prefix ''/'' rest of Some sub \<Rightarrow> sub | None \<Rightarrow> path))"

section \<open>Prefixes\<close>

definition under_prefix :: "string \<Rightarrow> string \<Rightarrow> bool" where
  "under_prefix path prefix =
     (case strip_prefix prefix path of
        Some rest \<Rightarrow> rest = [] \<or> starts_with ''/'' rest
      | None \<Rightarrow> False)"

text \<open>\<open>fold_case\<close> on the bytes of one character: the dotted and dotless i, the long
  s and the Kelvin sign fold to the ASCII letter.\<close>

definition fold_case :: "string \<Rightarrow> string" where
  "fold_case ch =
     (if ch = [CHR 0xC4, CHR 0xB0] \<or> ch = [CHR 0xC4, CHR 0xB1] then ''i''
      else if ch = [CHR 0xC5, CHR 0xBF] then ''s''
      else if ch = [CHR 0xE2, CHR 0x84, CHR 0xAA] then ''k''
      else to_ascii_lowercase ch)"

fun chars_under :: "string list \<Rightarrow> string list \<Rightarrow> bool" where
  "chars_under rest [] = (concat rest = [] \<or> starts_with ''/'' (concat rest))"
| "chars_under [] (p # ps) = False"
| "chars_under (c # cs) (p # ps) = (if fold_case c = fold_case p then chars_under cs ps else False)"

definition under_prefix_ignore_case :: "string \<Rightarrow> string \<Rightarrow> bool" where
  "under_prefix_ignore_case path prefix = chars_under (utf8_chars path) (utf8_chars prefix)"

section \<open>Building a table\<close>

record route_groups =
  rg_internal :: "string list"
  rg_machine :: "route_config list"
  rg_public :: "route_config list"
  rg_optional :: "route_config list"
  rg_authenticated :: "route_config list"

record route_defaults =
  rd_methods :: "string list option"
  rd_retry :: "retry_config option"
  rd_rate_limit :: "rate_limit_config option"

datatype route_error =
    ErrHost string host_error
  | ErrZeroRequests string
  | ErrZeroConcurrency string
  | ErrBinding string string

record route_table =
  tb_namespace :: nat
  tb_deny_prefixes :: "string list"
  tb_routes :: "route_config list"
  tb_errors :: "route_error list"

definition tiered_routes :: "route_groups \<Rightarrow> route_config list" where
  "tiered_routes g =
     filter rc_enabled
       (map (\<lambda>r. r \<lparr> rc_auth := TierPublic \<rparr>) (rg_public g)
        @ map (\<lambda>r. r \<lparr> rc_auth := TierOptional \<rparr>) (rg_optional g)
        @ map (\<lambda>r. r \<lparr> rc_auth := TierRequired \<rparr>) (rg_authenticated g)
        @ map (\<lambda>r. r \<lparr> rc_auth := TierMachine \<rparr>) (rg_machine g))"

definition inherit_defaults :: "route_defaults \<Rightarrow> route_config \<Rightarrow> route_config" where
  "inherit_defaults d r0 =
     (let r1 = (case rd_methods d of
                  Some ms \<Rightarrow> if po_methods (rc_origins r0) = OriginBuiltIn
                             then r0 \<lparr> rc_methods := ms,
                                       rc_origins := (rc_origins r0) \<lparr> po_methods := OriginGlobal \<rparr> \<rparr>
                             else r0
                | None \<Rightarrow> r0);
          r2 = (case rd_retry d of
                  Some rt \<Rightarrow> if po_retry (rc_origins r1) = OriginBuiltIn
                             then r1 \<lparr> rc_retry := Some rt,
                                       rc_origins := (rc_origins r1) \<lparr> po_retry := OriginGlobal \<rparr> \<rparr>
                             else r1
                | None \<Rightarrow> r1) in
      case rd_rate_limit d of
        Some rl \<Rightarrow> if po_rate_limit (rc_origins r2) = OriginBuiltIn
                   then r2 \<lparr> rc_rate_limit := Some rl,
                             rc_origins := (rc_origins r2) \<lparr> po_rate_limit := OriginGlobal \<rparr> \<rparr>
                   else r2
      | None \<Rightarrow> r2)"

definition derive_names :: "route_config \<Rightarrow> route_config" where
  "derive_names r0 =
     (let r1 = r0 \<lparr> rc_prefix := normalize_proxy_path (rc_prefix r0),
                    rc_methods := map to_ascii_uppercase (rc_methods r0) \<rparr> in
      if trim (rc_id r1) = []
      then r1 \<lparr> rc_id := (if rc_host r1 = [] then rc_prefix r1
                          else join '','' (rc_host r1) @ ''/'' @ rc_prefix r1) \<rparr>
      else r1)"

fun parse_hosts :: "string \<Rightarrow> string list \<Rightarrow> host_pattern list \<times> route_error list" where
  "parse_hosts rid [] = ([], [])"
| "parse_hosts rid (h # hs) =
     (let (ps, es) = parse_hosts rid hs in
      case host_parse h of Inr p \<Rightarrow> (p # ps, es) | Inl e \<Rightarrow> (ps, ErrHost rid e # es))"

fun parse_bindings :: "string \<Rightarrow> (string \<times> string) list \<Rightarrow> binding list \<times> route_error list" where
  "parse_bindings rid [] = ([], [])"
| "parse_bindings rid ((source, target) # bs) =
     (let (ps, es) = parse_bindings rid bs in
      case binding_parse source target of Inr b \<Rightarrow> (b # ps, es) | Inl e \<Rightarrow> (ps, ErrBinding rid e # es))"

definition build_limiter ::
  "(duration \<Rightarrow> 'r) \<Rightarrow> shared_counter_factory option \<Rightarrow> rate_limit_config \<Rightarrow> 'r limiter" where
  "build_limiter rate_new shared rl =
     (case (rl_counter rl, shared) of
        (CounterShared, Some factory) \<Rightarrow> limiter_shared rl factory
      | _ \<Rightarrow> limiter_new rate_new rl)"

text \<open>One turn of the loop that derives what a route needs at run time.\<close>

definition resolve_route ::
  "(duration \<Rightarrow> 'r) \<Rightarrow> shared_counter_factory option \<Rightarrow> route_config \<Rightarrow> 'r limiter list \<Rightarrow>
   route_config \<times> route_error list \<times> 'r limiter list" where
  "resolve_route rate_new shared r heap =
     (let (hosts, e1) = parse_hosts (rc_id r) (rc_host r);
          retry_policy = (case rc_retry r of Some rt \<Rightarrow> Some (from_config rt) | None \<Rightarrow> rc_retry_policy r);
          (limiter, e2, heap1) =
            (case rc_rate_limit r of
               None \<Rightarrow> (rc_limiter r, [], heap)
             | Some rl \<Rightarrow>
                 if rl_requests rl = 0 then (rc_limiter r, [ErrZeroRequests (rc_id r)], heap)
                 else (Some (length heap), [], heap @ [build_limiter rate_new shared rl]));
          e3 = (case rc_concurrency r of
                  Some c \<Rightarrow> if cc_max c = 0 then [ErrZeroConcurrency (rc_id r)] else []
                | None \<Rightarrow> []);
          (bindings, e4) = parse_bindings (rc_id r) (rc_bind r) in
      (r \<lparr> rc_hosts := rc_hosts r @ hosts, rc_retry_policy := retry_policy, rc_limiter := limiter,
           rc_bindings := rc_bindings r @ bindings \<rparr>,
       e1 @ e2 @ e3 @ e4, heap1))"

fun resolve_routes ::
  "(duration \<Rightarrow> 'r) \<Rightarrow> shared_counter_factory option \<Rightarrow> route_config list \<Rightarrow> 'r limiter list \<Rightarrow>
   route_config list \<times> route_error list \<times> 'r limiter list" where
  "resolve_routes rate_new shared [] heap = ([], [], heap)"
| "resolve_routes rate_new shared (r # rs) heap =
     (let (r1, e1, heap1) = resolve_route rate_new shared r heap;
          (rs1, e2, heap2) = resolve_routes rate_new shared rs heap1 in
      (r1 # rs1, e1 @ e2, heap2))"

definition route_order :: "route_config \<Rightarrow> bool \<times> int" where
  "route_order r = (rc_hosts r = [], - int (length (rc_prefix r)))"

definition build_with ::
  "(duration \<Rightarrow> 'r) \<Rightarrow> nat \<Rightarrow> route_groups \<Rightarrow> route_defaults \<Rightarrow> shared_counter_factory option \<Rightarrow>
   'r limiter list \<Rightarrow> route_table \<times> 'r limiter list" where
  "build_with rate_new namespace groups defaults shared heap =
     (let deny = map normalize_proxy_path (rg_internal groups);
          routes0 = map (\<lambda>r. derive_names (inherit_defaults defaults r)) (tiered_routes groups);
          (routes, errors, heap1) = resolve_routes rate_new shared routes0 heap in
      (\<lparr> tb_namespace = namespace, tb_deny_prefixes = deny,
         tb_routes = sort_key route_order routes, tb_errors = errors \<rparr>, heap1))"

section \<open>Matching\<close>

definition is_denied :: "route_table \<Rightarrow> string \<Rightarrow> bool" where
  "is_denied t path =
     (let p = normalize_proxy_path path in
      list_ex (\<lambda>d. under_prefix_ignore_case p d) (tb_deny_prefixes t))"

definition ascii_cased :: "(char \<Rightarrow> bool) \<Rightarrow> (string \<Rightarrow> string) \<Rightarrow> string \<Rightarrow> string" where
  "ascii_cased needs_fold fold_str raw = (if list_ex needs_fold raw then fold_str raw else raw)"

definition route_hits :: "string \<Rightarrow> string \<Rightarrow> string option \<Rightarrow> route_config \<Rightarrow> bool" where
  "route_hits p m h r = (under_prefix p (rc_prefix r) \<and> matches_method r m \<and> matches_host r h)"

definition norm_method :: "string \<Rightarrow> string" where
  "norm_method method = ascii_cased is_ascii_lower to_ascii_uppercase method"

definition norm_host :: "string \<Rightarrow> string" where
  "norm_host h = ascii_cased is_ascii_upper to_ascii_lowercase (normalize_host h)"

text \<open>The linear scan of \<open>match_request\<close>, taken by tables of up to 32 routes.\<close>

definition match_linear :: "route_config list \<Rightarrow> string option \<Rightarrow> string \<Rightarrow> string \<Rightarrow> route_config option" where
  "match_linear routes host path method =
     find (route_hits (normalize_proxy_path path) (norm_method method) (map_option norm_host host)) routes"

record route_candidate =
  ca_route :: route_config
  ca_host_matches :: bool
  ca_method_matches :: bool

definition prefix_candidates ::
  "route_table \<Rightarrow> string option \<Rightarrow> string \<Rightarrow> string \<Rightarrow> route_candidate list" where
  "prefix_candidates t host path method =
     (let p = normalize_proxy_path path; m = to_ascii_uppercase method;
          h = map_option (\<lambda>h. to_ascii_lowercase (normalize_host h)) host in
      map (\<lambda>r. \<lparr> ca_route = r, ca_host_matches = matches_host r h, ca_method_matches = matches_method r m \<rparr>)
        (filter (\<lambda>r. under_prefix p (rc_prefix r)) (tb_routes t)))"

section \<open>Listeners and reloads\<close>

definition partition_by_listener :: "route_table \<Rightarrow> route_table \<times> route_table" where
  "partition_by_listener t =
     (t \<lparr> tb_routes := filter (\<lambda>r. rc_auth r \<noteq> TierMachine) (tb_routes t) \<rparr>,
      t \<lparr> tb_routes := filter (\<lambda>r. rc_auth r = TierMachine) (tb_routes t), tb_deny_prefixes := [] \<rparr>)"

definition extension_names :: "route_table \<Rightarrow> string list" where
  "extension_names t = concat (map rc_extensions (tb_routes t))"

text \<open>The conditions under which a reloaded route keeps its limiter.\<close>

definition keeps_limiter :: "'r limiter list \<Rightarrow> route_config \<Rightarrow> route_config \<Rightarrow> bool" where
  "keeps_limiter heap old r =
     (rc_auth old = rc_auth r \<and> rc_prefix old = rc_prefix r \<and> rc_hosts old = rc_hosts r
      \<and> rc_methods old = rc_methods r \<and> rc_upstream old = rc_upstream r \<and> rc_bind old = rc_bind r
      \<and> rc_extensions old = rc_extensions r \<and> rc_rate_limit old = rc_rate_limit r
      \<and> (case (rc_limiter old, rc_limiter r) of
           (Some a, Some b) \<Rightarrow> same_backend (heap ! a) (heap ! b)
         | _ \<Rightarrow> False))"

text \<open>\<open>collect()\<close> into a \<open>BTreeMap\<close> keeps the last route of an id.\<close>

definition by_id :: "route_config list \<Rightarrow> string \<Rightarrow> route_config option" where
  "by_id routes rid = find (\<lambda>r. rc_id r = rid) (rev routes)"

definition adopt_limiter :: "'r limiter list \<Rightarrow> route_config list \<Rightarrow> route_config \<Rightarrow> route_config" where
  "adopt_limiter heap previous r =
     (case by_id previous (rc_id r) of
        Some old \<Rightarrow> if keeps_limiter heap old r then r \<lparr> rc_limiter := rc_limiter old \<rparr> else r
      | None \<Rightarrow> r)"

definition shared_store :: "'r limiter list \<Rightarrow> nat \<Rightarrow> route_table \<Rightarrow> route_table \<Rightarrow> route_table" where
  "shared_store heap namespace previous t =
     t \<lparr> tb_routes := map (adopt_limiter heap (tb_routes previous)) (tb_routes t),
         tb_namespace := namespace \<rparr>"

definition shared_counters_of :: "'r limiter list \<Rightarrow> route_table \<Rightarrow> shared_counters list" where
  "shared_counters_of heap t =
     List.map_filter (\<lambda>r. Option.bind (rc_limiter r) (\<lambda>a. reconciled_counters (heap ! a))) (tb_routes t)"

definition publish_reload ::
  "'r limiter list \<Rightarrow> nat \<Rightarrow> nat \<Rightarrow> route_table \<Rightarrow> route_table \<Rightarrow> route_table option \<Rightarrow>
   route_table \<times> route_table option" where
  "publish_reload heap ns1 ns2 t public machine =
     (let (pt, mt) = partition_by_listener t in
      (shared_store heap ns1 public pt, map_option (\<lambda>m. shared_store heap ns2 m mt) machine))"

section \<open>Prefixes and the deny-list\<close>

lemma under_prefix_iff: "under_prefix path prefix \<longleftrightarrow> path = prefix \<or> (\<exists>r. path = prefix @ CHR ''/'' # r)"
proof (cases "strip_prefix prefix path")
  case None
  then have "path \<noteq> prefix @ r" for r by (simp add: strip_prefix_None_iff)
  from this [of "[]"] this show ?thesis using None by (auto simp: under_prefix_def)
next
  case (Some rest)
  then have "path = prefix @ rest" by (simp add: strip_prefix_Some_iff)
  then show ?thesis using Some by (auto simp: under_prefix_def starts_with_iff)
qed

lemma utf8_width_ascii_lower [simp]: "utf8_width (ascii_lower c) = utf8_width c"
  by (auto simp: utf8_width_def byte_ascii_lower is_ascii_upper_def)

lemma to_ascii_lowercase_take_drop:
  "to_ascii_lowercase (take n s) = take n (to_ascii_lowercase s)"
  "to_ascii_lowercase (drop n s) = drop n (to_ascii_lowercase s)"
  by (simp_all add: to_ascii_lowercase_def take_map drop_map)

lemma utf8_chars_lower: "utf8_chars (to_ascii_lowercase s) = map to_ascii_lowercase (utf8_chars s)"
  by (induction s rule: utf8_chars.induct) (simp_all add: to_ascii_lowercase_take_drop)

lemma ascii_lower_high: "128 \<le> byte c \<Longrightarrow> ascii_lower c = c"
  by (auto simp: ascii_lower_def is_ascii_upper_def)

lemma ascii_lower_eq_high: "ascii_lower c = d \<Longrightarrow> 128 \<le> byte d \<Longrightarrow> c = d"
proof -
  assume d: "ascii_lower c = d" "128 \<le> byte d"
  then have "\<not> is_ascii_upper c"
    using byte_ascii_lower [of c] by (auto simp: is_ascii_upper_def)
  with d(1) show "c = d" by (simp add: ascii_lower_def)
qed

lemma fold_case_lower [simp]: "fold_case (to_ascii_lowercase ch) = fold_case ch"
proof -
  have high: "to_ascii_lowercase ch = s \<longleftrightarrow> ch = s" if "\<forall>c\<in>set s. 128 \<le> byte c" for s
  proof
    assume s: "to_ascii_lowercase ch = s"
    have "ascii_lower c = c" if "c \<in> set ch" for c
    proof -
      have "ascii_lower c \<in> set s" using that s by (auto simp: to_ascii_lowercase_def)
      with \<open>\<forall>c\<in>set s. 128 \<le> byte c\<close> show ?thesis using ascii_lower_eq_high by metis
    qed
    then have "to_ascii_lowercase ch = ch" by (simp add: to_ascii_lowercase_def map_idI)
    with s show "ch = s" by simp
  next
    assume "ch = s"
    then show "to_ascii_lowercase ch = s" using that
      by (auto simp: to_ascii_lowercase_def ascii_lower_high map_idI)
  qed
  show ?thesis unfolding fold_case_def by (simp add: high)
qed

lemma concat_lower: "concat (map to_ascii_lowercase xs) = to_ascii_lowercase (concat xs)"
  by (induction xs) auto

lemma starts_with_slash_lower [simp]:
  "starts_with ''/'' (to_ascii_lowercase s) = starts_with ''/'' s"
proof (cases s)
  case (Cons c cs)
  have "(CHR ''/'' = ascii_lower c) = (CHR ''/'' = c)"
  proof
    assume a: "CHR ''/'' = ascii_lower c"
    from arg_cong [OF this, of byte] have "byte (ascii_lower c) = 47" by simp
    then have "\<not> is_ascii_upper c" using byte_ascii_lower [of c] by (auto simp: is_ascii_upper_def)
    with a show "CHR ''/'' = c" by (simp add: ascii_lower_def)
  qed (auto simp: ascii_lower_def is_ascii_upper_def)
  then show ?thesis using Cons by (simp add: starts_with_def)
qed simp

lemma chars_under_lower:
  "chars_under (map to_ascii_lowercase cs) ps = chars_under cs ps"
  by (induction cs ps rule: chars_under.induct) (simp_all add: concat_lower)

lemma under_prefix_ignore_case_lower:
  "under_prefix_ignore_case (to_ascii_lowercase path) d = under_prefix_ignore_case path d"
  by (simp add: under_prefix_ignore_case_def utf8_chars_lower chars_under_lower)

lemma dropWhile_lower:
  "dropWhile (\<lambda>x. x = CHR ''/'') (to_ascii_lowercase s) = to_ascii_lowercase (dropWhile (\<lambda>x. x = CHR ''/'') s)"
proof (induction s)
  case (Cons c cs)
  have "ascii_lower c = CHR ''/'' \<longleftrightarrow> c = CHR ''/''"
    using starts_with_slash_lower [of "[c]"] by (auto simp: starts_with_def split: if_splits)
  then show ?case using Cons by simp
qed simp

lemma rev_lower: "rev (to_ascii_lowercase s) = to_ascii_lowercase (rev s)"
  by (simp add: to_ascii_lowercase_def rev_map)

lemma normalize_proxy_path_lower:
  "normalize_proxy_path (to_ascii_lowercase p) = to_ascii_lowercase (normalize_proxy_path p)"
  by (simp add: normalize_proxy_path_def trim_matches_def trim_end_matches_def
      trim_start_matches_def dropWhile_lower rev_lower)

lemma is_denied_lower: "is_denied t (to_ascii_lowercase p) = is_denied t p"
  by (simp add: is_denied_def Let_def list_ex_iff normalize_proxy_path_lower
      under_prefix_ignore_case_lower)

lemma utf8_chars_append: "is_utf8 a \<Longrightarrow> utf8_chars (a @ b) = utf8_chars a @ utf8_chars b"
proof (induction "length a" arbitrary: a rule: less_induct)
  case less
  show ?case
  proof (cases a)
    case (Cons x s)
    have IH: "utf8_chars (t @ b) = utf8_chars t @ utf8_chars b" if "is_utf8 t" "length t \<le> length s" for t
      using less.hyps [of t] that Cons by simp
    consider "s = []" | y where "s = [y]" | y z where "s = [y, z]"
      | y z w s' where "s = y # z # w # s'"
      by (metis list.exhaust)
    then show ?thesis
      using less.prems Cons IH [of s] IH [of "tl s"] IH [of "tl (tl s)"] IH [of "tl (tl (tl s))"]
      by cases (simp_all add: utf8_width_def is_utf8.simps(2) [of x] take_Cons' drop_Cons'
          del: is_utf8.simps(2) utf8_chars.simps(2) add: utf8_chars.simps(2) [of x] split: if_splits)
  qed simp
qed

lemma chars_under_prefix:
  "concat rest = [] \<or> starts_with ''/'' (concat rest) \<Longrightarrow> chars_under (ps @ rest) ps"
  by (induction ps) auto

text \<open>The deny-list refuses at least what an exact comparison would.\<close>

lemma under_prefix_denied:
  assumes "is_utf8 d" "under_prefix p d"
  shows "under_prefix_ignore_case p d"
proof -
  obtain r where r: "p = d @ r" "r = [] \<or> starts_with ''/'' r"
    using assms(2) by (auto simp: under_prefix_iff starts_with_iff)
  show ?thesis
    unfolding under_prefix_ignore_case_def r(1) utf8_chars_append [OF assms(1)]
    using r(2) by (intro chars_under_prefix) simp
qed

section \<open>What building a table guarantees\<close>

lemma inherit_defaults_auth [simp]: "rc_auth (inherit_defaults d r) = rc_auth r"
  by (auto simp: inherit_defaults_def Let_def split: option.splits if_splits)

lemma derive_names_auth [simp]: "rc_auth (derive_names r) = rc_auth r"
  by (auto simp: derive_names_def Let_def)

lemma inherit_defaults_fixed [simp]:
  "rc_hosts (inherit_defaults d r) = rc_hosts r" "rc_prefix (inherit_defaults d r) = rc_prefix r"
  "rc_enabled (inherit_defaults d r) = rc_enabled r" "rc_upstream (inherit_defaults d r) = rc_upstream r"
  "rc_host (inherit_defaults d r) = rc_host r" "rc_id (inherit_defaults d r) = rc_id r"
  "rc_bind (inherit_defaults d r) = rc_bind r"
  by (auto simp: inherit_defaults_def Let_def split: option.splits if_splits)

lemma derive_names_prefix [simp]: "rc_prefix (derive_names r) = normalize_proxy_path (rc_prefix r)"
  by (auto simp: derive_names_def Let_def)

lemma resolve_route_fixed:
  assumes "resolve_route rate_new shared r heap = (r', es, heap')"
  shows "rc_auth r' = rc_auth r" "rc_prefix r' = rc_prefix r" "rc_upstream r' = rc_upstream r"
    "rc_methods r' = rc_methods r" "rc_id r' = rc_id r" "rc_rate_limit r' = rc_rate_limit r"
  using assms by (auto simp: resolve_route_def Let_def split: prod.splits option.splits if_splits)

lemma resolve_routes_map:
  assumes "resolve_routes rate_new shared rs heap = (rs', es, heap')"
  shows "map rc_auth rs' = map rc_auth rs \<and> map rc_prefix rs' = map rc_prefix rs
    \<and> map rc_upstream rs' = map rc_upstream rs"
  using assms
proof (induction rs arbitrary: heap rs' es heap')
  case (Cons r rs)
  obtain r1 e1 h1 where a: "resolve_route rate_new shared r heap = (r1, e1, h1)"
    by (cases "resolve_route rate_new shared r heap") auto
  obtain rs1 e2 h2 where b: "resolve_routes rate_new shared rs h1 = (rs1, e2, h2)"
    by (cases "resolve_routes rate_new shared rs h1") auto
  have "rs' = r1 # rs1" using Cons.prems a b by simp
  then show ?case using Cons.IH [OF b] resolve_route_fixed [OF a] by simp
qed simp

lemma build_with_routes:
  assumes "build_with rate_new ns groups defaults shared heap = (t, heap')"
  obtains rs es where
    "resolve_routes rate_new shared
       (map (\<lambda>r. derive_names (inherit_defaults defaults r)) (tiered_routes groups)) heap = (rs, es, heap')"
    "tb_routes t = sort_key route_order rs" "tb_errors t = es"
    "tb_deny_prefixes t = map normalize_proxy_path (rg_internal groups)" "tb_namespace t = ns"
  using assms by (auto simp: build_with_def Let_def split: prod.splits)

lemma build_with_tiers:
  assumes "build_with rate_new ns groups defaults shared heap = (t, heap')" "r \<in> set (tb_routes t)"
  shows "\<exists>r0 \<in> set (tiered_routes groups). rc_auth r = rc_auth r0"
proof -
  obtain rs es where b: "resolve_routes rate_new shared
       (map (\<lambda>r. derive_names (inherit_defaults defaults r)) (tiered_routes groups)) heap = (rs, es, heap')"
    "tb_routes t = sort_key route_order rs"
    using build_with_routes [OF assms(1)] by blast
  have "r \<in> set rs" using assms(2) b(2) by simp
  moreover have "map rc_auth rs = map rc_auth (tiered_routes groups)"
    using resolve_routes_map [OF b(1)] by (simp add: comp_def)
  ultimately have "rc_auth r \<in> set (map rc_auth (tiered_routes groups))"
    by (metis image_eqI list.set_map)
  then show ?thesis by auto
qed

lemma build_with_sorted:
  "build_with rate_new ns groups defaults shared heap = (t, heap') \<Longrightarrow>
   sorted (map route_order (tb_routes t))"
  by (auto simp: build_with_def Let_def split: prod.splits)

lemma build_with_prefixes:
  assumes "build_with rate_new ns groups defaults shared heap = (t, heap')" "r \<in> set (tb_routes t)"
  shows "normalize_proxy_path (rc_prefix r) = rc_prefix r"
proof -
  obtain rs es where b: "resolve_routes rate_new shared
       (map (\<lambda>r. derive_names (inherit_defaults defaults r)) (tiered_routes groups)) heap = (rs, es, heap')"
    "tb_routes t = sort_key route_order rs"
    using build_with_routes [OF assms(1)] by blast
  have "rc_prefix r \<in> set (map rc_prefix rs)" using assms(2) b(2) by simp
  also have "map rc_prefix rs = map (\<lambda>r. normalize_proxy_path (rc_prefix r)) (tiered_routes groups)"
    using resolve_routes_map [OF b(1)] by (simp add: comp_def)
  finally show ?thesis by (auto simp: normalize_proxy_path_def)
qed

lemma find_sorted_least:
  fixes f :: "'a \<Rightarrow> 'k :: linorder"
  assumes "sorted (map f xs)" "find P xs = Some x" "y \<in> set xs" "P y"
  shows "f x \<le> f y"
  using assms by (induction xs) (auto split: if_splits)

section \<open>Sub-paths\<close>

lemma canonical_append:
  assumes "canonical_path (a @ CHR ''/'' # b)"
  shows "canonical_path b"
proof -
  have "split_on CHR ''/'' (a @ CHR ''/'' # b) = split_on CHR ''/'' a @ split_on CHR ''/'' b"
    by (rule split_on_append_sep)
  then show ?thesis using assms by (auto simp: canonical_path_def)
qed

lemma upstream_path_cases:
  assumes "under_prefix p (rc_prefix r)"
  shows "upstream_path r p =
    (if \<not> rc_strip_prefix r then p
     else if p = rc_prefix r then [] else drop (Suc (length (rc_prefix r))) p)"
proof -
  from assms consider "p = rc_prefix r" | rest where "p = rc_prefix r @ CHR ''/'' # rest"
    by (auto simp: under_prefix_iff)
  then show ?thesis
  proof cases
    case 1
    then have "strip_prefix (rc_prefix r) p = Some []" by (simp add: strip_prefix_Some_iff)
    then show ?thesis using 1 by (simp add: upstream_path_def)
  next
    case 2
    then show ?thesis by (simp add: upstream_path_def)
  qed
qed

section \<open>Properties\<close>

definition sample_input :: "string \<Rightarrow> string \<Rightarrow> route_input" where
  "sample_input prefix upstream = \<lparr> ri_id = [], ri_host = [], ri_prefix = prefix,
     ri_upstream = upstream, ri_methods = None, ri_sse = False, ri_strip_prefix = False,
     ri_enabled = True, ri_client_key = None, ri_bind = [], ri_cache = False,
     ri_cache_authenticated = False, ri_retry = None, ri_rate_limit = None,
     ri_concurrency = None, ri_extensions = [] \<rparr>"

definition sample_groups :: route_groups where
  "sample_groups = \<lparr> rg_internal = [''/internal''],
     rg_machine = [route_from (sample_input ''/sync'' ''ops'')],
     rg_public = [route_from (sample_input ''/'' ''web''), route_from (sample_input ''/users'' ''users'')],
     rg_optional = [], rg_authenticated = [route_from (sample_input ''/users/me'' ''users'')] \<rparr>"

definition no_defaults :: route_defaults where
  "no_defaults = \<lparr> rd_methods = None, rd_retry = None, rd_rate_limit = None \<rparr>"

definition sample_table :: route_table where
  "sample_table = fst (build_with (\<lambda>_. ()) 0 sample_groups no_defaults None [])"

text \<open>C5: the deny-list refuses everything its authors wrote and every spelling of
  it. A path under a deny prefix is denied however its ASCII letters are cased
  and whatever slashes surround it.\<close>

theorem deny_list_complete:
  assumes "d \<in> set (tb_deny_prefixes t)" "is_utf8 d"
    and "to_ascii_lowercase (normalize_proxy_path path) = to_ascii_lowercase p"
    and "under_prefix p d"
  shows "is_denied t path \<and> is_denied t (''/'' @ path @ ''/'')"
proof -
  have n: "normalize_proxy_path (''/'' @ path @ ''/'') = normalize_proxy_path path"
  proof -
    have "trim_end_matches CHR ''/'' (s @ ''/'') = trim_end_matches CHR ''/'' s" for s
      by (simp add: trim_end_matches_def)
    moreover have "dropWhile (\<lambda>x. x = CHR ''/'') (path @ ''/'') =
        (if dropWhile (\<lambda>x. x = CHR ''/'') path = [] then []
         else dropWhile (\<lambda>x. x = CHR ''/'') path @ ''/'')"
      by (induction path) auto
    ultimately show ?thesis
      by (cases "dropWhile (\<lambda>x. x = CHR ''/'') path = []")
        (simp_all add: normalize_proxy_path_def trim_matches_def trim_start_matches_def
          del: dropWhile_eq_Nil_conv)
  qed
  have "under_prefix_ignore_case (normalize_proxy_path path) d"
    using under_prefix_denied [OF assms(2,4)] assms(3) under_prefix_ignore_case_lower by metis
  then have "list_ex (\<lambda>d. under_prefix_ignore_case (normalize_proxy_path path) d) (tb_deny_prefixes t)"
    using assms(1) by (auto simp: list_ex_iff)
  then show ?thesis by (simp add: is_denied_def Let_def n [simplified])
qed

theorem deny_list_complete_witness:
  "is_denied sample_table ''Internal/x'' \<and> is_denied sample_table ''/Internal/x/''
   \<and> \<not> is_denied sample_table ''internals''"
proof -
  have t: "tb_deny_prefixes sample_table = [''internal'']"
    by (auto simp: sample_table_def build_with_def sample_groups_def Let_def normalize_proxy_path_def
        trim_matches_def trim_end_matches_def trim_start_matches_def split: prod.splits)
  have "\<not> is_denied sample_table ''internals''"
    unfolding is_denied_def t by code_simp
  moreover have "to_ascii_lowercase (normalize_proxy_path ''Internal/x'') = to_ascii_lowercase ''internal/x''"
    "under_prefix ''internal/x'' ''internal''" "is_utf8 ''internal''"
    by code_simp+
  ultimately show ?thesis
    using deny_list_complete [of "''internal''" sample_table "''Internal/x''" "''internal/x''"] t by simp
qed

text \<open>The machine tier never reaches the public listener. Whatever the files,
  defaults and earlier tables, after a build and any reload the public table
  holds no machine route, keeps the whole deny-list, and each of its routes
  requires what its group says; the internal table holds machine routes only.\<close>

theorem reload_keeps_listeners_apart:
  assumes "build_with rate_new ns groups defaults shared heap = (t, heap')"
    and "publish_reload heap' ns1 ns2 t public (Some machine) = (public', Some machine')"
  shows "(\<forall>r\<in>set (tb_routes public'). rc_auth r \<noteq> TierMachine)
    \<and> (\<forall>r\<in>set (tb_routes machine'). rc_auth r = TierMachine)
    \<and> tb_deny_prefixes public' = map normalize_proxy_path (rg_internal groups)
    \<and> (rg_optional groups = [] \<and> rg_public groups = [] \<longrightarrow>
         (\<forall>r\<in>set (tb_routes public'). rc_auth r = TierRequired))"
proof -
  have adopt: "rc_auth (adopt_limiter h prev r) = rc_auth r" for h prev r
    by (auto simp: adopt_limiter_def split: option.splits)
  have pub: "tb_routes public' = map (adopt_limiter heap' (tb_routes public))
      (filter (\<lambda>r. rc_auth r \<noteq> TierMachine) (tb_routes t))"
    and mach: "tb_routes machine' = map (adopt_limiter heap' (tb_routes machine))
      (filter (\<lambda>r. rc_auth r = TierMachine) (tb_routes t))"
    and deny: "tb_deny_prefixes public' = tb_deny_prefixes t"
    using assms(2) by (auto simp: publish_reload_def partition_by_listener_def shared_store_def)
  have "rc_auth r = TierRequired"
    if "rg_optional groups = []" "rg_public groups = []" "r \<in> set (tb_routes t)" "rc_auth r \<noteq> TierMachine" for r
    using build_with_tiers [OF assms(1) that(3)] that by (auto simp: tiered_routes_def)
  moreover have "tb_deny_prefixes t = map normalize_proxy_path (rg_internal groups)"
    using build_with_routes [OF assms(1)] by metis
  ultimately show ?thesis by (auto simp: pub mach deny adopt)
qed

theorem reload_keeps_listeners_apart_witness:
  "\<exists>p m. publish_reload ([] :: unit limiter list) 1 2 sample_table sample_table (Some sample_table) = (p, Some m)
     \<and> list_all (\<lambda>r. rc_auth r \<noteq> TierMachine) (tb_routes p)
     \<and> list_all (\<lambda>r. rc_auth r = TierMachine) (tb_routes m) \<and> length (tb_routes m) = 1"
proof -
  have b: "build_with (\<lambda>_. ()) 0 sample_groups no_defaults None [] = (sample_table, [])"
    by (simp add: sample_table_def build_with_def Let_def sample_groups_def tiered_routes_def
        route_from_def sample_input_def resolve_route_def inherit_defaults_def no_defaults_def
        derive_names_def flatten_def)
  obtain p m where pm: "publish_reload ([] :: unit limiter list) 1 2 sample_table sample_table (Some sample_table) = (p, Some m)"
    by (simp add: publish_reload_def partition_by_listener_def)
  have "length (filter (\<lambda>r. rc_auth r = TierMachine) (tb_routes sample_table)) = 1"
    by code_simp
  then have "length (tb_routes m) = 1"
    using pm by (auto simp: publish_reload_def partition_by_listener_def shared_store_def)
  moreover note reload_keeps_listeners_apart [OF b pm, THEN conjunct1]
    reload_keeps_listeners_apart [OF b pm, THEN conjunct2, THEN conjunct1]
  ultimately show ?thesis using pm unfolding list_all_iff by (intro exI [of _ p] exI [of _ m] conjI)
qed

text \<open>C33: the most specific route wins. In a built table the route the scan returns
  serves the request, and no other route that serves it is more specific: one
  restricted to hosts comes before one that serves any host, and among equals
  the longer prefix.\<close>

theorem match_most_specific:
  assumes "build_with rate_new ns groups defaults shared heap = (t, heap')"
    and "match_linear (tb_routes t) host path method = Some r"
  shows "r \<in> set (tb_routes t)
    \<and> route_hits (normalize_proxy_path path) (norm_method method) (map_option norm_host host) r
    \<and> (\<forall>r'\<in>set (tb_routes t).
         route_hits (normalize_proxy_path path) (norm_method method) (map_option norm_host host) r' \<longrightarrow>
         (rc_hosts r = [] \<longrightarrow> rc_hosts r' = []) \<and>
         ((rc_hosts r = []) = (rc_hosts r' = []) \<longrightarrow> length (rc_prefix r') \<le> length (rc_prefix r)))"
proof (intro conjI ballI impI)
  let ?hit = "route_hits (normalize_proxy_path path) (norm_method method) (map_option norm_host host)"
  have f: "find ?hit (tb_routes t) = Some r" using assms(2) by (simp add: match_linear_def)
  show "r \<in> set (tb_routes t)" "?hit r" using find_SomeD [OF f] by auto
  fix r'
  assume r': "r' \<in> set (tb_routes t)" "?hit r'"
  have le: "route_order r \<le> route_order r'"
    by (rule find_sorted_least [OF build_with_sorted [OF assms(1)] f r'])
  show "rc_hosts r' = []" if "rc_hosts r = []"
    using le that by (auto simp: route_order_def less_eq_prod_def)
  show "length (rc_prefix r') \<le> length (rc_prefix r)" if "(rc_hosts r = []) = (rc_hosts r' = [])"
    using le that by (auto simp: route_order_def less_eq_prod_def)
qed

theorem match_most_specific_witness:
  "map_option rc_prefix (match_linear (tb_routes sample_table) None ''/users/me/x'' ''get'') = Some ''users/me''"
proof -
  have b: "build_with (\<lambda>_. ()) 0 sample_groups no_defaults None [] = (sample_table, [])"
    by (simp add: sample_table_def build_with_def Let_def sample_groups_def tiered_routes_def
        route_from_def sample_input_def resolve_route_def inherit_defaults_def no_defaults_def
        derive_names_def flatten_def)
  obtain r where m: "match_linear (tb_routes sample_table) None ''/users/me/x'' ''get'' = Some r"
    and "rc_prefix r = ''users/me''"
  proof -
    have "map_option rc_prefix (match_linear (tb_routes sample_table) None ''/users/me/x'' ''get'')
        = Some ''users/me''" by code_simp
    then show ?thesis using that by blast
  qed
  then show ?thesis using match_most_specific [OF b m] by simp
qed

end
