(* ===== verification/Ext.thy ===== *)
theory Ext
  imports Rejection Routes
begin

text \<open>
  The extension seam (\<open>ext.rs\<close>): the registry, the chain of hooks a route names and the
  admission budget all listeners share.

  An extension is code of a deployment. What the gateway sees of one call is a record
  \<open>hook_run\<close>: what \<open>timeout_at\<close> around it returned (\<^const>\<open>None\<close> when the deadline
  passed first), the header plan as the hook left it, and the time read afterwards. Native
  code may block past its deadline, so that time is not bounded by it.
\<close>

section \<open>Operations\<close>

record hook_run =
  hr_outcome :: "(unit, rejection) result option"
  hr_plan :: header_plan
  hr_end :: instant

text \<open>A hook is called with the current time, its deadline and the plan so far.\<close>

type_synonym hook = "instant \<Rightarrow> instant \<Rightarrow> header_plan \<Rightarrow> hook_run"

type_synonym registry = "string \<rightharpoonup> hook"

definition ext_register :: "string \<Rightarrow> hook \<Rightarrow> registry \<Rightarrow> registry" where
  "ext_register name h reg = reg(name \<mapsto> h)"

text \<open>The parameter lookup extensions are offered: pairs without \<open>=\<close>, and keys that do
  not decode, are passed over.\<close>

fun ext_query_loop :: "(string \<Rightarrow> string option) \<Rightarrow> string \<Rightarrow> string list \<Rightarrow> string option" where
  "ext_query_loop pct_decode name [] = None"
| "ext_query_loop pct_decode name (pair # pairs) =
     (case (case split_once CHR ''='' pair of
              None \<Rightarrow> None
            | Some (k, v) \<Rightarrow>
                (case pct_decode k of
                   None \<Rightarrow> None
                 | Some key \<Rightarrow> if key = name then pct_decode v else None)) of
        Some v \<Rightarrow> Some v
      | None \<Rightarrow> ext_query_loop pct_decode name pairs)"

definition ext_query_param ::
  "(string \<Rightarrow> string option) \<Rightarrow> string option \<Rightarrow> string \<Rightarrow> string option" where
  "ext_query_param pct_decode query name =
     (case query of None \<Rightarrow> None | Some q \<Rightarrow> ext_query_loop pct_decode name (split_on CHR ''&'' q))"

definition require_identity :: "identity option \<Rightarrow> (identity, rejection) result" where
  "require_identity ident =
     (case ident of
        Some i \<Rightarrow> Inr i
      | None \<Rightarrow> Inl (forbidden ''Authenticated user required'' ''extension_requires_identity''))"

text \<open>The admission cell: unset until the first chain runs, then the capacity it was
  given and the permits in use.\<close>

record admission =
  ad_configured :: "nat option"
  ad_in_use :: nat

definition MAX_PERMITS :: nat where
  "MAX_PERMITS = 2 ^ 61 - 1"

definition capacity_refused :: "string \<Rightarrow> rejection" where
  "capacity_refused message = unavailable message ''extension_capacity''"

definition ext_admit ::
  "nat option \<Rightarrow> admission option \<Rightarrow> (unit, rejection) result \<times> admission option" where
  "ext_admit max_inflight cell =
     (if (case max_inflight of None \<Rightarrow> False | Some n \<Rightarrow> n = 0 \<or> n > MAX_PERMITS)
      then (Inl (capacity_refused ''Invalid policy execution capacity''), cell)
      else
        let ad = (case cell of Some ad \<Rightarrow> ad | None \<Rightarrow> \<lparr> ad_configured = max_inflight, ad_in_use = 0 \<rparr>) in
        if ad_configured ad \<noteq> max_inflight
        then (Inl (capacity_refused ''Conflicting policy execution capacity''), Some ad)
        else (case ad_configured ad of
                None \<Rightarrow> (Inr (), Some ad)
              | Some n \<Rightarrow>
                  if ad_in_use ad < n then (Inr (), Some (ad \<lparr> ad_in_use := ad_in_use ad + 1 \<rparr>))
                  else (Inl (capacity_refused ''Policy execution is at capacity''), Some ad)))"

text \<open>Dropping the permit at the end of the chain.\<close>

definition ext_release :: "admission option \<Rightarrow> admission option" where
  "ext_release cell =
     (case cell of
        Some ad \<Rightarrow>
          if ad_configured ad = None then Some ad else Some (ad \<lparr> ad_in_use := ad_in_use ad - 1 \<rparr>)
      | None \<Rightarrow> None)"

text \<open>\<open>Instant::checked_add\<close>: the clock's last instant is \<open>latest\<close>.\<close>

definition checked_add :: "instant \<Rightarrow> instant \<Rightarrow> duration \<Rightarrow> instant option" where
  "checked_add latest t d = (if t + d \<le> latest then Some (t + d) else None)"

text \<open>The loop over the names; \<open>now\<close> is the time read before each hook.\<close>

fun run_hooks ::
  "registry \<Rightarrow> instant \<Rightarrow> duration \<Rightarrow> instant \<Rightarrow> string list \<Rightarrow> instant \<Rightarrow> header_plan
     \<Rightarrow> (unit, rejection) result \<times> header_plan \<times> instant" where
  "run_hooks reg latest hook_budget chain_deadline [] now plan = (Inr (), plan, now)"
| "run_hooks reg latest hook_budget chain_deadline (name # names) now plan =
     (case reg name of
        None \<Rightarrow> (Inl (unavailable ''Gateway misconfigured'' (''missing_extension_'' @ name)), plan, now)
      | Some hook \<Rightarrow>
          if now \<ge> chain_deadline
          then (Inl (unavailable ''Policy execution timed out'' ''extension_chain_timeout''), plan, now)
          else
            let hook_deadline = (case checked_add latest now hook_budget of
                                   Some d \<Rightarrow> d | None \<Rightarrow> chain_deadline);
                deadline = min hook_deadline chain_deadline;
                reason = (if chain_deadline \<le> hook_deadline then ''extension_chain_timeout''
                          else ''extension_timeout'');
                run = hook now deadline plan;
                expired = hr_end run \<ge> deadline in
            (case hr_outcome run of
               Some r \<Rightarrow>
                 if expired
                 then (Inl (unavailable ''Policy execution timed out'' reason), hr_plan run, hr_end run)
                 else (case r of
                         Inl rej \<Rightarrow> (Inl rej, hr_plan run, hr_end run)
                       | Inr _ \<Rightarrow>
                           run_hooks reg latest hook_budget chain_deadline names (hr_end run) (hr_plan run))
             | None \<Rightarrow> (Inl (unavailable ''Policy execution timed out'' reason), hr_plan run, hr_end run)))"

definition run_chain ::
  "registry \<Rightarrow> instant \<Rightarrow> duration \<Rightarrow> duration \<Rightarrow> string list \<Rightarrow> instant \<Rightarrow> header_plan
     \<Rightarrow> (unit, rejection) result \<times> header_plan \<times> instant" where
  "run_chain reg latest hook_budget chain_budget names now plan =
     (case checked_add latest now chain_budget of
        None \<Rightarrow> (Inl (unavailable ''Invalid policy execution budget'' ''extension_chain_timeout''), plan, now)
      | Some deadline \<Rightarrow> run_hooks reg latest hook_budget deadline names now plan)"

text \<open>One chain with its admission: \<open>run_chain\<close> of the code, from the first line to the
  permit's drop.\<close>

record ext_budgets =
  eb_hook :: duration
  eb_chain :: duration
  eb_max_inflight :: "nat option"
  eb_latest :: instant

definition run_extensions ::
  "registry \<Rightarrow> ext_budgets \<Rightarrow> string list \<Rightarrow> instant \<Rightarrow> admission option \<Rightarrow> header_plan
     \<Rightarrow> (unit, rejection) result \<times> header_plan \<times> instant \<times> admission option" where
  "run_extensions reg bud names now cell plan =
     (if names = [] then (Inr (), plan, now, cell)
      else case ext_admit (eb_max_inflight bud) cell of
             (Inl rej, cell') \<Rightarrow> (Inl rej, plan, now, cell')
           | (Inr _, cell') \<Rightarrow>
               (case run_chain reg (eb_latest bud) (eb_hook bud) (eb_chain bud) names now plan of
                  (r, plan', now') \<Rightarrow> (r, plan', now', ext_release cell')))"

text \<open>The startup check: the names routes refer to and nobody registered. (The code sorts
  them and drops repeats for its message.)\<close>

definition ext_missing :: "registry \<Rightarrow> string list \<Rightarrow> string set" where
  "ext_missing reg referenced = {n \<in> set referenced. reg n = None}"

definition ext_validate :: "registry \<Rightarrow> route_table \<Rightarrow> bool" where
  "ext_validate reg t = (ext_missing reg (extension_names t) = {})"

section \<open>The chain\<close>

text \<open>The reference: every name is registered, its hook ran on the plan the one before
  left, at the time it ended, and returned \<open>Ok\<close> before its own deadline.\<close>

inductive hooks_pass ::
  "registry \<Rightarrow> duration \<Rightarrow> instant \<Rightarrow> string list \<Rightarrow> instant \<Rightarrow> header_plan \<Rightarrow> header_plan \<Rightarrow> instant \<Rightarrow> bool"
  for reg :: registry and budget :: duration and chain_deadline :: instant where
  pass_end: "hooks_pass reg budget chain_deadline [] now plan plan now"
| pass_hook:
    "reg name = Some hook \<Longrightarrow> deadline \<le> chain_deadline \<Longrightarrow>
     hr_outcome (hook now deadline plan) = Some (Inr ()) \<Longrightarrow>
     hr_end (hook now deadline plan) < deadline \<Longrightarrow>
     hooks_pass reg budget chain_deadline names (hr_end (hook now deadline plan))
       (hr_plan (hook now deadline plan)) plan' now' \<Longrightarrow>
     hooks_pass reg budget chain_deadline (name # names) now plan plan' now'"

lemma hooks_pass_registered:
  "hooks_pass reg b d names now plan plan' now' \<Longrightarrow> n \<in> set names \<Longrightarrow> reg n \<noteq> None"
  by (induction rule: hooks_pass.induct) auto

lemma hooks_pass_end:
  "hooks_pass reg b d names now plan plan' now' \<Longrightarrow> now < d \<or> names \<noteq> [] \<Longrightarrow> now' < d"
  by (induction rule: hooks_pass.induct) auto

lemma run_hooks_pass:
  "run_hooks reg latest b d names now plan = (Inr (), plan', now') \<Longrightarrow>
   hooks_pass reg b d names now plan plan' now'"
proof (induction names arbitrary: now plan)
  case Nil
  then show ?case by (auto intro: pass_end)
next
  case (Cons name names)
  then obtain hook where h: "reg name = Some hook" by (auto split: option.splits)
  define dl where
    "dl = min (case checked_add latest now b of Some x \<Rightarrow> x | None \<Rightarrow> d) d"
  from Cons.prems h have o: "hr_outcome (hook now dl plan) = Some (Inr ())" "hr_end (hook now dl plan) < dl"
    and rest: "run_hooks reg latest b d names (hr_end (hook now dl plan)) (hr_plan (hook now dl plan))
                 = (Inr (), plan', now')"
    by (auto simp: Let_def dl_def split: if_splits option.splits sum.splits)
  show ?case
    by (rule pass_hook [where deadline = dl]) (use h o rest Cons.IH in \<open>auto simp: dl_def\<close>)
qed


lemma run_extensions_pass:
  "run_extensions reg bud names now cell plan = (Inr (), plan', now', cell') \<Longrightarrow> names \<noteq> [] \<Longrightarrow>
   hooks_pass reg (eb_hook bud) (now + eb_chain bud) names now plan plan' now'"
  by (auto simp: run_extensions_def run_chain_def checked_add_def dest: run_hooks_pass
      split: prod.splits sum.splits if_splits option.splits)

section \<open>The admission budget\<close>

text \<open>Chains of both listeners start and end in any order; \<open>er_running\<close> counts those that
  hold the budget.\<close>

record ext_run =
  er_cell :: "admission option"
  er_running :: nat

inductive ext_step :: "ext_run \<Rightarrow> ext_run \<Rightarrow> bool" where
  ext_start:
    "ext_admit m (er_cell s) = (Inr u, c) \<Longrightarrow>
     ext_step s \<lparr> er_cell = c, er_running = er_running s + 1 \<rparr>"
| ext_refuse:
    "ext_admit m (er_cell s) = (Inl e, c) \<Longrightarrow> ext_step s (s \<lparr> er_cell := c \<rparr>)"
| ext_finish:
    "er_running s > 0 \<Longrightarrow>
     ext_step s \<lparr> er_cell = ext_release (er_cell s), er_running = er_running s - 1 \<rparr>"

definition ext_inv :: "ext_run \<Rightarrow> bool" where
  "ext_inv s =
     (case er_cell s of
        None \<Rightarrow> er_running s = 0
      | Some ad \<Rightarrow>
          (case ad_configured ad of
             None \<Rightarrow> True
           | Some n \<Rightarrow> ad_in_use ad = er_running s \<and> er_running s \<le> n))"

lemma ext_inv_step: "ext_inv s \<Longrightarrow> ext_step s t \<Longrightarrow> ext_inv t"
  by (erule ext_step.cases)
    (auto simp: ext_inv_def ext_admit_def ext_release_def Let_def split: option.splits if_splits)

interpretation ext_admission: invariant_system
  "\<lambda>s. s = \<lparr> er_cell = None, er_running = 0 \<rparr>" ext_step ext_inv
  by unfold_locales (simp add: ext_inv_def, rule ext_inv_step)

text \<open>No interleaving of chains runs more of them than the configured capacity.\<close>

lemma ext_capacity:
  "ext_step\<^sup>*\<^sup>* \<lparr> er_cell = None, er_running = 0 \<rparr> s \<Longrightarrow> er_cell s = Some ad \<Longrightarrow>
   ad_configured ad = Some n \<Longrightarrow> er_running s \<le> n"
  using ext_admission.reachable_inv [OF refl, of s] by (auto simp: ext_inv_def)

section \<open>The property\<close>


definition sample_hook :: "string \<Rightarrow> duration \<Rightarrow> hook" where
  "sample_hook h took = (\<lambda>now deadline plan.
     \<lparr> hr_outcome = Some (Inr ()), hr_plan = plan_set h ''1'' plan, hr_end = now + took \<rparr>)"

definition sample_registry :: registry where
  "sample_registry =
     ext_register ''tenant'' (sample_hook ''x-tenant'' 3)
       (ext_register ''audit'' (sample_hook ''x-audit'' 4) Map.empty)"

definition sample_budgets :: ext_budgets where
  "sample_budgets = \<lparr> eb_hook = 5, eb_chain = 9, eb_max_inflight = Some 2, eb_latest = 1000 \<rparr>"

lemma sample_chain_passes:
  "\<exists>plan'. run_extensions sample_registry sample_budgets [''tenant'', ''audit''] 10 None plan_new
     = (Inr (), plan', 17, Some \<lparr> ad_configured = Some 2, ad_in_use = 0 \<rparr>)"
  by (simp add: run_extensions_def run_chain_def checked_add_def sample_budgets_def sample_registry_def
      ext_register_def sample_hook_def ext_admit_def ext_release_def MAX_PERMITS_def Let_def)


end
