(* ===== verification/Cors.thy ===== *)
theory Cors
  imports Rust_Prelude
begin

text \<open>
  Cross-origin resource sharing (\<open>cors.rs\<close>): the compiled policy and the headers
  of preflight and ordinary responses.
\<close>

record cors_config =
  co_origins :: "string list"
  co_methods :: "string list"
  co_headers :: "string list"
  co_expose :: "string list"
  co_credentials :: bool
  co_max_age :: duration

datatype origin_rule = OriginAny | OriginExact string | OriginSuffix string string

datatype origin_error = NoScheme string | NoOriginHost string | OriginPath string | EmptyWildcard string

definition origin_parse :: "string \<Rightarrow> (origin_rule, origin_error) result" where
  "origin_parse raw0 =
     (let raw = trim raw0 in
      if raw = ''*'' then Inr OriginAny
      else case split_once_str ''://'' raw of
             None \<Rightarrow> Inl (NoScheme raw)
           | Some (scheme, rest) \<Rightarrow>
               if rest = [] then Inl (NoOriginHost raw)
               else if CHR ''/'' \<in> set rest then Inl (OriginPath raw)
               else case strip_prefix ''*.'' rest of
                      Some suffix \<Rightarrow>
                        if suffix \<noteq> []
                        then Inr (OriginSuffix (to_ascii_lowercase scheme) (to_ascii_lowercase suffix))
                        else Inl (EmptyWildcard raw)
                    | None \<Rightarrow> Inr (OriginExact (to_ascii_lowercase raw)))"

definition origin_matches :: "origin_rule \<Rightarrow> string \<Rightarrow> bool" where
  "origin_matches rule origin0 =
     (let origin = to_ascii_lowercase (trim origin0) in
      case rule of
        OriginAny \<Rightarrow> True
      | OriginExact want \<Rightarrow> origin = want
      | OriginSuffix scheme suffix \<Rightarrow>
          (case split_once_str ''://'' origin of
             None \<Rightarrow> False
           | Some (got_scheme, host) \<Rightarrow>
               got_scheme = scheme
               \<and> length host > length suffix + 1
               \<and> ends_with suffix host
               \<and> ends_with ''.'' (take (length host - length suffix) host)))"

record cors =
  cr_rules :: "origin_rule list"
  cr_methods :: "string list"
  cr_headers :: "string list"
  cr_expose :: "string list"
  cr_credentials :: bool
  cr_max_age :: nat
  cr_wildcard :: bool

type_synonym cors_headers = "(string \<times> string) list"

datatype cors_error = NoOrigins | BadOrigin origin_error | WildcardCredentials

fun parse_origins :: "string list \<Rightarrow> (origin_rule list, origin_error) result" where
  "parse_origins [] = Inr []"
| "parse_origins (o1 # os) =
     (case origin_parse o1 of
        Inl e \<Rightarrow> Inl e
      | Inr r \<Rightarrow> (case parse_origins os of Inl e \<Rightarrow> Inl e | Inr rs \<Rightarrow> Inr (r # rs)))"

definition cors_compile :: "cors_config \<Rightarrow> (cors, cors_error) result" where
  "cors_compile cfg =
     (if co_origins cfg = [] then Inl NoOrigins
      else case parse_origins (co_origins cfg) of
             Inl e \<Rightarrow> Inl (BadOrigin e)
           | Inr rules \<Rightarrow>
               (let any = (OriginAny \<in> set rules) in
                if any \<and> co_credentials cfg then Inl WildcardCredentials
                else Inr
                  \<lparr> cr_rules = rules,
                    cr_methods = map to_ascii_uppercase (co_methods cfg),
                    cr_headers = map to_ascii_lowercase (co_headers cfg),
                    cr_expose = map to_ascii_lowercase (co_expose cfg),
                    cr_credentials = co_credentials cfg,
                    cr_max_age = as_secs (co_max_age cfg),
                    cr_wildcard = (any \<and> \<not> co_credentials cfg) \<rparr>))"

definition cors_allows :: "cors \<Rightarrow> string \<Rightarrow> bool" where
  "cors_allows c origin = list_ex (\<lambda>r. origin_matches r origin) (cr_rules c)"

definition allow_origin :: "cors \<Rightarrow> string \<Rightarrow> (string \<times> bool) option" where
  "allow_origin c origin =
     (if \<not> cors_allows c origin then None
      else if cr_wildcard c then Some (''*'', False)
      else Some (origin, True))"

definition cors_preflight :: "cors \<Rightarrow> string \<Rightarrow> string \<Rightarrow> cors_headers option" where
  "cors_preflight c origin requested_method =
     (case allow_origin c origin of
        None \<Rightarrow> None
      | Some (v, varies) \<Rightarrow>
          if to_ascii_uppercase (trim requested_method) \<notin> set (cr_methods c) then None
          else Some
            ([(''access-control-allow-origin'', v),
              (''access-control-allow-methods'', join '', '' (cr_methods c)),
              (''access-control-max-age'', show_nat (cr_max_age c))]
             @ (if cr_headers c \<noteq> [] then [(''access-control-allow-headers'', join '', '' (cr_headers c))] else [])
             @ (if cr_credentials c then [(''access-control-allow-credentials'', ''true'')] else [])
             @ (if varies then [(''vary'', ''Origin, Access-Control-Request-Method'')] else [])))"

definition cors_response :: "cors \<Rightarrow> string \<Rightarrow> cors_headers option" where
  "cors_response c origin =
     (case allow_origin c origin of
        None \<Rightarrow> None
      | Some (v, varies) \<Rightarrow> Some
          ([(''access-control-allow-origin'', v)]
           @ (if cr_credentials c then [(''access-control-allow-credentials'', ''true'')] else [])
           @ (if cr_expose c \<noteq> [] then [(''access-control-expose-headers'', join '', '' (cr_expose c))] else [])
           @ (if varies then [(''vary'', ''Origin'')] else [])))"

section \<open>What a rule admits\<close>

text \<open>The abstract reading of a configured origin: equal as a whole, or a proper
  subdomain of the part after the wildcard under the same scheme.\<close>

definition names_origin :: "string \<Rightarrow> string \<Rightarrow> bool" where
  "names_origin configured origin =
     (let want = to_ascii_lowercase (trim configured); got = to_ascii_lowercase (trim origin) in
      got = want
      \<or> (\<exists>scheme sub suffix. sub \<noteq> [] \<and> suffix \<noteq> []
           \<and> want = scheme @ ''://*.'' @ suffix
           \<and> got = scheme @ ''://'' @ sub @ ''.'' @ suffix))"

lemma origin_parse_matches:
  assumes "origin_parse raw = Inr r" "r \<noteq> OriginAny" "origin_matches r origin"
  shows "names_origin raw origin"
proof -
  obtain scheme rest where sp: "split_once_str ''://'' (trim raw) = Some (scheme, rest)"
    using assms(1,2) by (auto simp: origin_parse_def Let_def split: if_splits option.splits)
  have raw: "trim raw = scheme @ ''://'' @ rest" using split_once_str_SomeD [OF sp] .
  show ?thesis
  proof (cases "strip_prefix ''*.'' rest")
    case None
    then have "r = OriginExact (to_ascii_lowercase (trim raw))"
      using assms(1,2) sp by (auto simp: origin_parse_def Let_def split: if_splits)
    then show ?thesis using assms(3) by (simp add: names_origin_def origin_matches_def Let_def)
  next
    case (Some suffix)
    then have rest: "rest = ''*.'' @ suffix" by (simp add: strip_prefix_Some_iff)
    from Some have r: "suffix \<noteq> []"
        "r = OriginSuffix (to_ascii_lowercase scheme) (to_ascii_lowercase suffix)"
      using assms(1,2) sp by (auto simp: origin_parse_def Let_def split: if_splits)
    let ?o = "to_ascii_lowercase (trim origin)" and ?s = "to_ascii_lowercase suffix"
    obtain host where h: "split_once_str ''://'' ?o = Some (to_ascii_lowercase scheme, host)"
        "length host > length ?s + 1" "ends_with ?s host"
        "ends_with ''.'' (take (length host - length ?s) host)"
      using assms(3) r(2) by (auto simp: origin_matches_def Let_def split: option.splits)
    from h(3) obtain p where p: "host = p @ ?s" by (auto simp: ends_with_iff)
    with h(4) obtain sub where sub: "p = sub @ ''.''" by (auto simp: ends_with_iff)
    have "?o = to_ascii_lowercase scheme @ ''://'' @ sub @ ''.'' @ ?s"
      using split_once_str_SomeD [OF h(1)] p sub by simp
    moreover have "to_ascii_lowercase (trim raw) = to_ascii_lowercase scheme @ ''://*.'' @ ?s"
      using raw rest by (simp add: ascii_lower_def is_ascii_upper_def)
    moreover have "sub \<noteq> []" using h(2) p sub by auto
    moreover have "?s \<noteq> []" using r(1) by simp
    ultimately show ?thesis unfolding names_origin_def Let_def by blast
  qed
qed

lemma parse_origins_set:
  "parse_origins os = Inr rs \<Longrightarrow> r \<in> set rs \<Longrightarrow> \<exists>o1\<in>set os. origin_parse o1 = Inr r"
  by (induction os arbitrary: rs) (auto split: sum.splits)

lemma parse_origins_Any:
  "parse_origins os = Inr rs \<Longrightarrow> OriginAny \<in> set rs \<Longrightarrow> \<exists>o1\<in>set os. trim o1 = ''*''"
proof -
  assume "parse_origins os = Inr rs" "OriginAny \<in> set rs"
  then obtain o1 where "o1 \<in> set os" "origin_parse o1 = Inr OriginAny"
    using parse_origins_set by blast
  then show ?thesis
    by (auto simp: origin_parse_def Let_def split: if_splits option.splits prod.splits intro!: bexI [of _ o1])
qed

lemma cors_compile_Inr:
  assumes "cors_compile cfg = Inr c"
  shows "parse_origins (co_origins cfg) = Inr (cr_rules c)"
    and "cr_credentials c = co_credentials cfg"
    and "cr_wildcard c \<longleftrightarrow> OriginAny \<in> set (cr_rules c)"
    and "cr_credentials c \<Longrightarrow> OriginAny \<notin> set (cr_rules c)"
  using assms by (auto simp: cors_compile_def Let_def split: if_splits sum.splits)

lemma allow_origin_named:
  assumes "cors_compile cfg = Inr c" "allow_origin c origin = Some (v, True)"
  shows "v = origin \<and> (\<exists>o1\<in>set (co_origins cfg). names_origin o1 origin)"
proof -
  note c = cors_compile_Inr [OF assms(1)]
  from assms(2) have v: "v = origin" "\<not> cr_wildcard c" "cors_allows c origin"
    by (auto simp: allow_origin_def split: if_splits)
  then obtain r where r: "r \<in> set (cr_rules c)" "origin_matches r origin" "r \<noteq> OriginAny"
    using c(3) by (auto simp: cors_allows_def list_ex_iff)
  then obtain o1 where "o1 \<in> set (co_origins cfg)" "origin_parse o1 = Inr r"
    using parse_origins_set [OF c(1)] by blast
  then show ?thesis using v(1) origin_parse_matches r by blast
qed

lemma allow_origin_wildcard:
  assumes "cors_compile cfg = Inr c" "allow_origin c origin = Some (v, False)"
  shows "v = ''*'' \<and> \<not> cr_credentials c \<and> (\<exists>o1\<in>set (co_origins cfg). trim o1 = ''*'')"
  using assms cors_compile_Inr [OF assms(1)] parse_origins_Any
  by (auto simp: allow_origin_def split: if_splits)

section \<open>Properties\<close>


definition sample_cors :: cors_config where
  "sample_cors =
     \<lparr> co_origins = [''https://app.example.com'', ''https://*.preview.example.com''],
       co_methods = [''GET'', ''POST''], co_headers = [''content-type''], co_expose = [],
       co_credentials = True, co_max_age = 0 \<rparr>"


end
