(* ===== verification/Csrf.thy ===== *)
theory Csrf
  imports Headers
begin

text \<open>
  Origin protection of cookie credentials (\<open>csrf.rs\<close>). URL parsing is the
  \<open>reqwest\<close> crate's (the parameter \<open>url_parse\<close>); what is read of a parsed URL is
  the record \<open>url\<close>.
\<close>

record url =
  u_scheme :: string
  u_host :: "string option"
  u_username :: string
  u_password :: "string option"
  u_path :: string
  u_query :: "string option"
  u_fragment :: "string option"
  u_origin :: string

record cookie_protection_config =
  cp_origins :: "string list"
  cp_referer_fallback :: bool

record cookie_protection =
  pr_origins :: "string list"
  pr_referer_fallback :: bool

definition csrf_origin :: "(string \<Rightarrow> url option) \<Rightarrow> string \<Rightarrow> bool \<Rightarrow> string option" where
  "csrf_origin url_parse raw referer =
     (if CHR ''*'' \<in> set raw \<or> 2048 < length raw
         \<or> list_ex (\<lambda>b. byte b \<le> 32 \<or> byte b = 127 \<or> byte b = 92) raw
      then None
      else case url_parse raw of
             None \<Rightarrow> None
           | Some u \<Rightarrow>
               if u_scheme u \<notin> {''http'', ''https''} \<or> u_host u = None \<or> u_username u \<noteq> []
                  \<or> u_password u \<noteq> None
                  \<or> (\<not> referer \<and> (u_path u \<noteq> ''/'' \<or> u_query u \<noteq> None \<or> u_fragment u \<noteq> None))
               then None
               else Some (u_origin u))"

definition single :: "header_map \<Rightarrow> string \<Rightarrow> (string option, string) result" where
  "single headers name =
     (case headers name of
        [] \<Rightarrow> Inr None
      | [v] \<Rightarrow> (case to_str v of Some s \<Rightarrow> Inr (Some s) | None \<Rightarrow> Inl ''cookie_origin_denied'')
      | _ \<Rightarrow> Inl ''cookie_origin_ambiguous'')"

fun csrf_origins :: "(string \<Rightarrow> url option) \<Rightarrow> string list \<Rightarrow> string list option" where
  "csrf_origins url_parse [] = Some []"
| "csrf_origins url_parse (raw # raws) =
     (case csrf_origin url_parse raw False of
        None \<Rightarrow> None
      | Some o1 \<Rightarrow> map_option (\<lambda>os. o1 # os) (csrf_origins url_parse raws))"

definition csrf_compile ::
  "(string \<Rightarrow> url option) \<Rightarrow> cookie_protection_config \<Rightarrow> (cookie_protection, string) result" where
  "csrf_compile url_parse config =
     (if cp_origins config = [] then Inl ''origins must not be empty''
      else case csrf_origins url_parse (cp_origins config) of
             None \<Rightarrow> Inl ''origins must be exact HTTP(S) origins without credentials, paths or wildcards''
           | Some os \<Rightarrow> Inr \<lparr> pr_origins = os, pr_referer_fallback = cp_referer_fallback config \<rparr>)"

definition safe_method :: "string \<Rightarrow> bool" where
  "safe_method m = (m \<in> {''GET'', ''HEAD'', ''OPTIONS'', ''TRACE''})"

definition csrf_candidate ::
  "(string \<Rightarrow> url option) \<Rightarrow> cookie_protection \<Rightarrow> header_map \<Rightarrow> (string option, string) result" where
  "csrf_candidate url_parse p headers =
     (case single headers ''origin'' of
        Inl e \<Rightarrow> Inl e
      | Inr (Some raw) \<Rightarrow> Inr (csrf_origin url_parse raw False)
      | Inr None \<Rightarrow>
          if pr_referer_fallback p then
            (case single headers ''referer'' of
               Inl e \<Rightarrow> Inl e
             | Inr r \<Rightarrow> Inr (Option.bind r (\<lambda>raw. csrf_origin url_parse raw True)))
          else Inl ''cookie_origin_required'')"

definition csrf_check ::
  "(string \<Rightarrow> url option) \<Rightarrow> cookie_protection \<Rightarrow> header_map \<Rightarrow> string \<Rightarrow> (unit, string) result" where
  "csrf_check url_parse p headers m =
     (if safe_method m then Inr ()
      else case csrf_candidate url_parse p headers of
             Inl e \<Rightarrow> Inl e
           | Inr None \<Rightarrow> Inl ''cookie_origin_denied''
           | Inr (Some candidate) \<Rightarrow>
               if candidate \<in> set (pr_origins p) then Inr () else Inl ''cookie_origin_denied'')"

lemma single_simps:
  "single h n = Inr None \<longleftrightarrow> h n = []"
  "single h n = Inr (Some s) \<longleftrightarrow> h n = [Text s]"
proof -
  show "single h n = Inr None \<longleftrightarrow> h n = []"
    by (simp add: single_def split: list.splits option.splits)
  show "single h n = Inr (Some s) \<longleftrightarrow> h n = [Text s]"
  proof
    assume "single h n = Inr (Some s)"
    then obtain v where "h n = [v]" "to_str v = Some s"
      by (auto simp: single_def split: list.splits option.splits)
    then show "h n = [Text s]" by (cases v) auto
  qed (simp add: single_def)
qed

lemma csrf_origins_set:
  "csrf_origins up raws = Some os \<Longrightarrow> c \<in> set os \<Longrightarrow> \<exists>raw\<in>set raws. csrf_origin up raw False = Some c"
  by (induction raws arbitrary: os) (auto split: option.splits)

section \<open>Properties\<close>

text \<open>C26: a cookie authenticates an unsafe request only from a configured site. When
  the check passes for a method other than the four safe ones, the request has
  exactly one readable \<open>Origin\<close> header (or none and, where the fallback is on,
  exactly one \<open>Referer\<close>) and its parsed origin is that of a configured entry;
  absent, repeated, opaque and unparseable headers are refused.\<close>

theorem csrf_only_configured_origins:
  assumes "csrf_compile url_parse cfg = Inr p"
    and "csrf_check url_parse p headers m = Inr ()" and "\<not> safe_method m"
  shows "\<exists>c raw. (\<exists>entry\<in>set (cp_origins cfg). csrf_origin url_parse entry False = Some c)
    \<and> (headers ''origin'' = [Text raw] \<and> csrf_origin url_parse raw False = Some c
       \<or> headers ''origin'' = [] \<and> cp_referer_fallback cfg \<and> headers ''referer'' = [Text raw]
         \<and> csrf_origin url_parse raw True = Some c)"
proof -
  obtain os where os: "csrf_origins url_parse (cp_origins cfg) = Some os" "pr_origins p = os"
    "pr_referer_fallback p = cp_referer_fallback cfg"
    using assms(1) by (auto simp: csrf_compile_def split: if_splits option.splits)
  obtain c where c: "csrf_candidate url_parse p headers = Inr (Some c)" "c \<in> set os"
    using assms(2,3) os(2) by (auto simp: csrf_check_def split: sum.splits option.splits if_splits)
  have "\<exists>raw. headers ''origin'' = [Text raw] \<and> csrf_origin url_parse raw False = Some c
       \<or> headers ''origin'' = [] \<and> cp_referer_fallback cfg \<and> headers ''referer'' = [Text raw]
         \<and> csrf_origin url_parse raw True = Some c"
    using c(1) os(3)
    by (auto simp: csrf_candidate_def single_simps bind_eq_Some_conv split: sum.splits option.splits if_splits)
  then show ?thesis using csrf_origins_set [OF os(1) c(2)] by blast
qed

text \<open>A URL parser for the sample: scheme and host only.\<close>

definition sample_url_parse :: "string \<Rightarrow> url option" where
  "sample_url_parse raw =
     (case strip_prefix ''https://'' raw of
        None \<Rightarrow> None
      | Some host \<Rightarrow>
          if host = [] \<or> CHR ''/'' \<in> set host then None
          else Some \<lparr> u_scheme = ''https'', u_host = Some host, u_username = [], u_password = None,
                 u_path = ''/'', u_query = None, u_fragment = None, u_origin = raw \<rparr>)"

definition sample_headers :: header_map where
  "sample_headers = (\<lambda>n. if n = ''origin'' then [Text ''https://app.example''] else [])"

theorem csrf_only_configured_origins_witness:
  "\<exists>p. csrf_compile sample_url_parse \<lparr> cp_origins = [''https://app.example''], cp_referer_fallback = False \<rparr> = Inr p
     \<and> csrf_check sample_url_parse p sample_headers ''POST'' = Inr ()
     \<and> (\<exists>c. csrf_origin sample_url_parse ''https://app.example'' False = Some c)"
proof -
  let ?cfg = "\<lparr> cp_origins = [''https://app.example''], cp_referer_fallback = False \<rparr>"
  let ?p = "\<lparr> pr_origins = [''https://app.example''], pr_referer_fallback = False \<rparr>"
  have o1: "csrf_origin sample_url_parse ''https://app.example'' False = Some ''https://app.example''"
    by (simp add: csrf_origin_def sample_url_parse_def)
  have p: "csrf_compile sample_url_parse ?cfg = Inr ?p"
    by (simp add: csrf_compile_def o1)
  have k: "csrf_check sample_url_parse ?p sample_headers ''POST'' = Inr ()"
    by (simp add: csrf_check_def safe_method_def csrf_candidate_def single_def sample_headers_def o1)
  have "\<not> safe_method ''POST''" by (simp add: safe_method_def)
  from csrf_only_configured_origins [OF p k this] have
    "\<exists>c. csrf_origin sample_url_parse ''https://app.example'' False = Some c" by auto
  with p k show ?thesis by blast
qed

end
