(* ===== verification/Identity_Headers.thy ===== *)
theory Identity_Headers
  imports Auth
begin

text \<open>
  Describing the verified caller to upstreams (\<open>identity.rs\<close>). The base64
  encoding of the claims (\<open>encode_claims\<close>) and the signing of a token (\<open>sign\<close>,
  \<open>jsonwebtoken::encode\<close>) are parameters; the clock is the argument \<open>now\<close>, in
  seconds.
\<close>

section \<open>Configuration and claims\<close>

record claim_mapping =
  cm_claim :: string
  cm_when_null :: "string option"

record identity_token_config =
  it_header :: string
  it_secret :: string
  it_ttl :: duration
  it_audience :: "string option"

record identity_config =
  ic_subject_header :: string
  ic_issuer_header :: string
  ic_claims_header :: string
  ic_claims :: "(string \<times> claim_mapping) list"
  ic_token :: "identity_token_config option"

record identity_claims =
  tc_sub :: string
  tc_iss :: string
  tc_tenant :: string
  tc_iat :: nat
  tc_exp :: nat
  tc_aud :: "string option"

datatype identity_error = ClaimError string | MintError string

section \<open>Operations\<close>

definition is_header_safe :: "string \<Rightarrow> bool" where
  "is_header_safe v = list_all (\<lambda>c. byte c = 9 \<or> 32 \<le> byte c \<and> byte c \<le> 126) v"

text \<open>The value a claim becomes: \<open>Inl\<close> for a structure, \<open>Inr None\<close> for a null with
  no replacement.\<close>

definition render_claim :: "string \<Rightarrow> claim_mapping \<Rightarrow> json \<Rightarrow> (string option, identity_error) result" where
  "render_claim header mapping v = (case v of
     JString s \<Rightarrow> Inr (Some s)
   | JNumber n \<Rightarrow> Inr (Some n)
   | JBool b \<Rightarrow> Inr (Some (if b then ''true'' else ''false''))
   | JNull \<Rightarrow> Inr (cm_when_null mapping)
   | _ \<Rightarrow> Inl (ClaimError (''claim `'' @ cm_claim mapping @
             ''` is a structure and cannot become header `'' @ header @ ''`'')))"

text \<open>One turn of the loop over the configured claims: the header is stripped
  first, whatever becomes of the claim.\<close>

definition claim_header_step ::
  "identity \<Rightarrow> string \<Rightarrow> claim_mapping \<Rightarrow> header_plan \<Rightarrow> (header_plan, identity_error) result" where
  "claim_header_step ident header mapping plan =
     (if header = [] then Inr plan
      else
        (let plan1 = plan_strip header plan in
         case claim_at ident (cm_claim mapping) of
           None \<Rightarrow> Inr plan1
         | Some v \<Rightarrow>
             (case render_claim header mapping v of
                Inl e \<Rightarrow> Inl e
              | Inr None \<Rightarrow> Inr plan1
              | Inr (Some rendered) \<Rightarrow>
                  if \<not> is_header_safe rendered
                  then Inl (ClaimError (''claim `'' @ cm_claim mapping @
                         ''` contains a character that cannot appear in header `'' @ header @ ''`''))
                  else Inr (plan_set header rendered plan1))))"

fun apply_claim_headers ::
  "identity \<Rightarrow> (string \<times> claim_mapping) list \<Rightarrow> header_plan \<Rightarrow> (header_plan, identity_error) result" where
  "apply_claim_headers ident [] plan = Inr plan"
| "apply_claim_headers ident ((header, mapping) # rest) plan =
     (case claim_header_step ident header mapping plan of
        Inl e \<Rightarrow> Inl e
      | Inr plan1 \<Rightarrow> apply_claim_headers ident rest plan1)"

definition mint ::
  "(string \<Rightarrow> identity_claims \<Rightarrow> (string, string) result) \<Rightarrow> nat \<Rightarrow>
   identity_token_config \<Rightarrow> string \<Rightarrow> identity \<Rightarrow> (string, string) result" where
  "mint sign now cfg secret ident =
     sign secret \<lparr> tc_sub = id_subject ident, tc_iss = id_issuer ident,
       tc_tenant = id_audience ident, tc_iat = now,
       tc_exp = sat_add U64_MAX now (as_secs (it_ttl cfg)), tc_aud = it_audience cfg \<rparr>"

text \<open>The two checked claims and the encoded claim set.\<close>

definition apply_text_header ::
  "string \<Rightarrow> string \<Rightarrow> string \<Rightarrow> header_plan \<Rightarrow> (header_plan, identity_error) result" where
  "apply_text_header header claim v plan =
     (if header = [] then Inr plan
      else if \<not> is_header_safe v
      then Inl (ClaimError (''`'' @ claim @ ''` contains a character that cannot appear in header `''
                            @ header @ ''`''))
      else Inr (plan_set header v plan))"

definition apply_claims_blob ::
  "((string \<times> json) list \<Rightarrow> string option) \<Rightarrow> identity_config \<Rightarrow> identity \<Rightarrow> header_plan \<Rightarrow> header_plan" where
  "apply_claims_blob encode_claims cfg ident plan =
     (if ic_claims_header cfg = [] then plan
      else case encode_claims (id_claims ident) of
             None \<Rightarrow> plan
           | Some v \<Rightarrow> plan_set (ic_claims_header cfg) v plan)"

definition apply_token ::
  "(string \<Rightarrow> identity_claims \<Rightarrow> (string, string) result) \<Rightarrow> nat \<Rightarrow> identity_config \<Rightarrow>
   string option \<Rightarrow> identity \<Rightarrow> header_plan \<Rightarrow> (header_plan, identity_error) result" where
  "apply_token sign now cfg secret ident plan =
     (case ic_token cfg of
        None \<Rightarrow> Inr plan
      | Some token_cfg \<Rightarrow>
          (case secret of
             None \<Rightarrow> Inr (plan_strip (it_header token_cfg) plan)
           | Some key \<Rightarrow>
               (case mint sign now token_cfg key ident of
                  Inl e \<Rightarrow> Inl (MintError e)
                | Inr token \<Rightarrow> Inr (plan_set (it_header token_cfg) token plan))))"

definition apply_identity ::
  "((string \<times> json) list \<Rightarrow> string option) \<Rightarrow>
   (string \<Rightarrow> identity_claims \<Rightarrow> (string, string) result) \<Rightarrow> nat \<Rightarrow>
   identity_config \<Rightarrow> string option \<Rightarrow> identity \<Rightarrow> header_plan \<Rightarrow>
   (header_plan, identity_error) result" where
  "apply_identity encode_claims sign now cfg secret ident plan =
     (case apply_text_header (ic_subject_header cfg) ''sub'' (id_subject ident) plan of
        Inl e \<Rightarrow> Inl e
      | Inr plan1 \<Rightarrow>
          (case apply_text_header (ic_issuer_header cfg) ''iss'' (id_issuer ident) plan1 of
             Inl e \<Rightarrow> Inl e
           | Inr plan2 \<Rightarrow>
               (case apply_claim_headers ident (ic_claims cfg)
                       (apply_claims_blob encode_claims cfg ident plan2) of
                  Inl e \<Rightarrow> Inl e
                | Inr plan3 \<Rightarrow> apply_token sign now cfg secret ident plan3)))"

definition strip_nonempty :: "string \<Rightarrow> header_plan \<Rightarrow> header_plan" where
  "strip_nonempty h plan = (if h = [] then plan else plan_strip h plan)"

definition strip_all :: "identity_config \<Rightarrow> header_plan \<Rightarrow> header_plan" where
  "strip_all cfg plan =
     (let plan1 = fold strip_nonempty
                    [ic_subject_header cfg, ic_issuer_header cfg, ic_claims_header cfg] plan;
          plan2 = fold strip_nonempty (map fst (ic_claims cfg)) plan1 in
      case ic_token cfg of None \<Rightarrow> plan2 | Some t \<Rightarrow> plan_strip (it_header t) plan2)"

section \<open>What happens to the names\<close>

text \<open>The headers through which the gateway speaks about the caller.\<close>

definition identity_names :: "identity_config \<Rightarrow> string set" where
  "identity_names cfg =
     to_ascii_lowercase `
       ({h \<in> {ic_subject_header cfg, ic_issuer_header cfg, ic_claims_header cfg}
              \<union> fst ` set (ic_claims cfg). h \<noteq> []}
        \<union> (case ic_token cfg of None \<Rightarrow> {} | Some t \<Rightarrow> {it_header t}))"

lemma strip_nonempty_simps [simp]:
  "hp_set (strip_nonempty h plan) = hp_set plan"
  "hp_remove (strip_nonempty h plan) =
     (if h = [] then {} else {to_ascii_lowercase h}) \<union> hp_remove plan"
  by (auto simp: strip_nonempty_def)

lemma fold_strip_nonempty:
  "hp_set (fold strip_nonempty hs plan) = hp_set plan"
  "hp_remove (fold strip_nonempty hs plan) =
     to_ascii_lowercase ` {h \<in> set hs. h \<noteq> []} \<union> hp_remove plan"
  by (induction hs arbitrary: plan) auto

lemma strip_all_simps:
  "hp_set (strip_all cfg plan) = hp_set plan"
  "hp_remove (strip_all cfg plan) = identity_names cfg \<union> hp_remove plan"
  by (auto simp: strip_all_def Let_def fold_strip_nonempty identity_names_def split: option.splits)

lemma plan_wf_strip_all: "plan_wf plan \<Longrightarrow> plan_wf (strip_all cfg plan)"
  by (auto simp: plan_wf_def strip_all_simps)

text \<open>A plan that grew: nothing removed is forgotten, and a new value is safe.\<close>

definition grows :: "(string \<Rightarrow> bool) \<Rightarrow> header_plan \<Rightarrow> header_plan \<Rightarrow> bool" where
  "grows safe p q =
     (hp_remove p \<subseteq> hp_remove q \<and>
      (\<forall>n v. (n, v) \<in> set (hp_set q) \<longrightarrow> (n, v) \<in> set (hp_set p) \<or> safe v \<and> n \<in> hp_remove q))"

lemma grows_refl [simp]: "grows safe p p"
  by (simp add: grows_def)

lemma grows_trans: "grows safe p q \<Longrightarrow> grows safe q r \<Longrightarrow> grows safe p r"
  by (fastforce simp: grows_def)

lemma grows_strip [simp]: "grows safe p (plan_strip h p)"
  by (auto simp: grows_def)

lemma grows_set: "safe v \<Longrightarrow> grows safe p (plan_set h v p)"
  by (auto simp: grows_def plan_set_def Let_def)

lemma grows_text:
  "apply_text_header h c v p = Inr q \<Longrightarrow> (\<And>v. is_header_safe v \<Longrightarrow> safe v) \<Longrightarrow> grows safe p q"
  by (auto simp: apply_text_header_def grows_set split: if_splits)

lemma claim_header_step_grows:
  assumes "\<And>v. is_header_safe v \<Longrightarrow> safe v" "claim_header_step ident h m p = Inr q"
  shows "grows safe p q" "h \<noteq> [] \<Longrightarrow> to_ascii_lowercase h \<in> hp_remove q"
proof -
  have q: "q = p \<and> h = [] \<or> q = plan_strip h p \<or>
      (\<exists>v. is_header_safe v \<and> q = plan_set h v (plan_strip h p))"
    using assms(2)
    by (auto simp: claim_header_step_def Let_def split: if_splits option.splits sum.splits)
  then show "grows safe p q" using assms(1) grows_trans [OF grows_strip grows_set] by auto
  show "to_ascii_lowercase h \<in> hp_remove q" if "h \<noteq> []" using q that by auto
qed

lemma apply_claim_headers_grows:
  assumes safe: "\<And>v. is_header_safe v \<Longrightarrow> safe v"
  shows "apply_claim_headers ident ms p = Inr q \<Longrightarrow>
    grows safe p q \<and> to_ascii_lowercase ` {h \<in> fst ` set ms. h \<noteq> []} \<subseteq> hp_remove q"
proof (induction ms arbitrary: p)
  case (Cons m ms)
  obtain h mapping where m: "m = (h, mapping)" by (cases m)
  with Cons.prems obtain p1 where p1: "claim_header_step ident h mapping p = Inr p1"
    "apply_claim_headers ident ms p1 = Inr q"
    by (auto split: sum.splits)
  note step = claim_header_step_grows [OF safe p1(1)]
  have IH: "grows safe p1 q" "to_ascii_lowercase ` {h \<in> fst ` set ms. h \<noteq> []} \<subseteq> hp_remove q"
    using Cons.IH [OF p1(2)] by auto
  have "h \<noteq> [] \<Longrightarrow> to_ascii_lowercase h \<in> hp_remove q"
    using step(2) IH(1) by (auto simp: grows_def)
  then show ?case using grows_trans [OF step(1) IH(1)] IH(2) m by auto
qed simp

lemma apply_claims_blob_grows:
  "(\<And>v. encode_claims (id_claims ident) = Some v \<Longrightarrow> safe v) \<Longrightarrow>
   grows safe p (apply_claims_blob encode_claims cfg ident p)"
  by (auto simp: apply_claims_blob_def grows_set split: option.splits)

lemma apply_token_grows:
  "apply_token sign now cfg secret ident p = Inr q \<Longrightarrow>
   (\<And>key c v. sign key c = Inr v \<Longrightarrow> safe v) \<Longrightarrow>
   grows safe p q \<and> (case ic_token cfg of None \<Rightarrow> True
                       | Some t \<Rightarrow> to_ascii_lowercase (it_header t) \<in> hp_remove q)"
  by (auto simp: apply_token_def mint_def grows_set split: option.splits sum.splits)

text \<open>The stages of a successful \<open>apply_identity\<close>.\<close>

lemma apply_identity_stages:
  assumes "apply_identity encode_claims sign now cfg secret ident p = Inr q"
  obtains p1 p2 p3 where
    "apply_text_header (ic_subject_header cfg) ''sub'' (id_subject ident) p = Inr p1"
    "apply_text_header (ic_issuer_header cfg) ''iss'' (id_issuer ident) p1 = Inr p2"
    "apply_claim_headers ident (ic_claims cfg) (apply_claims_blob encode_claims cfg ident p2) = Inr p3"
    "apply_token sign now cfg secret ident p3 = Inr q"
  using assms by (auto simp: apply_identity_def split: sum.splits)

lemma apply_text_header_removes:
  "apply_text_header h c v p = Inr q \<Longrightarrow> h \<noteq> [] \<Longrightarrow> to_ascii_lowercase h \<in> hp_remove q"
  by (auto simp: apply_text_header_def split: if_splits)

lemma grows_remove: "grows safe p q \<Longrightarrow> n \<in> hp_remove p \<Longrightarrow> n \<in> hp_remove q"
  by (auto simp: grows_def)

text \<open>Serializing the claim set of a verified token cannot fail (\<open>total\<close>): it is a map of
  JSON values.\<close>

lemma apply_identity_grows:
  assumes a: "apply_identity encode_claims sign now cfg secret ident p = Inr q"
    and safe: "\<And>v. is_header_safe v \<Longrightarrow> safe v"
      "\<And>cs v. encode_claims cs = Some v \<Longrightarrow> safe v" "\<And>key c v. sign key c = Inr v \<Longrightarrow> safe v"
    and total: "\<And>cs. encode_claims cs \<noteq> None"
  shows "grows safe p q \<and> identity_names cfg \<subseteq> hp_remove q"
proof -
  from a obtain p1 p2 p3 where st:
    "apply_text_header (ic_subject_header cfg) ''sub'' (id_subject ident) p = Inr p1"
    "apply_text_header (ic_issuer_header cfg) ''iss'' (id_issuer ident) p1 = Inr p2"
    "apply_claim_headers ident (ic_claims cfg) (apply_claims_blob encode_claims cfg ident p2) = Inr p3"
    "apply_token sign now cfg secret ident p3 = Inr q"
    by (rule apply_identity_stages)
  let ?b = "apply_claims_blob encode_claims cfg ident p2"
  have g1: "grows safe p p1" and g2: "grows safe p1 p2" using st(1,2) grows_text safe(1) by blast+
  have g3: "grows safe p2 ?b" using safe(2) by (rule apply_claims_blob_grows)
  have g4: "grows safe ?b p3"
    and claims: "to_ascii_lowercase ` {h \<in> fst ` set (ic_claims cfg). h \<noteq> []} \<subseteq> hp_remove p3"
    using apply_claim_headers_grows [of safe, OF safe(1) st(3)] by blast+
  have g5: "grows safe p3 q"
    and token: "case ic_token cfg of None \<Rightarrow> True | Some t \<Rightarrow> to_ascii_lowercase (it_header t) \<in> hp_remove q"
    using apply_token_grows [OF st(4), of safe] safe(3) by blast+
  have g: "grows safe p q" using grows_trans g1 g2 g3 g4 g5 by blast
  have late: "grows safe p1 q" "grows safe p2 q" "grows safe ?b q"
    using grows_trans g2 g3 g4 g5 by blast+
  have blob: "to_ascii_lowercase (ic_claims_header cfg) \<in> hp_remove ?b" if "ic_claims_header cfg \<noteq> []"
    using that total [of "id_claims ident"] by (auto simp: apply_claims_blob_def)
  have claims': "to_ascii_lowercase h \<in> hp_remove q" if "(h, m) \<in> set (ic_claims cfg)" "h \<noteq> []" for h m
  proof -
    have "h \<in> {h \<in> fst ` set (ic_claims cfg). h \<noteq> []}" using that by force
    with claims have "to_ascii_lowercase h \<in> hp_remove p3" by blast
    then show ?thesis by (rule grows_remove [OF g5])
  qed
  have "identity_names cfg \<subseteq> hp_remove q"
    using apply_text_header_removes [OF st(1)] apply_text_header_removes [OF st(2)] blob claims' token
      late
    by (auto simp: identity_names_def dest: grows_remove split: option.splits)
  with g show ?thesis by blast
qed

lemma apply_text_header_wf: "apply_text_header h c v p = Inr q \<Longrightarrow> plan_wf p \<Longrightarrow> plan_wf q"
  by (auto simp: apply_text_header_def split: if_splits)

lemma claim_header_step_wf: "claim_header_step ident h m p = Inr q \<Longrightarrow> plan_wf p \<Longrightarrow> plan_wf q"
  by (auto simp: claim_header_step_def Let_def split: if_splits option.splits sum.splits)

lemma apply_claim_headers_wf:
  "apply_claim_headers ident ms p = Inr q \<Longrightarrow> plan_wf p \<Longrightarrow> plan_wf q"
  by (induction ident ms p rule: apply_claim_headers.induct)
    (auto split: sum.splits dest: claim_header_step_wf)

lemma apply_identity_wf:
  assumes "apply_identity encode_claims sign now cfg secret ident p = Inr q" "plan_wf p"
  shows "plan_wf q"
proof -
  have blob: "plan_wf r \<Longrightarrow> plan_wf (apply_claims_blob encode_claims cfg ident r)" for r
    by (auto simp: apply_claims_blob_def split: option.splits)
  have token: "apply_token sign now cfg secret ident r = Inr q \<Longrightarrow> plan_wf r \<Longrightarrow> plan_wf q" for r
    by (auto simp: apply_token_def split: option.splits sum.splits)
  from assms(1) obtain p1 p2 p3 where st:
    "apply_text_header (ic_subject_header cfg) ''sub'' (id_subject ident) p = Inr p1"
    "apply_text_header (ic_issuer_header cfg) ''iss'' (id_issuer ident) p1 = Inr p2"
    "apply_claim_headers ident (ic_claims cfg) (apply_claims_blob encode_claims cfg ident p2) = Inr p3"
    "apply_token sign now cfg secret ident p3 = Inr q"
    by (rule apply_identity_stages)
  have "plan_wf p2" using apply_text_header_wf st(1,2) assms(2) by blast
  then show ?thesis by (intro token [OF st(4)] apply_claim_headers_wf [OF st(3)] blob)
qed

section \<open>Properties\<close>

definition sample_identity_config :: identity_config where
  "sample_identity_config = \<lparr> ic_subject_header = ''x-user-id'', ic_issuer_header = [],
     ic_claims_header = [],
     ic_claims = [(''x-name'', \<lparr> cm_claim = ''name'', cm_when_null = None \<rparr>)], ic_token = None \<rparr>"

definition sample_caller :: "json \<Rightarrow> identity" where
  "sample_caller name = \<lparr> id_subject = ''u1'', id_issuer = ''iss'', id_audience = ''aud'',
     id_claims = [(''name'', name)] \<rparr>"

text \<open>Identity headers cannot be forged or split. Once the identity of a verified
  caller is applied, every header through which the gateway speaks about the caller is
  removed from what the client sent, and every value the identity adds is free of control
  characters, provided the claims encoder and the signer produce header-safe text and
  encoding a claim set does not fail; a claim that would need one fails the request.\<close>

theorem identity_headers_safe:
  assumes "apply_identity encode_claims sign now cfg secret ident plan = Inr plan'"
    and "\<And>cs. \<exists>v. encode_claims cs = Some v \<and> is_header_safe v"
    and "\<And>key c v. sign key c = Inr v \<Longrightarrow> is_header_safe v"
  shows "identity_names cfg \<subseteq> hp_remove plan'
    \<and> (\<forall>n v. (n, v) \<in> set (hp_set plan') \<longrightarrow> (n, v) \<notin> set (hp_set plan) \<longrightarrow> is_header_safe v)"
proof -
  have enc: "is_header_safe v" if "encode_claims cs = Some v" for cs v
    using assms(2) [of cs] that by auto
  have total: "encode_claims cs \<noteq> None" for cs using assms(2) [of cs] by auto
  have "grows is_header_safe plan plan' \<and> identity_names cfg \<subseteq> hp_remove plan'"
    by (rule apply_identity_grows [OF assms(1)]) (use enc assms(3) total in blast)+
  then show ?thesis by (auto simp: grows_def)
qed

theorem identity_headers_safe_witness:
  "\<exists>plan'. apply_identity (\<lambda>_. Some ''e30'') (\<lambda>_ _. Inl ''no key'') 0 sample_identity_config None
       (sample_caller (JString ''Ada'')) plan_new = Inr plan'
     \<and> hp_set plan' = [(''x-user-id'', ''u1''), (''x-name'', ''Ada'')]
     \<and> identity_names sample_identity_config \<subseteq> hp_remove plan'"
proof -
  let ?r = "apply_identity (\<lambda>_. Some ''e30'') (\<lambda>_ _. Inl ''no key'') 0 sample_identity_config None
       (sample_caller (JString ''Ada'')) plan_new"
  obtain q where q: "?r = Inr q" "hp_set q = [(''x-user-id'', ''u1''), (''x-name'', ''Ada'')]"
    by (simp add: apply_identity_def apply_text_header_def apply_claims_blob_def apply_token_def
        claim_header_step_def claim_at_def get_either_def render_claim_def is_header_safe_def
        sample_identity_config_def sample_caller_def plan_new_def
        plan_strip_def plan_set_def to_ascii_lowercase_def ascii_lower_def is_ascii_upper_def Let_def)
  have "identity_names sample_identity_config \<subseteq> hp_remove q"
    using identity_headers_safe [OF q(1)] by (simp add: is_header_safe_def)
  with q show ?thesis by auto
qed

text \<open>An absent claim never becomes an assertion. When a mapped header appears
  among the additions with a value the plan did not hold before, the token
  carries the claim, as that scalar or as an explicit null with its configured
  replacement; a claim that is a structure refuses the request.\<close>

theorem claim_headers_tristate:
  assumes "claim_header_step ident header mapping plan = Inr plan'" "header \<noteq> []"
  shows "to_ascii_lowercase header \<in> hp_remove plan'
    \<and> (hp_set plan' = hp_set plan
         \<and> (claim_at ident (cm_claim mapping) = None
             \<or> claim_at ident (cm_claim mapping) = Some JNull \<and> cm_when_null mapping = None)
       \<or> (\<exists>v. hp_set plan' = hp_set (plan_set header v plan) \<and> is_header_safe v
             \<and> (claim_at ident (cm_claim mapping) = Some (JString v)
                 \<or> claim_at ident (cm_claim mapping) = Some (JNumber v)
                 \<or> claim_at ident (cm_claim mapping) = Some (JBool True) \<and> v = ''true''
                 \<or> claim_at ident (cm_claim mapping) = Some (JBool False) \<and> v = ''false''
                 \<or> claim_at ident (cm_claim mapping) = Some JNull \<and> cm_when_null mapping = Some v)))"
proof -
  have set: "hp_set (plan_set header v (plan_strip header plan)) = hp_set (plan_set header v plan)" for v
    by (simp add: plan_set_def plan_strip_def)
  show ?thesis
  proof (cases "claim_at ident (cm_claim mapping)")
    case None
    then show ?thesis using assms by (auto simp: claim_header_step_def)
  next
    case (Some c)
    then show ?thesis using assms set
      by (cases c) (auto simp: claim_header_step_def render_claim_def Let_def
          split: option.splits if_splits)
  qed
qed

theorem claim_headers_tristate_witness:
  "claim_header_step (sample_caller JNull) ''x-name'' \<lparr> cm_claim = ''name'', cm_when_null = None \<rparr> plan_new
     = Inr (plan_strip ''x-name'' plan_new)
   \<and> hp_set (plan_strip ''x-name'' plan_new) = []"
proof -
  have s: "claim_header_step (sample_caller JNull) ''x-name''
      \<lparr> cm_claim = ''name'', cm_when_null = None \<rparr> plan_new = Inr (plan_strip ''x-name'' plan_new)"
    by (simp add: claim_header_step_def claim_at_def get_either_def render_claim_def
        sample_caller_def plan_strip_def)
  then show ?thesis
    using claim_headers_tristate [OF s] by (simp add: plan_new_def)
qed

end
