(* ===== verification/Client_Keys.thy ===== *)
theory Client_Keys
  imports Routes Identity_Headers
begin

text \<open>
  Client keys and the configuration checks around them (\<open>config/mod.rs\<close>):
  resolving \<open>auth.client_keys\<close>, the rule that says whether a request needs one,
  and token cookie names. The validity of a header name (\<open>http::HeaderName\<close>), the
  SHA-256 digest (\<open>ring\<close>) and the percent decoder are parameters.
\<close>

section \<open>Configuration\<close>

record client_keys_config =
  ck_header :: string
  ck_forward_as :: "string option"
  ck_keys :: "(string \<times> string) list"
  ck_exempt :: "string list"
  ck_exempt_groups :: "string list"

record client_key =
  key_id :: string
  key_digest :: string

record resolved_client_keys =
  rk_header :: string
  rk_forward_as :: "string option"
  rk_keys :: "client_key list"
  rk_exempt :: "string list"
  rk_exempt_groups :: "string list"

definition MIN_CLIENT_KEY_LEN :: nat where
  "MIN_CLIENT_KEY_LEN = 16"

definition RESERVED_CLIENT_KEY_HEADERS :: "string list" where
  "RESERVED_CLIENT_KEY_HEADERS =
     [''authorization'', ''cookie'', ''host'', ''x-forwarded-for'', ''x-forwarded-proto'',
      ''x-forwarded-host'', ''forwarded'', ''x-real-ip'', ''x-request-id'', ''traceparent'',
      ''tracestate'', ''content-length'', ''content-type'', ''transfer-encoding'', ''connection'',
      ''keep-alive'', ''proxy-connection'', ''te'', ''trailer'', ''upgrade'', ''expect'']"

definition EXEMPTIBLE_GROUPS :: "string list" where
  "EXEMPTIBLE_GROUPS = [''public'', ''optional'', ''authenticated'']"

datatype key_config_error =
    BadHeaderName string string
  | ReservedHeader string string
  | OwnedHeader string string
  | RejectedHeader string
  | ForwardIsHeader string
  | NoKeys
  | BadKeyId string
  | PaddedKey string
  | ShortKey string nat
  | SameKey string string
  | EmptyExempt string
  | NonCanonicalExempt string
  | MachineGroup
  | UnknownGroup string

text \<open>Every header the gateway writes to an upstream request. (\<open>sort\<close> and \<open>dedup\<close>
  only order the set.)\<close>

definition gateway_owned_headers ::
  "identity_config \<Rightarrow> (string \<times> string) list \<Rightarrow> (string \<times> string) list \<Rightarrow> string list option \<Rightarrow> string set" where
  "gateway_owned_headers ident inject inject_machine machine_headers =
     set (map (\<lambda>h. to_ascii_lowercase (trim h))
       ([ic_subject_header ident, ic_issuer_header ident, ic_claims_header ident]
        @ map fst (ic_claims ident)
        @ (case ic_token ident of Some t \<Rightarrow> [it_header t] | None \<Rightarrow> [])
        @ map fst inject @ map fst inject_machine
        @ (case machine_headers of Some hs \<Rightarrow> hs | None \<Rightarrow> [])))"

definition key_header_name ::
  "(string \<Rightarrow> bool) \<Rightarrow> string set \<Rightarrow> string \<Rightarrow> string \<Rightarrow> (string, key_config_error) result" where
  "key_header_name header_name_ok owned field raw =
     (let name = to_ascii_lowercase (trim raw) in
      if \<not> header_name_ok name then Inl (BadHeaderName field raw)
      else if name \<in> set RESERVED_CLIENT_KEY_HEADERS then Inl (ReservedHeader field name)
      else if name \<in> owned then Inl (OwnedHeader field name)
      else Inr name)"

definition key_id_ok :: "string \<Rightarrow> bool" where
  "key_id_ok i = (i \<noteq> [] \<and> list_all (\<lambda>b. is_ascii_alphanumeric b \<or> b \<in> set ''-_.'') i)"

fun resolve_keys ::
  "(string \<Rightarrow> string) \<Rightarrow> (string \<times> string) list \<Rightarrow> client_key list \<Rightarrow> (client_key list, key_config_error) result" where
  "resolve_keys sha256 [] keys = Inr keys"
| "resolve_keys sha256 ((i, secret) # rest) keys =
     (if \<not> key_id_ok i then Inl (BadKeyId i)
      else if trim secret \<noteq> secret then Inl (PaddedKey i)
      else if length secret < MIN_CLIENT_KEY_LEN then Inl (ShortKey i (length secret))
      else case find (\<lambda>k. key_digest k = sha256 secret) keys of
             Some other \<Rightarrow> Inl (SameKey i (key_id other))
           | None \<Rightarrow> resolve_keys sha256 rest (keys @ [\<lparr> key_id = i, key_digest = sha256 secret \<rparr>]))"

fun resolve_exempt ::
  "(string \<Rightarrow> string option) \<Rightarrow> string list \<Rightarrow> (string list, key_config_error) result" where
  "resolve_exempt pct_decode [] = Inr []"
| "resolve_exempt pct_decode (raw # raws) =
     (let prefix = normalize_proxy_path (trim raw) in
      if prefix = [] then Inl (EmptyExempt raw)
      else if canonicalize_proxy_path pct_decode prefix \<noteq> Some prefix then Inl (NonCanonicalExempt raw)
      else case resolve_exempt pct_decode raws of
             Inl e \<Rightarrow> Inl e
           | Inr ps \<Rightarrow> Inr (prefix # ps))"

fun resolve_groups :: "string list \<Rightarrow> (string list, key_config_error) result" where
  "resolve_groups [] = Inr []"
| "resolve_groups (raw # raws) =
     (let group = to_ascii_lowercase (trim raw) in
      if group = ''machine'' then Inl MachineGroup
      else if group \<notin> set EXEMPTIBLE_GROUPS then Inl (UnknownGroup raw)
      else case resolve_groups raws of
             Inl e \<Rightarrow> Inl e
           | Inr gs \<Rightarrow> Inr (group # gs))"

definition resolve_forward_as ::
  "(string \<Rightarrow> bool) \<Rightarrow> string set \<Rightarrow> string \<Rightarrow> string option \<Rightarrow> (string option, key_config_error) result" where
  "resolve_forward_as header_name_ok owned header forward_as =
     (case forward_as of
        None \<Rightarrow> Inr None
      | Some raw \<Rightarrow>
          and_then (key_header_name header_name_ok owned ''forward_as'' raw) (\<lambda>name.
          if name = header then Inl (ForwardIsHeader name) else Inr (Some name)))"

definition resolve_client_keys ::
  "(string \<Rightarrow> bool) \<Rightarrow> (string \<Rightarrow> string) \<Rightarrow> (string \<Rightarrow> string option) \<Rightarrow>
   client_keys_config \<Rightarrow> string list \<Rightarrow> string set \<Rightarrow> (resolved_client_keys, key_config_error) result" where
  "resolve_client_keys header_name_ok sha256 pct_decode ck rejected owned =
     and_then (key_header_name header_name_ok owned ''header'' (ck_header ck)) (\<lambda>header.
     and_then (ensure (\<not> list_ex (\<lambda>r. eq_ignore_ascii_case r header) rejected) (RejectedHeader header)) (\<lambda>_.
     and_then (resolve_forward_as header_name_ok owned header (ck_forward_as ck)) (\<lambda>forward_as.
     and_then (ensure (ck_keys ck \<noteq> []) NoKeys) (\<lambda>_.
     and_then (resolve_keys sha256 (ck_keys ck) []) (\<lambda>keys.
     and_then (resolve_exempt pct_decode (ck_exempt ck)) (\<lambda>exempt.
     and_then (resolve_groups (ck_exempt_groups ck)) (\<lambda>groups.
     Inr \<lparr> rk_header = header, rk_forward_as = forward_as, rk_keys = keys,
           rk_exempt = exempt, rk_exempt_groups = groups \<rparr>)))))))"

section \<open>The rule\<close>

datatype key_exemption = ExemptRoute | ExemptPrefix string | ExemptGroup string

datatype client_key_rule = KeyOff | KeyRequired | KeyExempt key_exemption

definition describe_exemption :: "key_exemption \<Rightarrow> string" where
  "describe_exemption e = (case e of
     ExemptRoute \<Rightarrow> ''client_key: false on the route''
   | ExemptPrefix p \<Rightarrow> ''under auth.client_keys.exempt `/'' @ p @ ''`''
   | ExemptGroup g \<Rightarrow> ''group `'' @ g @ ''` is in auth.client_keys.exempt_groups'')"

text \<open>\<open>ResolvedConfig::client_key_rule\<close>, on the three configuration fields it reads.\<close>

definition key_rule :: "string option \<Rightarrow> string list \<Rightarrow> string list \<Rightarrow> route_config \<Rightarrow> string \<Rightarrow> client_key_rule" where
  "key_rule header exempt groups route path0 =
     (if header = None \<or> is_machine (rc_auth route) then KeyOff
      else if rc_client_key route = Some False then KeyExempt ExemptRoute
      else (let path = normalize_proxy_path path0 in
            case find (\<lambda>p. under_prefix path p) exempt of
              Some prefix \<Rightarrow> KeyExempt (ExemptPrefix prefix)
            | None \<Rightarrow>
                (let group = tier_group (rc_auth route) in
                 if list_ex (\<lambda>g. g = group) groups then KeyExempt (ExemptGroup group)
                 else KeyRequired)))"

text \<open>The loop of the request path: every key is compared, the first match is kept.\<close>

definition match_key :: "(string \<Rightarrow> string) \<Rightarrow> client_key list \<Rightarrow> string \<Rightarrow> client_key option" where
  "match_key sha256 keys presented =
     fold (\<lambda>k acc. if key_digest k = sha256 presented \<and> acc = None then Some k else acc) keys None"

section \<open>Token cookies\<close>

definition is_cookie_name :: "string \<Rightarrow> bool" where
  "is_cookie_name name =
     (name \<noteq> [] \<and> list_all (\<lambda>b. 33 \<le> byte b \<and> byte b \<le> 126
        \<and> b \<notin> set (CHR 0x22 # CHR 0x5C # ''()<>@,;:/[]?={}'')) name)"

datatype cookie_config_error = NothingVerifies | BadCookieName string | CookieTwice string

fun check_cookie_names :: "string list \<Rightarrow> string list \<Rightarrow> cookie_config_error option" where
  "check_cookie_names seen [] = None"
| "check_cookie_names seen (name # names) =
     (if \<not> is_cookie_name name then Some (BadCookieName name)
      else if name \<in> set seen then Some (CookieTwice name)
      else check_cookie_names (name # seen) names)"

definition validate_token_cookies :: "string list \<Rightarrow> bool \<Rightarrow> bool \<Rightarrow> (unit, cookie_config_error) result" where
  "validate_token_cookies names has_jwt has_firebase =
     (if names = [] then Inr ()
      else if \<not> has_jwt \<and> \<not> has_firebase then Inl NothingVerifies
      else case check_cookie_names [] names of Some e \<Rightarrow> Inl e | None \<Rightarrow> Inr ())"

section \<open>What resolution guarantees\<close>

lemma key_header_name_Inr:
  "key_header_name ok owned field raw = Inr n \<Longrightarrow>
     ok n \<and> n = to_ascii_lowercase (trim raw) \<and> n \<notin> set RESERVED_CLIENT_KEY_HEADERS \<and> n \<notin> owned"
  by (auto simp: key_header_name_def Let_def split: if_splits)

lemma resolve_keys_Inr:
  assumes "resolve_keys sha256 kvs keys = Inr keys'" "distinct (map key_digest keys)"
  shows "keys' = keys @ map (\<lambda>(i, s). \<lparr> key_id = i, key_digest = sha256 s \<rparr>) kvs
    \<and> distinct (map key_digest keys')
    \<and> (\<forall>(i, s)\<in>set kvs. key_id_ok i \<and> trim s = s \<and> MIN_CLIENT_KEY_LEN \<le> length s)"
  using assms
proof (induction sha256 kvs keys rule: resolve_keys.induct)
  case (2 sha256 i secret rest keys)
  let ?k = "\<lparr> key_id = i, key_digest = sha256 secret \<rparr>"
  from "2.prems"(1) have ok: "key_id_ok i" "trim secret = secret" "MIN_CLIENT_KEY_LEN \<le> length secret"
    and f: "find (\<lambda>k. key_digest k = sha256 secret) keys = None"
    and r: "resolve_keys sha256 rest (keys @ [?k]) = Inr keys'"
    by (auto split: if_splits option.splits)
  have "sha256 secret \<notin> key_digest ` set keys" using f by (auto simp: find_None_iff)
  then have "distinct (map key_digest (keys @ [?k]))" using "2.prems"(2) by simp
  note ih = "2.IH" [OF _ _ _ f r this]
  have "keys' = (keys @ [?k]) @ map (\<lambda>(i, s). \<lparr> key_id = i, key_digest = sha256 s \<rparr>) rest
    \<and> distinct (map key_digest keys')
    \<and> (\<forall>(i, s)\<in>set rest. key_id_ok i \<and> trim s = s \<and> MIN_CLIENT_KEY_LEN \<le> length s)"
    by (rule ih) (use ok in simp_all)
  then show ?case using ok by (elim conjE, intro conjI) (simp_all only: append_assoc append_Cons append_Nil
      list.map prod.case list.set ball_simps simp_thms)
qed simp

lemma resolve_exempt_Inr:
  "resolve_exempt pct raws = Inr ps \<Longrightarrow> p \<in> set ps \<Longrightarrow>
     p \<noteq> [] \<and> canonicalize_proxy_path pct p = Some p \<and> normalize_proxy_path p = p
     \<and> (\<exists>raw\<in>set raws. p = normalize_proxy_path (trim raw))"
  by (induction raws arbitrary: ps)
    (auto simp: Let_def normalize_proxy_path_def split: if_splits sum.splits)

lemma resolve_groups_Inr:
  "resolve_groups raws = Inr gs \<Longrightarrow> set gs \<subseteq> set EXEMPTIBLE_GROUPS"
  by (induction raws arbitrary: gs)
    (auto simp: Let_def split: if_splits sum.splits)

lemma match_key_find: "match_key sha256 keys presented = find (\<lambda>k. key_digest k = sha256 presented) keys"
proof -
  have keep: "fold (\<lambda>k acc. if key_digest k = sha256 presented \<and> acc = None then Some k else acc) ks (Some x) = Some x"
    for ks x by (induction ks) auto
  show ?thesis unfolding match_key_def by (induction keys) (auto simp: keep)
qed

lemma match_key_Some:
  "match_key sha256 keys presented = Some k \<Longrightarrow> k \<in> set keys \<and> key_digest k = sha256 presented"
  using find_SomeD [of "\<lambda>k. key_digest k = sha256 presented" keys k] by (simp add: match_key_find)

lemma resolve_client_keys_Inr:
  assumes "resolve_client_keys ok sha256 pct ck rejected owned = Inr rk"
  shows "key_header_name ok owned ''header'' (ck_header ck) = Inr (rk_header rk)"
    and "resolve_forward_as ok owned (rk_header rk) (ck_forward_as ck) = Inr (rk_forward_as rk)"
    and "resolve_keys sha256 (ck_keys ck) [] = Inr (rk_keys rk)"
    and "resolve_exempt pct (ck_exempt ck) = Inr (rk_exempt rk)"
    and "resolve_groups (ck_exempt_groups ck) = Inr (rk_exempt_groups rk)"
  using assms by (auto simp: resolve_client_keys_def and_then_Inr_iff)

lemma resolve_forward_as_Some:
  "resolve_forward_as ok owned header fwd = Inr (Some f) \<Longrightarrow>
     f \<noteq> header \<and> (\<exists>raw. key_header_name ok owned ''forward_as'' raw = Inr f)"
  by (auto simp: resolve_forward_as_def and_then_Inr_iff split: option.splits if_splits)

section \<open>Properties\<close>

text \<open>A client key identifies one caller and nothing the gateway vouches for. In
  every configuration that resolves, the key header and the header the id is
  forwarded in are distinct, lower-case, and neither reserved nor written by the
  gateway itself; a presented key matches only the configured client that holds
  that secret (digests are collision-free on the configured and presented keys),
  every configured key is accepted as its own client, and keys are long enough.\<close>

theorem client_keys_identify:
  assumes "resolve_client_keys ok sha256 pct ck rejected owned = Inr rk"
    and "inj_on sha256 (insert presented (snd ` set (ck_keys ck)))"
  shows "rk_header rk \<notin> owned \<union> set RESERVED_CLIENT_KEY_HEADERS
    \<and> (\<forall>f. rk_forward_as rk = Some f \<longrightarrow>
          f \<noteq> rk_header rk \<and> f \<notin> owned \<union> set RESERVED_CLIENT_KEY_HEADERS)
    \<and> (\<forall>k. match_key sha256 (rk_keys rk) presented = Some k \<longrightarrow>
          (key_id k, presented) \<in> set (ck_keys ck) \<and> 16 \<le> length presented)
    \<and> (\<forall>i. (i, presented) \<in> set (ck_keys ck) \<longrightarrow>
          (\<exists>k. match_key sha256 (rk_keys rk) presented = Some k \<and> key_id k = i))"
proof -
  note r = resolve_client_keys_Inr [OF assms(1)]
  note ks = resolve_keys_Inr [OF r(3), simplified]
  have keys: "rk_keys rk = map (\<lambda>(i, s). \<lparr> key_id = i, key_digest = sha256 s \<rparr>) (ck_keys ck)"
    using ks by blast
  have dist: "distinct (map key_digest (rk_keys rk))" using ks by blast
  have len: "(i, s) \<in> set (ck_keys ck) \<Longrightarrow> MIN_CLIENT_KEY_LEN \<le> length s" for i s
    using ks by blast
  have same: "s = presented" if "(i, s) \<in> set (ck_keys ck)" "sha256 s = sha256 presented" for i s
  proof (rule inj_onD [OF assms(2) that(2)])
    show "s \<in> insert presented (snd ` set (ck_keys ck))" using that(1) by (metis insertI2 imageI snd_conv)
  qed simp
  have some: "(key_id k, presented) \<in> set (ck_keys ck) \<and> 16 \<le> length presented"
    if m: "match_key sha256 (rk_keys rk) presented = Some k" for k
  proof -
    from match_key_Some [OF m] obtain i s where
      mem: "(i, s) \<in> set (ck_keys ck)" "k = \<lparr> key_id = i, key_digest = sha256 s \<rparr>" "sha256 s = sha256 presented"
      by (auto simp: keys)
    then show ?thesis using same [OF mem(1,3)] len [OF mem(1)] mem(1,2) by (simp add: MIN_CLIENT_KEY_LEN_def)
  qed
  have found: "\<exists>k. match_key sha256 (rk_keys rk) presented = Some k \<and> key_id k = i"
    if i: "(i, presented) \<in> set (ck_keys ck)" for i
  proof -
    let ?k = "\<lparr> key_id = i, key_digest = sha256 presented \<rparr>"
    have mem: "?k \<in> set (rk_keys rk)" using i by (force simp: keys)
    then have "match_key sha256 (rk_keys rk) presented \<noteq> None"
      by (auto simp: match_key_find find_None_iff)
    then obtain k where k: "match_key sha256 (rk_keys rk) presented = Some k" by blast
    then have "k = ?k"
      using match_key_Some [OF k] mem dist by (auto simp: distinct_map inj_on_def)
    with k show ?thesis by simp
  qed
  have fwd: "f \<noteq> rk_header rk \<and> f \<notin> owned \<union> set RESERVED_CLIENT_KEY_HEADERS"
    if "rk_forward_as rk = Some f" for f
    using resolve_forward_as_Some [OF r(2) [unfolded that]] key_header_name_Inr by blast
  show ?thesis using key_header_name_Inr [OF r(1)] fwd some found by blast
qed

definition sample_client_keys :: client_keys_config where
  "sample_client_keys =
     \<lparr> ck_header = ''X-Client-Key'', ck_forward_as = Some ''x-client-id'',
       ck_keys = [(''storefront'', ''0123456789abcdef'')],
       ck_exempt = [''/webhooks''], ck_exempt_groups = [''public''] \<rparr>"

theorem client_keys_identify_witness:
  "\<exists>rk. resolve_client_keys (\<lambda>n. n \<noteq> []) (\<lambda>s. s) Some sample_client_keys [] {''x-user''} = Inr rk
     \<and> rk_header rk = ''x-client-key'' \<and> rk_exempt rk = [''webhooks'']
     \<and> (\<exists>k. match_key (\<lambda>s. s) (rk_keys rk) ''0123456789abcdef'' = Some k \<and> key_id k = ''storefront'')"
proof -
  let ?r = "resolve_client_keys (\<lambda>n. n \<noteq> []) (\<lambda>s. s) Some sample_client_keys [] {''x-user''}"
  have "(case ?r of Inl _ \<Rightarrow> False
         | Inr rk \<Rightarrow> rk_header rk = ''x-client-key'' \<and> rk_exempt rk = [''webhooks''])"
    by code_simp
  then obtain rk where rk: "?r = Inr rk" "rk_header rk = ''x-client-key''" "rk_exempt rk = [''webhooks'']"
    by (cases ?r) auto
  have "(''storefront'', ''0123456789abcdef'') \<in> set (ck_keys sample_client_keys)"
    by (simp add: sample_client_keys_def)
  then have "\<exists>k. match_key (\<lambda>s. s) (rk_keys rk) ''0123456789abcdef'' = Some k \<and> key_id k = ''storefront''"
    using client_keys_identify [OF rk(1), of "''0123456789abcdef''"] by (simp add: inj_on_def)
  with rk show ?thesis by blast
qed

end
