(* ===== verification/Breaker.thy ===== *)
theory Breaker
  imports Rust_Prelude
begin

text \<open>
  The circuit breaker of an upstream (\<open>breaker.rs\<close>).

  Every public method takes the mutex, so each is one atomic operation on the
  record \<open>circuit_breaker\<close>. The step relation \<open>breaker_step\<close> adds what the
  gateway does with it: a request is admitted once by \<open>allow\<close> and reports once,
  as a success, a failure or a cancellation; \<open>outstanding\<close> counts the admitted
  requests that have not reported yet.
\<close>

section \<open>State\<close>

datatype circuit_state = Closed | Open | HalfOpen

definition as_metric :: "circuit_state \<Rightarrow> int" where
  "as_metric s = (case s of Closed \<Rightarrow> 0 | HalfOpen \<Rightarrow> 1 | Open \<Rightarrow> 2)"

definition state_as_str :: "circuit_state \<Rightarrow> string" where
  "state_as_str s = (case s of Closed \<Rightarrow> ''closed'' | Open \<Rightarrow> ''open'' | HalfOpen \<Rightarrow> ''half_open'')"

record inner =
  in_state :: circuit_state
  in_failures :: nat
  in_window_started :: instant
  in_opened_at :: instant
  in_trial_successes :: nat
  in_trials_in_flight :: nat

record circuit_breaker_config =
  bc_failures :: nat
  bc_window :: duration
  bc_cooldown :: duration
  bc_successes_to_close :: nat
  bc_max_trials :: nat

record circuit_breaker =
  cb_inner :: inner
  cb_failures :: nat
  cb_window :: duration
  cb_cooldown :: duration
  cb_successes_to_close :: nat
  cb_max_trials :: nat

definition breaker_new :: "instant \<Rightarrow> circuit_breaker_config \<Rightarrow> circuit_breaker" where
  "breaker_new now cfg = \<lparr>
     cb_inner = \<lparr> in_state = Closed, in_failures = 0, in_window_started = now,
                  in_opened_at = now, in_trial_successes = 0, in_trials_in_flight = 0 \<rparr>,
     cb_failures = bc_failures cfg,
     cb_window = bc_window cfg,
     cb_cooldown = bc_cooldown cfg,
     cb_successes_to_close = bc_successes_to_close cfg,
     cb_max_trials = bc_max_trials cfg \<rparr>"

section \<open>Operations\<close>

definition breaker_state :: "circuit_breaker \<Rightarrow> circuit_state" where
  "breaker_state cb = in_state (cb_inner cb)"

definition allow_at :: "instant \<Rightarrow> circuit_breaker \<Rightarrow> bool \<times> circuit_breaker" where
  "allow_at now cb =
     (let inner = cb_inner cb in
      case in_state inner of
        Closed \<Rightarrow> (True, cb)
      | Open \<Rightarrow>
          if now - in_opened_at inner < cb_cooldown cb then (False, cb)
          else (True, cb \<lparr> cb_inner := inner \<lparr> in_state := HalfOpen,
                  in_trial_successes := 0, in_trials_in_flight := 1 \<rparr> \<rparr>)
      | HalfOpen \<Rightarrow>
          if in_trials_in_flight inner \<ge> cb_max_trials cb then (False, cb)
          else (True, cb \<lparr> cb_inner := inner \<lparr>
                  in_trials_in_flight := sat_add U32_MAX (in_trials_in_flight inner) 1 \<rparr> \<rparr>))"

definition cancel :: "circuit_breaker \<Rightarrow> circuit_breaker" where
  "cancel cb =
     (let inner = cb_inner cb in
      if in_state inner = HalfOpen
      then cb \<lparr> cb_inner := inner \<lparr> in_trials_in_flight := in_trials_in_flight inner - 1 \<rparr> \<rparr>
      else cb)"

definition record_success_at :: "instant \<Rightarrow> circuit_breaker \<Rightarrow> circuit_breaker" where
  "record_success_at now cb =
     (let inner = cb_inner cb in
      case in_state inner of
        Closed \<Rightarrow> cb \<lparr> cb_inner := inner \<lparr> in_failures := 0 \<rparr> \<rparr>
      | HalfOpen \<Rightarrow>
          (let inner1 = inner \<lparr>
                 in_trials_in_flight := in_trials_in_flight inner - 1,
                 in_trial_successes := sat_add U32_MAX (in_trial_successes inner) 1 \<rparr> in
           if in_trial_successes inner1 \<ge> cb_successes_to_close cb
           then cb \<lparr> cb_inner := inner1 \<lparr> in_state := Closed, in_failures := 0,
                       in_trial_successes := 0, in_trials_in_flight := 0 \<rparr> \<rparr>
           else cb \<lparr> cb_inner := inner1 \<rparr>)
      | Open \<Rightarrow> cb)"

definition record_failure_at :: "instant \<Rightarrow> circuit_breaker \<Rightarrow> circuit_breaker" where
  "record_failure_at now cb =
     (let inner = cb_inner cb in
      case in_state inner of
        Closed \<Rightarrow>
          (let inner1 = (if now - in_window_started inner > cb_window cb
                         then inner \<lparr> in_window_started := now, in_failures := 0 \<rparr>
                         else inner);
               inner2 = inner1 \<lparr> in_failures := sat_add U32_MAX (in_failures inner1) 1 \<rparr> in
           if in_failures inner2 \<ge> cb_failures cb
           then cb \<lparr> cb_inner := inner2 \<lparr> in_state := Open, in_opened_at := now \<rparr> \<rparr>
           else cb \<lparr> cb_inner := inner2 \<rparr>)
      | HalfOpen \<Rightarrow>
          cb \<lparr> cb_inner := inner \<lparr> in_state := Open, in_opened_at := now,
                 in_trial_successes := 0, in_trials_in_flight := 0 \<rparr> \<rparr>
      | Open \<Rightarrow> cb)"

lemmas breaker_ops = allow_at_def cancel_def record_success_at_def record_failure_at_def
  breaker_state_def

section \<open>The breaker under concurrent requests\<close>

record breaker_run =
  br_breaker :: circuit_breaker
  br_outstanding :: nat

inductive breaker_step :: "breaker_run \<Rightarrow> breaker_run \<Rightarrow> bool" where
  admit: "allow_at now (br_breaker s) = (True, cb) \<Longrightarrow>
     breaker_step s (s \<lparr> br_breaker := cb, br_outstanding := Suc (br_outstanding s) \<rparr>)"
| refuse: "allow_at now (br_breaker s) = (False, cb) \<Longrightarrow>
     breaker_step s (s \<lparr> br_breaker := cb \<rparr>)"
| success: "br_outstanding s = Suc n \<Longrightarrow>
     breaker_step s (s \<lparr> br_breaker := record_success_at now (br_breaker s), br_outstanding := n \<rparr>)"
| failure: "br_outstanding s = Suc n \<Longrightarrow>
     breaker_step s (s \<lparr> br_breaker := record_failure_at now (br_breaker s), br_outstanding := n \<rparr>)"
| cancelled: "br_outstanding s = Suc n \<Longrightarrow>
     breaker_step s (s \<lparr> br_breaker := cancel (br_breaker s), br_outstanding := n \<rparr>)"

definition breaker_limits :: "circuit_breaker \<Rightarrow> nat \<times> duration \<times> duration \<times> nat \<times> nat" where
  "breaker_limits cb = (cb_failures cb, cb_window cb, cb_cooldown cb,
                        cb_successes_to_close cb, cb_max_trials cb)"

definition config_limits :: "circuit_breaker_config \<Rightarrow> nat \<times> duration \<times> duration \<times> nat \<times> nat" where
  "config_limits cfg = (bc_failures cfg, bc_window cfg, bc_cooldown cfg,
                        bc_successes_to_close cfg, bc_max_trials cfg)"

text \<open>What configuration validation guarantees: every threshold is positive and a
  \<open>u32\<close>.\<close>

definition breaker_config_ok :: "circuit_breaker_config \<Rightarrow> bool" where
  "breaker_config_ok cfg =
     (0 < bc_failures cfg \<and> bc_failures cfg \<le> U32_MAX \<and>
      0 < bc_successes_to_close cfg \<and> bc_successes_to_close cfg \<le> U32_MAX \<and>
      0 < bc_max_trials cfg \<and> bc_max_trials cfg \<le> U32_MAX)"

definition breaker_inv :: "circuit_breaker_config \<Rightarrow> breaker_run \<Rightarrow> bool" where
  "breaker_inv cfg s =
     (let cb = br_breaker s; inner = cb_inner cb in
      breaker_limits cb = config_limits cfg \<and>
      (case in_state inner of
         Closed \<Rightarrow> in_failures inner < bc_failures cfg \<and> in_trials_in_flight inner = 0
       | Open \<Rightarrow> in_trials_in_flight inner = 0
       | HalfOpen \<Rightarrow> in_trials_in_flight inner \<le> bc_max_trials cfg \<and>
                     in_trials_in_flight inner \<le> br_outstanding s \<and>
                     in_trial_successes inner < bc_successes_to_close cfg))"

definition breaker_init :: "circuit_breaker_config \<Rightarrow> breaker_run \<Rightarrow> bool" where
  "breaker_init cfg s =
     (breaker_config_ok cfg \<and> br_outstanding s = 0 \<and>
      (\<exists>now. br_breaker s = breaker_new now cfg))"

lemmas breaker_inv_defs = breaker_inv_def breaker_limits_def config_limits_def Let_def

lemma breaker_inv_allow:
  "breaker_config_ok cfg \<Longrightarrow> breaker_inv cfg s \<Longrightarrow> allow_at now (br_breaker s) = (ok, cb) \<Longrightarrow>
   breaker_inv cfg (s \<lparr> br_breaker := cb,
     br_outstanding := (if ok then Suc (br_outstanding s) else br_outstanding s) \<rparr>)"
  by (cases "in_state (cb_inner (br_breaker s))")
    (auto simp: breaker_inv_defs breaker_ops breaker_config_ok_def sat_add_def split: if_splits)

lemma breaker_inv_success:
  "breaker_config_ok cfg \<Longrightarrow> breaker_inv cfg s \<Longrightarrow> br_outstanding s = Suc n \<Longrightarrow>
   breaker_inv cfg (s \<lparr> br_breaker := record_success_at now (br_breaker s), br_outstanding := n \<rparr>)"
  by (cases "in_state (cb_inner (br_breaker s))")
    (auto simp: breaker_inv_defs breaker_ops breaker_config_ok_def)

lemma breaker_inv_failure:
  "breaker_config_ok cfg \<Longrightarrow> breaker_inv cfg s \<Longrightarrow> br_outstanding s = Suc n \<Longrightarrow>
   breaker_inv cfg (s \<lparr> br_breaker := record_failure_at now (br_breaker s), br_outstanding := n \<rparr>)"
  by (cases "in_state (cb_inner (br_breaker s))")
    (auto simp: breaker_inv_defs breaker_ops breaker_config_ok_def)

lemma breaker_inv_cancel:
  "breaker_config_ok cfg \<Longrightarrow> breaker_inv cfg s \<Longrightarrow> br_outstanding s = Suc n \<Longrightarrow>
   breaker_inv cfg (s \<lparr> br_breaker := cancel (br_breaker s), br_outstanding := n \<rparr>)"
  by (cases "in_state (cb_inner (br_breaker s))")
    (auto simp: breaker_inv_defs breaker_ops breaker_config_ok_def)

lemma breaker_inv_step:
  assumes "breaker_config_ok cfg" "breaker_inv cfg s" "breaker_step s t"
  shows "breaker_inv cfg t"
  using assms(3)
proof cases
  case (admit now cb)
  then show ?thesis using breaker_inv_allow [OF assms(1,2) admit(2)] by simp
next
  case (refuse now cb)
  then show ?thesis using breaker_inv_allow [OF assms(1,2) refuse(2)] by simp
next
  case (success n now)
  then show ?thesis using breaker_inv_success [OF assms(1,2) success(2)] by simp
next
  case (failure n now)
  then show ?thesis using breaker_inv_failure [OF assms(1,2) failure(2)] by simp
next
  case (cancelled n)
  then show ?thesis using breaker_inv_cancel [OF assms(1,2) cancelled(2)] by simp
qed

interpretation breaker: invariant_system
  "breaker_init cfg" breaker_step "\<lambda>s. breaker_config_ok cfg \<and> breaker_inv cfg s" for cfg
proof unfold_locales
  show "breaker_config_ok cfg \<and> breaker_inv cfg s" if "breaker_init cfg s" for s
    using that by (auto simp: breaker_init_def breaker_new_def breaker_inv_defs breaker_config_ok_def)
  show "breaker_config_ok cfg \<and> breaker_inv cfg t"
    if "breaker_config_ok cfg \<and> breaker_inv cfg s" "breaker_step s t" for s t
    using that breaker_inv_step by blast
qed

section \<open>Runs of failures and refusals\<close>

lemma failures_in_window:
  assumes "breaker_state cb = Closed" "cb_failures cb \<le> U32_MAX"
    and "in_failures (cb_inner cb) < cb_failures cb"
    and "\<forall>t\<in>set ts. t - in_window_started (cb_inner cb) \<le> cb_window cb"
  shows "breaker_state (fold record_failure_at ts cb) =
           (if in_failures (cb_inner cb) + length ts < cb_failures cb then Closed else Open)"
  using assms
proof (induction ts arbitrary: cb)
  case Nil
  then show ?case by simp
next
  case (Cons t ts)
  have open_stays: "fold record_failure_at us cb' = cb'" if "breaker_state cb' = Open" for us cb'
    using that by (induction us) (auto simp: breaker_ops)
  let ?cb' = "record_failure_at t cb"
  show ?case
  proof (cases "Suc (in_failures (cb_inner cb)) < cb_failures cb")
    case True
    then have "breaker_state ?cb' = Closed" "cb_failures ?cb' = cb_failures cb"
      "in_failures (cb_inner ?cb') = Suc (in_failures (cb_inner cb))"
      "in_window_started (cb_inner ?cb') = in_window_started (cb_inner cb)"
      "cb_window ?cb' = cb_window cb"
      using Cons.prems by (auto simp: breaker_ops Let_def sat_add_def)
    then show ?thesis using Cons.IH [of ?cb'] Cons.prems True by simp
  next
    case False
    then have "breaker_state ?cb' = Open"
      using Cons.prems by (auto simp: breaker_ops Let_def sat_add_def)
    then show ?thesis using open_stays [of ?cb'] False by simp
  qed
qed

section \<open>Properties\<close>

definition sample_breaker_config :: circuit_breaker_config where
  "sample_breaker_config = \<lparr> bc_failures = 2, bc_window = 30, bc_cooldown = 10,
     bc_successes_to_close = 1, bc_max_trials = 1 \<rparr>"

definition sample_breaker_run :: breaker_run where
  "sample_breaker_run = \<lparr> br_breaker = breaker_new 0 sample_breaker_config, br_outstanding = 0 \<rparr>"

text \<open>C10: in every state reached by any interleaving of admissions and reports, a
  half-open circuit has at most \<open>max_trials\<close> trials in flight and has not yet
  seen the successes that close it, a closed one is below its failure threshold,
  and once every admitted request has reported the circuit is never stuck: it
  admits the next request as soon as an open circuit's cooldown is over.\<close>

theorem breaker_reachable_invariant:
  assumes "breaker_init cfg s" "breaker_step\<^sup>*\<^sup>* s t"
  defines "cb \<equiv> br_breaker t"
  shows "(breaker_state cb = HalfOpen \<longrightarrow>
           in_trials_in_flight (cb_inner cb) \<le> bc_max_trials cfg \<and>
           in_trial_successes (cb_inner cb) < bc_successes_to_close cfg)
    \<and> (breaker_state cb = Closed \<longrightarrow> in_failures (cb_inner cb) < bc_failures cfg)
    \<and> (br_outstanding t = 0 \<longrightarrow>
         (breaker_state cb = Open \<longrightarrow> in_opened_at (cb_inner cb) + bc_cooldown cfg \<le> now) \<longrightarrow>
         fst (allow_at now cb))"
proof (intro conjI impI)
  have inv: "breaker_inv cfg t" and ok: "breaker_config_ok cfg"
    using breaker.reachable_inv [OF assms(1,2)] by auto
  show "in_trials_in_flight (cb_inner cb) \<le> bc_max_trials cfg"
    "in_trial_successes (cb_inner cb) < bc_successes_to_close cfg"
    if "breaker_state cb = HalfOpen"
    using inv that by (simp_all add: breaker_inv_defs breaker_state_def cb_def)
  show "in_failures (cb_inner cb) < bc_failures cfg" if "breaker_state cb = Closed"
    using inv that by (simp add: breaker_inv_defs breaker_state_def cb_def)
  show "fst (allow_at now cb)"
    if "br_outstanding t = 0"
      "breaker_state cb = Open \<longrightarrow> in_opened_at (cb_inner cb) + bc_cooldown cfg \<le> now"
    using inv ok that
    by (cases "in_state (cb_inner cb)")
      (auto simp: breaker_inv_defs breaker_ops breaker_config_ok_def cb_def)
qed

theorem breaker_reachable_invariant_witness:
  "breaker_init sample_breaker_config sample_breaker_run
   \<and> fst (allow_at 5 (br_breaker sample_breaker_run))"
proof -
  have i: "breaker_init sample_breaker_config sample_breaker_run"
    by (auto simp: breaker_init_def sample_breaker_run_def sample_breaker_config_def
        breaker_config_ok_def)
  show ?thesis
    using i breaker_reachable_invariant [OF i rtranclp.rtrancl_refl, of 5]
    by (simp add: sample_breaker_run_def breaker_state_def breaker_new_def)
qed



text \<open>One trial after the other, each reported before the next is asked for.\<close>

definition trial :: "instant \<Rightarrow> bool \<times> circuit_breaker \<Rightarrow> bool \<times> circuit_breaker" where
  "trial now st =
     (let (ok, cb) = allow_at now (snd st) in (fst st \<and> ok, record_success_at now cb))"

lemma half_open_trials:
  assumes "breaker_state cb = HalfOpen" "in_trials_in_flight (cb_inner cb) = 0"
    and "0 < cb_max_trials cb" "cb_successes_to_close cb \<le> U32_MAX"
    and "in_trial_successes (cb_inner cb) + length ts = cb_successes_to_close cb" "ts \<noteq> []"
  shows "fst (fold trial ts (True, cb)) \<and> breaker_state (snd (fold trial ts (True, cb))) = Closed"
  using assms
proof (induction ts arbitrary: cb)
  case (Cons t ts)
  show ?case
  proof (cases "ts = []")
    case True
    with Cons.prems show ?thesis by (simp add: trial_def breaker_ops Let_def sat_add_def)
  next
    case False
    let ?cb = "snd (trial t (True, cb))"
    have "Suc (in_trial_successes (cb_inner cb)) < cb_successes_to_close cb"
      using Cons.prems(5) False by (cases ts) simp_all
    with Cons.prems have "trial t (True, cb) = (True, ?cb)" "breaker_state ?cb = HalfOpen"
      "in_trials_in_flight (cb_inner ?cb) = 0" "cb_max_trials ?cb = cb_max_trials cb"
      "cb_successes_to_close ?cb = cb_successes_to_close cb"
      "in_trial_successes (cb_inner ?cb) = Suc (in_trial_successes (cb_inner cb))"
      by (auto simp: trial_def breaker_ops Let_def sat_add_def)
    with Cons.IH [of ?cb] Cons.prems False show ?thesis by simp
  qed
qed simp

text \<open>An open circuit recovers. Once the cooldown has passed, the configured number of
  trials, asked for one after the other and answered with success, are all admitted and
  close the circuit.\<close>

theorem breaker_recovers:
  assumes "breaker_state cb = Open" "cb_cooldown cb \<le> now - in_opened_at (cb_inner cb)"
    and "0 < cb_max_trials cb" "cb_successes_to_close cb \<le> U32_MAX"
    and "length (now # ts) = cb_successes_to_close cb"
  shows "fst (fold trial (now # ts) (True, cb)) \<and> breaker_state (snd (fold trial (now # ts) (True, cb))) = Closed"
proof (cases "ts = []")
  case True
  with assms show ?thesis by (simp add: trial_def breaker_ops Let_def sat_add_def)
next
  case False
  let ?cb = "snd (trial now (True, cb))"
  have "1 < cb_successes_to_close cb" using assms(5) False by (cases ts) simp_all
  with assms have "trial now (True, cb) = (True, ?cb)" "breaker_state ?cb = HalfOpen"
    "in_trials_in_flight (cb_inner ?cb) = 0" "cb_max_trials ?cb = cb_max_trials cb"
    "cb_successes_to_close ?cb = cb_successes_to_close cb" "in_trial_successes (cb_inner ?cb) = 1"
    by (auto simp: trial_def breaker_ops Let_def sat_add_def Suc_lessI)
  with half_open_trials [of ?cb ts] assms False show ?thesis by simp
qed

theorem breaker_recovers_witness:
  "let cb = fold record_failure_at [3, 4] (breaker_new 0 sample_breaker_config) in
   breaker_state cb = Open \<and> breaker_state (snd (fold trial [14] (True, cb))) = Closed"
proof -
  let ?cb = "fold record_failure_at [3, 4] (breaker_new 0 sample_breaker_config)"
  have h: "breaker_state ?cb = Open" "cb_cooldown ?cb \<le> 14 - in_opened_at (cb_inner ?cb)"
    "0 < cb_max_trials ?cb" "cb_successes_to_close ?cb \<le> U32_MAX" "length [14::nat] = cb_successes_to_close ?cb"
    by (simp_all add: breaker_ops Let_def breaker_new_def sample_breaker_config_def sat_add_def)
  from breaker_recovers [OF h] h(1) show ?thesis by (simp add: Let_def)
qed

text \<open>A half-open circuit whose trials never report refuses every later
  request, whatever the time, and no amount of asking changes its state: the
  outcome of a trial is the only way out.\<close>

theorem unreported_trials_block:
  assumes "breaker_state cb = HalfOpen"
    and "cb_max_trials cb \<le> in_trials_in_flight (cb_inner cb)"
  shows "fold (\<lambda>now (oks, b). (oks @ [fst (allow_at now b)], snd (allow_at now b))) ts (oks, cb)
           = (oks @ replicate (length ts) False, cb)"
  using assms
proof (induction ts arbitrary: oks)
  case (Cons t ts)
  have "allow_at t cb = (False, cb)" using assms by (simp add: breaker_ops)
  then show ?case using Cons.IH [OF assms, of "oks @ [False]"] by (simp add: replicate_app_Cons_same)
qed simp

theorem unreported_trials_block_witness:
  "fold (\<lambda>now (oks, b). (oks @ [fst (allow_at now b)], snd (allow_at now b))) [20, 1000000]
     ([], snd (allow_at 14 (fold record_failure_at [3, 4] (breaker_new 0 sample_breaker_config))))
   = ([False, False],
      snd (allow_at 14 (fold record_failure_at [3, 4] (breaker_new 0 sample_breaker_config))))"
  (is "fold _ _ ([], ?cb) = _")
proof -
  have "breaker_state ?cb = HalfOpen" "cb_max_trials ?cb \<le> in_trials_in_flight (cb_inner ?cb)"
    by (simp_all add: breaker_ops Let_def breaker_new_def sample_breaker_config_def sat_add_def)
  from unreported_trials_block [OF this, of "[20, 1000000]" "[]"] show ?thesis by simp
qed

text \<open>A request admitted while the circuit was closed and finishing after it
  turned half-open is counted as a successful trial: the circuit closes although
  its only trial has not reported.\<close>

theorem late_success_counts_as_trial:
  assumes "breaker_state cb = HalfOpen"
    and "Suc (in_trial_successes (cb_inner cb)) = cb_successes_to_close cb"
    and "cb_successes_to_close cb \<le> U32_MAX"
  shows "breaker_state (record_success_at now cb) = Closed"
  using assms by (simp add: breaker_ops Let_def sat_add_def)

theorem late_success_counts_as_trial_witness:
  "\<exists>s1 s2 s3 s4.
     \<comment> \<open>three requests admitted while closed, two of which then fail\<close>
     (breaker_step ^^ 3) sample_breaker_run s1
     \<and> breaker_state (br_breaker s1) = Closed \<and> br_outstanding s1 = 3
     \<and> breaker_step s1 s2 \<and> breaker_step s2 s3
     \<and> breaker_state (br_breaker s3) = Open \<and> br_outstanding s3 = 1
     \<comment> \<open>one trial after the cooldown, then the third old request succeeds\<close>
     \<and> breaker_step s3 s4 \<and> breaker_state (br_breaker s4) = HalfOpen \<and> br_outstanding s4 = 2
     \<and> breaker_state (record_success_at 20 (br_breaker s4)) = Closed"
proof -
  let ?c = "breaker_new 0 sample_breaker_config"
  let ?st = "\<lambda>b n. \<lparr> br_breaker = b, br_outstanding = n \<rparr>"
  let ?o = "record_failure_at 4 (record_failure_at 3 ?c)"
  have a: "allow_at 1 ?c = (True, ?c)" by (simp add: breaker_ops breaker_new_def)
  have adm: "breaker_step (?st ?c n) (?st ?c (Suc n))" for n
    using breaker_step.admit [of 1 "?st ?c n" ?c] a by simp
  have s1: "(breaker_step ^^ 3) sample_breaker_run (?st ?c 3)"
    using adm [of 0] adm [of 1] adm [of 2]
    by (auto simp: numeral_3_eq_3 sample_breaker_run_def relcompp_apply numeral_2_eq_2)
  have s2: "breaker_step (?st ?c 3) (?st (record_failure_at 3 ?c) 2)"
    using breaker_step.failure [of "?st ?c 3" 2 3] by simp
  have s3: "breaker_step (?st (record_failure_at 3 ?c) 2) (?st ?o 1)"
    using breaker_step.failure [of "?st (record_failure_at 3 ?c) 2" 1 4] by simp
  have al: "fst (allow_at 15 ?o)" "breaker_state ?o = Open"
    by (simp_all add: breaker_ops breaker_new_def sample_breaker_config_def sat_add_def)
  then have s4: "breaker_step (?st ?o 1) (?st (snd (allow_at 15 ?o)) 2)"
    using breaker_step.admit [of 15 "?st ?o 1" "snd (allow_at 15 ?o)"]
    by (simp add: prod_eq_iff numeral_2_eq_2)
  have h: "breaker_state (snd (allow_at 15 ?o)) = HalfOpen"
    "Suc (in_trial_successes (cb_inner (snd (allow_at 15 ?o)))) = cb_successes_to_close (snd (allow_at 15 ?o))"
    "cb_successes_to_close (snd (allow_at 15 ?o)) \<le> U32_MAX"
    by (simp_all add: breaker_ops breaker_new_def sample_breaker_config_def sat_add_def)
  have cl: "breaker_state ?c = Closed" by (simp add: breaker_ops breaker_new_def)
  show ?thesis
    by (rule exI [of _ "?st ?c 3"], rule exI [of _ "?st (record_failure_at 3 ?c) 2"],
        rule exI [of _ "?st ?o 1"], rule exI [of _ "?st (snd (allow_at 15 ?o)) 2"])
      (use s1 s2 s3 s4 h al cl late_success_counts_as_trial [OF h, of 20] in simp)
qed

end
