(* ===== verification/Upstreams.thy ===== *)
theory Upstreams
  imports Paths Breaker
begin

text \<open>
  Upstream targets and pools (\<open>upstream.rs\<close>), the choice of an address
  (\<open>proxy.rs\<close>) and name resolution (\<open>dns.rs\<close>). A socket address is its text.
  \<open>http::Uri\<close> parsing, the balancer's choice among its members and the system
  resolver are parameters; Pingora keeps the members of a pool that a refresh
  returns, and keeps the current ones when the refresh is an error.
\<close>

section \<open>Configuration and targets\<close>

datatype hash_key = HashIp | HashIdentity | HashPath | HashHeader string

definition parse_hash_key :: "string \<Rightarrow> hash_key option" where
  "parse_hash_key raw =
     (if raw = ''ip'' then Some HashIp
      else if raw = ''identity'' then Some HashIdentity
      else if raw = ''path'' then Some HashPath
      else case strip_prefix ''header.'' raw of
             Some name \<Rightarrow> if name \<noteq> [] then Some (HashHeader (to_ascii_lowercase name)) else None
           | None \<Rightarrow> None)"

datatype balance = RoundRobin | Random | Consistent

record target_config =
  tg_url :: string
  tg_weight :: nat

record discovery_config =
  dc_interval :: duration
  dc_max_members :: nat

record health_check_config =
  hc_path :: "string option"
  hc_interval :: duration
  hc_timeout :: duration
  hc_healthy_after :: nat
  hc_unhealthy_after :: nat

record upstream_config =
  uc_targets :: "target_config list"
  uc_balance :: balance
  uc_hash_on :: hash_key
  uc_health_check :: "health_check_config option"
  uc_circuit_breaker :: "circuit_breaker_config option"
  uc_discovery :: "discovery_config option"

definition is_pool :: "upstream_config \<Rightarrow> bool" where
  "is_pool c = (1 < length (uc_targets c) \<or> uc_health_check c \<noteq> None \<or> uc_discovery c \<noteq> None)"

text \<open>The long form of an upstream: a URL or a list of targets, not both.\<close>

definition upstream_targets ::
  "string option \<Rightarrow> target_config list \<Rightarrow> (target_config list, string) result" where
  "upstream_targets url targets =
     (case (url, targets) of
        (Some u, []) \<Rightarrow> Inr [\<lparr> tg_url = u, tg_weight = 1 \<rparr>]
      | (Some _, _) \<Rightarrow> Inl ''an upstream sets both `url` and `targets`; use one or the other''
      | (None, []) \<Rightarrow> Inl ''an upstream needs a `url` or a non-empty `targets` list''
      | (None, ts) \<Rightarrow> Inr ts)"

record uri =
  uri_scheme :: "string option"
  uri_host :: "string option"
  uri_port :: "nat option"
  uri_path :: string

record upstream_target =
  ut_addr :: string
  ut_tls :: bool
  ut_sni :: string
  ut_base_path :: string

datatype target_error = BadUri string | BadScheme string string | NoHost string

definition target_parse :: "(string \<Rightarrow> uri option) \<Rightarrow> string \<Rightarrow> (upstream_target, target_error) result" where
  "target_parse uri_parse url =
     (case uri_parse url of
        None \<Rightarrow> Inl (BadUri url)
      | Some u \<Rightarrow>
          (let scheme = (case uri_scheme u of Some s \<Rightarrow> s | None \<Rightarrow> ''http'') in
           if scheme \<noteq> ''http'' \<and> scheme \<noteq> ''https'' then Inl (BadScheme url scheme)
           else (let tls = (scheme = ''https'') in
                 case uri_host u of
                   None \<Rightarrow> Inl (NoHost url)
                 | Some host \<Rightarrow>
                     (let port = (case uri_port u of Some p \<Rightarrow> p | None \<Rightarrow> if tls then 443 else 80) in
                      Inr \<lparr> ut_addr = host @ '':'' @ show_nat port, ut_tls = tls, ut_sni = host,
                            ut_base_path = normalize_proxy_path (uri_path u) \<rparr>))))"

section \<open>Members of a pool\<close>

record answer =
  an_index :: nat
  an_weight :: nat
  an_addrs :: "string list"

record backend =
  be_addr :: string
  be_weight :: nat
  be_index :: nat

datatype member_error = NoAddresses nat | SharedBackend string | Moved string | TooManyMembers nat

text \<open>The inner loop over the addresses of one answer. The member set is ordered by
  address; since every address is inserted once, it is kept as a list.\<close>

fun add_addrs ::
  "(string \<rightharpoonup> nat) option \<Rightarrow> nat \<Rightarrow> nat \<Rightarrow> string list \<Rightarrow> backend list \<times> (string \<rightharpoonup> nat) \<Rightarrow>
   (backend list \<times> (string \<rightharpoonup> nat), member_error) result" where
  "add_addrs owners index weight [] (members, owner) = Inr (members, owner)"
| "add_addrs owners index weight (addr # addrs) (members, owner) =
     (case owner addr of
        Some previous \<Rightarrow>
          if previous = index then add_addrs owners index weight addrs (members, owner)
          else Inl (SharedBackend addr)
      | None \<Rightarrow>
          if (case Option.bind owners (\<lambda>o1. o1 addr) of Some previous \<Rightarrow> previous \<noteq> index | None \<Rightarrow> False)
          then Inl (Moved addr)
          else add_addrs owners index weight addrs
                 (members @ [\<lparr> be_addr = addr, be_weight = weight, be_index = index \<rparr>],
                  owner(addr \<mapsto> index)))"

fun add_answers ::
  "(string \<rightharpoonup> nat) option \<Rightarrow> answer list \<Rightarrow> backend list \<times> (string \<rightharpoonup> nat) \<Rightarrow>
   (backend list \<times> (string \<rightharpoonup> nat), member_error) result" where
  "add_answers owners [] acc = Inr acc"
| "add_answers owners (a # as) acc =
     (if an_addrs a = [] then Inl (NoAddresses (an_index a))
      else and_then (add_addrs owners (an_index a) (an_weight a) (an_addrs a) acc)
             (add_answers owners as))"

definition member_set ::
  "answer list \<Rightarrow> nat \<Rightarrow> (string \<rightharpoonup> nat) option \<Rightarrow> (backend list \<times> (string \<rightharpoonup> nat), member_error) result" where
  "member_set answers max_members owners =
     and_then (add_answers owners answers ([], Map.empty)) (\<lambda>(members, owner).
     if max_members < length members then Inl (TooManyMembers (length members))
     else Inr (members, owner))"

section \<open>Upstreams\<close>

datatype kind = Single upstream_target | Pool "backend list" "upstream_target list"

record upstream =
  up_kind :: kind
  up_breaker :: "circuit_breaker option"

record selected =
  se_target :: upstream_target
  se_addr :: "string option"

text \<open>\<open>pick\<close> is the balancer: it picks one of the members by the key.\<close>

definition upstream_select :: "(backend list \<Rightarrow> string \<Rightarrow> backend option) \<Rightarrow> kind \<Rightarrow> string \<Rightarrow> selected option" where
  "upstream_select pick k key =
     (case k of
        Single target \<Rightarrow> Some \<lparr> se_target = target, se_addr = None \<rparr>
      | Pool members targets \<Rightarrow>
          (case pick members key of
             None \<Rightarrow> None
           | Some b \<Rightarrow>
               if be_index b < length targets
               then Some \<lparr> se_target = targets ! be_index b, se_addr = Some (be_addr b) \<rparr>
               else None))"

definition targets_of :: "kind \<Rightarrow> upstream_target list" where
  "targets_of k = (case k of Single t \<Rightarrow> [t] | Pool _ ts \<Rightarrow> ts)"

definition health_counts :: "(backend \<Rightarrow> bool) \<Rightarrow> kind \<Rightarrow> (nat \<times> nat) option" where
  "health_counts ready k =
     (case k of
        Single _ \<Rightarrow> None
      | Pool members _ \<Rightarrow>
          (let healthy = length (filter ready members) in Some (healthy, length members - healthy)))"

section \<open>Discovery\<close>

text \<open>The discovery of one pool together with the members in service. A lookup
  answers the addresses of a name, or nothing on an error or a timeout.\<close>

record discovery =
  ds_targets :: "upstream_target list"
  ds_weights :: "nat list"
  ds_max_members :: nat
  ds_owners :: "string \<rightharpoonup> nat"
  ds_members :: "backend list"

fun look_up_all ::
  "(string \<Rightarrow> string list option) \<Rightarrow> nat list \<Rightarrow> nat \<Rightarrow> upstream_target list \<Rightarrow> answer list option" where
  "look_up_all look weights i [] = Some []"
| "look_up_all look weights i (t # ts) =
     (case look (ut_addr t) of
        None \<Rightarrow> None
      | Some addrs \<Rightarrow>
          map_option (\<lambda>as. \<lparr> an_index = i, an_weight = (if i < length weights then weights ! i else 1),
                             an_addrs = addrs \<rparr> # as)
            (look_up_all look weights (Suc i) ts))"

text \<open>One refresh (\<open>discover\<close> after the first call): a refused refresh is an error,
  which leaves the members in place.\<close>

definition refresh :: "(string \<Rightarrow> string list option) \<Rightarrow> discovery \<Rightarrow> discovery" where
  "refresh look d =
     (case look_up_all look (ds_weights d) 0 (ds_targets d) of
        None \<Rightarrow> d
      | Some answers \<Rightarrow>
          (case member_set answers (ds_max_members d) (Some (ds_owners d)) of
             Inl _ \<Rightarrow> d
           | Inr (members, owners) \<Rightarrow> d \<lparr> ds_owners := owners, ds_members := members \<rparr>))"

text \<open>Startup resolves with no owners, and failing is fatal (\<open>build_pool\<close>).\<close>

definition pool_start ::
  "(string \<Rightarrow> string list option) \<Rightarrow> upstream_target list \<Rightarrow> nat list \<Rightarrow> nat \<Rightarrow> discovery option" where
  "pool_start look targets weights max_members =
     (case look_up_all look weights 0 targets of
        None \<Rightarrow> None
      | Some answers \<Rightarrow>
          (case member_set answers max_members None of
             Inl _ \<Rightarrow> None
           | Inr (members, owners) \<Rightarrow>
               Some \<lparr> ds_targets = targets, ds_weights = weights, ds_max_members = max_members,
                      ds_owners = owners, ds_members = members \<rparr>))"

section \<open>Names\<close>

definition choose_dns_address :: "'a list \<Rightarrow> nat \<Rightarrow> nat \<Rightarrow> 'a option" where
  "choose_dns_address addrs start attempt =
     (let index = ((start + attempt) mod (U64_MAX + 1)) mod max (length addrs) 1 in
      if index < length addrs then Some (addrs ! index) else None)"

text \<open>The resolver's cache holds answers for its time to live; the map is what has
  not expired. A failed lookup is never cached.\<close>

definition resolver_addresses ::
  "(string \<Rightarrow> bool) \<Rightarrow> (string \<Rightarrow> string list option) \<Rightarrow> bool \<Rightarrow> (string \<rightharpoonup> string list) \<Rightarrow> string \<Rightarrow>
   string list option \<times> (string \<rightharpoonup> string list)" where
  "resolver_addresses is_literal look caching cache addr =
     (let lookup = (case look addr of Some [] \<Rightarrow> None | r \<Rightarrow> r) in
      if is_literal addr then (Some [addr], cache)
      else if \<not> caching then (lookup, cache)
      else case cache addr of
             Some addrs \<Rightarrow> (if addrs = [] then None else Some addrs, cache)
           | None \<Rightarrow> (case lookup of
                        None \<Rightarrow> (None, cache)
                      | Some addrs \<Rightarrow> (Some addrs, cache(addr \<mapsto> addrs))))"

section \<open>What a member set guarantees\<close>

text \<open>The members and the owner map describe the same set of addresses, each once.\<close>

definition owned_by :: "backend list \<Rightarrow> (string \<rightharpoonup> nat) \<Rightarrow> bool" where
  "owned_by members owner =
     (distinct (map be_addr members) \<and> dom owner = be_addr ` set members
      \<and> (\<forall>b\<in>set members. owner (be_addr b) = Some (be_index b)))"

definition same_owners :: "(string \<rightharpoonup> nat) option \<Rightarrow> (string \<rightharpoonup> nat) \<Rightarrow> bool" where
  "same_owners before owner =
     (case before of None \<Rightarrow> True
      | Some o1 \<Rightarrow> \<forall>addr i j. o1 addr = Some i \<longrightarrow> owner addr = Some j \<longrightarrow> i = j)"

lemma add_addrs_Inr:
  assumes "add_addrs owners index weight addrs (members, owner) = Inr (members', owner')"
    and "owned_by members owner" "same_owners owners owner"
  shows "owned_by members' owner' \<and> same_owners owners owner'
    \<and> (\<forall>a\<in>set addrs. owner' a = Some index) \<and> owner \<subseteq>\<^sub>m owner'
    \<and> (\<forall>b\<in>set members'. b \<in> set members \<or> be_index b = index)"
  using assms
proof (induction owners index weight addrs "(members, owner)" arbitrary: members owner rule: add_addrs.induct)
  case (2 owners index weight addr addrs members owner)
  show ?case
  proof (cases "owner addr")
    case (Some previous)
    then have p: "previous = index"
      and "add_addrs owners index weight addrs (members, owner) = Inr (members', owner')"
      using "2.prems"(1) by (auto split: if_splits)
    from "2.hyps"(2) [OF Some p this(2) "2.prems"(2,3)] Some p show ?thesis
      by (auto simp: map_le_def dom_def)
  next
    case None
    let ?m = "members @ [\<lparr> be_addr = addr, be_weight = weight, be_index = index \<rparr>]"
      and ?o = "owner(addr \<mapsto> index)"
    have ok: "\<not> (case Option.bind owners (\<lambda>o1. o1 addr) of Some previous \<Rightarrow> previous \<noteq> index | None \<Rightarrow> False)"
      and r: "add_addrs owners index weight addrs (?m, ?o) = Inr (members', owner')"
      using "2.prems"(1) None by (auto split: if_splits)
    have fresh: "addr \<notin> be_addr ` set members" using "2.prems"(2) None by (auto simp: owned_by_def dom_def)
    then have ob: "owned_by ?m ?o" using "2.prems"(2) by (auto simp: owned_by_def)
    have so: "same_owners owners ?o"
      using "2.prems"(3) ok by (auto simp: same_owners_def split: option.splits)
    note ih = "2.hyps"(1) [OF None ok r ob so]
    have "?o \<subseteq>\<^sub>m owner'" using ih by blast
    then have "owner' addr = Some index" by (simp add: map_le_def)
    moreover have "owner \<subseteq>\<^sub>m ?o" using None by (simp add: map_le_def dom_def)
    then have "owner \<subseteq>\<^sub>m owner'" using ih map_le_trans by blast
    ultimately show ?thesis using ih by auto
  qed
qed (auto simp: map_le_def)

lemma add_answers_Inr:
  assumes "add_answers owners answers (members, owner) = Inr (members', owner')"
    and "owned_by members owner" "same_owners owners owner"
  shows "owned_by members' owner' \<and> same_owners owners owner' \<and> owner \<subseteq>\<^sub>m owner'
    \<and> (\<forall>a\<in>set answers. an_addrs a \<noteq> [] \<and> (\<forall>addr\<in>set (an_addrs a). owner' addr = Some (an_index a)))
    \<and> (\<forall>b\<in>set members'. b \<in> set members \<or> be_index b \<in> an_index ` set answers)"
  using assms
proof (induction answers arbitrary: members owner)
  case (Cons a as)
  obtain m1 o1 where s: "an_addrs a \<noteq> []"
    "add_addrs owners (an_index a) (an_weight a) (an_addrs a) (members, owner) = Inr (m1, o1)"
    "add_answers owners as (m1, o1) = Inr (members', owner')"
    using Cons.prems(1) by (auto simp: and_then_Inr_iff split: if_splits)
  note one = add_addrs_Inr [OF s(2) Cons.prems(2,3)]
  have rest: "owned_by members' owner' \<and> same_owners owners owner' \<and> o1 \<subseteq>\<^sub>m owner'
    \<and> (\<forall>a\<in>set as. an_addrs a \<noteq> [] \<and> (\<forall>addr\<in>set (an_addrs a). owner' addr = Some (an_index a)))
    \<and> (\<forall>b\<in>set members'. b \<in> set m1 \<or> be_index b \<in> an_index ` set as)"
    using Cons.IH [OF s(3)] one by blast
  have "owner' addr = Some (an_index a)" if "addr \<in> set (an_addrs a)" for addr
    using one rest that by (metis domI map_le_def)
  moreover have "owner \<subseteq>\<^sub>m owner'" using one rest map_le_trans by blast
  ultimately show ?case using one rest s(1) by auto
qed (auto simp: map_le_def)

lemma owned_by_empty: "owned_by [] Map.empty" "same_owners owners Map.empty"
  by (auto simp: owned_by_def same_owners_def split: option.splits)

lemma member_set_Inr:
  assumes "member_set answers max_members owners = Inr (members, owner)"
  shows "owned_by members owner" and "same_owners owners owner" and "length members \<le> max_members"
    and "\<And>a. a \<in> set answers \<Longrightarrow> \<exists>b\<in>set members. be_index b = an_index a"
    and "\<And>b. b \<in> set members \<Longrightarrow> be_index b \<in> an_index ` set answers"
proof -
  have s: "add_answers owners answers ([], Map.empty) = Inr (members, owner)"
    and "length members \<le> max_members"
    using assms by (auto simp: member_set_def and_then_Inr_iff split: if_splits)
  then show "length members \<le> max_members" by simp
  note r = add_answers_Inr [OF s owned_by_empty]
  show ob: "owned_by members owner" and "same_owners owners owner" using r by blast+
  show "be_index b \<in> an_index ` set answers" if "b \<in> set members" for b using r that by auto
  show "\<exists>b\<in>set members. be_index b = an_index a" if "a \<in> set answers" for a
  proof -
    have "hd (an_addrs a) \<in> set (an_addrs a)" using r that by auto
    then have "owner (hd (an_addrs a)) = Some (an_index a)" using r that by blast
    moreover from this have "hd (an_addrs a) \<in> be_addr ` set members"
      using ob by (auto simp: owned_by_def)
    then obtain b where "b \<in> set members" "be_addr b = hd (an_addrs a)" by auto
    ultimately show ?thesis using ob by (auto simp: owned_by_def intro!: bexI [of _ b])
  qed
qed

lemma look_up_all_indices:
  "look_up_all look weights i ts = Some answers \<Longrightarrow> map an_index answers = [i..<i + length ts]"
  by (induction ts arbitrary: i answers) (auto split: option.splits simp: upt_conv_Cons simp del: upt_Suc)

section \<open>Pools over time\<close>

definition pool_ok :: "discovery \<Rightarrow> bool" where
  "pool_ok d =
     (owned_by (ds_members d) (ds_owners d) \<and> length (ds_members d) \<le> ds_max_members d
      \<and> be_index ` set (ds_members d) = {..<length (ds_targets d)})"

lemma answered_indices:
  assumes "look_up_all look weights 0 ts = Some answers"
    and "member_set answers mx owners = Inr (members, owner)"
  shows "be_index ` set members = {..<length ts}"
proof -
  have i: "an_index ` set answers = {..<length ts}"
    using look_up_all_indices [OF assms(1)] by (metis add_0 atLeast0LessThan atLeastLessThan_upt set_map)
  show ?thesis
  proof (intro set_eqI iffI)
    fix n assume "n \<in> be_index ` set members"
    then show "n \<in> {..<length ts}" using member_set_Inr(5) [OF assms(2)] i by auto
  next
    fix n assume "n \<in> {..<length ts}"
    then obtain a where "a \<in> set answers" "an_index a = n" using i by (metis imageE)
    then show "n \<in> be_index ` set members" using member_set_Inr(4) [OF assms(2)] by force
  qed
qed

inductive pool_step :: "discovery \<Rightarrow> discovery \<Rightarrow> bool" where
  "pool_step d (refresh look d)"

lemma refresh_static [simp]:
  "ds_targets (refresh look d) = ds_targets d" "ds_max_members (refresh look d) = ds_max_members d"
  by (auto simp: refresh_def split: option.splits sum.splits prod.splits)

lemma refresh_ok:
  assumes "pool_ok d"
  shows "pool_ok (refresh look d) \<and> same_owners (Some (ds_owners d)) (ds_owners (refresh look d))"
proof -
  have id: "same_owners (Some (ds_owners d)) (ds_owners d)" by (auto simp: same_owners_def)
  show ?thesis
  proof (cases "look_up_all look (ds_weights d) 0 (ds_targets d)")
    case None
    then show ?thesis using assms id by (simp add: refresh_def)
  next
    case (Some answers)
    show ?thesis
    proof (cases "member_set answers (ds_max_members d) (Some (ds_owners d))")
      case (Inl e)
      then show ?thesis using assms id Some by (simp add: refresh_def)
    next
      case (Inr mo)
      obtain members owner where mo: "mo = (members, owner)" by fastforce
      note m = Inr [unfolded mo]
      show ?thesis
        using Some m member_set_Inr(1-3) [OF m] answered_indices [OF Some m]
        by (simp add: refresh_def pool_ok_def)
    qed
  qed
qed

lemma pool_start_ok:
  assumes "pool_start look targets weights mx = Some d"
  shows "pool_ok d \<and> ds_targets d = targets \<and> ds_max_members d = mx"
proof -
  obtain answers members owner where
    s: "look_up_all look weights 0 targets = Some answers"
       "member_set answers mx None = Inr (members, owner)"
    and d: "d = \<lparr> ds_targets = targets, ds_weights = weights, ds_max_members = mx,
                 ds_owners = owner, ds_members = members \<rparr>"
    using assms by (auto simp: pool_start_def split: option.splits sum.splits)
  show ?thesis
    using member_set_Inr(1,3) [OF s(2)] answered_indices [OF s] by (simp add: d pool_ok_def)
qed

lemma pool_static:
  "pool_step\<^sup>*\<^sup>* d d' \<Longrightarrow> ds_targets d' = ds_targets d \<and> ds_max_members d' = ds_max_members d"
  by (induction rule: rtranclp_induct) (auto elim: pool_step.cases)

interpretation pools: invariant_system "\<lambda>d. \<exists>look ts ws mx. pool_start look ts ws mx = Some d" pool_step pool_ok
  by unfold_locales (auto elim!: pool_step.cases simp: pool_start_ok refresh_ok)

section \<open>Properties\<close>

text \<open>A pool always dials what was configured. After any refreshes, successful,
  refused or failed, every target keeps a member and the pool its bound; whichever
  member the balancer picks, the request goes to that member's own address with
  the authority and TLS settings of the one target whose name resolved to it; and
  no refresh ever moves an address in service to another target.\<close>

theorem pool_members_sound:
  assumes "pool_start look targets weights mx = Some d0" "pool_step\<^sup>*\<^sup>* d0 d"
    and "\<And>ms k b. pick ms k = Some b \<Longrightarrow> b \<in> set ms"
  shows "(\<forall>b. pick (ds_members d) key = Some b \<longrightarrow>
          be_index b < length targets \<and> ds_owners d (be_addr b) = Some (be_index b)
          \<and> upstream_select pick (Pool (ds_members d) targets) key =
              Some \<lparr> se_target = targets ! be_index b, se_addr = Some (be_addr b) \<rparr>)
    \<and> (\<forall>i<length targets. \<exists>b\<in>set (ds_members d). be_index b = i)
    \<and> length (ds_members d) \<le> mx
    \<and> (\<forall>look' addr i j. ds_owners d addr = Some i \<longrightarrow>
          ds_owners (refresh look' d) addr = Some j \<longrightarrow> i = j)"
proof -
  have start: "\<exists>look ts ws mx. pool_start look ts ws mx = Some d0" using assms(1) by blast
  have ok: "pool_ok d" by (rule pools.reachable_inv [OF start assms(2)])
  have st: "ds_targets d = targets" "ds_max_members d = mx"
    using pool_static [OF assms(2)] pool_start_ok [OF assms(1)] by simp_all
  have idx: "be_index ` set (ds_members d) = {..<length targets}"
    and own: "owned_by (ds_members d) (ds_owners d)" and len: "length (ds_members d) \<le> mx"
    using ok st by (simp_all add: pool_ok_def)
  have sel: "be_index b < length targets \<and> ds_owners d (be_addr b) = Some (be_index b)
      \<and> upstream_select pick (Pool (ds_members d) targets) key =
          Some \<lparr> se_target = targets ! be_index b, se_addr = Some (be_addr b) \<rparr>"
    if b: "pick (ds_members d) key = Some b" for b
  proof -
    have mem: "b \<in> set (ds_members d)" using assms(3) b .
    then have "be_index b \<in> {..<length targets}" using idx by blast
    then show ?thesis using b mem own by (simp add: upstream_select_def owned_by_def)
  qed
  have each: "\<exists>b\<in>set (ds_members d). be_index b = i" if "i < length targets" for i
    using idx that by (metis imageE lessThan_iff)
  have moved: "i = j" if "ds_owners d addr = Some i" "ds_owners (refresh look' d) addr = Some j"
    for look' addr i j
    using refresh_ok [OF ok, of look'] that by (auto simp: same_owners_def)
  show ?thesis using sel each len moved by blast
qed

definition sample_targets :: "upstream_target list" where
  "sample_targets =
     [\<lparr> ut_addr = ''a:80'', ut_tls = False, ut_sni = ''a'', ut_base_path = [] \<rparr>,
      \<lparr> ut_addr = ''b:80'', ut_tls = False, ut_sni = ''b'', ut_base_path = [] \<rparr>]"

definition sample_look :: "string \<Rightarrow> string list option" where
  "sample_look name = (if name = ''a:80'' then Some [''10.0.0.1:80'', ''10.0.0.2:80''] else Some [''10.0.0.3:80''])"

definition moved_look :: "string \<Rightarrow> string list option" where
  "moved_look name = (if name = ''a:80'' then Some [''10.0.0.1:80''] else Some [''10.0.0.2:80''])"

definition first_member :: "backend list \<Rightarrow> string \<Rightarrow> backend option" where
  "first_member ms key = (case ms of [] \<Rightarrow> None | b # _ \<Rightarrow> Some b)"

theorem pool_members_sound_witness:
  "\<exists>d. pool_start sample_look sample_targets [1, 1] 4 = Some d
     \<and> refresh moved_look d = d
     \<and> upstream_select first_member (Pool (ds_members (refresh moved_look d)) sample_targets) ''k'' =
         Some \<lparr> se_target = sample_targets ! 0, se_addr = Some ''10.0.0.1:80'' \<rparr>"
proof -
  obtain d where d: "pool_start sample_look sample_targets [1, 1] 4 = Some d"
    and m: "ds_members d = [\<lparr> be_addr = ''10.0.0.1:80'', be_weight = 1, be_index = 0 \<rparr>,
      \<lparr> be_addr = ''10.0.0.2:80'', be_weight = 1, be_index = 0 \<rparr>,
      \<lparr> be_addr = ''10.0.0.3:80'', be_weight = 1, be_index = 1 \<rparr>]"
    and r: "refresh moved_look d = d"
    by (simp add: pool_start_def sample_look_def sample_targets_def member_set_def refresh_def moved_look_def)
  have pick: "b \<in> set ms" if "first_member ms k = Some b" for ms k b
    using that by (auto simp: first_member_def split: list.splits)
  have "first_member (ds_members d) ''k'' = Some \<lparr> be_addr = ''10.0.0.1:80'', be_weight = 1, be_index = 0 \<rparr>"
    by (simp add: first_member_def m)
  then have "upstream_select first_member (Pool (ds_members d) sample_targets) ''k'' =
         Some \<lparr> se_target = sample_targets ! 0, se_addr = Some ''10.0.0.1:80'' \<rparr>"
    using pool_members_sound [OF d rtranclp.rtrancl_refl, of first_member "''k''", OF pick] by simp
  then show ?thesis using d r by auto
qed

text \<open>Connection failover tries every address of a DNS answer. From any starting
  point the attempts of one request go through the answer in rotation, each address
  once before any is tried again (the start is a 64-bit counter that has not wrapped).\<close>

theorem dns_rotation_complete:
  assumes "start + length addrs \<le> U64_MAX"
  shows "map (choose_dns_address addrs start) [0..<length addrs] = map Some (rotate start addrs)"
proof (intro nth_equalityI)
  fix i assume "i < length (map (choose_dns_address addrs start) [0..<length addrs])"
  then have i: "i < length addrs" by simp
  then have ne: "addrs \<noteq> []" by auto
  have "(start + i) mod (U64_MAX + 1) = start + i" using assms i by simp
  moreover have "max (length addrs) 1 = length addrs" using ne by (cases addrs) auto
  ultimately have "choose_dns_address addrs start i = Some (addrs ! ((start + i) mod length addrs))"
    using ne by (simp add: choose_dns_address_def Let_def)
  then show "map (choose_dns_address addrs start) [0..<length addrs] ! i = map Some (rotate start addrs) ! i"
    using i by (simp add: nth_rotate add.commute)
qed simp

theorem dns_rotation_complete_witness:
  "map (choose_dns_address [''a'', ''b'', ''c''] 4) [0..<3] = [Some ''b'', Some ''c'', Some ''a'']"
proof -
  let ?xs = "[''a'', ''b'', ''c'']"
  have r: "rotate 4 ?xs = [''b'', ''c'', ''a'']" by code_simp
  have l: "length ?xs = 3" by simp
  have "map (choose_dns_address ?xs 4) [0..<length ?xs] = map Some (rotate 4 ?xs)"
    by (rule dns_rotation_complete) simp
  then show ?thesis unfolding l r by (simp only: list.map)
qed

end
