(* ===== verification/Route_Index.thy ===== *)
theory Route_Index
  imports Routes "HOL-Library.Sublist"
begin

text \<open>
  The segment trie of large route tables (\<open>routes/index.rs\<close>) and \<open>match_request\<close>
  over it. The arena is a list of nodes, a child an index into it. The locale
  \<open>route_matcher\<close> is the contract of a matcher (the first route in table order
  that serves the request); the linear scan and the trie both provide it.
\<close>

section \<open>The arena\<close>

record node =
  nd_children :: "string \<rightharpoonup> nat"
  nd_routes :: "nat list"

definition node_empty :: node where
  "node_empty = \<lparr> nd_children = Map.empty, nd_routes = [] \<rparr>"

definition child_of :: "node list \<Rightarrow> nat \<Rightarrow> string \<Rightarrow> nat option" where
  "child_of nodes current segment =
     (if current < length nodes then nd_children (nodes ! current) segment else None)"

definition add_child :: "node list \<Rightarrow> nat \<Rightarrow> string \<Rightarrow> node list" where
  "add_child nodes current segment =
     (if current < length nodes
      then nodes[current := (nodes ! current)
             \<lparr> nd_children := (nd_children (nodes ! current))(segment \<mapsto> length nodes) \<rparr>]
      else nodes) @ [node_empty]"

fun descend :: "node list \<Rightarrow> nat \<Rightarrow> string list \<Rightarrow> node list \<times> nat" where
  "descend nodes current [] = (nodes, current)"
| "descend nodes current (segment # segments) =
     (case child_of nodes current segment of
        Some c \<Rightarrow> descend nodes c segments
      | None \<Rightarrow> descend (add_child nodes current segment) (length nodes) segments)"

definition segments_of :: "string \<Rightarrow> string list" where
  "segments_of s = (if s = [] then [] else split_on CHR ''/'' s)"

definition index_insert :: "node list \<Rightarrow> nat \<Rightarrow> string \<Rightarrow> node list" where
  "index_insert nodes pos pfx =
     (let (nodes1, current) = descend nodes 0 (segments_of pfx) in
      if current < length nodes1
      then nodes1[current := (nodes1 ! current)
             \<lparr> nd_routes := nd_routes (nodes1 ! current) @ [pos] \<rparr>]
      else nodes1)"

fun index_fill :: "node list \<Rightarrow> nat \<Rightarrow> route_config list \<Rightarrow> node list" where
  "index_fill nodes pos [] = nodes"
| "index_fill nodes pos (r # rs) =
     index_fill (index_insert nodes pos (rc_prefix r)) (Suc pos) rs"

definition index_build :: "route_config list \<Rightarrow> node list option" where
  "index_build routes =
     (if length routes \<le> 32 then None else Some (index_fill [node_empty] 0 routes))"

section \<open>Searching it\<close>

definition position_ok :: "route_config list \<Rightarrow> string \<Rightarrow> string option \<Rightarrow> nat \<Rightarrow> bool" where
  "position_ok routes method host pos =
     (pos < length routes \<and> matches_method (routes ! pos) method
      \<and> matches_host (routes ! pos) host)"

fun consider_positions :: "(nat \<Rightarrow> bool) \<Rightarrow> nat list \<Rightarrow> nat option \<Rightarrow> nat option" where
  "consider_positions ok [] best = best"
| "consider_positions ok (pos # ps) best =
     (if (case best of Some b \<Rightarrow> pos \<ge> b | None \<Rightarrow> False) then best
      else if ok pos then Some pos
      else consider_positions ok ps best)"

definition consider_node :: "node list \<Rightarrow> nat \<Rightarrow> (nat \<Rightarrow> bool) \<Rightarrow> nat option \<Rightarrow> nat option" where
  "consider_node nodes n ok best =
     (if n < length nodes then consider_positions ok (nd_routes (nodes ! n)) best else best)"

fun search :: "node list \<Rightarrow> (nat \<Rightarrow> bool) \<Rightarrow> nat \<Rightarrow> string list \<Rightarrow> nat option \<Rightarrow> nat option" where
  "search nodes ok current [] best = best"
| "search nodes ok current (segment # segments) best =
     (case child_of nodes current segment of
        None \<Rightarrow> best
      | Some c \<Rightarrow> search nodes ok c segments (consider_node nodes c ok best))"

definition index_find ::
  "node list \<Rightarrow> route_config list \<Rightarrow> string \<Rightarrow> string \<Rightarrow> string option \<Rightarrow> route_config option" where
  "index_find nodes routes path method host =
     (let ok = position_ok routes method host;
          best = (if path = [] then consider_node nodes 0 ok None
                  else search nodes ok 0 (split_on CHR ''/'' path) None) in
      case best of None \<Rightarrow> None
      | Some pos \<Rightarrow> if pos < length routes then Some (routes ! pos) else None)"

text \<open>\<open>match_request\<close>. The lookup of a table is always built from its routes, and
  only their prefixes matter to it, so it is computed here.\<close>

definition find_route ::
  "route_config list \<Rightarrow> string \<Rightarrow> string \<Rightarrow> string option \<Rightarrow> route_config option" where
  "find_route routes p m h =
     (case index_build routes of
        Some nodes \<Rightarrow> index_find nodes routes p m h
      | None \<Rightarrow> find (route_hits p m h) routes)"

definition match_request :: "route_table \<Rightarrow> string option \<Rightarrow> string \<Rightarrow> string \<Rightarrow> route_config option" where
  "match_request t host path method =
     find_route (tb_routes t) (normalize_proxy_path path) (norm_method method)
       (map_option norm_host host)"

section \<open>The trie as a map from segment lists\<close>

fun walk :: "node list \<Rightarrow> nat \<Rightarrow> string list \<Rightarrow> nat option" where
  "walk nodes current [] = Some current"
| "walk nodes current (s # ss) =
     (case child_of nodes current s of None \<Rightarrow> None | Some c \<Rightarrow> walk nodes c ss)"

lemma walk_append: "walk nodes n (p @ q) = Option.bind (walk nodes n p) (\<lambda>m. walk nodes m q)"
  by (induction p arbitrary: n) (auto split: option.splits)

lemma walk_snoc: "walk nodes n (p @ [s]) = Option.bind (walk nodes n p) (\<lambda>m. child_of nodes m s)"
  by (simp add: walk_append) (cases "walk nodes n p"; simp split: option.splits)

definition routes_at :: "node list \<Rightarrow> string list \<Rightarrow> nat list" where
  "routes_at nodes q = (case walk nodes 0 q of None \<Rightarrow> [] | Some n \<Rightarrow> nd_routes (nodes ! n))"

text \<open>The arena is a tree: every node is reached by one path, and inside it.\<close>

definition arena :: "node list \<Rightarrow> bool" where
  "arena nodes =
     (nodes \<noteq> [] \<and>
      (\<forall>p n. walk nodes 0 p = Some n \<longrightarrow> n < length nodes) \<and>
      (\<forall>p q n. walk nodes 0 p = Some n \<longrightarrow> walk nodes 0 q = Some n \<longrightarrow> p = q))"

lemma arena_empty: "arena [node_empty]"
proof -
  have "walk [node_empty] 0 p = (if p = [] then Some 0 else None)" for p
    by (cases p) (simp_all add: child_of_def node_empty_def)
  then show ?thesis by (auto simp: arena_def split: if_splits)
qed

lemma child_add:
  assumes "current < length nodes" "n < Suc (length nodes)"
  shows "child_of (add_child nodes current s) n t =
    (if n = current \<and> t = s then Some (length nodes)
     else if n < length nodes then child_of nodes n t else None)"
  using assms
  by (auto simp: child_of_def add_child_def nth_append nth_list_update node_empty_def)

lemma walk_add:
  assumes "arena nodes" "walk nodes 0 p = Some current" "child_of nodes current s = None"
  shows "walk (add_child nodes current s) 0 q =
    (if q = p @ [s] then Some (length nodes) else walk nodes 0 q)"
proof (induction q rule: rev_induct)
  case Nil
  then show ?case by simp
next
  case (snoc t q)
  let ?n' = "add_child nodes current s"
  have cur: "current < length nodes" using assms(1,2) by (auto simp: arena_def)
  have none: "walk nodes 0 (p @ [s]) = None" using assms(2,3) by (simp add: walk_snoc)
  show ?case
  proof (cases "q = p @ [s]")
    case True
    then have "walk ?n' 0 (q @ [t]) = child_of ?n' (length nodes) t"
      using snoc unfolding walk_snoc [of ?n' 0 q t] by simp
    also have "\<dots> = None" using child_add [OF cur, of "length nodes" s t] cur by simp
    finally show ?thesis using True none unfolding walk_snoc [of nodes 0 q t] by simp
  next
    case False
    then have q: "walk ?n' 0 q = walk nodes 0 q" using snoc by simp
    show ?thesis
    proof (cases "walk nodes 0 q")
      case None
      then show ?thesis using q assms(2) by (auto simp: walk_snoc)
    next
      case (Some n)
      then have n: "n < length nodes" using assms(1) by (auto simp: arena_def)
      have "n = current \<longleftrightarrow> q = p" using assms(1,2) Some by (auto simp: arena_def)
      then show ?thesis
        using q Some child_add [OF cur, of n s t] n by (auto simp: walk_snoc)
    qed
  qed
qed

lemma arena_add:
  assumes "arena nodes" "walk nodes 0 p = Some current" "child_of nodes current s = None"
  shows "arena (add_child nodes current s)"
    and "routes_at (add_child nodes current s) q = routes_at nodes q"
proof -
  have cur: "current < length nodes" using assms(1,2) by (auto simp: arena_def)
  then have len: "length (add_child nodes current s) = Suc (length nodes)" by (simp add: add_child_def)
  note w = walk_add [OF assms]
  have lt: "walk nodes 0 q = Some n \<Longrightarrow> n < length nodes" for q n
    using assms(1) by (auto simp: arena_def)
  have uniq: "walk nodes 0 q = Some n \<Longrightarrow> walk nodes 0 q' = Some n \<Longrightarrow> q = q'" for q q' n
    using assms(1) by (auto simp: arena_def)
  show "arena (add_child nodes current s)"
    unfolding arena_def w len
    using lt uniq by (auto simp: add_child_def less_Suc_eq split: if_splits)
  have none: "walk nodes 0 (p @ [s]) = None" using assms(2,3) by (simp add: walk_snoc)
  have nd: "nd_routes (add_child nodes current s ! n) = nd_routes (nodes ! n)" if "n < length nodes" for n
    using that cur by (auto simp: add_child_def nth_append nth_list_update)
  have new: "nd_routes (add_child nodes current s ! length nodes) = []"
    using cur by (simp add: add_child_def nth_append node_empty_def)
  show "routes_at (add_child nodes current s) q = routes_at nodes q"
    using none new nd lt by (auto simp: routes_at_def w split: option.splits)
qed

lemma descend_spec:
  assumes "arena nodes" "walk nodes 0 p = Some current"
    and "descend nodes current segs = (nodes', current')"
  shows "arena nodes' \<and> walk nodes' 0 (p @ segs) = Some current'
    \<and> (\<forall>q. routes_at nodes' q = routes_at nodes q)"
  using assms
proof (induction segs arbitrary: nodes current p)
  case (Cons s segs)
  show ?case
  proof (cases "child_of nodes current s")
    case (Some c)
    then have w: "walk nodes 0 (p @ [s]) = Some c" using Cons.prems(2) by (simp add: walk_snoc)
    have "descend nodes c segs = (nodes', current')" using Cons.prems(3) Some by simp
    from Cons.IH [OF Cons.prems(1) w this] show ?thesis by simp
  next
    case None
    let ?n = "add_child nodes current s"
    have a: "arena ?n" using arena_add(1) [OF Cons.prems(1,2) None] .
    have w: "walk ?n 0 (p @ [s]) = Some (length nodes)"
      using walk_add [OF Cons.prems(1,2) None] by simp
    have "descend ?n (length nodes) segs = (nodes', current')" using Cons.prems(3) None by simp
    from Cons.IH [OF a w this] show ?thesis
      using arena_add(2) [OF Cons.prems(1,2) None] by simp
  qed
qed simp

lemma index_insert_spec:
  assumes "arena nodes"
  shows "arena (index_insert nodes i pfx)
    \<and> routes_at (index_insert nodes i pfx) q =
        (if q = segments_of pfx then routes_at nodes q @ [i] else routes_at nodes q)"
proof -
  obtain n1 cur where d: "descend nodes 0 (segments_of pfx) = (n1, cur)" by fastforce
  have s: "arena n1" "walk n1 0 (segments_of pfx) = Some cur" "\<And>q. routes_at n1 q = routes_at nodes q"
    using descend_spec [OF assms, of "[]" 0] d by auto
  then have cur: "cur < length n1" by (auto simp: arena_def)
  let ?n = "n1[cur := (n1 ! cur) \<lparr> nd_routes := nd_routes (n1 ! cur) @ [i] \<rparr>]"
  have i: "index_insert nodes i pfx = ?n" using d cur by (simp add: index_insert_def)
  have "child_of ?n n t = child_of n1 n t" for n t
    using cur by (auto simp: child_of_def nth_list_update)
  then have w: "walk ?n n p = walk n1 n p" for n p
    by (induction p arbitrary: n) (auto split: option.splits)
  have "arena ?n" using s(1) by (simp add: arena_def w)
  moreover have "routes_at ?n q =
      (if q = segments_of pfx then routes_at n1 q @ [i] else routes_at n1 q)"
  proof (cases "walk n1 0 q")
    case None
    then show ?thesis using s(2) by (auto simp: routes_at_def w)
  next
    case (Some n)
    then have "n < length n1" "n = cur \<longleftrightarrow> q = segments_of pfx"
      using s(1,2) by (auto simp: arena_def)
    then show ?thesis using Some by (auto simp: routes_at_def w nth_list_update)
  qed
  ultimately show ?thesis using i s(3) by simp
qed

lemma index_fill_spec:
  assumes "arena nodes"
  shows "arena (index_fill nodes i rs)
    \<and> routes_at (index_fill nodes i rs) q =
        routes_at nodes q @ filter (\<lambda>j. segments_of (rc_prefix (rs ! (j - i))) = q) [i..<i + length rs]"
  using assms
proof (induction rs arbitrary: nodes i)
  case (Cons r rs)
  let ?n = "index_insert nodes i (rc_prefix r)"
  have a: "arena ?n" using index_insert_spec [OF Cons.prems] by blast
  have f: "filter (\<lambda>j. segments_of (rc_prefix ((r # rs) ! (j - i))) = q) [Suc i..<i + length (r # rs)]
      = filter (\<lambda>j. segments_of (rc_prefix (rs ! (j - Suc i))) = q) [Suc i..<Suc i + length rs]"
    by (rule filter_cong) (auto simp: nth_Cons' )
  have u: "[i..<i + length (r # rs)] = i # [Suc i..<i + length (r # rs)]"
    by (rule upt_conv_Cons) simp
  show ?case
    using Cons.IH [OF a, of "Suc i"] index_insert_spec [OF Cons.prems, of i "rc_prefix r" q] f
    unfolding u by auto
qed simp

lemma routes_at_root: "routes_at [node_empty] q = []"
  by (cases q) (simp_all add: routes_at_def node_empty_def child_of_def)

lemma index_routes_at:
  "arena (index_fill [node_empty] 0 rs)
   \<and> routes_at (index_fill [node_empty] 0 rs) q =
       filter (\<lambda>j. segments_of (rc_prefix (rs ! j)) = q) [0..<length rs]"
  using index_fill_spec [OF arena_empty, of 0 rs q] by (simp add: routes_at_root)

section \<open>The search finds the least pos\<close>

definition is_best :: "(nat \<Rightarrow> bool) \<Rightarrow> nat option \<Rightarrow> nat set \<Rightarrow> bool" where
  "is_best ok best S =
     (case best of
        None \<Rightarrow> \<forall>i\<in>S. \<not> ok i
      | Some b \<Rightarrow> b \<in> S \<and> ok b \<and> (\<forall>i\<in>S. ok i \<longrightarrow> b \<le> i))"

lemma consider_best:
  "sorted ps \<Longrightarrow> is_best ok best S \<Longrightarrow> is_best ok (consider_positions ok ps best) (S \<union> set ps)"
proof (induction ps arbitrary: S)
  case (Cons p ps)
  show ?case
  proof (cases "\<exists>b. best = Some b \<and> b \<le> p")
    case True
    then show ?thesis using Cons.prems by (fastforce simp: is_best_def)
  next
    case False
    then have nb: "\<not> (case best of Some b \<Rightarrow> p \<ge> b | None \<Rightarrow> False)" by (auto split: option.splits)
    show ?thesis
    proof (cases "ok p")
      case True
      then show ?thesis
        using nb Cons.prems by (fastforce simp: is_best_def split: option.splits)
    next
      case no: False
      then have "is_best ok best (insert p S)"
        using Cons.prems(2) by (auto simp: is_best_def split: option.splits)
      from Cons.IH [OF _ this] show ?thesis using nb no Cons.prems(1) by simp
    qed
  qed
qed simp

definition positions_under :: "node list \<Rightarrow> string list \<Rightarrow> string list \<Rightarrow> nat set" where
  "positions_under nodes done segs =
     {i. \<exists>q. q \<noteq> [] \<and> prefix q segs \<and> i \<in> set (routes_at nodes (done @ q))}"

lemma positions_under_Nil [simp]: "positions_under nodes p [] = {}"
  by (auto simp: positions_under_def)

lemma positions_under_Cons:
  "positions_under nodes p (s # segs) =
     set (routes_at nodes (p @ [s])) \<union> positions_under nodes (p @ [s]) segs"
proof -
  have "(\<exists>q. q \<noteq> [] \<and> prefix q (s # segs) \<and> i \<in> set (routes_at nodes (p @ q))) \<longleftrightarrow>
      i \<in> set (routes_at nodes (p @ [s])) \<or>
      (\<exists>q. q \<noteq> [] \<and> prefix q segs \<and> i \<in> set (routes_at nodes ((p @ [s]) @ q)))" for i
  proof
    assume "\<exists>q. q \<noteq> [] \<and> prefix q (s # segs) \<and> i \<in> set (routes_at nodes (p @ q))"
    then obtain q where "q \<noteq> []" "prefix q (s # segs)" "i \<in> set (routes_at nodes (p @ q))" by blast
    then show "i \<in> set (routes_at nodes (p @ [s])) \<or>
      (\<exists>q. q \<noteq> [] \<and> prefix q segs \<and> i \<in> set (routes_at nodes ((p @ [s]) @ q)))"
      by (cases q; cases "tl q = []") auto
  next
    assume "i \<in> set (routes_at nodes (p @ [s])) \<or>
      (\<exists>q. q \<noteq> [] \<and> prefix q segs \<and> i \<in> set (routes_at nodes ((p @ [s]) @ q)))"
    then show "\<exists>q. q \<noteq> [] \<and> prefix q (s # segs) \<and> i \<in> set (routes_at nodes (p @ q))"
    proof
      assume "\<exists>q. q \<noteq> [] \<and> prefix q segs \<and> i \<in> set (routes_at nodes ((p @ [s]) @ q))"
      then obtain q where "prefix q segs" "i \<in> set (routes_at nodes (p @ (s # q)))" by auto
      then show ?thesis by (intro exI [of _ "s # q"]) simp
    qed (intro exI [of _ "[s]"], simp)
  qed
  then show ?thesis by (auto simp: positions_under_def)
qed

lemma positions_under_stuck:
  "walk nodes 0 (p @ [s]) = None \<Longrightarrow> positions_under nodes p (s # segs) = {}"
proof -
  assume n: "walk nodes 0 (p @ [s]) = None"
  then have "walk nodes 0 (p @ s # q) = None" for q
    using walk_append [of nodes 0 "p @ [s]" q] by simp
  then have "routes_at nodes (p @ q) = []" if "q \<noteq> []" "prefix q (s # segs)" for q
    using that by (cases q) (auto simp: routes_at_def)
  then show ?thesis by (auto simp: positions_under_def)
qed

lemma search_best:
  assumes "arena nodes" "walk nodes 0 p = Some current" "\<And>q. sorted (routes_at nodes q)"
    and "is_best ok best S"
  shows "is_best ok (search nodes ok current segs best) (S \<union> positions_under nodes p segs)"
  using assms(2,4)
proof (induction segs arbitrary: p current best S)
  case (Cons s segs)
  show ?case
  proof (cases "child_of nodes current s")
    case None
    then have "walk nodes 0 (p @ [s]) = None" using Cons.prems(1) by (simp add: walk_snoc)
    then show ?thesis using None Cons.prems(2) by (simp add: positions_under_stuck)
  next
    case (Some c)
    then have w: "walk nodes 0 (p @ [s]) = Some c" using Cons.prems(1) by (simp add: walk_snoc)
    then have c: "c < length nodes" using assms(1) by (auto simp: arena_def)
    have r: "nd_routes (nodes ! c) = routes_at nodes (p @ [s])" using w by (simp add: routes_at_def)
    have "is_best ok (consider_node nodes c ok best) (S \<union> set (routes_at nodes (p @ [s])))"
      using consider_best [OF assms(3) Cons.prems(2), of "p @ [s]"] c r by (simp add: consider_node_def)
    from Cons.IH [OF w this] show ?thesis
      using Some by (simp add: positions_under_Cons Un_assoc)
  qed
qed simp

section \<open>The trie agrees with the scan\<close>

lemma split_on_prefix:
  "prefix (split_on c a) (split_on c b) \<longleftrightarrow> b = a \<or> (\<exists>r. b = a @ c # r)"
proof
  assume "prefix (split_on c a) (split_on c b)"
  then obtain zs where z: "split_on c b = split_on c a @ zs" by (auto simp: prefix_def)
  show "b = a \<or> (\<exists>r. b = a @ c # r)"
  proof (cases "zs = []")
    case True
    then have "join [c] (split_on c b) = join [c] (split_on c a)" using z by simp
    then show ?thesis by simp
  next
    case False
    have "b = join [c] (split_on c a @ zs)" using z join_split [of c b] by simp
    also have "\<dots> = a @ c # join [c] zs" using False by (simp add: join_append)
    finally show ?thesis by blast
  qed
qed (auto simp: split_on_append_sep)

lemma normalized_no_slash:
  "normalize_proxy_path p = p \<Longrightarrow> p \<noteq> [] \<Longrightarrow> hd p \<noteq> CHR ''/''"
  using trim_matches_ends(1) [of "CHR ''/''" p] by (auto simp: normalize_proxy_path_def)

lemma under_prefix_segments:
  assumes "normalize_proxy_path p = p" "p \<noteq> []"
  shows "under_prefix p pfx \<longleftrightarrow> segments_of pfx \<noteq> [] \<and> prefix (segments_of pfx) (split_on CHR ''/'' p)"
proof (cases "pfx = []")
  case True
  then show ?thesis
    using normalized_no_slash [OF assms] assms(2) by (auto simp: segments_of_def under_prefix_iff)
next
  case False
  then show ?thesis by (auto simp: segments_of_def under_prefix_iff split_on_prefix)
qed

lemma under_prefix_Nil: "under_prefix [] pfx \<longleftrightarrow> pfx = []"
  by (auto simp: under_prefix_iff)

lemma find_least:
  assumes "is_best ok best {i. i < length xs \<and> Q i}" "\<And>i. i < length xs \<Longrightarrow> P (xs ! i) \<longleftrightarrow> Q i \<and> ok i"
  shows "find P xs = map_option (\<lambda>i. xs ! i) best"
proof (cases best)
  case None
  then have "\<not> P (xs ! i)" if "i < length xs" for i
    using assms that by (auto simp: is_best_def)
  then have "find P xs = None" by (auto simp: find_None_iff in_set_conv_nth)
  with None show ?thesis by simp
next
  case (Some b)
  then have b: "b < length xs" "P (xs ! b)" "\<And>i. i < b \<Longrightarrow> \<not> P (xs ! i)"
    using assms by (auto simp: is_best_def) (meson leD less_trans)
  then have "find P xs = Some (xs ! b)" by (auto simp: find_Some_iff)
  with Some show ?thesis by simp
qed

lemma sorted_filter_upt: "sorted (filter P [a..<b])"
  by (simp add: sorted_wrt_filter)

lemma index_find_first:
  assumes "normalize_proxy_path p = p"
  shows "index_find (index_fill [node_empty] 0 routes) routes p m h = find (route_hits p m h) routes"
proof -
  let ?n = "index_fill [node_empty] 0 routes" and ?ok = "position_ok routes m h"
  have arena: "arena ?n" and at: "\<And>q. routes_at ?n q =
      filter (\<lambda>j. segments_of (rc_prefix (routes ! j)) = q) [0..<length routes]"
    using index_routes_at by auto
  have sorted: "sorted (routes_at ?n q)" for q unfolding at by (rule sorted_filter_upt)
  have empty: "is_best ?ok None {}" by (simp add: is_best_def)
  define best where "best = (if p = [] then consider_node ?n 0 ?ok None
      else search ?n ?ok 0 (split_on CHR ''/'' p) None)"
  have "find (route_hits p m h) routes = map_option (\<lambda>i. routes ! i) best"
  proof (cases "p = []")
    case True
    have "0 < length ?n" "nd_routes (?n ! 0) = routes_at ?n []"
      using arena by (auto simp: arena_def routes_at_def)
    then have "is_best ?ok best ({} \<union> set (routes_at ?n []))"
      using True consider_best [OF sorted empty, of "[]"] by (simp add: best_def consider_node_def)
    moreover have "set (routes_at ?n []) = {i. i < length routes \<and> rc_prefix (routes ! i) = []}"
      by (auto simp: at segments_of_def split: if_splits)
    ultimately have b: "is_best ?ok best {i. i < length routes \<and> rc_prefix (routes ! i) = []}"
      by simp
    show ?thesis
      by (rule find_least [OF b]) (auto simp: route_hits_def position_ok_def True under_prefix_Nil)
  next
    case False
    have "is_best ?ok best ({} \<union> positions_under ?n [] (split_on CHR ''/'' p))"
      unfolding best_def using False search_best [OF arena _ sorted empty, of "[]" 0] by simp
    moreover have "positions_under ?n [] (split_on CHR ''/'' p) =
        {i. i < length routes \<and> segments_of (rc_prefix (routes ! i)) \<noteq> []
            \<and> prefix (segments_of (rc_prefix (routes ! i))) (split_on CHR ''/'' p)}"
      by (auto simp: positions_under_def at)
    ultimately have b: "is_best ?ok best {i. i < length routes \<and> (segments_of (rc_prefix (routes ! i)) \<noteq> []
            \<and> prefix (segments_of (rc_prefix (routes ! i))) (split_on CHR ''/'' p))}"
      by simp
    show ?thesis
      by (rule find_least [OF b])
        (auto simp: route_hits_def position_ok_def under_prefix_segments [OF assms False])
  qed
  moreover have "i < length routes" if "best = Some i" for i
  proof -
    from that have "?ok i"
      unfolding best_def
      using search_best [OF arena _ sorted empty, of "[]" 0 "split_on CHR ''/'' p"]
        consider_best [OF sorted empty, of "[]"] arena
      by (auto simp: is_best_def consider_node_def routes_at_def arena_def split: if_splits)
    then show ?thesis by (simp add: position_ok_def)
  qed
  ultimately show ?thesis
    by (auto simp: index_find_def Let_def best_def [symmetric] split: option.splits)
qed

section \<open>The matcher interface\<close>

locale route_matcher =
  fixes lookup :: "route_config list \<Rightarrow> string \<Rightarrow> string \<Rightarrow> string option \<Rightarrow> route_config option"
  assumes first_hit: "normalize_proxy_path p = p \<Longrightarrow> lookup routes p m h = find (route_hits p m h) routes"
begin

lemma lookup_hits:
  "normalize_proxy_path p = p \<Longrightarrow> lookup routes p m h = Some r \<Longrightarrow> r \<in> set routes \<and> route_hits p m h r"
  using first_hit find_SomeD by metis

lemma lookup_None:
  "normalize_proxy_path p = p \<Longrightarrow>
   lookup routes p m h = None \<longleftrightarrow> (\<forall>r\<in>set routes. \<not> route_hits p m h r)"
  by (auto simp: first_hit find_None_iff)

text \<open>When no two routes at the head of the order serve the same request, the order
  of declaration does not matter.\<close>

lemma lookup_order:
  assumes "normalize_proxy_path p = p" "set routes = set routes'"
    and "\<And>r r'. r \<in> set routes \<Longrightarrow> r' \<in> set routes \<Longrightarrow> route_hits p m h r \<Longrightarrow> route_hits p m h r' \<Longrightarrow>
          route_order r = route_order r' \<Longrightarrow> r = r'"
    and "sorted (map route_order routes)" "sorted (map route_order routes')"
  shows "lookup routes p m h = lookup routes' p m h"
proof (cases "lookup routes p m h")
  case None
  then have "lookup routes' p m h = None" using lookup_None assms(1,2) by metis
  with None show ?thesis by simp
next
  case (Some r)
  then have f: "find (route_hits p m h) routes = Some r" using first_hit assms(1) by simp
  note r = find_SomeD [OF f]
  then obtain r' where f': "find (route_hits p m h) routes' = Some r'"
    using assms(2) by (metis find_None_iff not_Some_eq)
  note r' = find_SomeD [OF f']
  have "route_order r \<le> route_order r'"
    using find_sorted_least [OF assms(4) f] r' assms(2) by blast
  moreover have "route_order r' \<le> route_order r"
    using find_sorted_least [OF assms(5) f'] r assms(2) by blast
  ultimately have "r = r'" using assms(2,3) r r' by (metis order_antisym)
  then show ?thesis using Some f' first_hit assms(1) by simp
qed

end

interpretation scan: route_matcher "\<lambda>routes p m h. find (route_hits p m h) routes"
  by unfold_locales simp

interpretation trie: route_matcher "\<lambda>routes p m h. index_find (index_fill [node_empty] 0 routes) routes p m h"
  by unfold_locales (rule index_find_first)

interpretation table: route_matcher find_route
  by unfold_locales (simp add: find_route_def index_build_def index_find_first)

lemma normalize_idem [simp]: "normalize_proxy_path (normalize_proxy_path p) = normalize_proxy_path p"
  by (simp add: normalize_proxy_path_def)

lemma match_request_linear: "match_request t host path method = match_linear (tb_routes t) host path method"
  by (simp add: match_request_def match_linear_def table.first_hit)

lemma match_request_Some:
  assumes "match_request t host path method = Some r"
  shows "r \<in> set (tb_routes t)"
    and "under_prefix (normalize_proxy_path path) (rc_prefix r)"
    and "matches_method r (norm_method method)"
  using table.lookup_hits [OF normalize_idem assms [unfolded match_request_def]]
  by (auto simp: route_hits_def)

section \<open>Properties\<close>

text \<open>C6: the index is only an optimisation. For every table, of any size, and every
  request, the segment trie finds exactly the route the linear scan over the
  table order finds, and none when the scan finds none.\<close>

theorem index_equals_scan:
  "index_find (index_fill [node_empty] 0 routes) routes (normalize_proxy_path path) m h =
     find (route_hits (normalize_proxy_path path) m h) routes
   \<and> match_request t host path method = match_linear (tb_routes t) host path method"
  by (simp add: index_find_first match_request_linear)

end
