(* ===== verification/Route_Validation.thy ===== *)
theory Route_Validation
  imports Route_Index Client_Keys
begin

text \<open>
  Validation of a built route table (\<open>config/mod.rs\<close>), run at boot and on every
  reload. What the checks read of the configuration is the record \<open>route_env\<close>.
\<close>

section \<open>The checks\<close>

record route_env =
  ev_upstreams :: "string set"
  ev_trusted_proxy_ips :: "(string \<Rightarrow> bool) list"
  ev_shared_counters :: "shared_counters_config option"
  ev_shared_feature :: bool
  ev_cache :: bool
  ev_client_keys :: bool
  ev_machine :: bool
  ev_internal_listen :: bool

datatype validation_error =
    TableError route_error
  | ExactNotShared string
  | NoSharedFeature string
  | NoSharedBackend string
  | ShortInterval string
  | FractionalInterval string
  | SlowSync string
  | UntrustedConcurrency string
  | UntrustedLimit string
  | EmptyPrefix string
  | UnknownUpstream string
  | SharedId string
  | Conflict string string
  | BindWithoutIdentity string
  | NoCacheBlock string
  | CacheAuthenticated string
  | MachineClientKey string
  | NoClientKeys string
  | NoMachineAuth
  | NoInternalListen

text \<open>An \<open>IpNet\<close> of the \<open>ipnet\<close> crate is the set of addresses it contains.\<close>

definition trusted_proxy_depth :: "(string \<Rightarrow> bool) list \<Rightarrow> string option \<Rightarrow> nat \<Rightarrow> nat" where
  "trusted_proxy_depth ranges peer configured =
     (case peer of
        None \<Rightarrow> 0
      | Some p \<Rightarrow>
          if \<not> parses_as_ip p then 0
          else if list_ex (\<lambda>contains. contains p) ranges then configured else 0)"

definition methods_overlap :: "route_config \<Rightarrow> route_config \<Rightarrow> bool" where
  "methods_overlap a b =
     (rc_methods a = [] \<or> rc_methods b = [] \<or> list_ex (\<lambda>m. m \<in> set (rc_methods b)) (rc_methods a))"

definition hosts_overlap :: "route_config \<Rightarrow> route_config \<Rightarrow> bool" where
  "hosts_overlap a b =
     (rc_hosts a = [] \<or> rc_hosts b = []
      \<or> list_ex (\<lambda>h. list_ex (\<lambda>other. overlaps h other) (rc_hosts b)) (rc_hosts a))"

definition conflicting_routes :: "route_config \<Rightarrow> route_config \<Rightarrow> bool" where
  "conflicting_routes a b =
     (if rc_prefix a \<noteq> rc_prefix b \<or> is_machine (rc_auth a) \<noteq> is_machine (rc_auth b) then False
      else if rc_auth a = rc_auth b \<and> (rc_hosts a = []) \<noteq> (rc_hosts b = []) then False
      else methods_overlap a b \<and> hosts_overlap a b)"

definition validate_shared_limit :: "route_env \<Rightarrow> string \<Rightarrow> rate_limit_config \<Rightarrow> (unit, validation_error) result" where
  "validate_shared_limit env i limit =
     and_then (ensure (\<not> (rl_mode limit = ExactMode \<and> rl_counter limit \<noteq> CounterShared)) (ExactNotShared i)) (\<lambda>_.
     if rl_counter limit \<noteq> CounterShared then Inr ()
     else
       and_then (ensure (ev_shared_feature env) (NoSharedFeature i)) (\<lambda>_.
       case ev_shared_counters env of
         None \<Rightarrow> Inl (NoSharedBackend i)
       | Some shared \<Rightarrow>
           and_then (ensure (from_secs 1 \<le> rl_interval limit) (ShortInterval i)) (\<lambda>_.
           and_then (ensure (\<not> (rl_mode limit = ExactMode \<and> rl_interval limit mod NANOS \<noteq> 0))
                       (FractionalInterval i)) (\<lambda>_.
           ensure (\<not> (rl_mode limit = Approximate \<and> rl_interval limit \<le> scc_sync shared)) (SlowSync i)))))"

text \<open>The first loop: each route on its own, and the ids seen so far.\<close>

definition check_route :: "route_env \<Rightarrow> string list \<Rightarrow> route_config \<Rightarrow> (unit, validation_error) result" where
  "check_route env seen r =
     and_then (case rc_rate_limit r of
                 Some limit \<Rightarrow> validate_shared_limit env (rc_id r) limit
               | None \<Rightarrow> Inr ()) (\<lambda>_.
     and_then (ensure (\<not> (case rc_concurrency r of
                 Some cap \<Rightarrow> concurrency_key cap = KeyIp \<and> 0 < cc_trusted_proxies cap
                             \<and> ev_trusted_proxy_ips env = []
               | None \<Rightarrow> False)) (UntrustedConcurrency (rc_id r))) (\<lambda>_.
     and_then (ensure (\<not> (case rc_rate_limit r of
                 Some limit \<Rightarrow> rl_key limit = KeyIp \<and> 0 < rl_trusted_proxies limit
                               \<and> ev_trusted_proxy_ips env = []
               | None \<Rightarrow> False)) (UntrustedLimit (rc_id r))) (\<lambda>_.
     and_then (ensure (rc_prefix r \<noteq> []) (EmptyPrefix (rc_id r))) (\<lambda>_.
     and_then (ensure (rc_upstream r \<in> ev_upstreams env) (UnknownUpstream (rc_id r))) (\<lambda>_.
     ensure (rc_id r \<notin> set seen) (SharedId (rc_id r)))))))"

fun check_routes :: "route_env \<Rightarrow> string list \<Rightarrow> route_config list \<Rightarrow> (unit, validation_error) result" where
  "check_routes env seen [] = Inr ()"
| "check_routes env seen (r # rs) =
     and_then (check_route env seen r) (\<lambda>_. check_routes env (rc_id r # seen) rs)"

fun check_conflicts :: "route_config list \<Rightarrow> (unit, validation_error) result" where
  "check_conflicts [] = Inr ()"
| "check_conflicts (r # rs) =
     and_then (for_each (\<lambda>other. ensure (\<not> conflicting_routes r other) (Conflict (rc_id r) (rc_id other))) rs)
       (\<lambda>_. check_conflicts rs)"

definition check_cache :: "route_env \<Rightarrow> route_config \<Rightarrow> (unit, validation_error) result" where
  "check_cache env r =
     and_then (ensure (\<not> (rc_cache r \<and> \<not> ev_cache env)) (NoCacheBlock (rc_id r))) (\<lambda>_.
     ensure (\<not> (rc_cache r \<and> verifies (rc_auth r) \<and> \<not> rc_cache_authenticated r))
       (CacheAuthenticated (rc_id r)))"

definition check_client_key :: "route_env \<Rightarrow> route_config \<Rightarrow> (unit, validation_error) result" where
  "check_client_key env r =
     and_then (ensure (\<not> is_machine (rc_auth r)) (MachineClientKey (rc_id r))) (\<lambda>_.
     ensure (ev_client_keys env) (NoClientKeys (rc_id r)))"

definition validate_routes :: "route_env \<Rightarrow> route_config list \<Rightarrow> (unit, validation_error) result" where
  "validate_routes env routes =
     and_then (check_routes env [] routes) (\<lambda>_.
     and_then (check_conflicts routes) (\<lambda>_.
     and_then (for_each (\<lambda>r. ensure (\<not> (rc_bindings r \<noteq> [] \<and> \<not> verifies (rc_auth r)))
                               (BindWithoutIdentity (rc_id r))) routes) (\<lambda>_.
     and_then (for_each (check_cache env) routes) (\<lambda>_.
     and_then (for_each (check_client_key env) (filter (\<lambda>r. rc_client_key r \<noteq> None) routes)) (\<lambda>_.
     if filter (\<lambda>r. is_machine (rc_auth r)) routes \<noteq> []
     then and_then (ensure (ev_machine env) NoMachineAuth) (\<lambda>_. ensure (ev_internal_listen env) NoInternalListen)
     else Inr ())))))"

definition validate_table :: "route_env \<Rightarrow> route_table \<Rightarrow> (unit, validation_error) result" where
  "validate_table env t =
     (case tb_errors t of
        first # _ \<Rightarrow> Inl (TableError first)
      | [] \<Rightarrow> validate_routes env (tb_routes t))"

section \<open>Overlap is complete\<close>

lemma host_suffix_iff:
  "host_matches (HostSuffix s) h \<longleftrightarrow> (\<exists>sub. sub \<noteq> [] \<and> h = sub @ ''.'' @ s)"
proof
  assume m: "host_matches (HostSuffix s) h"
  then obtain p where p: "h = p @ s" by (auto simp: host_matches_def ends_with_iff)
  with m obtain sub where "p = sub @ ''.''" by (auto simp: host_matches_def ends_with_iff)
  then show "\<exists>sub. sub \<noteq> [] \<and> h = sub @ ''.'' @ s"
    using m p by (auto simp: host_matches_def)
qed (auto simp: host_matches_def ends_with_iff)

lemma two_suffixes:
  "u @ a = v @ b \<Longrightarrow> length a \<le> length b \<Longrightarrow> \<exists>w. b = w @ a \<and> u = v @ w"
  by (auto simp: append_eq_append_conv2)

lemma dotted_of_suffixes:
  assumes "sub1 @ ''.'' @ a = sub2 @ ''.'' @ b" "length a < length b"
  shows "dotted_suffix b a"
proof -
  have "length (''.'' @ a) \<le> length b" using assms(2) by simp
  moreover have "sub1 @ (''.'' @ a) = (sub2 @ ''.'') @ b" using assms(1) by simp
  ultimately obtain w where "b = w @ ''.'' @ a" using two_suffixes by metis
  then have "strip_suffix a b = Some (w @ ''.'')" by (simp add: strip_suffix_Some_iff)
  then show ?thesis by (simp add: dotted_suffix_def ends_with_iff)
qed

lemma overlaps_complete:
  assumes "host_matches p h" "host_matches q h"
  shows "overlaps p q"
proof (cases p; cases q)
  fix a b assume pq: "p = HostSuffix a" "q = HostSuffix b"
  then obtain sub1 sub2 where h: "h = sub1 @ ''.'' @ a" "h = sub2 @ ''.'' @ b"
    using assms unfolding pq host_suffix_iff by blast
  then have eq: "sub1 @ ''.'' @ a = sub2 @ ''.'' @ b" by simp
  consider "length a < length b" | "length b < length a" | "length a = length b" by linarith
  then show ?thesis
  proof cases
    case 1
    then show ?thesis using dotted_of_suffixes [OF eq] by (simp add: overlaps_def pq)
  next
    case 2
    then show ?thesis using dotted_of_suffixes [OF eq [symmetric]] by (simp add: overlaps_def pq)
  next
    case 3
    then have "a = b" using eq by simp
    then show ?thesis by (simp add: overlaps_def pq)
  qed
qed (use assms in \<open>auto simp: overlaps_def host_matches_def\<close>)

lemma both_match_conflict:
  assumes "route_hits p m h a" "route_hits p m h b"
    and "route_order a = route_order b" "is_machine (rc_auth a) = is_machine (rc_auth b)"
  shows "conflicting_routes a b"
proof -
  have len: "length (rc_prefix a) = length (rc_prefix b)" and hosts: "(rc_hosts a = []) = (rc_hosts b = [])"
    using assms(3) by (auto simp: route_order_def)
  have "\<exists>x. p = rc_prefix a @ x" "\<exists>y. p = rc_prefix b @ y"
    using assms(1,2) by (auto simp: route_hits_def under_prefix_def strip_prefix_Some_iff split: option.splits)
  then have pre: "rc_prefix a = rc_prefix b" using len by (metis append_eq_append_conv)
  have "methods_overlap a b"
    using assms(1,2) by (auto simp: route_hits_def matches_method_def methods_overlap_def list_ex_iff)
  moreover have "hosts_overlap a b"
  proof (cases "rc_hosts a = []")
    case False
    then obtain host pa pb where "h = Some host" "pa \<in> set (rc_hosts a)" "host_matches pa host"
      "pb \<in> set (rc_hosts b)" "host_matches pb host"
      using assms(1,2) hosts
      by (auto simp: route_hits_def matches_host_def list_ex_iff split: option.splits)
    then have "overlaps pa pb" by (intro overlaps_complete)
    then show ?thesis
      using \<open>pa \<in> _\<close> \<open>pb \<in> _\<close> by (auto simp: hosts_overlap_def list_ex_iff)
  qed (simp add: hosts_overlap_def)
  ultimately show ?thesis using pre hosts assms(4) by (simp add: conflicting_routes_def)
qed

lemma check_conflicts_Inr:
  "check_conflicts rs = Inr u \<Longrightarrow> i < j \<Longrightarrow> j < length rs \<Longrightarrow> \<not> conflicting_routes (rs ! i) (rs ! j)"
proof (induction rs arbitrary: i j)
  case (Cons r rs)
  have h: "\<forall>other\<in>set rs. \<not> conflicting_routes r other" "check_conflicts rs = Inr u"
    using Cons.prems(1) by (auto simp: and_then_Inr_iff for_each_Inr_iff)
  show ?case
  proof (cases i)
    case 0
    then show ?thesis using h(1) Cons.prems(2,3) by (cases j) auto
  next
    case (Suc i')
    then obtain j' where "j = Suc j'" "i' < j'" using Cons.prems(2) by (cases j) auto
    then show ?thesis using Cons.IH [OF h(2)] Suc Cons.prems(3) by simp
  qed
qed simp

lemma check_conflicts_unique:
  assumes "check_conflicts rs = Inr u" "a \<in> set rs" "b \<in> set rs"
    and "route_hits p m h a" "route_hits p m h b"
    and "route_order a = route_order b" "is_machine (rc_auth a) = is_machine (rc_auth b)"
  shows "a = b"
proof (rule ccontr)
  assume ne: "a \<noteq> b"
  obtain i j where ij: "i < length rs" "rs ! i = a" "j < length rs" "rs ! j = b"
    using assms(2,3) by (auto simp: in_set_conv_nth)
  then have "i \<noteq> j" using ne by auto
  then consider "i < j" | "j < i" by linarith
  then show False
    using check_conflicts_Inr [OF assms(1)] both_match_conflict [OF assms(4-7)]
      both_match_conflict [OF assms(5,4) assms(6) [symmetric] assms(7) [symmetric]] ij
    by cases auto
qed

lemma check_routes_Inr:
  "check_routes env seen rs = Inr u \<Longrightarrow>
     (\<forall>r\<in>set rs. check_route env [] r = Inr ()) \<and> distinct (map rc_id rs)
     \<and> set (map rc_id rs) \<inter> set seen = {}"
  by (induction rs arbitrary: seen) (fastforce simp: and_then_Inr_iff check_route_def)+

lemma validate_table_Inr:
  assumes "validate_table env t = Inr ()"
  shows "tb_errors t = []"
    and "check_routes env [] (tb_routes t) = Inr ()"
    and "check_conflicts (tb_routes t) = Inr ()"
    and "r \<in> set (tb_routes t) \<Longrightarrow> rc_bindings r \<noteq> [] \<Longrightarrow> verifies (rc_auth r)"
    and "r \<in> set (tb_routes t) \<Longrightarrow> check_cache env r = Inr ()"
    and "r \<in> set (tb_routes t) \<Longrightarrow> rc_client_key r \<noteq> None \<Longrightarrow> check_client_key env r = Inr ()"
    and "r \<in> set (tb_routes t) \<Longrightarrow> is_machine (rc_auth r) \<Longrightarrow> ev_machine env \<and> ev_internal_listen env"
proof -
  show e: "tb_errors t = []" using assms by (simp add: validate_table_def split: list.splits)
  have v: "validate_routes env (tb_routes t) = Inr ()" using assms e by (simp add: validate_table_def)
  show "check_routes env [] (tb_routes t) = Inr ()" "check_conflicts (tb_routes t) = Inr ()"
    "r \<in> set (tb_routes t) \<Longrightarrow> rc_bindings r \<noteq> [] \<Longrightarrow> verifies (rc_auth r)"
    "r \<in> set (tb_routes t) \<Longrightarrow> check_cache env r = Inr ()"
    "r \<in> set (tb_routes t) \<Longrightarrow> rc_client_key r \<noteq> None \<Longrightarrow> check_client_key env r = Inr ()"
    "r \<in> set (tb_routes t) \<Longrightarrow> is_machine (rc_auth r) \<Longrightarrow> ev_machine env \<and> ev_internal_listen env"
    using v by (auto simp: validate_routes_def and_then_Inr_iff for_each_Inr_iff filter_empty_conv split: if_splits)
qed

section \<open>Properties\<close>

text \<open>C12: authorization never depends on the order of declaration. In a table that
  passed validation, any other arrangement of a listener's routes that respects
  the specificity order (hosts first, longer prefixes first) serves every request
  by the same route, hence on the same tier.\<close>

theorem declaration_order_irrelevant:
  assumes "build_with rate_new ns groups defaults shared heap = (t, heap')"
    and "validate_table env t = Inr ()"
    and "listener = fst (partition_by_listener t) \<or> listener = snd (partition_by_listener t)"
    and "set routes' = set (tb_routes listener)" "sorted (map route_order routes')"
  shows "match_request (listener \<lparr> tb_routes := routes' \<rparr>) host path method =
         match_request listener host path method"
proof -
  let ?q = "filter (\<lambda>r. rc_auth r \<noteq> TierMachine) (tb_routes t)"
    and ?m = "filter (\<lambda>r. rc_auth r = TierMachine) (tb_routes t)"
  have l: "tb_routes listener = ?q \<or> tb_routes listener = ?m"
    using assms(3) by (auto simp: partition_by_listener_def)
  have sub: "set (tb_routes listener) \<subseteq> set (tb_routes t)" using l by auto
  have tier: "is_machine (rc_auth a) = is_machine (rc_auth b)"
    if "a \<in> set (tb_routes listener)" "b \<in> set (tb_routes listener)" for a b
    using l that by (auto simp: is_machine_def)
  have "sorted (map route_order (tb_routes t))" using build_with_sorted [OF assms(1)] .
  then have sorted: "sorted (map route_order (tb_routes listener))"
    using l by (auto simp: sorted_map sorted_wrt_filter)
  have "find_route routes' p m h = find_route (tb_routes listener) p m h"
    if "normalize_proxy_path p = p" for p m h
    by (rule table.lookup_order [OF that assms(4) _ assms(5) sorted])
      (use check_conflicts_unique [OF validate_table_Inr(3) [OF assms(2)]] sub tier assms(4) in blast)
  then show ?thesis by (simp add: match_request_def)
qed

definition valid_groups :: route_groups where
  "valid_groups = \<lparr> rg_internal = [''/internal''],
     rg_machine = [route_from (sample_input ''/sync'' ''ops'')],
     rg_public = [route_from (sample_input ''/users'' ''users''), route_from (sample_input ''/posts'' ''users'')],
     rg_optional = [], rg_authenticated = [route_from (sample_input ''/users/me'' ''users'')] \<rparr>"

definition valid_table :: route_table where
  "valid_table = fst (build_with (\<lambda>_. ()) 0 valid_groups no_defaults None [])"

definition sample_env :: route_env where
  "sample_env = \<lparr> ev_upstreams = {''users'', ''ops''}, ev_trusted_proxy_ips = [],
     ev_shared_counters = None, ev_shared_feature = False, ev_cache = False,
     ev_client_keys = False, ev_machine = True, ev_internal_listen = True \<rparr>"

lemma valid_table_build:
  "build_with (\<lambda>_. ()) 0 valid_groups no_defaults None [] = (valid_table, [])"
  by (simp add: valid_table_def build_with_def Let_def valid_groups_def tiered_routes_def
      route_from_def sample_input_def resolve_route_def inherit_defaults_def no_defaults_def
      derive_names_def flatten_def)

definition plain_route :: "string \<Rightarrow> string \<Rightarrow> auth_tier \<Rightarrow> route_config" where
  "plain_route pfx up tier = (route_from (sample_input pfx up))
     \<lparr> rc_id := pfx, rc_auth := tier, rc_prefix := pfx \<rparr>"

lemma valid_table_routes:
  "tb_routes valid_table = [plain_route ''users/me'' ''users'' TierRequired,
     plain_route ''users'' ''users'' TierPublic, plain_route ''posts'' ''users'' TierPublic,
     plain_route ''sync'' ''ops'' TierMachine]
   \<and> tb_errors valid_table = []"
  by code_simp

lemma valid_table_valid: "validate_table sample_env valid_table = Inr ()"
  using valid_table_routes
  by (simp add: validate_table_def validate_routes_def check_route_def ensure_def sample_env_def
      plain_route_def route_from_def sample_input_def flatten_def conflicting_routes_def check_cache_def
      is_machine_def verifies_def)

theorem declaration_order_irrelevant_witness:
  "validate_table sample_env valid_table = Inr ()
   \<and> match_request ((fst (partition_by_listener valid_table))
       \<lparr> tb_routes := [plain_route ''users/me'' ''users'' TierRequired,
                     plain_route ''posts'' ''users'' TierPublic,
                     plain_route ''users'' ''users'' TierPublic] \<rparr>) None ''users/7'' ''GET'' =
     match_request (fst (partition_by_listener valid_table)) None ''users/7'' ''GET''"
proof -
  let ?rs = "[plain_route ''users/me'' ''users'' TierRequired, plain_route ''posts'' ''users'' TierPublic,
     plain_route ''users'' ''users'' TierPublic]"
  have r: "tb_routes (fst (partition_by_listener valid_table)) =
      [plain_route ''users/me'' ''users'' TierRequired, plain_route ''users'' ''users'' TierPublic,
       plain_route ''posts'' ''users'' TierPublic]"
    using valid_table_routes by (simp add: partition_by_listener_def plain_route_def)
  have s: "sorted (map route_order ?rs)"
    by (simp add: route_order_def plain_route_def route_from_def less_eq_prod_def)
  have e: "set ?rs = set (tb_routes (fst (partition_by_listener valid_table)))"
    unfolding r by auto
  show ?thesis
    using declaration_order_irrelevant [OF valid_table_build valid_table_valid disjI1 [OF refl] e s]
      valid_table_valid by blast
qed

text \<open>A table that passed validation holds no route whose declared control
  silently does nothing. Every route names a defined upstream and a non-empty
  prefix, ids are unique; a route with bindings reads a token; a cached route is
  anonymous or explicitly shared; a machine route has a credential to check and a
  listener; a limit that is declared shared has a backend, and a window it can
  keep.\<close>

theorem validated_controls_effective:
  assumes "validate_table env t = Inr ()" "r \<in> set (tb_routes t)"
  shows "rc_prefix r \<noteq> [] \<and> rc_upstream r \<in> ev_upstreams env \<and> distinct (map rc_id (tb_routes t))
    \<and> (rc_bindings r \<noteq> [] \<longrightarrow> verifies (rc_auth r))
    \<and> (rc_cache r \<longrightarrow> ev_cache env \<and> (verifies (rc_auth r) \<longrightarrow> rc_cache_authenticated r))
    \<and> (is_machine (rc_auth r) \<longrightarrow> ev_machine env \<and> ev_internal_listen env \<and> rc_client_key r = None)
    \<and> (rc_client_key r \<noteq> None \<longrightarrow> ev_client_keys env)
    \<and> (\<forall>limit. rc_rate_limit r = Some limit \<longrightarrow> rl_counter limit = CounterShared \<longrightarrow>
          ev_shared_counters env \<noteq> None \<and> from_secs 1 \<le> rl_interval limit
          \<and> (rl_mode limit = ExactMode \<longrightarrow> rl_interval limit mod NANOS = 0))
    \<and> (\<forall>limit. rc_rate_limit r = Some limit \<longrightarrow> rl_mode limit = ExactMode \<longrightarrow> rl_counter limit = CounterShared)"
proof -
  note v = validate_table_Inr [OF assms(1)]
  have r: "check_route env [] r = Inr ()" "distinct (map rc_id (tb_routes t))"
    using check_routes_Inr [OF v(2)] assms(2) by blast+
  have lim: "validate_shared_limit env (rc_id r) limit = Inr ()" if "rc_rate_limit r = Some limit" for limit
    using r(1) that by (simp add: check_route_def and_then_Inr_iff)
  have base: "rc_prefix r \<noteq> [] \<and> rc_upstream r \<in> ev_upstreams env"
    using r(1) by (simp add: check_route_def and_then_Inr_iff)
  have cache: "rc_cache r \<longrightarrow> ev_cache env \<and> (verifies (rc_auth r) \<longrightarrow> rc_cache_authenticated r)"
    using v(5) [OF assms(2)] by (auto simp: check_cache_def and_then_Inr_iff)
  have key: "rc_client_key r \<noteq> None \<longrightarrow> \<not> is_machine (rc_auth r) \<and> ev_client_keys env"
    using v(6) [OF assms(2)] by (auto simp: check_client_key_def and_then_Inr_iff)
  show ?thesis
    using base r(2) v(4,7) [OF assms(2)] cache key lim
    by (auto simp: validate_shared_limit_def and_then_Inr_iff split: if_splits option.splits)
qed

theorem validated_controls_effective_witness:
  "plain_route ''sync'' ''ops'' TierMachine \<in> set (tb_routes valid_table)
   \<and> ev_machine sample_env \<and> ev_internal_listen sample_env"
proof -
  have m: "plain_route ''sync'' ''ops'' TierMachine \<in> set (tb_routes valid_table)"
    using valid_table_routes by simp
  show ?thesis
    using validated_controls_effective [OF valid_table_valid m] m
    by (simp add: plain_route_def is_machine_def)
qed

end
