(* ===== verification/Gateway_Config.thy ===== *)
theory Gateway_Config
  imports Ext Shared_Url Cors Csrf Client_Keys Upstreams Route_Validation
begin

text \<open>
  The configuration document and its resolution (\<open>config/mod.rs\<close>): the sections the
  request path reads, and \<open>resolve\<close>, which refuses a document that would start a weaker
  gateway than the one written down. Reading and deserializing the document is serde's;
  the parameters are the parsers of the crates (\<open>http::Uri\<close>, \<open>url\<close>, \<open>ipnet\<close>, SHA-256).
\<close>

section \<open>The document\<close>

datatype forward_mode = Allowlist | Passthrough

record tcp_keepalive_config =
  tk_idle :: duration
  tk_interval :: duration
  tk_count :: nat

record server_config =
  sv_listen :: string
  sv_mounts :: "string list"
  sv_internal_listen :: "string option"
  sv_health_path :: string
  sv_service_name :: string
  sv_threads :: nat
  sv_tcp_keepalive :: "tcp_keepalive_config option"
  sv_shutdown_grace :: "duration option"
  sv_graceful_shutdown :: duration

text \<open>What a section holds when the document leaves it out.\<close>

definition server_default :: server_config where
  "server_default =
     \<lparr> sv_listen = ''0.0.0.0:8080'', sv_mounts = [''/''], sv_internal_listen = None,
       sv_health_path = ''/health'', sv_service_name = ''lagos'', sv_threads = 2,
       sv_tcp_keepalive = None, sv_shutdown_grace = None, sv_graceful_shutdown = from_secs 25 \<rparr>"

record timeouts =
  to_request_total :: "duration option"
  to_extension :: duration
  to_extension_chain :: duration
  to_connect :: duration
  to_default :: duration
  to_sse :: duration
  to_upload :: duration
  to_upstream_idle :: duration
  to_downstream_read :: duration
  to_downstream_write :: duration
  to_downstream_drain :: duration
  to_downstream_keepalive :: duration

definition timeouts_default :: timeouts where
  "timeouts_default =
     \<lparr> to_request_total = None, to_extension = from_secs 2, to_extension_chain = from_secs 5,
       to_connect = from_secs 5, to_default = from_secs 30, to_sse = from_secs 120,
       to_upload = from_secs 120, to_upstream_idle = from_secs 60,
       to_downstream_read = from_secs 30, to_downstream_write = from_secs 30,
       to_downstream_drain = from_secs 5, to_downstream_keepalive = from_secs 60 \<rparr>"

record limits =
  li_extension_inflight :: "nat option"
  li_max_body :: nat
  li_max_token :: nat
  li_keepalive_requests :: nat
  li_connections_per_ip :: "connection_limit_config option"
  li_upstream_pool :: nat
  li_min_send_rate :: "nat option"

definition limits_default :: limits where
  "limits_default =
     \<lparr> li_extension_inflight = None, li_max_body = 50 * 1024 * 1024, li_max_token = 8 * 1024,
       li_keepalive_requests = 1000, li_connections_per_ip = None, li_upstream_pool = 128,
       li_min_send_rate = None \<rparr>"

record dns_config =
  dn_cache_ttl :: duration
  dn_max_entries :: nat

definition dns_default :: dns_config where
  "dns_default = \<lparr> dn_cache_ttl = from_secs 30, dn_max_entries = 1024 \<rparr>"

record forward_config =
  fw_mode :: forward_mode
  fw_headers :: "string list"
  fw_authorization :: bool
  fw_preserve_host :: bool
  fw_trusted_proxies :: nat
  fw_trusted_proxy_ips :: "string list"

record machine_config =
  mc_headers :: "string list"
  mc_secret :: string

record jwt_config =
  jw_issuer :: string
  jw_audience :: "string list"
  jw_jwks_url :: "string option"
  jw_algorithms :: "string list"
  jw_required_claims :: "string list"
  jw_clock_skew :: duration
  jw_min_key_ttl :: duration
  jw_stale_if_error :: duration

record firebase_config =
  fb_projects :: "string list"
  fb_certs_url :: string
  fb_clock_skew :: duration
  fb_min_cert_ttl :: duration
  fb_stale_if_error :: duration

record auth_config =
  au_jwt :: "jwt_config list"
  au_firebase :: "firebase_config option"
  au_machine :: "machine_config option"
  au_client_keys :: "client_keys_config option"
  au_token_cookies :: "string list"
  au_cookie_protection :: "cookie_protection_config option"

record cache_config =
  ca_max_size :: nat
  ca_max_object_size :: nat
  ca_max_inflight_fill :: nat
  ca_default_ttl :: duration
  ca_stale_while_revalidate :: duration

record gateway_config =
  gc_defaults :: route_defaults
  gc_server :: server_config
  gc_timeouts :: timeouts
  gc_limits :: limits
  gc_dns :: dns_config
  gc_upstreams :: "(string \<times> upstream_config) list"
  gc_auth :: auth_config
  gc_inject :: "(string \<times> string) list"
  gc_inject_machine :: "(string \<times> string) list"
  gc_reject_headers :: "string list"
  gc_forward :: forward_config
  gc_identity :: identity_config
  gc_routes_file :: "string option"
  gc_routes :: route_groups
  gc_sample_ratio :: "rat option"
  gc_cors :: "cors_config option"
  gc_cache :: "cache_config option"
  gc_shared_counters :: "shared_counters_config option"

record resolved_config =
  rv_raw :: gateway_config
  rv_trusted_proxy_ips :: "(string \<Rightarrow> bool) list"
  rv_upstreams :: "string \<rightharpoonup> upstream_config"
  rv_injected :: "(string \<times> string) list"
  rv_machine_injected :: "(string \<times> string) list"
  rv_firebase_project_ids :: "string list"
  rv_identity_secret :: "string option"
  rv_machine_secret :: "string option"
  rv_client_keys :: "resolved_client_keys option"
  rv_base_paths :: "string list"
  rv_cors :: "cors option"
  rv_cookie_protection :: "cookie_protection option"

datatype config_error =
    ZeroDefaultRate
  | CounterUrl url_error
  | ZeroSync
  | ZeroCounterTimeout
  | ZeroKeysPerSync
  | BadRequestTotal
  | BadExtensionTimeouts
  | BadExtensionInflight
  | ZeroConnectOrRead
  | BadProxyRange string
  | ProxiesWithoutRanges
  | EmptyTargetUrl string
  | BadTarget string target_error
  | ZeroWeight string string
  | FastDiscovery string
  | BadMaxMembers string
  | NoFirebaseProjects
  | ClientKeys key_config_error
  | TokenCookies cookie_config_error
  | NoMounts
  | TwoRouteTables
  | NoRoutes
  | EmptyIssuer
  | NoAudience string
  | BadAlgorithm string string
  | SmallInflightFill
  | ZeroFailures string
  | NeverCloses string
  | BadSampleRatio
  | BadCors cors_error
  | ProtectionWithoutCookies
  | BadProtection string

section \<open>Parsers of the document\<close>

datatype algorithm = HS256 | HS384 | HS512 | RS256 | RS384 | RS512 | ES256 | ES384 | PS256 | PS384 | PS512 | EdDSA

definition parse_algorithm :: "string \<Rightarrow> algorithm option" where
  "parse_algorithm name =
     map_of [(''RS256'', RS256), (''RS384'', RS384), (''RS512'', RS512), (''ES256'', ES256),
             (''ES384'', ES384), (''PS256'', PS256), (''PS384'', PS384), (''PS512'', PS512),
             (''EDDSA'', EdDSA)] (to_ascii_uppercase name)"

definition resolved_jwks_url :: "jwt_config \<Rightarrow> string" where
  "resolved_jwks_url c =
     (case jw_jwks_url c of
        Some u \<Rightarrow> u
      | None \<Rightarrow> trim_end_matches CHR ''/'' (jw_issuer c) @ ''/.well-known/jwks.json'')"

definition is_inline_empty :: "route_groups \<Rightarrow> bool" where
  "is_inline_empty g =
     (rg_internal g = [] \<and> rg_machine g = [] \<and> rg_public g = [] \<and> rg_optional g = []
      \<and> rg_authenticated g = [])"

definition lower_pairs :: "(string \<times> string) list \<Rightarrow> (string \<times> string) list" where
  "lower_pairs m = map (\<lambda>(k, v). (to_ascii_lowercase k, v)) m"

definition MAX_MEMBERS_LIMIT :: nat where
  "MAX_MEMBERS_LIMIT = 4096"


section \<open>Resolution\<close>

text \<open>The crates' parsers and the clock \<open>resolve\<close> reads.\<close>

record config_env =
  ce_uri_parse :: "string \<Rightarrow> uri option"
  ce_url_parse :: "string \<Rightarrow> url option"
  ce_net_parse :: "string \<Rightarrow> (string \<Rightarrow> bool) option"
  ce_header_name_ok :: "string \<Rightarrow> bool"
  ce_sha256 :: "string \<Rightarrow> string"
  ce_pct_decode :: "string \<Rightarrow> string option"
  ce_now :: instant
  ce_latest :: instant

definition check_counters :: "shared_counters_config option \<Rightarrow> (unit, config_error) result" where
  "check_counters shared =
     (case shared of
        None \<Rightarrow> Inr ()
      | Some sc \<Rightarrow>
          and_then (map_err CounterUrl (normalize_url (scc_url sc))) (\<lambda>_.
          and_then (ensure (scc_sync sc \<noteq> 0) ZeroSync) (\<lambda>_.
          and_then (ensure (scc_timeout sc \<noteq> 0) ZeroCounterTimeout) (\<lambda>_.
          ensure (scc_max_keys_per_sync sc \<noteq> 0) ZeroKeysPerSync))))"

definition check_budgets :: "config_env \<Rightarrow> timeouts \<Rightarrow> limits \<Rightarrow> (unit, config_error) result" where
  "check_budgets env t l =
     and_then (ensure (case to_request_total t of
                         None \<Rightarrow> True
                       | Some d \<Rightarrow> d \<noteq> 0 \<and> checked_add (ce_latest env) (ce_now env) d \<noteq> None)
                 BadRequestTotal) (\<lambda>_.
     and_then (ensure (to_extension t \<noteq> 0 \<and> to_extension_chain t \<noteq> 0
                       \<and> to_extension t \<le> to_extension_chain t) BadExtensionTimeouts) (\<lambda>_.
     and_then (ensure (case li_extension_inflight l of
                         None \<Rightarrow> True | Some n \<Rightarrow> n \<noteq> 0 \<and> n \<le> MAX_PERMITS) BadExtensionInflight) (\<lambda>_.
     ensure (to_connect t \<noteq> 0 \<and> to_downstream_read t \<noteq> 0) ZeroConnectOrRead)))"

fun parse_ranges ::
  "(string \<Rightarrow> (string \<Rightarrow> bool) option) \<Rightarrow> string list \<Rightarrow> ((string \<Rightarrow> bool) list, config_error) result" where
  "parse_ranges net_parse [] = Inr []"
| "parse_ranges net_parse (entry # entries) =
     (case net_parse entry of
        None \<Rightarrow> Inl (BadProxyRange entry)
      | Some r \<Rightarrow> and_then (parse_ranges net_parse entries) (\<lambda>rs. Inr (r # rs)))"

text \<open>The inner loop over the targets of one upstream.\<close>

fun resolve_targets ::
  "(string \<Rightarrow> uri option) \<Rightarrow> string \<Rightarrow> target_config list \<Rightarrow> (target_config list, config_error) result" where
  "resolve_targets uri_parse name [] = Inr []"
| "resolve_targets uri_parse name (target # targets) =
     (let url = trim_end_matches CHR ''/'' (trim (tg_url target)) in
      and_then (ensure (url \<noteq> []) (EmptyTargetUrl name)) (\<lambda>_.
      and_then (map_err (BadTarget name) (target_parse uri_parse url)) (\<lambda>_.
      and_then (ensure (tg_weight target \<noteq> 0) (ZeroWeight name url)) (\<lambda>_.
      and_then (resolve_targets uri_parse name targets) (\<lambda>ts.
      Inr (target \<lparr> tg_url := url \<rparr> # ts))))))"

definition resolve_upstream ::
  "(string \<Rightarrow> uri option) \<Rightarrow> string \<Rightarrow> upstream_config \<Rightarrow> (upstream_config, config_error) result" where
  "resolve_upstream uri_parse name up =
     and_then (resolve_targets uri_parse name (uc_targets up)) (\<lambda>ts.
     and_then (case uc_discovery up of
                 None \<Rightarrow> Inr ()
               | Some d \<Rightarrow>
                   and_then (ensure (from_secs 1 \<le> dc_interval d) (FastDiscovery name)) (\<lambda>_.
                   ensure (dc_max_members d \<noteq> 0 \<and> dc_max_members d \<le> MAX_MEMBERS_LIMIT)
                     (BadMaxMembers name))) (\<lambda>_.
     Inr (up \<lparr> uc_targets := ts \<rparr>)))"

fun resolve_upstreams ::
  "(string \<Rightarrow> uri option) \<Rightarrow> (string \<times> upstream_config) list \<Rightarrow>
   (string \<rightharpoonup> upstream_config, config_error) result" where
  "resolve_upstreams uri_parse [] = Inr Map.empty"
| "resolve_upstreams uri_parse ((name, up) # ups) =
     and_then (resolve_upstream uri_parse name up) (\<lambda>u.
     and_then (resolve_upstreams uri_parse ups) (\<lambda>m. Inr (m(name \<mapsto> u))))"

definition resolve_firebase :: "string list option \<Rightarrow> (string list, config_error) result" where
  "resolve_firebase projects =
     (case projects of
        None \<Rightarrow> Inr []
      | Some ps \<Rightarrow>
          (let ids = filter (\<lambda>p. p \<noteq> []) (map trim ps) in
           if ids = [] then Inl NoFirebaseProjects else Inr ids))"

definition resolve_keys_section ::
  "config_env \<Rightarrow> gateway_config \<Rightarrow> (resolved_client_keys option, config_error) result" where
  "resolve_keys_section env c =
     (case au_client_keys (gc_auth c) of
        None \<Rightarrow> Inr None
      | Some ck \<Rightarrow>
          and_then (map_err ClientKeys
                     (resolve_client_keys (ce_header_name_ok env) (ce_sha256 env) (ce_pct_decode env) ck
                        (gc_reject_headers c)
                        (gateway_owned_headers (gc_identity c) (gc_inject c) (gc_inject_machine c)
                           (map_option mc_headers (au_machine (gc_auth c)))))) (\<lambda>r. Inr (Some r)))"

text \<open>\<open>sort_by_key\<close> is stable; \<open>dedup\<close> drops a repeat of its neighbour.\<close>

definition resolve_mounts :: "string list \<Rightarrow> (string list, config_error) result" where
  "resolve_mounts mounts =
     (let ps = map normalize_proxy_path mounts in
      if ps = [] then Inl NoMounts
      else Inr (remdups_adj (sort_key (\<lambda>p. - int (length p)) ps)))"

definition check_issuer :: "jwt_config \<Rightarrow> (unit, config_error) result" where
  "check_issuer j =
     and_then (ensure (trim (jw_issuer j) \<noteq> []) EmptyIssuer) (\<lambda>_.
     and_then (ensure (jw_audience j \<noteq> []) (NoAudience (jw_issuer j))) (\<lambda>_.
     for_each (\<lambda>alg. ensure (parse_algorithm alg \<noteq> None) (BadAlgorithm (jw_issuer j) alg))
       (jw_algorithms j)))"

definition check_breaker :: "string \<times> upstream_config \<Rightarrow> (unit, config_error) result" where
  "check_breaker entry =
     (case uc_circuit_breaker (snd entry) of
        None \<Rightarrow> Inr ()
      | Some cb \<Rightarrow>
          and_then (ensure (bc_failures cb \<noteq> 0) (ZeroFailures (fst entry))) (\<lambda>_.
          ensure (bc_successes_to_close cb \<noteq> 0 \<and> bc_max_trials cb \<noteq> 0) (NeverCloses (fst entry))))"

definition resolve_protection ::
  "(string \<Rightarrow> url option) \<Rightarrow> auth_config \<Rightarrow> (cookie_protection option, config_error) result" where
  "resolve_protection url_parse auth =
     (case au_cookie_protection auth of
        None \<Rightarrow> Inr None
      | Some pol \<Rightarrow>
          and_then (ensure (au_token_cookies auth \<noteq> []) ProtectionWithoutCookies) (\<lambda>_.
          and_then (map_err BadProtection (csrf_compile url_parse pol)) (\<lambda>p. Inr (Some p))))"

definition resolve_cors :: "cors_config option \<Rightarrow> (cors option, config_error) result" where
  "resolve_cors c =
     (case c of
        None \<Rightarrow> Inr None
      | Some cfg \<Rightarrow> and_then (map_err BadCors (cors_compile cfg)) (\<lambda>x. Inr (Some x)))"

text \<open>The checks between the mounts and the cross-origin policy.\<close>

definition check_sections :: "gateway_config \<Rightarrow> (unit, config_error) result" where
  "check_sections c =
     and_then (ensure (\<not> (gc_routes_file c \<noteq> None \<and> \<not> is_inline_empty (gc_routes c))) TwoRouteTables) (\<lambda>_.
     and_then (ensure (\<not> (gc_routes_file c = None \<and> is_inline_empty (gc_routes c))) NoRoutes) (\<lambda>_.
     and_then (for_each check_issuer (au_jwt (gc_auth c))) (\<lambda>_.
     and_then (ensure (case gc_cache c of
                         None \<Rightarrow> True
                       | Some ca \<Rightarrow> ca_max_object_size ca \<le> ca_max_inflight_fill ca) SmallInflightFill) (\<lambda>_.
     and_then (for_each check_breaker (gc_upstreams c)) (\<lambda>_.
     ensure (case gc_sample_ratio c of None \<Rightarrow> True | Some r \<Rightarrow> 0 \<le> r \<and> r \<le> 1) BadSampleRatio)))))"

definition resolve :: "config_env \<Rightarrow> gateway_config \<Rightarrow> (resolved_config, config_error) result" where
  "resolve env c =
     and_then (ensure (case rd_rate_limit (gc_defaults c) of
                         None \<Rightarrow> True | Some rl \<Rightarrow> rl_requests rl \<noteq> 0) ZeroDefaultRate) (\<lambda>_.
     and_then (check_counters (gc_shared_counters c)) (\<lambda>_.
     and_then (check_budgets env (gc_timeouts c) (gc_limits c)) (\<lambda>_.
     and_then (parse_ranges (ce_net_parse env) (fw_trusted_proxy_ips (gc_forward c))) (\<lambda>ranges.
     and_then (ensure (\<not> (0 < fw_trusted_proxies (gc_forward c) \<and> ranges = [])) ProxiesWithoutRanges) (\<lambda>_.
     and_then (resolve_upstreams (ce_uri_parse env) (gc_upstreams c)) (\<lambda>ups.
     and_then (resolve_firebase (map_option fb_projects (au_firebase (gc_auth c)))) (\<lambda>projects.
     and_then (resolve_keys_section env c) (\<lambda>keys.
     and_then (map_err TokenCookies
                 (validate_token_cookies (au_token_cookies (gc_auth c)) (au_jwt (gc_auth c) \<noteq> [])
                    (au_firebase (gc_auth c) \<noteq> None))) (\<lambda>_.
     and_then (resolve_mounts (sv_mounts (gc_server c))) (\<lambda>base_paths.
     and_then (check_sections c) (\<lambda>_.
     and_then (resolve_cors (gc_cors c)) (\<lambda>cors.
     and_then (resolve_protection (ce_url_parse env) (gc_auth c)) (\<lambda>protection.
     Inr \<lparr> rv_raw = c, rv_trusted_proxy_ips = ranges, rv_upstreams = ups,
           rv_injected = lower_pairs (gc_inject c), rv_machine_injected = lower_pairs (gc_inject_machine c),
           rv_firebase_project_ids = projects,
           rv_identity_secret = map_option it_secret (ic_token (gc_identity c)),
           rv_machine_secret = map_option mc_secret (au_machine (gc_auth c)),
           rv_client_keys = keys, rv_base_paths = base_paths, rv_cors = cors,
           rv_cookie_protection = protection \<rparr>)))))))))))))"

text \<open>\<open>trusted_proxy_depth\<close>, \<open>client_key_rule\<close> and what validation reads, as methods of the
  resolved configuration.\<close>

definition cfg_proxy_depth :: "resolved_config \<Rightarrow> string option \<Rightarrow> nat \<Rightarrow> nat" where
  "cfg_proxy_depth v peer configured = trusted_proxy_depth (rv_trusted_proxy_ips v) peer configured"

definition client_key_rule :: "resolved_config \<Rightarrow> route_config \<Rightarrow> string \<Rightarrow> client_key_rule" where
  "client_key_rule v route path =
     (case rv_client_keys v of
        None \<Rightarrow> key_rule None [] [] route path
      | Some k \<Rightarrow> key_rule (Some (rk_header k)) (rk_exempt k) (rk_exempt_groups k) route path)"


section \<open>What resolution guarantees\<close>

text \<open>A target the dialer can use, and an upstream whose pool, discovery and breaker can
  work.\<close>

definition target_wf :: "(string \<Rightarrow> uri option) \<Rightarrow> target_config \<Rightarrow> bool" where
  "target_wf uri_parse t =
     (tg_url t \<noteq> [] \<and> tg_weight t \<noteq> 0 \<and> is_ok (target_parse uri_parse (tg_url t)))"

definition upstream_wf :: "(string \<Rightarrow> uri option) \<Rightarrow> upstream_config \<Rightarrow> bool" where
  "upstream_wf uri_parse u =
     (list_all (target_wf uri_parse) (uc_targets u) \<and>
      (case uc_discovery u of
         None \<Rightarrow> True
       | Some d \<Rightarrow> from_secs 1 \<le> dc_interval d \<and> 1 \<le> dc_max_members d \<and> dc_max_members d \<le> MAX_MEMBERS_LIMIT) \<and>
      (case uc_circuit_breaker u of
         None \<Rightarrow> True
       | Some cb \<Rightarrow> 0 < bc_failures cb \<and> 0 < bc_successes_to_close cb \<and> 0 < bc_max_trials cb))"

definition budgets_wf :: "timeouts \<Rightarrow> limits \<Rightarrow> bool" where
  "budgets_wf t l =
     (0 < to_extension t \<and> to_extension t \<le> to_extension_chain t \<and> 0 < to_connect t
      \<and> 0 < to_downstream_read t \<and> to_request_total t \<noteq> Some 0
      \<and> (case li_extension_inflight l of None \<Rightarrow> True | Some n \<Rightarrow> 0 < n \<and> n \<le> MAX_PERMITS))"

definition config_wf :: "(string \<Rightarrow> uri option) \<Rightarrow> resolved_config \<Rightarrow> bool" where
  "config_wf uri_parse v =
     (let c = rv_raw v in
      rv_base_paths v \<noteq> []
      \<and> sorted_wrt (\<lambda>p q. length q \<le> length p) (rv_base_paths v)
      \<and> list_all (\<lambda>p. normalize_proxy_path p = p) (rv_base_paths v)
      \<and> (0 < fw_trusted_proxies (gc_forward c) \<longrightarrow> rv_trusted_proxy_ips v \<noteq> [])
      \<and> (\<forall>u\<in>ran (rv_upstreams v). upstream_wf uri_parse u)
      \<and> budgets_wf (gc_timeouts c) (gc_limits c)
      \<and> (\<forall>j\<in>set (au_jwt (gc_auth c)). jw_audience j \<noteq> [] \<and>
           (\<forall>a\<in>set (jw_algorithms j). parse_algorithm a \<noteq> None))
      \<and> (rv_cookie_protection v \<noteq> None \<longrightarrow> au_token_cookies (gc_auth c) \<noteq> [])
      \<and> (case gc_sample_ratio c of None \<Rightarrow> True | Some r \<Rightarrow> 0 \<le> r \<and> r \<le> 1))"

lemma resolve_targets_wf:
  "resolve_targets uri_parse name ts = Inr us \<Longrightarrow> list_all (target_wf uri_parse) us"
proof (induction ts arbitrary: us)
  case (Cons t ts)
  then show ?case
    by (auto simp: Let_def and_then_Inr_iff target_wf_def is_ok_iff)
qed simp

lemma resolve_upstream_wf:
  "resolve_upstream uri_parse name up = Inr u \<Longrightarrow> check_breaker (name, up) = Inr () \<Longrightarrow>
   upstream_wf uri_parse u"
  by (auto simp: resolve_upstream_def upstream_wf_def and_then_Inr_iff check_breaker_def
      dest: resolve_targets_wf split: option.splits)

lemma resolve_upstreams_entry:
  "resolve_upstreams uri_parse ups = Inr m \<Longrightarrow> m n = Some u \<Longrightarrow>
   \<exists>up. (n, up) \<in> set ups \<and> resolve_upstream uri_parse n up = Inr u"
proof (induction ups arbitrary: m)
  case (Cons e ups)
  then show ?case by (cases e) (fastforce simp: and_then_Inr_iff split: if_splits)
qed simp

lemma resolve_upstreams_wf:
  assumes "resolve_upstreams uri_parse ups = Inr m" "for_each check_breaker ups = Inr ()" "u \<in> ran m"
  shows "upstream_wf uri_parse u"
proof -
  from assms(3) obtain n where "m n = Some u" by (auto simp: ran_def)
  from resolve_upstreams_entry [OF assms(1) this] obtain up where
    "(n, up) \<in> set ups" "resolve_upstream uri_parse n up = Inr u" by blast
  then show ?thesis using assms(2) resolve_upstream_wf by (auto simp: for_each_Inr_iff)
qed

lemma sorted_wrt_remdups_adj: "sorted_wrt P xs \<Longrightarrow> sorted_wrt P (remdups_adj xs)"
proof (induction xs rule: remdups_adj.induct)
  case (3 x y xs)
  then show ?case by auto
qed auto

lemma resolve_mounts_wf:
  assumes "resolve_mounts mounts = Inr ps"
  shows "ps \<noteq> []" "sorted_wrt (\<lambda>p q. length q \<le> length p) ps" "list_all (\<lambda>p. normalize_proxy_path p = p) ps"
proof -
  let ?k = "sort_key (\<lambda>p. - int (length p)) (map normalize_proxy_path mounts)"
  from assms have ps: "mounts \<noteq> []" "ps = remdups_adj ?k"
    by (auto simp: resolve_mounts_def Let_def split: if_splits)
  then show "ps \<noteq> []" by (metis length_0_conv length_map length_sort remdups_adj_Nil_iff)
  have "sorted (map (\<lambda>p. - int (length p)) ?k)" by simp
  then have "sorted_wrt (\<lambda>p q. length q \<le> length p) ?k" by (simp add: sorted_map)
  then show "sorted_wrt (\<lambda>p q. length q \<le> length p) ps" using ps sorted_wrt_remdups_adj by blast
  show "list_all (\<lambda>p. normalize_proxy_path p = p) ps" using ps by (auto simp: list_all_iff)
qed

lemma check_budgets_wf: "check_budgets env t l = Inr () \<Longrightarrow> budgets_wf t l"
  by (auto simp: check_budgets_def budgets_wf_def and_then_Inr_iff split: option.splits)

text \<open>C27: a document that resolves is well formed. Mounts are normalized and longest
  first, a trusted proxy depth comes with ranges, every upstream has usable targets, a
  bounded discovery and a breaker that can open and close, the extension and connection
  budgets are usable, every issuer has an audience and only asymmetric algorithms, and the
  sample ratio is a fraction.\<close>

theorem resolve_wf:
  assumes "resolve env c = Inr v"
  shows "config_wf (ce_uri_parse env) v"
proof -
  have r: "rv_raw v = c"
    "check_budgets env (gc_timeouts c) (gc_limits c) = Inr ()"
    "0 < fw_trusted_proxies (gc_forward c) \<longrightarrow> rv_trusted_proxy_ips v \<noteq> []"
    "resolve_upstreams (ce_uri_parse env) (gc_upstreams c) = Inr (rv_upstreams v)"
    "resolve_mounts (sv_mounts (gc_server c)) = Inr (rv_base_paths v)"
    "check_sections c = Inr ()"
    "resolve_protection (ce_url_parse env) (gc_auth c) = Inr (rv_cookie_protection v)"
    using assms by (auto simp: resolve_def and_then_Inr_iff)
  from r(6) have s: "for_each check_issuer (au_jwt (gc_auth c)) = Inr ()"
    "for_each check_breaker (gc_upstreams c) = Inr ()"
    "case gc_sample_ratio c of None \<Rightarrow> True | Some r \<Rightarrow> 0 \<le> r \<and> r \<le> 1"
    by (auto simp: check_sections_def and_then_Inr_iff)
  have jwt: "jw_audience j \<noteq> [] \<and> (\<forall>a\<in>set (jw_algorithms j). parse_algorithm a \<noteq> None)"
    if "j \<in> set (au_jwt (gc_auth c))" for j
    using s(1) that by (auto simp: for_each_Inr_iff check_issuer_def and_then_Inr_iff)
  have prot: "au_token_cookies (gc_auth c) \<noteq> []" if "rv_cookie_protection v \<noteq> None"
    using r(7) that by (auto simp: resolve_protection_def and_then_Inr_iff split: option.splits)
  show ?thesis
    unfolding config_wf_def Let_def r(1)
    using r(3) s(3) jwt prot resolve_mounts_wf [OF r(5)] resolve_upstreams_wf [OF r(4) s(2)]
      check_budgets_wf [OF r(2)] by blast
qed

text \<open>A small document, and what it resolves to.\<close>

definition sample_uri_parse :: "string \<Rightarrow> uri option" where
  "sample_uri_parse s =
     Some \<lparr> uri_scheme = Some ''http'', uri_host = Some ''users'', uri_port = None, uri_path = [] \<rparr>"

definition sample_config_env :: config_env where
  "sample_config_env =
     \<lparr> ce_uri_parse = sample_uri_parse, ce_url_parse = (\<lambda>_. None),
       ce_net_parse = (\<lambda>s. if s = ''10.0.0.0/8'' then Some (starts_with ''10.'') else None),
       ce_header_name_ok = (\<lambda>n. n \<noteq> []), ce_sha256 = (\<lambda>s. s), ce_pct_decode = Some,
       ce_now = 0, ce_latest = 10 \<rparr>"

definition sample_server :: server_config where
  "sample_server =
     \<lparr> sv_listen = ''0.0.0.0:8080'', sv_mounts = [''/'', ''/api/v1''],
       sv_internal_listen = Some ''127.0.0.1:9090'', sv_health_path = ''/health'',
       sv_service_name = ''lagos'', sv_threads = 2, sv_tcp_keepalive = None,
       sv_shutdown_grace = None, sv_graceful_shutdown = 25 \<rparr>"

definition sample_timeouts :: timeouts where
  "sample_timeouts =
     \<lparr> to_request_total = None, to_extension = 2, to_extension_chain = 5, to_connect = 5,
       to_default = 30, to_sse = 120, to_upload = 120, to_upstream_idle = 60,
       to_downstream_read = 30, to_downstream_write = 30, to_downstream_drain = 5,
       to_downstream_keepalive = 60 \<rparr>"

definition sample_limits :: limits where
  "sample_limits =
     \<lparr> li_extension_inflight = Some 4, li_max_body = 1000, li_max_token = 50,
       li_keepalive_requests = 1000, li_connections_per_ip = None, li_upstream_pool = 128,
       li_min_send_rate = None \<rparr>"

definition sample_forward :: forward_config where
  "sample_forward =
     \<lparr> fw_mode = Allowlist, fw_headers = [''x-request-id''], fw_authorization = False,
       fw_preserve_host = False, fw_trusted_proxies = 1, fw_trusted_proxy_ips = [''10.0.0.0/8''] \<rparr>"

definition sample_auth :: "string \<Rightarrow> auth_config" where
  "sample_auth secret =
     \<lparr> au_jwt = [\<lparr> jw_issuer = ''https://id'', jw_audience = [''api''], jw_jwks_url = None,
                   jw_algorithms = [''RS256''], jw_required_claims = [], jw_clock_skew = 60,
                   jw_min_key_ttl = 300, jw_stale_if_error = 0 \<rparr>],
       au_firebase = None,
       au_machine = Some \<lparr> mc_headers = [''x-api-key''], mc_secret = secret \<rparr>,
       au_client_keys = None, au_token_cookies = [''session''], au_cookie_protection = None \<rparr>"

definition sample_identity_section :: identity_config where
  "sample_identity_section =
     \<lparr> ic_subject_header = ''x-user-id'', ic_issuer_header = [], ic_claims_header = [],
       ic_claims = [], ic_token = None \<rparr>"

definition sample_users :: upstream_config where
  "sample_users =
     \<lparr> uc_targets = [\<lparr> tg_url = ''http://users/'', tg_weight = 1 \<rparr>], uc_balance = RoundRobin,
       uc_hash_on = HashIp, uc_health_check = None,
       uc_circuit_breaker = Some \<lparr> bc_failures = 2, bc_window = 10, bc_cooldown = 5,
                                   bc_successes_to_close = 1, bc_max_trials = 1 \<rparr>,
       uc_discovery = None \<rparr>"

definition resolved_users :: upstream_config where
  "resolved_users = sample_users \<lparr> uc_targets := [\<lparr> tg_url = ''http://users'', tg_weight = 1 \<rparr>] \<rparr>"

definition sample_gateway_config :: "string \<Rightarrow> gateway_config" where
  "sample_gateway_config secret =
     \<lparr> gc_defaults = no_defaults, gc_server = sample_server, gc_timeouts = sample_timeouts,
       gc_limits = sample_limits, gc_dns = \<lparr> dn_cache_ttl = 30, dn_max_entries = 16 \<rparr>,
       gc_upstreams = [(''ops'', sample_users), (''users'', sample_users)],
       gc_auth = sample_auth secret, gc_inject = [(''X-Gateway'', ''lagos'')], gc_inject_machine = [],
       gc_reject_headers = [''x-gateway''], gc_forward = sample_forward,
       gc_identity = sample_identity_section, gc_routes_file = None, gc_routes = valid_groups,
       gc_sample_ratio = None, gc_cors = None, gc_cache = None, gc_shared_counters = None \<rparr>"

definition sample_resolved :: "string \<Rightarrow> resolved_config" where
  "sample_resolved secret =
     \<lparr> rv_raw = sample_gateway_config secret, rv_trusted_proxy_ips = [starts_with ''10.''],
       rv_upstreams = [''users'' \<mapsto> resolved_users, ''ops'' \<mapsto> resolved_users],
       rv_injected = [(''x-gateway'', ''lagos'')], rv_machine_injected = [],
       rv_firebase_project_ids = [], rv_identity_secret = None, rv_machine_secret = Some secret,
       rv_client_keys = None, rv_base_paths = [''api/v1'', []], rv_cors = None,
       rv_cookie_protection = None \<rparr>"


lemma sample_upstream_resolves: "resolve_upstream sample_uri_parse n sample_users = Inr resolved_users"
proof -
  have "trim_end_matches CHR ''/'' (trim ''http://users/'') = ''http://users''" by code_simp
  moreover have "is_ok (target_parse sample_uri_parse ''http://users'')"
    by (simp add: target_parse_def sample_uri_parse_def Let_def)
  ultimately show ?thesis
    by (auto simp: resolve_upstream_def sample_users_def resolved_users_def ensure_def is_ok_iff map_err_def)
qed

lemma sample_mounts_resolve: "resolve_mounts [''/'', ''/api/v1''] = Inr [''api/v1'', []]"
  by code_simp

lemma sample_cookies_valid: "validate_token_cookies [''session''] True False = Inr ()"
  by code_simp

lemma sample_sections_valid: "check_sections (sample_gateway_config secret) = Inr ()"
proof -
  have "trim ''https://id'' \<noteq> []" "parse_algorithm ''RS256'' \<noteq> None" by code_simp+
  then have "for_each check_issuer (au_jwt (sample_auth secret)) = Inr ()"
    by (simp add: sample_auth_def check_issuer_def ensure_def)
  moreover have "check_breaker (n, sample_users) = Inr ()" for n
    by (simp add: check_breaker_def sample_users_def ensure_def)
  ultimately show ?thesis
    by (simp add: check_sections_def sample_gateway_config_def ensure_def
        is_inline_empty_def valid_groups_def)
qed

lemma sample_lower_pairs: "lower_pairs [(''X-Gateway'', ''lagos'')] = [(''x-gateway'', ''lagos'')]"
  by code_simp

lemma sample_budgets_valid: "check_budgets env sample_timeouts sample_limits = Inr ()"
  by (simp add: check_budgets_def sample_timeouts_def sample_limits_def ensure_def MAX_PERMITS_def)

text \<open>The secret plays no part in it, also when it is empty.\<close>

lemma sample_config_resolves:
  "resolve sample_config_env (sample_gateway_config secret) = Inr (sample_resolved secret)"
  using sample_sections_valid [of secret]
  by (simp add: resolve_def sample_gateway_config_def sample_resolved_def sample_budgets_valid
      sample_upstream_resolves sample_mounts_resolve sample_cookies_valid sample_lower_pairs
      sample_config_env_def sample_forward_def sample_server_def sample_auth_def no_defaults_def
      check_counters_def ensure_def resolve_firebase_def resolve_keys_section_def map_err_def
      resolve_cors_def resolve_protection_def sample_identity_section_def lower_pairs_def [of "[]"])

theorem resolve_wf_witness:
  "config_wf sample_uri_parse (sample_resolved ''s3cret'')
   \<and> rv_base_paths (sample_resolved ''s3cret'') = [''api/v1'', []]"
  using resolve_wf [OF sample_config_resolves [of "''s3cret''"]]
  by (simp add: sample_config_env_def sample_resolved_def)

end
