(* ===== verification/Config_Defaults.thy ===== *)
theory Config_Defaults
  imports Gateway_Config
begin

text \<open>
  What the program fills in (\<open>config/mod.rs\<close>): every section of the document as it is when only
  its required fields are written, the short forms of an upstream, a target and a claim, and that
  no value filled in ever makes a document invalid.
\<close>

section \<open>Short forms\<close>

text \<open>A string in place of a mapping: an upstream and a target are a URL, a claim is its path.\<close>

definition target_short :: "string \<Rightarrow> target_config" where
  "target_short url = \<lparr> tg_url = url, tg_weight = 1 \<rparr>"

definition upstream_short :: "string \<Rightarrow> upstream_config" where
  "upstream_short url =
     \<lparr> uc_targets = [\<lparr> tg_url = url, tg_weight = 1 \<rparr>], uc_balance = RoundRobin, uc_hash_on = HashPath,
       uc_health_check = None, uc_circuit_breaker = None, uc_discovery = None \<rparr>"

record upstream_details =
  ud_url :: "string option"
  ud_targets :: "target_config list"
  ud_balance :: balance
  ud_hash_on :: hash_key
  ud_health_check :: "health_check_config option"
  ud_circuit_breaker :: "circuit_breaker_config option"
  ud_discovery :: "discovery_config option"

definition upstream_long :: "upstream_details \<Rightarrow> (upstream_config, string) result" where
  "upstream_long long =
     and_then (upstream_targets (ud_url long) (ud_targets long)) (\<lambda>ts.
     Inr \<lparr> uc_targets = ts, uc_balance = ud_balance long, uc_hash_on = ud_hash_on long,
           uc_health_check = ud_health_check long, uc_circuit_breaker = ud_circuit_breaker long,
           uc_discovery = ud_discovery long \<rparr>)"

definition claim_short :: "string \<Rightarrow> claim_mapping" where
  "claim_short path = \<lparr> cm_claim = path, cm_when_null = None \<rparr>"

text \<open>A target with only a URL, in either form, is the same upstream.\<close>

lemma upstream_long_short:
  "upstream_long \<lparr> ud_url = Some url, ud_targets = [], ud_balance = RoundRobin, ud_hash_on = HashPath,
     ud_health_check = None, ud_circuit_breaker = None, ud_discovery = None \<rparr> = Inr (upstream_short url)
   \<and> upstream_long \<lparr> ud_url = None, ud_targets = [target_short url], ud_balance = RoundRobin, ud_hash_on = HashPath,
     ud_health_check = None, ud_circuit_breaker = None, ud_discovery = None \<rparr> = Inr (upstream_short url)"
  by (simp add: upstream_long_def upstream_targets_def upstream_short_def target_short_def)

section \<open>Sections with their required fields\<close>

definition cache_section :: cache_config where
  "cache_section =
     \<lparr> ca_max_size = 256 * 1024 * 1024, ca_max_object_size = 8 * 1024 * 1024,
       ca_max_inflight_fill = 64 * 1024 * 1024, ca_default_ttl = from_secs 60, ca_stale_while_revalidate = 0 \<rparr>"

definition retry_section :: "nat \<Rightarrow> retry_config" where
  "retry_section attempts = \<lparr> rt_attempts = attempts, rt_on = [ConnectionFailure], rt_non_idempotent = False \<rparr>"

definition cors_section :: "string list \<Rightarrow> cors_config" where
  "cors_section origins =
     \<lparr> co_origins = origins, co_methods = [''GET'', ''HEAD'', ''POST'', ''PUT'', ''PATCH'', ''DELETE''],
       co_headers = [''content-type'', ''authorization''], co_expose = [], co_credentials = False,
       co_max_age = from_secs 600 \<rparr>"

definition rate_limit_section :: "nat \<Rightarrow> rate_limit_config" where
  "rate_limit_section requests =
     \<lparr> rl_requests = requests, rl_interval = from_secs 60, rl_key = KeyIp, rl_missing_key = MissingReject,
       rl_trusted_proxies = 0, rl_max_keys = 100000, rl_counter = CounterExact, rl_mode = Approximate \<rparr>"

definition concurrency_section :: "nat \<Rightarrow> concurrency_config" where
  "concurrency_section m =
     \<lparr> cc_max = m, cc_key = None, cc_missing_key = MissingReject, cc_trusted_proxies = 0 \<rparr>"

definition shared_counters_section :: "string \<Rightarrow> shared_counters_config" where
  "shared_counters_section url =
     \<lparr> scc_url = url, scc_sync = from_secs 1, scc_prefix = ''lagos:rl:'', scc_timeout = 250000000,
       scc_max_keys_per_sync = 4096 \<rparr>"

definition connection_limit_section :: "nat \<Rightarrow> connection_limit_config" where
  "connection_limit_section n = \<lparr> cl_connections = n, cl_interval = from_secs 1, cl_max_tracked = 100000 \<rparr>"

definition breaker_section :: circuit_breaker_config where
  "breaker_section =
     \<lparr> bc_failures = 5, bc_window = from_secs 30, bc_cooldown = from_secs 10, bc_successes_to_close = 2,
       bc_max_trials = 1 \<rparr>"

definition health_section :: health_check_config where
  "health_section =
     \<lparr> hc_path = None, hc_interval = from_secs 10, hc_timeout = from_secs 2, hc_healthy_after = 1,
       hc_unhealthy_after = 2 \<rparr>"

definition discovery_section :: "duration \<Rightarrow> discovery_config" where
  "discovery_section interval = \<lparr> dc_interval = interval, dc_max_members = 256 \<rparr>"

definition machine_section :: "string \<Rightarrow> machine_config" where
  "machine_section secret = \<lparr> mc_headers = [''x-internal-api-key'', ''x-api-key''], mc_secret = secret \<rparr>"

definition client_keys_section :: "(string \<times> string) list \<Rightarrow> client_keys_config" where
  "client_keys_section keys =
     \<lparr> ck_header = ''x-client-key'', ck_forward_as = None, ck_keys = keys, ck_exempt = [], ck_exempt_groups = [] \<rparr>"

definition jwt_section :: "string \<Rightarrow> string list \<Rightarrow> jwt_config" where
  "jwt_section issuer audience =
     \<lparr> jw_issuer = issuer, jw_audience = audience, jw_jwks_url = None, jw_algorithms = [''RS256''],
       jw_required_claims = [], jw_clock_skew = from_secs 60, jw_min_key_ttl = from_secs 300,
       jw_stale_if_error = 0 \<rparr>"

definition firebase_section :: "string list \<Rightarrow> firebase_config" where
  "firebase_section projects =
     \<lparr> fb_projects = projects,
       fb_certs_url = ''https://www.googleapis.com/robot/v1/metadata/x509/securetoken@system.gserviceaccount.com'',
       fb_clock_skew = from_secs 60, fb_min_cert_ttl = from_secs 300, fb_stale_if_error = 0 \<rparr>"

definition auth_default :: auth_config where
  "auth_default =
     \<lparr> au_jwt = [], au_firebase = None, au_machine = None, au_client_keys = None, au_token_cookies = [],
       au_cookie_protection = None \<rparr>"

definition forward_default :: forward_config where
  "forward_default =
     \<lparr> fw_mode = Allowlist,
       fw_headers = [''user-agent'', ''x-forwarded-proto'', ''x-forwarded-host'', ''traceparent'', ''tracestate'',
                     ''x-request-id''],
       fw_authorization = True, fw_preserve_host = False, fw_trusted_proxies = 0, fw_trusted_proxy_ips = [] \<rparr>"

definition identity_default :: identity_config where
  "identity_default =
     \<lparr> ic_subject_header = ''x-auth-subject'', ic_issuer_header = ''x-auth-issuer'',
       ic_claims_header = ''x-auth-claims'', ic_claims = [], ic_token = None \<rparr>"

definition identity_token_section :: "string \<Rightarrow> identity_token_config" where
  "identity_token_section secret =
     \<lparr> it_header = ''x-auth-token'', it_secret = secret, it_ttl = from_secs 60, it_audience = None \<rparr>"

definition sample_ratio_default :: rat where "sample_ratio_default = 1"

text \<open>The document that gives only upstreams and routes.\<close>

definition plain_document :: "(string \<times> upstream_config) list \<Rightarrow> route_groups \<Rightarrow> gateway_config" where
  "plain_document ups groups =
     \<lparr> gc_defaults = \<lparr> rd_methods = None, rd_retry = None, rd_rate_limit = None \<rparr>, gc_server = server_default,
       gc_timeouts = timeouts_default, gc_limits = limits_default, gc_dns = dns_default, gc_upstreams = ups,
       gc_auth = auth_default, gc_inject = [], gc_inject_machine = [], gc_reject_headers = [],
       gc_forward = forward_default, gc_identity = identity_default, gc_routes_file = None, gc_routes = groups,
       gc_sample_ratio = None, gc_cors = None, gc_cache = None, gc_shared_counters = None \<rparr>"

section \<open>Defaults are valid\<close>

lemma default_mounts: "resolve_mounts (sv_mounts server_default) = Inr [[]]"
proof -
  have "normalize_proxy_path ''/'' = []" by code_simp
  then show ?thesis by (simp add: resolve_mounts_def server_default_def)
qed

lemma default_budgets: "check_budgets env timeouts_default (limits_default \<lparr> li_connections_per_ip := x \<rparr>) = Inr ()"
  by (simp add: check_budgets_def timeouts_default_def limits_default_def ensure_def from_secs_def)

lemma default_issuer:
  "check_issuer (jwt_section issuer audience) =
     (if trim issuer = [] then Inl EmptyIssuer else if audience = [] then Inl (NoAudience issuer) else Inr ())"
proof -
  have "parse_algorithm ''RS256'' \<noteq> None" by code_simp
  then show ?thesis by (simp add: check_issuer_def jwt_section_def ensure_def)
qed

lemma default_counters: "is_ok (check_counters (Some (shared_counters_section url))) = is_ok (normalize_url url)"
  by (auto simp: check_counters_def shared_counters_section_def ensure_def from_secs_def map_err_def and_then_def
      split: sum.splits)

lemma default_breakers:
  "for_each check_breaker (map (\<lambda>(name, url). (name, (upstream_short url) \<lparr> uc_circuit_breaker := Some breaker_section \<rparr>)) ups)
     = Inr ()"
  by (induction ups) (auto simp: check_breaker_def breaker_section_def ensure_def)

text \<open>The document that turns on every section and writes only what each requires.\<close>

definition full_document ::
  "(string \<times> string) list \<Rightarrow> route_groups \<Rightarrow> nat \<Rightarrow> nat \<Rightarrow> string \<Rightarrow> string list \<Rightarrow> string \<Rightarrow> string list
   \<Rightarrow> string list \<Rightarrow> string \<Rightarrow> gateway_config" where
  "full_document ups groups requests connections url origins issuer audience projects secret =
     (plain_document
        (map (\<lambda>(name, u). (name, (upstream_short u) \<lparr> uc_circuit_breaker := Some breaker_section \<rparr>)) ups) groups)
     \<lparr> gc_defaults := \<lparr> rd_methods = None, rd_retry = Some (retry_section 1),
                        rd_rate_limit = Some (rate_limit_section requests) \<rparr>,
       gc_limits := limits_default \<lparr> li_connections_per_ip := Some (connection_limit_section connections) \<rparr>,
       gc_auth := auth_default \<lparr> au_jwt := [jwt_section issuer audience], au_firebase := Some (firebase_section projects),
                                 au_machine := Some (machine_section secret) \<rparr>,
       gc_identity := identity_default \<lparr> ic_token := Some (identity_token_section secret) \<rparr>,
       gc_sample_ratio := Some sample_ratio_default, gc_cors := Some (cors_section origins),
       gc_cache := Some cache_section, gc_shared_counters := Some (shared_counters_section url) \<rparr>"

lemma is_ok_and_then: "is_ok (and_then r f) \<longleftrightarrow> (\<exists>x. r = Inr x \<and> is_ok (f x))"
  by (auto simp: and_then_def is_ok_iff split: sum.splits)

text \<open>Defaults never make a document invalid. A document with every section turned on, each with
  its required fields alone, resolves exactly when what was written is valid: the limit is not
  zero, the counter URL, the targets and the origins parse, a project and an audience are named,
  the issuer is not blank, and there is a route.\<close>

theorem defaults_never_refused:
  "is_ok (resolve env (full_document ups groups requests connections url origins issuer audience projects secret))
   \<longleftrightarrow> requests \<noteq> 0 \<and> is_ok (normalize_url url)
     \<and> is_ok (resolve_upstreams (ce_uri_parse env)
         (map (\<lambda>(name, u). (name, (upstream_short u) \<lparr> uc_circuit_breaker := Some breaker_section \<rparr>)) ups))
     \<and> is_ok (resolve_firebase (Some projects)) \<and> \<not> is_inline_empty groups \<and> trim issuer \<noteq> [] \<and> audience \<noteq> []
     \<and> is_ok (cors_compile (cors_section origins))"
proof -
  have counters: "check_counters (Some (shared_counters_section url)) = Inr () \<longleftrightarrow> (\<exists>x. normalize_url url = Inr x)"
    using default_counters [of url] by (simp add: is_ok_iff)
  have sections: "check_sections (full_document ups groups requests connections url origins issuer audience projects secret)
      = (if is_inline_empty groups then Inl NoRoutes
         else if trim issuer = [] then Inl EmptyIssuer else if audience = [] then Inl (NoAudience issuer) else Inr ())"
    by (simp add: check_sections_def full_document_def plain_document_def default_issuer default_breakers
        cache_section_def sample_ratio_default_def ensure_def)
  let ?d = "full_document ups groups requests connections url origins issuer audience projects secret"
  have parts: "rd_rate_limit (gc_defaults ?d) = Some (rate_limit_section requests)"
    "gc_shared_counters ?d = Some (shared_counters_section url)" "gc_timeouts ?d = timeouts_default"
    "gc_limits ?d = limits_default \<lparr> li_connections_per_ip := Some (connection_limit_section connections) \<rparr>"
    "fw_trusted_proxy_ips (gc_forward ?d) = []" "fw_trusted_proxies (gc_forward ?d) = 0"
    "gc_upstreams ?d = map (\<lambda>(name, u). (name, (upstream_short u) \<lparr> uc_circuit_breaker := Some breaker_section \<rparr>)) ups"
    "map_option fb_projects (au_firebase (gc_auth ?d)) = Some projects" "au_client_keys (gc_auth ?d) = None"
    "au_token_cookies (gc_auth ?d) = []" "au_cookie_protection (gc_auth ?d) = None"
    "gc_server ?d = server_default" "gc_cors ?d = Some (cors_section origins)"
    by (simp_all add: full_document_def plain_document_def forward_default_def auth_default_def firebase_section_def)
  have cors: "resolve_cors (Some c) = Inr x \<longleftrightarrow> (\<exists>y. x = Some y \<and> cors_compile c = Inr y)" for c x
    by (auto simp: resolve_cors_def and_then_Inr_iff)
  show ?thesis
    unfolding resolve_def parts is_ok_and_then
    by (auto simp: parts sections counters cors default_budgets default_mounts rate_limit_section_def
        resolve_keys_section_def validate_token_cookies_def resolve_protection_def map_err_def is_ok_iff)
qed

end
