(* ===== verification/Trace_Context.thy ===== *)
theory Trace_Context
  imports Auth "HOL-Library.Word"
begin

unbundle bit_operations_syntax

text \<open>
  W3C trace context (\<open>trace.rs\<close>). Ids are byte lists of \<open>8 word\<close>, random ids (the
  first bytes of a v4 UUID) are arguments.
\<close>

type_synonym u8 = "8 word"

definition FLAG_SAMPLED :: u8 where
  "FLAG_SAMPLED = 1"

record trace_context =
  tr_trace_id :: "u8 list"
  tr_span_id :: "u8 list"
  tr_parent_span_id :: "u8 list option"
  tr_flags :: u8

definition is_hex :: "string \<Rightarrow> bool" where
  "is_hex s = (s \<noteq> [] \<and> list_all (\<lambda>b. digit_value 16 b \<noteq> None) s)"

text \<open>\<open>u8::from_str_radix\<close> on two hexadecimal digits.\<close>

definition hex_byte :: "char \<Rightarrow> char \<Rightarrow> u8 option" where
  "hex_byte a b =
     (case (digit_value 16 a, digit_value 16 b) of
        (Some x, Some y) \<Rightarrow> Some (word_of_nat (16 * x + y))
      | _ \<Rightarrow> None)"

fun hex_bytes :: "nat \<Rightarrow> string \<Rightarrow> u8 list option" where
  "hex_bytes 0 s = Some []"
| "hex_bytes (Suc n) (a # b # s) =
     (case hex_byte a b of
        None \<Rightarrow> None
      | Some w \<Rightarrow> map_option (\<lambda>ws. w # ws) (hex_bytes n s))"
| "hex_bytes (Suc n) _ = None"

definition hex16 :: "string \<Rightarrow> u8 list option" where
  "hex16 = hex_bytes 16"

definition hex8 :: "string \<Rightarrow> u8 list option" where
  "hex8 = hex_bytes 8"

definition ZERO_TRACE :: "u8 list" where
  "ZERO_TRACE = replicate 16 0"

definition ZERO_SPAN :: "u8 list" where
  "ZERO_SPAN = replicate 8 0"

definition parse_traceparent :: "string \<Rightarrow> (u8 list \<times> u8 list \<times> u8) option" where
  "parse_traceparent raw =
     (case split_on CHR ''-'' (trim raw) of
        version # trace_id # parent_id # flags # others \<Rightarrow>
          if length version \<noteq> 2 \<or> \<not> is_hex version \<or> version = ''ff'' then None
          else if version = ''00'' \<and> others \<noteq> [] then None
          else if length trace_id \<noteq> 32 \<or> \<not> is_hex trace_id then None
          else if length parent_id \<noteq> 16 \<or> \<not> is_hex parent_id then None
          else if length flags \<noteq> 2 \<or> \<not> is_hex flags then None
          else (case (hex16 trace_id, hex8 parent_id) of
                  (Some trace, Some parent) \<Rightarrow>
                    if trace = ZERO_TRACE \<or> parent = ZERO_SPAN then None
                    else (case hex_bytes 1 flags of
                            Some [f] \<Rightarrow> Some (trace, parent, f)
                          | _ \<Rightarrow> None)
                | _ \<Rightarrow> None)
      | _ \<Rightarrow> None)"

definition hex_lower :: "nat \<Rightarrow> char" where
  "hex_lower n = char_of (if n < 10 then 48 + n else 87 + n)"

definition write_hex :: "u8 list \<Rightarrow> string" where
  "write_hex bytes = concat (map (\<lambda>b. [hex_lower (unat b div 16), hex_lower (unat b mod 16)]) bytes)"

definition to_header :: "trace_context \<Rightarrow> string" where
  "to_header t =
     ''00-'' @ write_hex (tr_trace_id t) @ ''-'' @ write_hex (tr_span_id t) @ ''-'' @ write_hex [tr_flags t]"

definition sampled :: "trace_context \<Rightarrow> bool" where
  "sampled t = (tr_flags t AND FLAG_SAMPLED \<noteq> 0)"

definition continue_from :: "u8 list \<Rightarrow> u8 list \<Rightarrow> string option \<Rightarrow> bool \<Rightarrow> trace_context" where
  "continue_from random_trace random_span incoming sample =
     (case Option.bind incoming parse_traceparent of
        Some (trace_id, parent, flags) \<Rightarrow>
          \<lparr> tr_trace_id = trace_id, tr_span_id = random_span,
            tr_parent_span_id = Some parent, tr_flags = flags \<rparr>
      | None \<Rightarrow>
          \<lparr> tr_trace_id = random_trace, tr_span_id = random_span,
            tr_parent_span_id = None, tr_flags = (if sample then FLAG_SAMPLED else 0) \<rparr>)"

section \<open>Hexadecimal\<close>

lemma byte_hex_lower: "n < 16 \<Longrightarrow> byte (hex_lower n) = (if n < 10 then 48 + n else 87 + n)"
  by (simp add: hex_lower_def)

lemma hex_lower_value [simp]: "n < 16 \<Longrightarrow> digit_value 16 (hex_lower n) = Some n"
  by (auto simp: digit_value_def is_ascii_digit_def byte_hex_lower)

lemma u8_less: "unat (b :: u8) < 256"
proof -
  have "unat b < 2 ^ LENGTH(8)" by (rule unsigned_less)
  then show ?thesis by simp
qed

lemma hex_byte_write [simp]:
  "hex_byte (hex_lower (unat (b :: u8) div 16)) (hex_lower (unat b mod 16)) = Some b"
proof -
  have "unat b < 256" by (rule u8_less)
  then have d: "unat b div 16 < 16" by simp
  have "16 * (unat b div 16) + unat b mod 16 = unat b" by simp
  then show ?thesis by (simp add: hex_byte_def d)
qed

lemma hex_bytes_write: "hex_bytes (length bs) (write_hex bs) = Some bs"
  by (induction bs) (simp_all add: write_hex_def)

lemma length_write_hex [simp]: "length (write_hex bs) = 2 * length bs"
  by (induction bs) (simp_all add: write_hex_def)

lemma hex_lower_in_write:
  "c \<in> set (write_hex bs) \<Longrightarrow> \<exists>n<16. c = hex_lower n"
proof -
  assume "c \<in> set (write_hex bs)"
  then have "c \<in> (\<Union>b\<in>set bs. {hex_lower (unat b div 16), hex_lower (unat b mod 16)})"
    by (auto simp: write_hex_def)
  then obtain b :: u8 where "c \<in> {hex_lower (unat b div 16), hex_lower (unat b mod 16)}" by blast
  then have b: "c = hex_lower (unat b div 16) \<or> c = hex_lower (unat b mod 16)" by simp
  have "unat b < 256" by (rule u8_less)
  then have "unat b div 16 < 16" "unat b mod 16 < 16" by simp_all
  with b show ?thesis by blast
qed

lemma is_hex_write [simp]: "bs \<noteq> [] \<Longrightarrow> is_hex (write_hex bs)"
proof -
  assume "bs \<noteq> []"
  then have "length (write_hex bs) \<noteq> 0" by simp
  then have "write_hex bs \<noteq> []" by (metis length_0_conv)
  moreover have "digit_value 16 c \<noteq> None" if "c \<in> set (write_hex bs)" for c
    using hex_lower_in_write [OF that] by auto
  ultimately show ?thesis by (simp add: is_hex_def list_all_iff)
qed

lemma write_hex_bytes:
  "c \<in> set (write_hex bs) \<Longrightarrow> 48 \<le> byte c \<and> byte c < 103"
  using hex_lower_in_write [of c bs] byte_hex_lower by (auto split: if_splits)

lemma write_hex_plain:
  "CHR ''-'' \<notin> set (write_hex bs)" "ascii (write_hex bs)"
  "list_all (\<lambda>c. \<not> ws_byte c) (write_hex bs)"
proof -
  show "CHR ''-'' \<notin> set (write_hex bs)"
    using write_hex_bytes [of "CHR ''-''" bs] by auto
  show "ascii (write_hex bs)" using write_hex_bytes [of _ bs] by (fastforce simp: ascii_def list_all_iff)
  show "list_all (\<lambda>c. \<not> ws_byte c) (write_hex bs)"
    using write_hex_bytes [of _ bs]
    by (fastforce simp: list_all_iff ws_byte_def is_whitespace_def)
qed

lemma trim_plain: "ascii s \<Longrightarrow> list_all (\<lambda>c. \<not> ws_byte c) s \<Longrightarrow> trim s = s"
proof -
  assume a: "ascii s" and n: "list_all (\<lambda>c. \<not> ws_byte c) s"
  have id: "dropWhile ws_byte x = x" if "list_all (\<lambda>c. \<not> ws_byte c) x" for x
    using that by (cases x) auto
  have "list_all (\<lambda>c. \<not> ws_byte c) (rev s)" using n by (simp add: list_all_iff)
  then show ?thesis by (simp add: trim_ascii [OF a] id n)
qed

section \<open>The header names the hop\<close>

lemma to_header_join:
  "to_header t = join ''-'' [''00'', write_hex (tr_trace_id t), write_hex (tr_span_id t), write_hex [tr_flags t]]"
  by (simp add: to_header_def)

lemma to_header_split:
  "split_on CHR ''-'' (trim (to_header t)) =
     [''00'', write_hex (tr_trace_id t), write_hex (tr_span_id t), write_hex [tr_flags t]]"
proof -
  have "trim (to_header t) = to_header t"
    by (rule trim_plain)
      (use write_hex_plain in \<open>auto simp: to_header_def ascii_def ws_byte_def is_whitespace_def\<close>)
  then have "split_on CHR ''-'' (trim (to_header t)) = split_on CHR ''-'' (to_header t)" by simp
  also have "\<dots> = [''00'', write_hex (tr_trace_id t), write_hex (tr_span_id t), write_hex [tr_flags t]]"
    unfolding to_header_join by (rule split_join) (use write_hex_plain(1) in auto)
  finally show ?thesis .
qed

definition valid_ids :: "trace_context \<Rightarrow> bool" where
  "valid_ids t = (length (tr_trace_id t) = 16 \<and> length (tr_span_id t) = 8
     \<and> tr_trace_id t \<noteq> ZERO_TRACE \<and> tr_span_id t \<noteq> ZERO_SPAN)"

lemma parse_to_header:
  assumes "valid_ids t"
  shows "parse_traceparent (to_header t) = Some (tr_trace_id t, tr_span_id t, tr_flags t)"
proof -
  have l: "length (tr_trace_id t) = 16" "length (tr_span_id t) = 8"
    "tr_trace_id t \<noteq> ZERO_TRACE" "tr_span_id t \<noteq> ZERO_SPAN"
    using assms by (auto simp: valid_ids_def)
  have h: "hex16 (write_hex (tr_trace_id t)) = Some (tr_trace_id t)"
    "hex8 (write_hex (tr_span_id t)) = Some (tr_span_id t)"
    "hex_bytes 1 (write_hex [tr_flags t]) = Some [tr_flags t]"
    using hex_bytes_write [of "tr_trace_id t"] hex_bytes_write [of "tr_span_id t"]
      hex_bytes_write [of "[tr_flags t]"] l by (simp_all add: hex16_def hex8_def)
  have ne: "tr_trace_id t \<noteq> []" "tr_span_id t \<noteq> []" using l(1,2) by auto
  have v: "is_hex ''00''" by (simp add: is_hex_def digit_value_def is_ascii_digit_def)
  show ?thesis
    by (simp add: parse_traceparent_def to_header_split l h ne v del: One_nat_def)
qed

lemma hex_bytes_length: "hex_bytes n s = Some bs \<Longrightarrow> length bs = n"
  by (induction n s arbitrary: bs rule: hex_bytes.induct) (auto split: option.splits)

lemma parse_valid:
  assumes "parse_traceparent raw = Some (trace, parent, f)"
  shows "length trace = 16" "length parent = 8" "trace \<noteq> ZERO_TRACE" "parent \<noteq> ZERO_SPAN"
  using assms hex_bytes_length
  by (auto simp: parse_traceparent_def hex16_def hex8_def Let_def split: list.splits option.splits if_splits)

section \<open>Properties\<close>

text \<open>A trace passes through the gateway unbroken. Whatever the request carried,
  the context sent upstream parses back to this hop's own span; a well-formed
  incoming context keeps its trace id and sampling flags and becomes the parent;
  anything else starts a fresh, valid trace and never fails the request.\<close>

theorem trace_continues:
  assumes "length random_trace = 16" "random_trace \<noteq> ZERO_TRACE"
    and "length random_span = 8" "random_span \<noteq> ZERO_SPAN"
    and "t = continue_from random_trace random_span incoming sample"
  shows "parse_traceparent (to_header t) = Some (tr_trace_id t, random_span, tr_flags t)
    \<and> (case Option.bind incoming parse_traceparent of
         Some (trace, parent, f) \<Rightarrow>
           tr_trace_id t = trace \<and> tr_parent_span_id t = Some parent \<and> tr_flags t = f
       | None \<Rightarrow> tr_trace_id t = random_trace \<and> tr_parent_span_id t = None \<and> sampled t = sample)"
proof -
  have s: "tr_span_id t = random_span"
    using assms(5) by (simp add: continue_from_def split: option.splits prod.splits)
  have "length (tr_trace_id t) = 16 \<and> tr_trace_id t \<noteq> ZERO_TRACE"
  proof (cases "Option.bind incoming parse_traceparent")
    case None
    then show ?thesis using assms by (simp add: continue_from_def)
  next
    case (Some x)
    then obtain raw where "parse_traceparent raw = Some x" by (auto simp: bind_eq_Some_conv)
    then show ?thesis
      using parse_valid [of raw "fst x" "fst (snd x)" "snd (snd x)"] assms(5) Some
      by (simp add: continue_from_def split: prod.splits)
  qed
  then have v: "valid_ids t" using s assms(3,4) by (simp add: valid_ids_def)
  show ?thesis
    using parse_to_header [OF v] s assms(5)
    by (simp add: continue_from_def sampled_def FLAG_SAMPLED_def split: option.splits prod.splits)
qed

theorem trace_continues_witness:
  "parse_traceparent (to_header (continue_from (replicate 16 1) (replicate 8 2)
      (Some ''00-4bf92f3577b34da6a3ce929d0e0e4736-00f067aa0ba902b7-01'') False)) \<noteq> None
   \<and> parse_traceparent ''00-4bf92f3577b34da6a3ce929d0e0e4736-00f067aa0ba902b7-01'' \<noteq> None
   \<and> parse_traceparent ''00-00000000000000000000000000000000-00f067aa0ba902b7-01'' = None"
proof -
  have c: "replicate 16 1 \<noteq> ZERO_TRACE" "replicate 8 2 \<noteq> ZERO_SPAN"
    by (simp_all add: ZERO_TRACE_def ZERO_SPAN_def)
  have "parse_traceparent ''00-4bf92f3577b34da6a3ce929d0e0e4736-00f067aa0ba902b7-01'' \<noteq> None"
    "parse_traceparent ''00-00000000000000000000000000000000-00f067aa0ba902b7-01'' = None"
    by code_simp+
  then show ?thesis using trace_continues [OF _ c(1) _ c(2) refl] by simp
qed

end
