(* ===== verification/Concurrency.thy ===== *)
theory Concurrency
  imports Rust_Prelude
begin

text \<open>
  Caps on requests in flight (\<open>concurrency.rs\<close>).

  A route-wide cap is an atomic counter per key, updated by compare-and-swap, so
  \<open>take\<close> and the drop of a slot are one step each. A per-caller cap counts in
  the \<open>pingora_limits\<close> estimator, a parameter here: \<open>incr\<close> counts a key and
  returns the estimate, \<open>decr\<close> is the drop of its guard. The locale
  \<open>caller_estimator\<close> states its documented contract, that an estimate is never
  below the number of guards held; the exact counter below satisfies it.
\<close>

section \<open>Slots\<close>

record 'c in_flight =
  if_routes :: "string \<rightharpoonup> nat"
  if_callers :: 'c

datatype slot = RouteSlot string | CallerSlot string

definition inflight_new :: "'c \<Rightarrow> 'c in_flight" where
  "inflight_new callers = \<lparr> if_routes = Map.empty, if_callers = callers \<rparr>"

text \<open>\<open>route_counter\<close>: the counter of a key, created at zero on first use. The map
  never forgets a key, so a key names its counter.\<close>

definition route_counter :: "'c in_flight \<Rightarrow> string \<Rightarrow> nat \<times> 'c in_flight" where
  "route_counter st key =
     (case if_routes st key of
        Some n \<Rightarrow> (n, st)
      | None \<Rightarrow> (0, st \<lparr> if_routes := (if_routes st)(key \<mapsto> 0) \<rparr>))"

definition take_slot ::
  "('c \<Rightarrow> string \<Rightarrow> 'c \<times> int) \<Rightarrow> ('c \<Rightarrow> string \<Rightarrow> 'c) \<Rightarrow>
   string \<Rightarrow> nat \<Rightarrow> bool \<Rightarrow> 'c in_flight \<Rightarrow> slot option \<times> 'c in_flight" where
  "take_slot incr decr key max_slots per_caller st =
     (if per_caller then
        (let (callers, count) = incr (if_callers st) key in
         if (if 0 \<le> count then nat count else 0) \<le> max_slots
         then (Some (CallerSlot key), st \<lparr> if_callers := callers \<rparr>)
         else (None, st \<lparr> if_callers := decr callers key \<rparr>))
      else
        (let (n, st1) = route_counter st key in
         if n < max_slots
         then (Some (RouteSlot key),
               st1 \<lparr> if_routes := (if_routes st1)(key \<mapsto> sat_add U64_MAX n 1) \<rparr>)
         else (None, st1)))"

text \<open>Dropping a slot: \<open>fetch_sub\<close> wraps around.\<close>

definition drop_slot :: "('c \<Rightarrow> string \<Rightarrow> 'c) \<Rightarrow> slot \<Rightarrow> 'c in_flight \<Rightarrow> 'c in_flight" where
  "drop_slot decr sl st =
     (case sl of
        RouteSlot key \<Rightarrow>
          st \<lparr> if_routes := (if_routes st)
                 (key \<mapsto> (the (if_routes st key) + U64_MAX) mod (U64_MAX + 1)) \<rparr>
      | CallerSlot key \<Rightarrow> st \<lparr> if_callers := decr (if_callers st) key \<rparr>)"

section \<open>The slots held under any interleaving\<close>

record 'c inflight_run =
  ir_store :: "'c in_flight"
  ir_held :: "slot list"

definition route_count :: "'c in_flight \<Rightarrow> string \<Rightarrow> nat" where
  "route_count st key = (case if_routes st key of Some n \<Rightarrow> n | None \<Rightarrow> 0)"

locale caller_estimator =
  fixes incr :: "'c \<Rightarrow> string \<Rightarrow> 'c \<times> int"
    and decr :: "'c \<Rightarrow> string \<Rightarrow> 'c"
    and guards :: "'c \<Rightarrow> string \<Rightarrow> nat"
  assumes incr_guards: "guards (fst (incr c k)) = (guards c)(k := Suc (guards c k))"
    and incr_estimate: "int (Suc (guards c k)) \<le> snd (incr c k)"
    and decr_guards: "guards (decr c k) = (guards c)(k := guards c k - 1)"

inductive inflight_step ::
  "('c \<Rightarrow> string \<Rightarrow> 'c \<times> int) \<Rightarrow> ('c \<Rightarrow> string \<Rightarrow> 'c) \<Rightarrow> (slot \<Rightarrow> nat) \<Rightarrow>
   'c inflight_run \<Rightarrow> 'c inflight_run \<Rightarrow> bool"
  for incr decr cap where
  taken: "take_slot incr decr key m per_caller (ir_store s) = (Some sl, st) \<Longrightarrow>
     m \<le> cap sl \<Longrightarrow> m \<le> U64_MAX \<Longrightarrow>
     inflight_step incr decr cap s (s \<lparr> ir_store := st, ir_held := sl # ir_held s \<rparr>)"
| refused: "take_slot incr decr key m per_caller (ir_store s) = (None, st) \<Longrightarrow>
     inflight_step incr decr cap s (s \<lparr> ir_store := st \<rparr>)"
| released: "sl \<in> set (ir_held s) \<Longrightarrow>
     inflight_step incr decr cap s
       (s \<lparr> ir_store := drop_slot decr sl (ir_store s), ir_held := remove1 sl (ir_held s) \<rparr>)"

definition inflight_inv ::
  "('c \<Rightarrow> string \<Rightarrow> nat) \<Rightarrow> (slot \<Rightarrow> nat) \<Rightarrow> 'c inflight_run \<Rightarrow> bool" where
  "inflight_inv guards cap s =
     ((\<forall>k. count_list (ir_held s) (RouteSlot k) = route_count (ir_store s) k \<and>
           route_count (ir_store s) k \<le> U64_MAX) \<and>
      (\<forall>k. count_list (ir_held s) (CallerSlot k) = guards (if_callers (ir_store s)) k) \<and>
      (\<forall>sl. count_list (ir_held s) sl \<le> cap sl))"

lemma count_list_remove1:
  "count_list (remove1 x xs) y = count_list xs y - (if x = y \<and> x \<in> set xs then 1 else 0)"
  by (induction xs) auto

lemma count_list_pos: "x \<in> set xs \<Longrightarrow> 0 < count_list xs x"
  by (metis count_list_0_iff gr0I)

context caller_estimator
begin

lemma take_caller:
  assumes "take_slot incr decr key m True st = (r, st')"
  shows "if_routes st' = if_routes st"
    and "r = Some sl \<Longrightarrow> sl = CallerSlot key \<and> Suc (guards (if_callers st) key) \<le> m \<and>
           guards (if_callers st') = (guards (if_callers st))(key := Suc (guards (if_callers st) key))"
    and "r = None \<Longrightarrow> guards (if_callers st') = guards (if_callers st)"
  using assms incr_guards [of "if_callers st" key] incr_estimate [of "if_callers st" key]
    decr_guards [of "fst (incr (if_callers st) key)" key]
  by (auto simp: take_slot_def Let_def split: prod.splits if_splits)

lemma inv_taken:
  assumes inv: "inflight_inv guards cap s"
    and t: "take_slot incr decr key m pc (ir_store s) = (Some sl, st)" "m \<le> cap sl" "m \<le> U64_MAX"
  shows "inflight_inv guards cap (s \<lparr> ir_store := st, ir_held := sl # ir_held s \<rparr>)"
proof (cases pc)
  case True
  then have t1: "take_slot incr decr key m True (ir_store s) = (Some sl, st)" using t by simp
  note c = take_caller(1) [OF t1] take_caller(2) [OF t1 refl]
  show ?thesis using inv c t(2,3) by (auto simp: inflight_inv_def route_count_def)
next
  case False
  then have "sl = RouteSlot key" "if_callers st = if_callers (ir_store s)"
    "route_count (ir_store s) key < m"
    "route_count st = (route_count (ir_store s))(key := Suc (route_count (ir_store s) key))"
    using t by (auto simp: take_slot_def route_counter_def route_count_def sat_add_def fun_eq_iff
        split: if_splits option.splits)
  then show ?thesis using inv t(2,3) by (auto simp: inflight_inv_def)
qed

lemma inv_refused:
  assumes inv: "inflight_inv guards cap s"
    and t: "take_slot incr decr key m pc (ir_store s) = (None, st)"
  shows "inflight_inv guards cap (s \<lparr> ir_store := st \<rparr>)"
proof (cases pc)
  case True
  then have t1: "take_slot incr decr key m True (ir_store s) = (None, st)" using t by simp
  show ?thesis using inv take_caller(1) [OF t1] take_caller(3) [OF t1 refl]
    by (auto simp: inflight_inv_def route_count_def)
next
  case False
  then have "if_callers st = if_callers (ir_store s)" "route_count st = route_count (ir_store s)"
    using t by (auto simp: take_slot_def route_counter_def route_count_def fun_eq_iff
        split: if_splits option.splits)
  then show ?thesis using inv by (auto simp: inflight_inv_def)
qed

lemma inv_released:
  assumes inv: "inflight_inv guards cap s" and sl: "sl \<in> set (ir_held s)"
  shows "inflight_inv guards cap
    (s \<lparr> ir_store := drop_slot decr sl (ir_store s), ir_held := remove1 sl (ir_held s) \<rparr>)"
proof (cases sl)
  case (RouteSlot key)
  have pos: "0 < route_count (ir_store s) key" "route_count (ir_store s) key \<le> U64_MAX"
    using inv count_list_pos [OF sl] RouteSlot by (auto simp: inflight_inv_def)
  then obtain n where n: "if_routes (ir_store s) key = Some (Suc n)" "n < U64_MAX"
    by (cases "if_routes (ir_store s) key") (auto simp: route_count_def gr0_conv_Suc)
  then have "route_count (drop_slot decr sl (ir_store s)) =
      (route_count (ir_store s))(key := n)"
    using RouteSlot by (auto simp: drop_slot_def route_count_def fun_eq_iff)
  then show ?thesis
    using inv RouteSlot n sl
    by (auto simp: inflight_inv_def count_list_remove1 route_count_def drop_slot_def
        intro: le_trans [OF diff_le_self] dest: spec [of _ "RouteSlot key"])
next
  case (CallerSlot key)
  then show ?thesis
    using inv sl decr_guards
    by (auto simp: inflight_inv_def count_list_remove1 drop_slot_def route_count_def
        intro: le_trans [OF diff_le_self] dest: spec [of _ "CallerSlot key"])
qed

lemma inv_step:
  "inflight_inv guards cap s \<Longrightarrow> inflight_step incr decr cap s t \<Longrightarrow> inflight_inv guards cap t"
  by (erule inflight_step.cases) (auto intro: inv_taken inv_refused inv_released)

end

sublocale caller_estimator \<subseteq> inflight: invariant_system
  "\<lambda>s. ir_held s = [] \<and> if_routes (ir_store s) = Map.empty \<and> guards (if_callers (ir_store s)) = (\<lambda>_. 0)"
  "inflight_step incr decr cap" "inflight_inv guards cap" for cap
proof unfold_locales
  show "inflight_inv guards cap s"
    if "ir_held s = [] \<and> if_routes (ir_store s) = Map.empty \<and> guards (if_callers (ir_store s)) = (\<lambda>_. 0)"
    for s
    using that by (simp add: inflight_inv_def route_count_def)
  show "inflight_inv guards cap t"
    if "inflight_inv guards cap s" "inflight_step incr decr cap s t" for s t
    using that by (rule inv_step)
qed

context caller_estimator
begin

lemma held_inv:
  "guards callers = (\<lambda>_. 0) \<Longrightarrow>
   (inflight_step incr decr cap)\<^sup>*\<^sup>* \<lparr> ir_store = inflight_new callers, ir_held = [] \<rparr> s \<Longrightarrow>
   inflight_inv guards cap s"
  using inflight.reachable_inv [of "\<lparr> ir_store = inflight_new callers, ir_held = [] \<rparr>" cap s]
  by (simp add: inflight_new_def)

end

text \<open>The exact counter.\<close>

definition exact_incr :: "(string \<Rightarrow> nat) \<Rightarrow> string \<Rightarrow> (string \<Rightarrow> nat) \<times> int" where
  "exact_incr c k = (c(k := Suc (c k)), int (Suc (c k)))"

definition exact_decr :: "(string \<Rightarrow> nat) \<Rightarrow> string \<Rightarrow> string \<Rightarrow> nat" where
  "exact_decr c k = c(k := c k - 1)"

interpretation exact_callers: caller_estimator exact_incr exact_decr "\<lambda>c. c"
  by unfold_locales (auto simp: exact_incr_def exact_decr_def)

section \<open>Properties\<close>

text \<open>C16: whatever the interleaving of requests taking and releasing slots, no key
  ever has more slots held than its cap, and the route counters equal the slots
  held, so releasing never wraps around.\<close>

theorem inflight_cap_never_exceeded:
  assumes "caller_estimator incr decr guards"
    and "guards callers = (\<lambda>_. 0)"
    and "(inflight_step incr decr cap)\<^sup>*\<^sup>* \<lparr> ir_store = inflight_new callers, ir_held = [] \<rparr> s"
  shows "count_list (ir_held s) sl \<le> cap sl
    \<and> count_list (ir_held s) (RouteSlot k) = route_count (ir_store s) k"
  using caller_estimator.held_inv [OF assms] by (auto simp: inflight_inv_def)

theorem inflight_cap_never_exceeded_witness:
  "\<exists>s. (inflight_step exact_incr exact_decr (\<lambda>_. 1))\<^sup>*\<^sup>*
         \<lparr> ir_store = inflight_new (\<lambda>_. 0), ir_held = [] \<rparr> s
     \<and> ir_held s = [RouteSlot ''orders''] \<and> count_list (ir_held s) (RouteSlot ''orders'') \<le> 1"
proof -
  let ?s0 = "\<lparr> ir_store = inflight_new (\<lambda>_. 0 :: nat), ir_held = [] \<rparr> :: (string \<Rightarrow> nat) inflight_run"
  let ?st = "\<lparr> if_routes = [''orders'' \<mapsto> 1], if_callers = (\<lambda>_. 0 :: nat) \<rparr>"
  have t: "take_slot exact_incr exact_decr ''orders'' 1 False (ir_store ?s0)
      = (Some (RouteSlot ''orders''), ?st)"
    by (simp add: take_slot_def route_counter_def inflight_new_def sat_add_def)
  have step: "inflight_step exact_incr exact_decr (\<lambda>_. 1) ?s0
      (?s0 \<lparr> ir_store := ?st, ir_held := RouteSlot ''orders'' # ir_held ?s0 \<rparr>)"
    by (rule inflight_step.taken [OF t]) simp_all
  let ?t = "?s0 \<lparr> ir_store := ?st, ir_held := RouteSlot ''orders'' # ir_held ?s0 \<rparr>"
  have steps: "(inflight_step exact_incr exact_decr (\<lambda>_. 1))\<^sup>*\<^sup>* ?s0 ?t"
    using step by (rule r_into_rtranclp)
  show ?thesis
    using steps inflight_cap_never_exceeded
      [OF exact_callers.caller_estimator_axioms refl steps, of "RouteSlot ''orders''"]
    by (intro exI [of _ ?t]) simp
qed

end
