(* ===== verification/Gateway_State.thy ===== *)
theory Gateway_State
  imports Gateway_Config Retry Binding Identity_Headers Trace_Context Concurrency Route_Index
begin

text \<open>
  What the filters of \<open>proxy.rs\<close> work on: the gateway, one request, the context carried
  between the filters, the replies the gateway sends itself, and the small operations on
  them. The crates and the readings of one request (clocks, random ids, the tables of rate
  estimators) are the fields of \<open>env\<close>.
\<close>

section \<open>The gateway and its environment\<close>

record gateway =
  gw_cfg :: resolved_config
  gw_table :: route_table
  gw_upstreams :: "string set"
  gw_verifier :: "(string \<Rightarrow> (identity, auth_error) result) option"
  gw_extensions :: registry
  gw_serves_machine :: bool
  gw_forwardable :: "string set"
  gw_sample_ratio :: "rat option"

record 'r env =
  en_pct_decode :: "string \<Rightarrow> string option"
  en_pct_encode :: "(char \<Rightarrow> bool) \<Rightarrow> string \<Rightarrow> string"
  en_sha256 :: "string \<Rightarrow> string"
  en_url_parse :: "string \<Rightarrow> url option"
  en_encode_claims :: "(string \<times> json) list \<Rightarrow> string option"
  en_sign :: "string \<Rightarrow> identity_claims \<Rightarrow> (string, string) result"
  en_to_vec :: "json \<Rightarrow> string option"
  en_untrusted :: "string \<Rightarrow> string"
  en_ask :: "string \<Rightarrow> nat \<Rightarrow> duration \<Rightarrow> (decision, backend_error) result"
  en_rate_read :: "'r \<Rightarrow> string \<Rightarrow> nat \<times> nat \<times> rat"
  en_rate_observe :: "'r \<Rightarrow> string \<Rightarrow> nat \<Rightarrow> 'r"
  en_source :: nat
  en_wall :: int
  en_now :: instant
  en_latest :: instant
  en_unix :: nat
  en_uuid :: string
  en_trace_id :: "u8 list"
  en_span_id :: "u8 list"
  en_bucket :: nat

record request =
  rq_method :: string
  rq_path :: string
  rq_query :: "string option"
  rq_headers :: header_map
  rq_peer :: "string option"

record pending_slot =
  ps_key :: string
  ps_max :: nat
  ps_per_caller :: bool

text \<open>\<open>Ctx\<close>, less the fields that only \<open>gateway dev\<close> narrates from. The retry counters
  are the \<^typ>\<open>retry_ctx\<close> of the retry hooks.\<close>

record ctx =
  cx_request_id :: string
  cx_client_ip :: "string option"
  cx_path :: string
  cx_upstream_path :: "string option"
  cx_query :: "string option"
  cx_route_id :: string
  cx_upstream_name :: string
  cx_plan :: header_plan
  cx_sse :: bool
  cx_timeout :: duration
  cx_status :: nat
  cx_body_bytes :: nat
  cx_subject :: "string option"
  cx_client_key_id :: "string option"
  cx_credential :: "string option"
  cx_retry_after :: "nat option"
  cx_cors :: "cors_headers option"
  cx_cacheable_route :: bool
  cx_cache_namespace :: nat
  cx_client_authorized :: bool
  cx_breaker_upstream :: "string option"
  cx_attempt :: retry_ctx
  cx_trace :: "trace_context option"
  cx_target :: "upstream_target option"
  cx_dns_start :: "nat option"
  cx_concurrency :: "pending_slot option"
  cx_inflight :: "slot option"

definition new_ctx :: ctx where
  "new_ctx =
     \<lparr> cx_request_id = [], cx_client_ip = None, cx_path = [], cx_upstream_path = None, cx_query = None,
       cx_route_id = [], cx_upstream_name = [], cx_plan = plan_new, cx_sse = False, cx_timeout = 0,
       cx_status = 0, cx_body_bytes = 0, cx_subject = None, cx_client_key_id = None,
       cx_credential = None, cx_retry_after = None, cx_cors = None, cx_cacheable_route = False,
       cx_cache_namespace = 0, cx_client_authorized = False, cx_breaker_upstream = None,
       cx_attempt = \<lparr> rx_retry = None, rx_attempts = 0, rx_dns_attempts = 0, rx_dns_failovers = 0,
                      rx_dns_candidates = 0, rx_method = [] \<rparr>,
       cx_trace = None, cx_target = None, cx_dns_start = None, cx_concurrency = None,
       cx_inflight = None \<rparr>"

section \<open>Building the gateway\<close>

definition STRUCTURAL_HEADERS :: "string list" where
  "STRUCTURAL_HEADERS =
     [''host'', ''content-type'', ''content-length'', ''transfer-encoding'', ''accept'',
      ''accept-encoding'', ''accept-language'', ''connection'', ''expect'', ''range'']"

definition client_key_forward_as :: "resolved_config \<Rightarrow> string option" where
  "client_key_forward_as v = Option.bind (rv_client_keys v) rk_forward_as"

definition client_key_header :: "resolved_config \<Rightarrow> string option" where
  "client_key_header v = map_option rk_header (rv_client_keys v)"

definition forwardable_set :: "resolved_config \<Rightarrow> string set" where
  "forwardable_set v =
     set STRUCTURAL_HEADERS
     \<union> set (map to_ascii_lowercase (fw_headers (gc_forward (rv_raw v))))
     \<union> (if fw_authorization (gc_forward (rv_raw v)) then {''authorization''} else {})
     \<union> set (map fst (rv_injected v)) \<union> set (map fst (rv_machine_injected v))
     \<union> (case client_key_forward_as v of Some h \<Rightarrow> {h} | None \<Rightarrow> {})"

definition gateway_new ::
  "resolved_config \<Rightarrow> route_table \<Rightarrow> string set \<Rightarrow> (string \<Rightarrow> (identity, auth_error) result) option \<Rightarrow>
   registry \<Rightarrow> gateway" where
  "gateway_new v table upstreams verifier exts =
     \<lparr> gw_cfg = v, gw_table = table, gw_upstreams = upstreams, gw_verifier = verifier,
       gw_extensions = exts, gw_serves_machine = False, gw_forwardable = forwardable_set v,
       gw_sample_ratio = gc_sample_ratio (rv_raw v) \<rparr>"

definition for_machine_tier :: "gateway \<Rightarrow> gateway" where
  "for_machine_tier g = g \<lparr> gw_serves_machine := True \<rparr>"

abbreviation raw_cfg :: "gateway \<Rightarrow> gateway_config" where
  "raw_cfg g \<equiv> rv_raw (gw_cfg g)"

abbreviation fwd_cfg :: "gateway \<Rightarrow> forward_config" where
  "fwd_cfg g \<equiv> gc_forward (raw_cfg g)"

section \<open>Mounts and targets\<close>

fun strip_base_loop :: "string list \<Rightarrow> string \<Rightarrow> string option" where
  "strip_base_loop [] p = None"
| "strip_base_loop (base # bases) p =
     (if base = [] then Some p
      else case strip_prefix base p of
             None \<Rightarrow> strip_base_loop bases p
           | Some [] \<Rightarrow> Some []
           | Some (c # rest) \<Rightarrow> if c = CHR ''/'' then Some rest else strip_base_loop bases p)"

definition strip_base :: "gateway \<Rightarrow> string \<Rightarrow> string option" where
  "strip_base g request_path =
     strip_base_loop (rv_base_paths (gw_cfg g)) (trim_start_matches CHR ''/'' request_path)"

text \<open>The mount that matched, as \<open>gateway dev\<close> narrates it: the one \<open>strip_base\<close> took off.\<close>

definition mount_covers :: "string \<Rightarrow> string \<Rightarrow> bool" where
  "mount_covers p base =
     (base = [] \<or> p = base
      \<or> (case strip_prefix base p of Some r \<Rightarrow> starts_with ''/'' r | None \<Rightarrow> False))"

definition matched_mount :: "gateway \<Rightarrow> string \<Rightarrow> string" where
  "matched_mount g request_path =
     (case find (mount_covers (trim_start_matches CHR ''/'' request_path)) (rv_base_paths (gw_cfg g)) of
        Some base \<Rightarrow> base
      | None \<Rightarrow> [])"

lemma mount_covers_strip:
  "mount_covers p base \<longleftrightarrow>
     base = [] \<or> strip_prefix base p = Some [] \<or> (\<exists>r. strip_prefix base p = Some (CHR ''/'' # r))"
proof (cases "strip_prefix base p")
  case (Some r)
  then have "p = base @ r" by (simp add: strip_prefix_Some_iff)
  with Some show ?thesis by (cases r) (auto simp: mount_covers_def starts_with_def)
next
  case None
  then have "p \<noteq> base" by (metis append_Nil2 option.distinct(1) strip_prefix_Some_iff)
  with None show ?thesis by (simp add: mount_covers_def)
qed

lemma strip_base_loop_mount:
  "strip_base_loop bases p = Some rest \<Longrightarrow>
   \<exists>base. find (mount_covers p) bases = Some base
     \<and> (base = [] \<and> rest = p \<or> p = base \<and> rest = [] \<or> p = base @ ''/'' @ rest)"
proof (induction bases)
  case (Cons base bases)
  show ?case
  proof (cases "mount_covers p base")
    case True
    have self: "strip_prefix base base = Some []" by (simp add: strip_prefix_Some_iff)
    have "base = [] \<and> rest = p \<or> p = base \<and> rest = [] \<or> p = base @ ''/'' @ rest"
    proof (cases "strip_prefix base p")
      case None
      then show ?thesis using True Cons.prems by (auto simp: mount_covers_strip)
    next
      case (Some r)
      then have "p = base @ r" by (simp add: strip_prefix_Some_iff)
      with True Some Cons.prems self show ?thesis
        by (cases r) (auto simp: mount_covers_strip split: if_splits)
    qed
    with True show ?thesis by simp
  next
    case False
    then have "strip_base_loop bases p = Some rest"
      using Cons.prems by (auto simp: mount_covers_strip split: if_splits option.splits list.splits)
    with Cons.IH False show ?thesis by simp
  qed
qed simp

lemma matched_mount_correct:
  "strip_base g path = Some rest \<Longrightarrow>
   (let m = matched_mount g path; p = trim_start_matches CHR ''/'' path in
    m = [] \<and> rest = p \<or> p = m \<and> rest = [] \<or> p = m @ ''/'' @ rest)"
  by (auto simp: strip_base_def matched_mount_def Let_def dest!: strip_base_loop_mount)

definition upstream_uri ::
  "((char \<Rightarrow> bool) \<Rightarrow> string \<Rightarrow> string) \<Rightarrow> string \<Rightarrow> string \<Rightarrow> string option \<Rightarrow> string" where
  "upstream_uri pct_encode base_path path query =
     (if base_path \<noteq> [] then ''/'' @ base_path else [])
     @ (if path \<noteq> [] \<or> base_path = [] then ''/'' @ encode_path_segments pct_encode path else [])
     @ (case query of Some q \<Rightarrow> ''?'' @ q | None \<Rightarrow> [])"

text \<open>\<open>bucket\<close> is the low half of a random id, as \<open>u32\<close>.\<close>

definition sample :: "nat \<Rightarrow> rat \<Rightarrow> bool" where
  "sample bucket ratio =
     (if ratio \<ge> 1 then True
      else if ratio \<le> 0 then False
      else f64_round (of_nat bucket / of_nat U32_MAX) < ratio)"

definition is_forwardable :: "gateway \<Rightarrow> string \<Rightarrow> bool" where
  "is_forwardable g name = (name \<in> gw_forwardable g)"

text \<open>Every text value of a header.\<close>

definition text_values :: "header_map \<Rightarrow> string \<Rightarrow> string list" where
  "text_values h name = List.map_filter to_str (h name)"

section \<open>Replies\<close>

record reply =
  rp_status :: nat
  rp_headers :: "(string \<times> string) list"
  rp_body :: string

definition insert_header :: "string \<Rightarrow> string \<Rightarrow> (string \<times> string) list \<Rightarrow> (string \<times> string) list" where
  "insert_header name v hs = filter (\<lambda>(n, _). n \<noteq> name) hs @ [(name, v)]"

definition send_with_retry_after ::
  "nat \<Rightarrow> string \<Rightarrow> nat option \<Rightarrow> cors_headers option \<Rightarrow> reply" where
  "send_with_retry_after status body retry_after cors =
     (let h1 = insert_header ''content-length'' (show_nat (length body))
                 (insert_header ''content-type'' ''application/json'' []);
          h2 = fold (\<lambda>(n, v). insert_header n v) (case cors of Some hs \<Rightarrow> hs | None \<Rightarrow> []) h1;
          h3 = (case retry_after of
                  Some secs \<Rightarrow> insert_header ''retry-after'' (show_nat secs) h2 | None \<Rightarrow> h2) in
      \<lparr> rp_status = status, rp_headers = h3, rp_body = body \<rparr>)"

definition send :: "nat \<Rightarrow> string \<Rightarrow> reply" where
  "send status body =
     \<lparr> rp_status = status,
       rp_headers = insert_header ''content-length'' (show_nat (length body))
                      (insert_header ''content-type'' ''application/json'' []),
       rp_body = body \<rparr>"

definition send_preflight :: "cors_headers \<Rightarrow> reply" where
  "send_preflight headers =
     \<lparr> rp_status = 204,
       rp_headers = insert_header ''content-length'' ''0'' (fold (\<lambda>(n, v). insert_header n v) headers []),
       rp_body = [] \<rparr>"

section \<open>Filters as stages\<close>

text \<open>A stage of the request filter runs on the context and the state the requests share.
  It returns a value or the reply that ends the filter, as \<open>return Ok(true)\<close> does.\<close>

record 'r run =
  rn_ctx :: ctx
  rn_limiters :: "'r limiter list"
  rn_admission :: "admission option"
  rn_clock :: instant

type_synonym ('r, 'a) stage = "'r run \<Rightarrow> (reply + 'a) \<times> 'r run"

definition return_stage :: "'a \<Rightarrow> ('r, 'a) stage" where
  "return_stage a s = (Inr a, s)"

definition bind_stage :: "('r, 'a) stage \<Rightarrow> ('a \<Rightarrow> ('r, 'b) stage) \<Rightarrow> ('r, 'b) stage" where
  "bind_stage m f s = (case m s of (Inl r, t) \<Rightarrow> (Inl r, t) | (Inr a, t) \<Rightarrow> f a t)"

definition update_ctx :: "(ctx \<Rightarrow> ctx) \<Rightarrow> ('r, unit) stage" where
  "update_ctx f s = (Inr (), s \<lparr> rn_ctx := f (rn_ctx s) \<rparr>)"

definition reject :: "'r env \<Rightarrow> rejection \<Rightarrow> ('r, 'a) stage" where
  "reject env rej s =
     (Inl (send_with_retry_after (rj_status rej) (body_bytes (en_to_vec env) rej)
             (cx_retry_after (rn_ctx s)) (cx_cors (rn_ctx s))),
      s \<lparr> rn_ctx := (rn_ctx s) \<lparr> cx_status := rj_status rej \<rparr> \<rparr>)"

definition unless_reject :: "'r env \<Rightarrow> bool \<Rightarrow> rejection \<Rightarrow> ('r, unit) stage" where
  "unless_reject env ok rej = (if ok then return_stage () else reject env rej)"

lemma bind_stage_Inr_iff:
  "bind_stage m f s = (Inr b, u) \<longleftrightarrow> (\<exists>a t. m s = (Inr a, t) \<and> f a t = (Inr b, u))"
  by (auto simp: bind_stage_def split: prod.splits sum.splits)

lemma bind_stage_Inl_iff:
  "bind_stage m f s = (Inl r, u) \<longleftrightarrow>
     m s = (Inl r, u) \<or> (\<exists>a t. m s = (Inr a, t) \<and> f a t = (Inl r, u))"
  by (auto simp: bind_stage_def split: prod.splits sum.splits)

lemma return_stage_iff [simp]:
  "return_stage a s = (Inr b, t) \<longleftrightarrow> b = a \<and> t = s" "return_stage a s \<noteq> (Inl r, t)"
  by (auto simp: return_stage_def)

lemma reject_not_Inr [simp]: "reject env rej s \<noteq> (Inr a, t)"
  by (simp add: reject_def)

lemma unless_reject_Inr [simp]: "unless_reject env ok rej s = (Inr u, t) \<longleftrightarrow> ok \<and> t = s"
  by (auto simp: unless_reject_def)

lemma update_ctx_iff [simp]:
  "update_ctx f s = (Inr u, t) \<longleftrightarrow> t = s \<lparr> rn_ctx := f (rn_ctx s) \<rparr>" "update_ctx f s \<noteq> (Inl r, t)"
  by (auto simp: update_ctx_def)

end
