(* ===== verification/Interpolate.thy ===== *)
theory Interpolate
  imports Headers
begin

text \<open>
  Expansion of \<open>${VAR}\<close> in the text of a configuration document (\<open>config/interpolate.rs\<close>).

  Every character the code looks for is ASCII, so the scan is over the bytes of the text.
  The environment is the function \<open>lookup\<close>; an inspection replaces every reference by a
  marker with the given prefix instead of its value.
\<close>

section \<open>Names and values\<close>

definition is_structurally_safe :: "string \<Rightarrow> bool" where
  "is_structurally_safe v = (\<not> list_ex is_control (utf8_chars v))"

definition is_valid_name :: "string \<Rightarrow> bool" where
  "is_valid_name name =
     (case name of
        [] \<Rightarrow> False
      | c # cs \<Rightarrow>
          (is_ascii_alphabetic c \<or> c = CHR ''_'')
          \<and> list_all (\<lambda>c. is_ascii_alphanumeric c \<or> c = CHR ''_'') cs)"

datatype interpolate_error =
    Unset string nat
  | Unterminated nat
  | EmptyName nat
  | BadName string nat
  | ControlCharacter string nat

record interpolated =
  ip_text :: string
  ip_referenced :: "string list"
  ip_defaulted :: "string list"
  ip_placeheld :: "string list"

datatype variable_state = VSet | VDefaulted | VRequired | VInvalid

record variable_reference =
  vr_name :: string
  vr_line :: nat
  vr_column :: nat
  vr_has_default :: bool
  vr_state :: variable_state
  vr_marker :: string
  vr_selected :: "string option"

section \<open>Lines\<close>

abbreviation newline :: char where "newline \<equiv> CHR 0x0A"

text \<open>\<open>comment_start\<close>: single and double quotes, whether the last character was a space, and
  an escape inside double quotes.\<close>

fun comment_scan :: "bool \<Rightarrow> bool \<Rightarrow> bool \<Rightarrow> bool \<Rightarrow> nat \<Rightarrow> string \<Rightarrow> nat option" where
  "comment_scan in_single in_double prev_space escaped i [] = None"
| "comment_scan in_single in_double prev_space escaped i (c # cs) =
     (if escaped then comment_scan in_single in_double False False (Suc i) cs
      else
        let space = (c = CHR '' '' \<or> c = CHR 0x09) in
        if c = CHR 0x5C \<and> in_double then comment_scan in_single in_double space True (Suc i) cs
        else if c = CHR 0x27 \<and> \<not> in_double then comment_scan (\<not> in_single) in_double space False (Suc i) cs
        else if c = CHR 0x22 \<and> \<not> in_single then comment_scan in_single (\<not> in_double) space False (Suc i) cs
        else if c = CHR ''#'' \<and> \<not> in_single \<and> \<not> in_double \<and> prev_space then Some i
        else comment_scan in_single in_double space False (Suc i) cs)"

definition comment_start :: "string \<Rightarrow> nat option" where
  "comment_start line = comment_scan False False True False 0 line"

definition indent_of :: "string \<Rightarrow> nat" where
  "indent_of line = length line - length (trim_start line)"

definition opens_block_scalar :: "string \<Rightarrow> bool" where
  "opens_block_scalar code =
     (case rsplit_once CHR '':'' (trim_end code) of
        None \<Rightarrow> False
      | Some (_, rest) \<Rightarrow>
          (let r = trim rest in r \<noteq> [] \<and> (starts_with ''|'' r \<or> starts_with ''>'' r)))"

section \<open>One fragment\<close>

record expansion =
  ex_referenced :: "string list"
  ex_defaulted :: "string list"
  ex_placeheld :: "string list"
  ex_occurrences :: "variable_reference list"

record expand_env =
  ee_lookup :: "string \<Rightarrow> string option"
  ee_fallback :: "(string \<Rightarrow> string) option"
  ee_prefix :: "string option"

definition note_name :: "string list \<Rightarrow> string \<Rightarrow> string list" where
  "note_name names name = (if name \<in> set names then names else names @ [name])"

definition nonblank :: "string option \<Rightarrow> string option" where
  "nonblank v = Option.bind (map_option trim v) (\<lambda>s. if s \<noteq> [] then Some s else None)"

definition occurrence ::
  "string \<Rightarrow> string option \<Rightarrow> string option \<Rightarrow> nat \<Rightarrow> nat \<Rightarrow> string \<Rightarrow> variable_reference" where
  "occurrence name resolved dflt line column marker =
     (let state = (case (resolved, dflt) of
                     (Some _, _) \<Rightarrow> VSet | (None, Some _) \<Rightarrow> VDefaulted | (None, None) \<Rightarrow> VRequired);
          selected = (case resolved of Some v \<Rightarrow> Some v | None \<Rightarrow> dflt);
          invalid = (case selected of Some v \<Rightarrow> \<not> is_structurally_safe v | None \<Rightarrow> False) in
      \<lparr> vr_name = name, vr_line = line, vr_column = column, vr_has_default = (dflt \<noteq> None),
        vr_state = (if invalid then VInvalid else state), vr_marker = marker,
        vr_selected = (if invalid then None else selected) \<rparr>)"

text \<open>The value of a reference, and what is noted of it.\<close>

definition choose_value ::
  "expand_env \<Rightarrow> nat \<Rightarrow> string \<Rightarrow> string option \<Rightarrow> string option \<Rightarrow> expansion \<Rightarrow>
   (string \<times> expansion, interpolate_error) result" where
  "choose_value env line name resolved dflt ex =
     (case resolved of
        Some v \<Rightarrow> Inr (v, ex)
      | None \<Rightarrow>
          (case dflt of
             Some d \<Rightarrow> Inr (d, ex \<lparr> ex_defaulted := note_name (ex_defaulted ex) name \<rparr>)
           | None \<Rightarrow>
               (case ee_fallback env of
                  Some f \<Rightarrow> Inr (f name, ex \<lparr> ex_placeheld := note_name (ex_placeheld ex) name \<rparr>)
                | None \<Rightarrow> Inl (Unset name line))))"

definition expand_reference ::
  "expand_env \<Rightarrow> nat \<Rightarrow> nat \<Rightarrow> string \<Rightarrow> expansion \<Rightarrow> (string \<times> expansion, interpolate_error) result" where
  "expand_reference env line column body ex =
     (let (name, dflt) = (case split_once_str '':-'' body of
                               Some (n, d) \<Rightarrow> (trim n, Some d) | None \<Rightarrow> (trim body, None)) in
      if name = [] then Inl (EmptyName line)
      else if \<not> is_valid_name name then Inl (BadName name line)
      else
        let ex1 = ex \<lparr> ex_referenced := note_name (ex_referenced ex) name \<rparr>;
            resolved = nonblank (ee_lookup env name) in
        case ee_prefix env of
          Some prefix \<Rightarrow>
            (let marker = prefix @ show_nat (length (ex_occurrences ex1)) @ ''-end'' in
             Inr (marker, ex1 \<lparr> ex_occurrences := ex_occurrences ex1
                                  @ [occurrence name resolved dflt line column marker] \<rparr>))
        | None \<Rightarrow>
            and_then (choose_value env line name resolved dflt ex1) (\<lambda>(v, ex2).
              if \<not> is_structurally_safe v then Inl (ControlCharacter name line) else Inr (v, ex2)))"

text \<open>\<open>expand_into\<close>: \<open>seen\<close> is the part of the fragment before the rest that is scanned.\<close>

function expand_into ::
  "expand_env \<Rightarrow> nat \<Rightarrow> string \<Rightarrow> string \<Rightarrow> expansion \<Rightarrow> (string \<times> expansion, interpolate_error) result" where
  "expand_into env line seen [] ex = Inr ([], ex)"
| "expand_into env line seen (c # cs) ex =
     (if c \<noteq> CHR ''$'' then
        and_then (expand_into env line (seen @ [c]) cs ex) (\<lambda>(out, ex'). Inr (c # out, ex'))
      else case cs of
        [] \<Rightarrow> Inr ([c], ex)
      | d # ds \<Rightarrow>
          if d = CHR ''$'' then
            and_then (expand_into env line (seen @ [c, d]) ds ex) (\<lambda>(out, ex'). Inr (CHR ''$'' # out, ex'))
          else if d = CHR 0x7B then
            (let body = takeWhile (\<lambda>x. x \<noteq> CHR 0x7D) ds; rest = dropWhile (\<lambda>x. x \<noteq> CHR 0x7D) ds in
             if rest = [] then Inl (Unterminated line)
             else
               and_then (expand_reference env line (Suc (length (utf8_chars seen))) body ex) (\<lambda>(v, ex1).
               and_then (expand_into env line (seen @ [c, d] @ body @ [CHR 0x7D]) (tl rest) ex1)
                 (\<lambda>(out, ex'). Inr (v @ out, ex'))))
          else and_then (expand_into env line (seen @ [c]) cs ex) (\<lambda>(out, ex'). Inr (CHR ''$'' # out, ex')))"
  by pat_completeness auto
termination
  by (relation "measure (\<lambda>(_, _, _, cs, _). length cs)")
    (auto simp: less_Suc_eq_le intro: order_trans [OF diff_le_self] le_SucI length_dropWhile_le)

section \<open>The document\<close>

text \<open>The lines of a document; \<open>block\<close> is the indentation of the block scalar the line is in.\<close>

definition leave_block :: "nat option \<Rightarrow> string \<Rightarrow> nat option" where
  "leave_block block line =
     (case block of
        None \<Rightarrow> None
      | Some block_indent \<Rightarrow>
          if trim line \<noteq> [] \<and> indent_of line \<le> block_indent then None else Some block_indent)"

definition split_comment :: "nat option \<Rightarrow> string \<Rightarrow> string \<times> string" where
  "split_comment block line =
     (case block of
        Some _ \<Rightarrow> (line, [])
      | None \<Rightarrow>
          (case comment_start line of Some i \<Rightarrow> (take i line, drop i line) | None \<Rightarrow> (line, [])))"

fun expand_lines ::
  "expand_env \<Rightarrow> nat \<Rightarrow> nat option \<Rightarrow> string list \<Rightarrow> expansion \<Rightarrow>
   (string list \<times> expansion, interpolate_error) result" where
  "expand_lines env line_no block [] ex = Inr ([], ex)"
| "expand_lines env line_no block (raw # raws) ex =
     (let block1 = leave_block block raw;
          (code, comment) = split_comment block1 raw;
          block2 = (if block1 = None \<and> opens_block_scalar code then Some (indent_of raw) else block1) in
      and_then (expand_into env line_no [] code ex) (\<lambda>(out, ex1).
      and_then (expand_lines env (Suc line_no) block2 raws ex1) (\<lambda>(outs, ex2).
        Inr ((out @ comment) # outs, ex2))))"

text \<open>Every line but the last is followed by a newline; with one at the end of the text the
  last line is empty, and the newline pushed after it is popped again.\<close>

definition process ::
  "expand_env \<Rightarrow> string \<Rightarrow> (interpolated \<times> variable_reference list, interpolate_error) result" where
  "process env text =
     and_then (expand_lines env 1 None (split_on newline text)
                 \<lparr> ex_referenced = [], ex_defaulted = [], ex_placeheld = [], ex_occurrences = [] \<rparr>)
       (\<lambda>(lines, ex).
          let out = (if ends_with [newline] text
                     then butlast (concat (map (\<lambda>l. l @ [newline]) lines))
                     else join [newline] lines) in
          Inr (\<lparr> ip_text = out, ip_referenced = ex_referenced ex, ip_defaulted = ex_defaulted ex,
                 ip_placeheld = ex_placeheld ex \<rparr>, ex_occurrences ex))"

definition interpolate_with_fallback ::
  "string \<Rightarrow> (string \<Rightarrow> string option) \<Rightarrow> (string \<Rightarrow> string) option \<Rightarrow> (interpolated, interpolate_error) result" where
  "interpolate_with_fallback text lookup fallback =
     and_then (process \<lparr> ee_lookup = lookup, ee_fallback = fallback, ee_prefix = None \<rparr> text)
       (\<lambda>(expanded, _). Inr expanded)"

definition interpolate :: "string \<Rightarrow> (string \<Rightarrow> string option) \<Rightarrow> (interpolated, interpolate_error) result" where
  "interpolate text lookup = interpolate_with_fallback text lookup None"

section \<open>Inspection\<close>

record inspection =
  is_masked :: string
  is_references :: "variable_reference list"

text \<open>The prefix grows until the text does not contain it; a text is not as long as itself
  and one more.\<close>

fun free_prefix :: "nat \<Rightarrow> string \<Rightarrow> string \<Rightarrow> string" where
  "free_prefix 0 text prefix = prefix"
| "free_prefix (Suc fuel) text prefix =
     (if contains_str prefix text then free_prefix fuel text (prefix @ ''x'') else prefix)"

definition inspect_text ::
  "string \<Rightarrow> (string \<Rightarrow> string option) \<Rightarrow> (inspection, interpolate_error) result" where
  "inspect_text text lookup =
     and_then (process \<lparr> ee_lookup = lookup, ee_fallback = None,
                         ee_prefix = Some (free_prefix (Suc (length text)) text ''lagos-vars-placeholder-'') \<rparr> text)
       (\<lambda>(expanded, references). Inr \<lparr> is_masked = ip_text expanded, is_references = references \<rparr>)"

definition contains_marker :: "inspection \<Rightarrow> string \<Rightarrow> bool" where
  "contains_marker insp scalar = list_ex (\<lambda>r. contains_str (vr_marker r) scalar) (is_references insp)"

section \<open>Characters of well-formed text\<close>

definition wf_char :: "string \<Rightarrow> bool" where
  "wf_char ch =
     (case ch of [] \<Rightarrow> False | a # t \<Rightarrow> length t = utf8_width a - 1 \<and> (\<forall>b\<in>set t. cont_byte b))"

lemma utf8_chars_wf: "is_utf8 s \<Longrightarrow> \<forall>ch\<in>set (utf8_chars s). wf_char ch"
proof (induction s rule: utf8_chars.induct)
  case (2 x xs)
  have "wf_char (x # take (utf8_width x - 1) xs) \<and> is_utf8 (drop (utf8_width x - 1) xs)"
    using "2.prems"
    by (auto simp: wf_char_def utf8_width_def second_ok_cont split: if_splits list.splits)
  with "2.IH" show ?case by simp
qed simp

lemma utf8_chars_concat: "\<forall>ch\<in>set chs. wf_char ch \<Longrightarrow> utf8_chars (concat chs) = chs"
proof (induction chs)
  case (Cons ch chs)
  then obtain a t where "ch = a # t" "length t = utf8_width a - 1"
    by (cases ch) (auto simp: wf_char_def)
  with Cons show ?case by simp
qed simp

lemma safe_no_newline:
  assumes "is_structurally_safe v" "\<forall>ch\<in>set (utf8_chars v). wf_char ch"
  shows "newline \<notin> set v"
proof
  assume "newline \<in> set v"
  then have "newline \<in> set (concat (utf8_chars v))" by simp
  then obtain ch where ch: "ch \<in> set (utf8_chars v)" "newline \<in> set ch"
    by (simp only: set_concat UN_iff) blast
  then have "wf_char ch" using assms(2) by blast
  then obtain a t where at: "ch = a # t" "length t = utf8_width a - 1" "\<forall>b\<in>set t. cont_byte b"
    by (cases ch) (auto simp: wf_char_def)
  then have "a = newline" using ch(2) by (auto simp: cont_byte_def)
  then have "ch = [newline]" using at by (simp add: utf8_width_def)
  then show False using assms(1) ch(1) by (auto simp: is_structurally_safe_def list_ex_iff is_control_def)
qed

lemma utf8_chars_trim:
  assumes "is_utf8 v"
  shows "\<forall>ch\<in>set (utf8_chars (trim v)). wf_char ch"
proof -
  let ?t = "rev (dropWhile is_whitespace (rev (dropWhile is_whitespace (utf8_chars v))))"
  have "set ?t \<subseteq> set (utf8_chars v)" by (auto dest!: set_dropWhileD)
  then have "\<forall>ch\<in>set ?t. wf_char ch" using utf8_chars_wf [OF assms] by blast
  then show ?thesis unfolding trim_def by (simp only: utf8_chars_concat)
qed

section \<open>Expansion cannot add structure\<close>

text \<open>Environment variables and fallbacks are Rust strings.\<close>

definition env_utf8 :: "expand_env \<Rightarrow> bool" where
  "env_utf8 env =
     ((\<forall>n v. ee_lookup env n = Some v \<longrightarrow> is_utf8 v) \<and> (\<forall>f n. ee_fallback env = Some f \<longrightarrow> is_utf8 (f n)))"

definition refs_ok :: "expand_env \<Rightarrow> expansion \<Rightarrow> bool" where
  "refs_ok env ex =
     ((\<forall>n\<in>set (ex_referenced ex). is_valid_name n
        \<and> (nonblank (ee_lookup env n) \<noteq> None \<or> n \<in> set (ex_defaulted ex) \<or> n \<in> set (ex_placeheld ex)))
      \<and> (ee_fallback env = None \<longrightarrow> ex_placeheld ex = []))"

lemma note_name_set [simp]: "set (note_name names n) = insert n (set names)"
  by (auto simp: note_name_def)

lemma expand_reference_safe:
  assumes "expand_reference env line column body ex = Inr (v, ex')" "ee_prefix env = None"
    and "env_utf8 env" "is_utf8 body"
  shows "newline \<notin> set v" "refs_ok env ex \<Longrightarrow> refs_ok env ex'"
proof -
  define nd where "nd = (case split_once_str '':-'' body of
      Some (n, d) \<Rightarrow> (trim n, Some d) | None \<Rightarrow> (trim body, None))"
  obtain name dflt where nd': "nd = (name, dflt)" by (cases nd)
  have d: "is_utf8 d" if "dflt = Some d" for d
  proof -
    from that nd' obtain n where "body = n @ '':-'' @ d"
      by (auto simp: nd_def dest!: split_once_str_SomeD split: option.splits)
    then have "is_utf8 ((n @ '':'') @ CHR ''-'' # d)" using assms(4) by simp
    then show ?thesis using is_utf8_split_sep [of "n @ '':''" "CHR ''-''" d] by simp
  qed
  let ?ex1 = "ex \<lparr> ex_referenced := note_name (ex_referenced ex) name \<rparr>"
  have e: "expand_reference env line column body ex =
      (if name = [] then Inl (EmptyName line) else if \<not> is_valid_name name then Inl (BadName name line)
       else and_then (choose_value env line name (nonblank (ee_lookup env name)) dflt ?ex1) (\<lambda>(v, ex2).
              if \<not> is_structurally_safe v then Inl (ControlCharacter name line) else Inr (v, ex2)))"
    by (simp only: expand_reference_def nd_def [symmetric] nd' prod.case Let_def assms(2) option.case)
  from assms(1) have c: "is_valid_name name" "is_structurally_safe v"
    "choose_value env line name (nonblank (ee_lookup env name)) dflt ?ex1 = Inr (v, ex')"
    unfolding e by (auto simp: and_then_Inr_iff split: if_splits)
  from c(3) consider "nonblank (ee_lookup env name) = Some v" "ex' = ?ex1"
    | "dflt = Some v" "ex' = ?ex1 \<lparr> ex_defaulted := note_name (ex_defaulted ex) name \<rparr>"
    | f where "ee_fallback env = Some f" "v = f name"
        "ex' = ?ex1 \<lparr> ex_placeheld := note_name (ex_placeheld ex) name \<rparr>"
    by (auto simp: choose_value_def split: option.splits)
  note cases = this
  show "newline \<notin> set v"
    using cases
  proof cases
    case 1
    then obtain w where "ee_lookup env name = Some w" "v = trim w"
      by (auto simp: nonblank_def bind_eq_Some_conv split: if_splits)
    then show ?thesis using assms(3) safe_no_newline [OF c(2)] utf8_chars_trim
      by (auto simp: env_utf8_def)
  next
    case 2
    then show ?thesis using safe_no_newline [OF c(2)] utf8_chars_wf [OF d] by blast
  next
    case 3
    then have "is_utf8 v" using assms(3) by (simp add: env_utf8_def)
    then show ?thesis using safe_no_newline [OF c(2)] utf8_chars_wf by blast
  qed
  show "refs_ok env ex'" if "refs_ok env ex"
    using cases that c(1) by cases (auto simp: refs_ok_def)
qed

lemma expand_into_steps:
  "c \<noteq> CHR ''$'' \<Longrightarrow> expand_into env line seen (c # cs) ex =
     and_then (expand_into env line (seen @ [c]) cs ex) (\<lambda>(out, ex'). Inr (c # out, ex'))"
  "expand_into env line seen [CHR ''$''] ex = Inr ([CHR ''$''], ex)"
  "expand_into env line seen (CHR ''$'' # CHR ''$'' # ds) ex =
     and_then (expand_into env line (seen @ ''$$'') ds ex) (\<lambda>(out, ex'). Inr (CHR ''$'' # out, ex'))"
  "d \<noteq> CHR ''$'' \<Longrightarrow> d \<noteq> CHR 0x7B \<Longrightarrow> expand_into env line seen (CHR ''$'' # d # ds) ex =
     and_then (expand_into env line (seen @ ''$'') (d # ds) ex) (\<lambda>(out, ex'). Inr (CHR ''$'' # out, ex'))"
  by (subst expand_into.simps(2); simp)+

lemma expand_into_ref:
  assumes "body = takeWhile (\<lambda>x. x \<noteq> CHR 0x7D) ds" "rest = dropWhile (\<lambda>x. x \<noteq> CHR 0x7D) ds"
  shows "expand_into env line seen (CHR ''$'' # CHR 0x7B # ds) ex =
    (if rest = [] then Inl (Unterminated line)
     else and_then (expand_reference env line (Suc (length (utf8_chars seen))) body ex) (\<lambda>(v, ex1).
          and_then (expand_into env line (seen @ [CHR ''$'', CHR 0x7B] @ body @ [CHR 0x7D]) (tl rest) ex1)
            (\<lambda>(out, ex'). Inr (v @ out, ex'))))"
  unfolding assms by (subst expand_into.simps(2)) (simp add: Let_def)

lemma expand_into_refD:
  assumes e: "expand_into env line seen (CHR ''$'' # CHR 0x7B # ds) ex = Inr (out, ex')"
    and b: "body = takeWhile (\<lambda>x. x \<noteq> CHR 0x7D) ds" and r: "rest = dropWhile (\<lambda>x. x \<noteq> CHR 0x7D) ds"
  shows "rest \<noteq> [] \<and> (\<exists>v ex1 out'. expand_reference env line (Suc (length (utf8_chars seen))) body ex = Inr (v, ex1)
    \<and> expand_into env line (seen @ [CHR ''$'', CHR 0x7B] @ body @ [CHR 0x7D]) (tl rest) ex1 = Inr (out', ex')
    \<and> out = v @ out')"
proof -
  have ne: "rest \<noteq> []" using e expand_into_ref [OF b r, of env line seen ex] by (cases "rest = []") simp_all
  let ?k = "\<lambda>v (out, ex'). Inr (v @ out, ex')"
  from e ne obtain v ex1 where 1: "expand_reference env line (Suc (length (utf8_chars seen))) body ex = Inr (v, ex1)"
    and "and_then (expand_into env line (seen @ [CHR ''$'', CHR 0x7B] @ body @ [CHR 0x7D]) (tl rest) ex1) (?k v)
       = Inr (out, ex')"
    unfolding expand_into_ref [OF b r] if_not_P [OF ne] and_then_Inr_iff [where r = "expand_reference _ _ _ _ _"]
    by (auto split: prod.splits)
  then show ?thesis using ne by (auto simp: and_then_Inr_iff)
qed

declare expand_into.simps(2) [simp del]

lemma expand_into_safe:
  "expand_into env line seen cs ex = Inr (out, ex') \<Longrightarrow> ee_prefix env = None \<Longrightarrow> env_utf8 env \<Longrightarrow>
   is_utf8 (seen @ cs) \<Longrightarrow> newline \<notin> set cs \<Longrightarrow>
   newline \<notin> set out \<and> (refs_ok env ex \<longrightarrow> refs_ok env ex') \<and> (CHR ''$'' \<notin> set cs \<longrightarrow> out = cs)"
proof (induction env line seen cs ex arbitrary: out ex' rule: expand_into.induct)
  case (2 env line seen c cs ex)
  show ?case
  proof (cases "c = CHR ''$''")
    case False
    with "2.prems"(1) obtain out' where "expand_into env line (seen @ [c]) cs ex = Inr (out', ex')" "out = c # out'"
      by (auto simp: and_then_Inr_iff expand_into_steps(1))
    with "2.IH"(1) [OF False, of out' ex'] "2.prems" show ?thesis by auto
  next
    case True
    show ?thesis
    proof (cases cs)
      case Nil
      with True "2.prems" show ?thesis by (auto simp: expand_into_steps(2))
    next
      case (Cons d ds)
      consider "d = CHR ''$''" | "d = CHR 0x7B" | "d \<noteq> CHR ''$''" "d \<noteq> CHR 0x7B" by blast
      then show ?thesis
      proof cases
        case 1
        with "2.prems"(1) True Cons obtain out' where o:
          "expand_into env line (seen @ [c, d]) ds ex = Inr (out', ex')" "out = CHR ''$'' # out'"
          by (auto simp: and_then_Inr_iff expand_into_steps(3))
        have "newline \<notin> set out' \<and> (refs_ok env ex \<longrightarrow> refs_ok env ex') \<and> (CHR ''$'' \<notin> set ds \<longrightarrow> out' = ds)"
          by (rule "2.IH"(2) [OF _ Cons 1 o(1)]) (use True Cons "2.prems" in auto)
        with o True Cons show ?thesis by auto
      next
        case 2
        define body where "body = takeWhile (\<lambda>x. x \<noteq> CHR 0x7D) ds"
        define rest where "rest = dropWhile (\<lambda>x. x \<noteq> CHR 0x7D) ds"
        have pre: "expand_into env line seen (CHR ''$'' # CHR 0x7B # ds) ex = Inr (out, ex')"
          using "2.prems"(1) unfolding True Cons 2 .
        obtain v ex1 out' where st: "rest \<noteq> []"
          "expand_reference env line (Suc (length (utf8_chars seen))) body ex = Inr (v, ex1)"
          "expand_into env line (seen @ [CHR ''$'', CHR 0x7B] @ body @ [CHR 0x7D]) (tl rest) ex1 = Inr (out', ex')"
          "out = v @ out'"
          using expand_into_refD [OF pre body_def rest_def] by (elim conjE exE) (rule that)
        have "hd rest = CHR 0x7D" using hd_dropWhile [OF st(1) [unfolded rest_def]] unfolding rest_def by simp
        then have ds: "ds = body @ CHR 0x7D # tl rest"
          using st(1) by (metis body_def rest_def list.collapse takeWhile_dropWhile_id)
        have u: "is_utf8 (seen @ c # d # ds)" using "2.prems"(4) Cons by simp
        then have "is_utf8 ((seen @ [c]) @ d # ds)" by simp
        then have "is_utf8 ds" using is_utf8_split_sep [of "seen @ [c]" d ds] 2 by simp
        then have "is_utf8 body" using is_utf8_split_sep [of body "CHR 0x7D" "tl rest"] ds by simp
        note r = expand_reference_safe [OF st(2) "2.prems"(2,3) this]
        have nl: "newline \<notin> set (tl rest)"
          using "2.prems"(5) unfolding Cons by (subst (asm) ds) simp
        have IH: "newline \<notin> set out' \<and> (refs_ok env ex1 \<longrightarrow> refs_ok env ex') \<and> (CHR ''$'' \<notin> set (tl rest) \<longrightarrow> out' = tl rest)"
        proof (rule "2.IH"(3) [OF _ Cons _ 2 body_def rest_def st(1) _ "2.prems"(2,3)])
          show "is_utf8 ((seen @ [c, d] @ body @ [CHR 0x7D]) @ tl rest)" using u ds by simp
          show "expand_into env line (seen @ [c, d] @ body @ [CHR 0x7D]) (tl rest) ex1 = Inr (out', ex')"
            using st(3) unfolding True 2 .
        qed (use True 2 nl in simp_all)
        show ?thesis using r IH st(4) True by auto
      next
        case 3
        with "2.prems"(1) True Cons obtain out' where o:
          "expand_into env line (seen @ [c]) cs ex = Inr (out', ex')" "out = CHR ''$'' # out'"
          by (auto simp: and_then_Inr_iff expand_into_steps(4))
        have "newline \<notin> set out' \<and> (refs_ok env ex \<longrightarrow> refs_ok env ex') \<and> (CHR ''$'' \<notin> set cs \<longrightarrow> out' = cs)"
          by (rule "2.IH"(4) [OF _ Cons 3 o(1)]) (use True "2.prems" in auto)
        with o True show ?thesis by auto
      qed
    qed
  qed
qed simp

lemma split_comment_append: "split_comment block line = (code, comment) \<Longrightarrow> line = code @ comment"
  by (auto simp: split_comment_def split: option.splits)

lemma comment_scan_at:
  "comment_scan a b sp esc i cs = Some j \<Longrightarrow> i \<le> j \<and> j - i < length cs \<and> cs ! (j - i) = CHR ''#''"
proof (induction a b sp esc i cs rule: comment_scan.induct)
  case (2 a b sp esc i c cs)
  then have "comment_scan a b sp esc i (c # cs) = Some j" by simp
  then consider "j = i" "c = CHR ''#''"
    | "Suc i \<le> j \<and> j - Suc i < length cs \<and> cs ! (j - Suc i) = CHR ''#''"
    using "2.IH" by (auto simp: Let_def split: if_splits)
  then show ?case
  proof cases
    case 2
    then have "j - i = Suc (j - Suc i)" "Suc i \<le> j" by auto
    with 2 show ?thesis by auto
  qed simp
qed simp

text \<open>A comment starts with \<open>#\<close>, an ASCII character, so the code before it is well formed.\<close>

lemma split_comment_utf8:
  assumes "split_comment block line = (code, comment)" "is_utf8 line"
  shows "is_utf8 code"
proof (cases "comment = []")
  case True
  with split_comment_append [OF assms(1)] assms(2) show ?thesis by simp
next
  case False
  then obtain i where i: "comment_start line = Some i" "code = take i line" "comment = drop i line"
    using assms(1) by (auto simp: split_comment_def split: option.splits)
  then have "i < length line" "line ! i = CHR ''#''"
    using comment_scan_at [of _ _ _ _ 0 line i] by (auto simp: comment_start_def)
  then have "line = code @ CHR ''#'' # drop (Suc i) line" using i(2) id_take_nth_drop [of i line] by simp
  then have "is_utf8 (code @ CHR ''#'' # drop (Suc i) line)" using assms(2) by metis
  then show ?thesis using is_utf8_split_sep [of code "CHR ''#''"] by simp
qed

lemma expand_lines_safe:
  "expand_lines env n block raws ex = Inr (outs, ex') \<Longrightarrow> ee_prefix env = None \<Longrightarrow> env_utf8 env \<Longrightarrow>
   \<forall>raw\<in>set raws. is_utf8 raw \<and> newline \<notin> set raw \<Longrightarrow>
   length outs = length raws \<and> (\<forall>out\<in>set outs. newline \<notin> set out) \<and> (refs_ok env ex \<longrightarrow> refs_ok env ex')
   \<and> ((\<forall>raw\<in>set raws. CHR ''$'' \<notin> set raw) \<longrightarrow> outs = raws)"
proof (induction raws arbitrary: n block ex outs)
  case (Cons raw raws)
  obtain code comment where c: "split_comment (leave_block block raw) raw = (code, comment)"
    by (cases "split_comment (leave_block block raw) raw")
  from Cons.prems(1) c obtain out ex1 outs' b' where st:
    "expand_into env n [] code ex = Inr (out, ex1)" "expand_lines env (Suc n) b' raws ex1 = Inr (outs', ex')"
    "outs = (out @ comment) # outs'"
    by (auto simp: Let_def and_then_Inr_iff)
  have raw: "raw = code @ comment" by (rule split_comment_append [OF c])
  have code: "is_utf8 code" by (rule split_comment_utf8 [OF c]) (use Cons.prems(4) in simp)
  have nl: "newline \<notin> set code" "newline \<notin> set comment" using Cons.prems(4) raw by auto
  have one: "newline \<notin> set out \<and> (refs_ok env ex \<longrightarrow> refs_ok env ex1) \<and> (CHR ''$'' \<notin> set code \<longrightarrow> out = code)"
    using expand_into_safe [OF st(1) Cons.prems(2,3)] code nl(1) by simp
  have rest: "length outs' = length raws \<and> (\<forall>out\<in>set outs'. newline \<notin> set out)
      \<and> (refs_ok env ex1 \<longrightarrow> refs_ok env ex') \<and> ((\<forall>raw\<in>set raws. CHR ''$'' \<notin> set raw) \<longrightarrow> outs' = raws)"
    using Cons.IH [OF st(2) Cons.prems(2,3)] Cons.prems(4) by simp
  show ?case using one rest nl(2) st(3) raw by auto
qed simp

lemma concat_newlines: "lines \<noteq> [] \<Longrightarrow> butlast (concat (map (\<lambda>l. l @ [newline]) lines)) = join [newline] lines"
proof (induction lines)
  case (Cons l lines)
  show ?case
  proof (cases lines)
    case (Cons m ms)
    then have "concat (map (\<lambda>l. l @ [newline]) lines) \<noteq> []" by simp
    with Cons Cons.IH show ?thesis by (simp add: butlast_append)
  qed simp
qed simp

text \<open>C28: substitution cannot change the structure of a document. When a document expands, it
  has exactly as many lines as before, so no value of the environment, default or fallback
  introduces one; a document without a dollar sign is unchanged; every name it refers to is a
  valid variable name whose value is set and not blank, or came from its default; and without
  a fallback nothing is made up.\<close>

theorem expansion_keeps_structure:
  assumes "interpolate_with_fallback text lookup fallback = Inr r" "is_utf8 text"
    and "\<And>n v. lookup n = Some v \<Longrightarrow> is_utf8 v" "\<And>f n. fallback = Some f \<Longrightarrow> is_utf8 (f n)"
  shows "length (split_on newline (ip_text r)) = length (split_on newline text)
    \<and> (CHR ''$'' \<notin> set text \<longrightarrow> ip_text r = text)
    \<and> (\<forall>n\<in>set (ip_referenced r). is_valid_name n
         \<and> (nonblank (lookup n) \<noteq> None \<or> n \<in> set (ip_defaulted r) \<or> n \<in> set (ip_placeheld r)))
    \<and> (fallback = None \<longrightarrow> ip_placeheld r = [])"
proof -
  let ?env = "\<lparr> ee_lookup = lookup, ee_fallback = fallback, ee_prefix = None \<rparr>"
  let ?ex = "\<lparr> ex_referenced = [], ex_defaulted = [], ex_placeheld = [], ex_occurrences = [] \<rparr>"
  let ?raws = "split_on newline text"
  obtain outs ex where st: "expand_lines ?env 1 None ?raws ?ex = Inr (outs, ex)"
    and r: "ip_text r = (if ends_with [newline] text then butlast (concat (map (\<lambda>l. l @ [newline]) outs))
        else join [newline] outs)" "ip_referenced r = ex_referenced ex" "ip_defaulted r = ex_defaulted ex"
      "ip_placeheld r = ex_placeheld ex"
    using assms(1) by (auto simp: interpolate_with_fallback_def process_def and_then_Inr_iff Let_def)
  have env: "env_utf8 ?env" using assms(3,4) by (simp add: env_utf8_def)
  have raws: "\<forall>raw\<in>set ?raws. is_utf8 raw \<and> newline \<notin> set raw"
    using is_utf8_split_on [OF assms(2)] split_on_free by fastforce
  have s: "length outs = length ?raws" "\<forall>out\<in>set outs. newline \<notin> set out" "refs_ok ?env ex"
    "(\<forall>raw\<in>set ?raws. CHR ''$'' \<notin> set raw) \<Longrightarrow> outs = ?raws"
    using expand_lines_safe [OF st _ env raws] by (simp_all add: refs_ok_def)
  have ne: "outs \<noteq> []" using s(1) by (metis length_0_conv split_on_ne)
  then have joined: "ip_text r = join [newline] outs" using r(1) concat_newlines by simp
  have "split_on newline (ip_text r) = outs" unfolding joined by (rule split_join [OF ne s(2)])
  moreover have "ip_text r = text" if "CHR ''$'' \<notin> set text"
  proof -
    have "outs = ?raws" by (rule s(4)) (use that split_on_chars in blast)
    then show ?thesis unfolding joined by (simp only: join_split)
  qed
  ultimately show ?thesis using r(2-4) s(1,3) by (simp add: refs_ok_def)
qed

section \<open>Witness\<close>

definition sample_document :: string where
  "sample_document = ''a: ${X}'' @ [newline] @ ''b: ${Y:-2} # ${Z}'' @ [newline]"

definition sample_lookup :: "string \<Rightarrow> string option" where
  "sample_lookup n = (if n = ''X'' then Some '' 1 '' else None)"

abbreviation sample_env :: expand_env where
  "sample_env \<equiv> \<lparr> ee_lookup = sample_lookup, ee_fallback = None, ee_prefix = None \<rparr>"

abbreviation noted :: "string list \<Rightarrow> string list \<Rightarrow> expansion" where
  "noted names dflts \<equiv> \<lparr> ex_referenced = names, ex_defaulted = dflts, ex_placeheld = [], ex_occurrences = [] \<rparr>"

lemma sample_lines:
  "split_on newline sample_document = [''a: ${X}'', ''b: ${Y:-2} # ${Z}'', []]"
  "split_comment None ''a: ${X}'' = (''a: ${X}'', [])"
  "split_comment None ''b: ${Y:-2} # ${Z}'' = (''b: ${Y:-2} '', ''# ${Z}'')"
  "split_comment None [] = ([], [])"
  "opens_block_scalar ''a: ${X}'' = False" "opens_block_scalar ''b: ${Y:-2} '' = False"
  "opens_block_scalar [] = False"
  "expand_into sample_env n [] ''a: ${X}'' (noted [] []) = Inr (''a: 1'', noted [''X''] [])"
  "expand_into sample_env n [] ''b: ${Y:-2} '' (noted [''X''] []) = Inr (''b: 2 '', noted [''X'', ''Y''] [''Y''])"
  "ends_with [newline] sample_document"
  by code_simp+

lemma sample_expand_lines:
  "expand_lines sample_env 1 None [''a: ${X}'', ''b: ${Y:-2} # ${Z}'', []] (noted [] []) =
     Inr ([''a: 1'', ''b: 2 # ${Z}'', []], noted [''X'', ''Y''] [''Y''])"
  by (simp only: expand_lines.simps leave_block_def option.case sample_lines Let_def prod.case simp_thms if_True
      if_False and_then_simps expand_into.simps(1) append_Nil append_Cons append_Nil2)

lemma sample_expansion:
  "interpolate_with_fallback sample_document sample_lookup None =
     Inr \<lparr> ip_text = ''a: 1'' @ [newline] @ ''b: 2 # ${Z}'' @ [newline], ip_referenced = [''X'', ''Y''],
           ip_defaulted = [''Y''], ip_placeheld = [] \<rparr>"
proof -
  have "butlast (concat (map (\<lambda>l. l @ [newline]) [''a: 1'', ''b: 2 # ${Z}'', []]))
      = ''a: 1'' @ [newline] @ ''b: 2 # ${Z}'' @ [newline]" by simp
  then show ?thesis
    unfolding interpolate_with_fallback_def process_def sample_lines(1) sample_expand_lines and_then_simps
    by (simp only: prod.case Let_def sample_lines(10) if_True expansion.simps and_then_simps)
qed

theorem expansion_keeps_structure_witness:
  "length (split_on newline (''a: 1'' @ [newline] @ ''b: 2 # ${Z}'' @ [newline]))
     = length (split_on newline sample_document)
   \<and> list_all (\<lambda>n. is_valid_name n \<and> (nonblank (sample_lookup n) \<noteq> None \<or> n \<in> set [''Y''])) [''X'', ''Y'']"
proof -
  have doc: "is_utf8 sample_document" by code_simp
  have env: "is_utf8 v" if "sample_lookup n = Some v" for n v
    using that by (auto simp: sample_lookup_def split: if_splits)
  let ?r = "\<lparr> ip_text = ''a: 1'' @ [newline] @ ''b: 2 # ${Z}'' @ [newline], ip_referenced = [''X'', ''Y''],
           ip_defaulted = [''Y''], ip_placeheld = [] \<rparr>"
  have "length (split_on newline (ip_text ?r)) = length (split_on newline sample_document)
    \<and> (CHR ''$'' \<notin> set sample_document \<longrightarrow> ip_text ?r = sample_document)
    \<and> (\<forall>n\<in>set (ip_referenced ?r). is_valid_name n
         \<and> (nonblank (sample_lookup n) \<noteq> None \<or> n \<in> set (ip_defaulted ?r) \<or> n \<in> set (ip_placeheld ?r)))
    \<and> (None = (None :: (string \<Rightarrow> string) option) \<longrightarrow> ip_placeheld ?r = [])"
    by (rule expansion_keeps_structure [OF sample_expansion doc env]) simp_all
  then show ?thesis unfolding interpolated.simps list.set(1) empty_iff list_all_iff by blast
qed

text \<open>The bound of the search is enough: no document contains the prefix that is chosen.\<close>

lemma contains_str_length: "contains_str p s \<Longrightarrow> length p \<le> length s"
proof (induction s)
  case (Cons c s)
  then show ?case by (auto simp: starts_with_iff dest!: arg_cong [where f = length])
qed simp

lemma free_prefix_bound: "contains_str (free_prefix n s p) s \<Longrightarrow> length p + n \<le> length s"
proof (induction n arbitrary: p)
  case (Suc n)
  then show ?case using Suc.IH [of "p @ ''x''"] by (auto split: if_splits)
qed (simp add: contains_str_length)

lemma free_prefix_absent: "\<not> contains_str (free_prefix (Suc (length s)) s p) s"
  using free_prefix_bound [of "Suc (length s)" s p] by auto

section \<open>Comments the scan misses\<close>

text \<open>An apostrophe inside a plain scalar is taken for an opening quote, so the comment after it is
  expanded like text; and a block scalar that a sequence item opens is not recognised.\<close>

lemma apostrophe_hides_comment:
  "comment_start ''k: its # x'' = Some 7 \<and> comment_start ''k: it's # x'' = None"
  by code_simp

lemma sequence_block_not_seen:
  "opens_block_scalar ''- k: |'' \<and> \<not> opens_block_scalar ''- |''"
  by code_simp

end
