(* ===== verification/Lifecycle.thy ===== *)
theory Lifecycle
  imports Gateway_State Interpolate Route_Validation
begin

text \<open>
  Startup and the background services of the process (\<open>runtime.rs\<close>, \<open>routes/file.rs\<close>).

  A route provider gives the table at boot; a provider over a file is polled by its
  modification time and every change is validated before it is published. A tick of the
  reloader has three parts with a suspension between them (the ticker and the stat, the read,
  the probe of the counter store), so that the file and the traffic may change in between:
  \<open>reload_step\<close>. What the parser makes of the expanded text, the answers of the file system
  and of the counter store are parameters.
\<close>

section \<open>The counter store\<close>

datatype lifecycle_error =
    Unreadable string
  | Expansion string interpolate_error
  | Malformed string string
  | NotValid validation_error
  | MissingExtensions "string set"
  | ExactUnsupported string
  | ExactUnreachable backend_error
  | VerifierConflict string

text \<open>The answer to a probe: the name of the server and whether it has the exact check.\<close>

type_synonym probe_answer = "(string \<times> bool, backend_error) result"

definition uses_shared :: "route_config \<Rightarrow> bool" where
  "uses_shared r = (case rc_rate_limit r of Some rl \<Rightarrow> rl_counter rl = CounterShared | None \<Rightarrow> False)"

definition uses_exact :: "route_config \<Rightarrow> bool" where
  "uses_exact r =
     (case rc_rate_limit r of
        Some rl \<Rightarrow> rl_counter rl = CounterShared \<and> rl_mode rl = ExactMode
      | None \<Rightarrow> False)"

definition verify_shared_counters :: "probe_answer \<Rightarrow> route_table \<Rightarrow> (unit, lifecycle_error) result" where
  "verify_shared_counters answer t =
     (if \<not> list_ex uses_shared (tb_routes t) then Inr ()
      else
        let needs_exact = list_ex uses_exact (tb_routes t) in
        case answer of
          Inr (server, supports_exact) \<Rightarrow>
            ensure (\<not> (needs_exact \<and> \<not> supports_exact)) (ExactUnsupported server)
        | Inl e \<Rightarrow> ensure (\<not> needs_exact) (ExactUnreachable e))"

section \<open>Route providers\<close>

record file_provider =
  fp_path :: string
  fp_defaults :: route_defaults
  fp_unset_fallback :: "(string \<Rightarrow> string) option"
  fp_shared :: "shared_counter_factory option"

record inline_provider =
  np_groups :: route_groups
  np_defaults :: route_defaults
  np_shared :: "shared_counter_factory option"

text \<open>What a load reads of its surroundings: the environment variables, and what
  \<open>serde_yaml_ng\<close> makes of a text.\<close>

record surroundings =
  su_lookup :: "string \<Rightarrow> string option"
  su_parse :: "string \<Rightarrow> (route_groups, string) result"

definition file_groups :: "surroundings \<Rightarrow> file_provider \<Rightarrow> string \<Rightarrow> (route_groups, lifecycle_error) result" where
  "file_groups su fp text =
     and_then (map_err (Expansion (fp_path fp))
         (interpolate_with_fallback text (su_lookup su) (fp_unset_fallback fp))) (\<lambda>expanded.
       map_err (Malformed (fp_path fp)) (su_parse su (ip_text expanded)))"

definition file_load ::
  "surroundings \<Rightarrow> (duration \<Rightarrow> 'r) \<Rightarrow> file_provider \<Rightarrow> string option \<Rightarrow> nat \<Rightarrow> 'r limiter list \<Rightarrow>
   (route_table, lifecycle_error) result \<times> 'r limiter list" where
  "file_load su rate_new fp contents namespace heap =
     (case contents of
        None \<Rightarrow> (Inl (Unreadable (fp_path fp)), heap)
      | Some text \<Rightarrow>
          (case file_groups su fp text of
             Inl e \<Rightarrow> (Inl e, heap)
           | Inr groups \<Rightarrow>
               (let (t, heap1) = build_with rate_new namespace groups (fp_defaults fp) (fp_shared fp) heap in
                (Inr t, heap1))))"

definition inline_load ::
  "(duration \<Rightarrow> 'r) \<Rightarrow> inline_provider \<Rightarrow> nat \<Rightarrow> 'r limiter list \<Rightarrow> route_table \<times> 'r limiter list" where
  "inline_load rate_new np namespace heap =
     build_with rate_new namespace (np_groups np) (np_defaults np) (np_shared np) heap"

section \<open>The reloader\<close>

record 'r reloader =
  re_provider :: file_provider
  re_config :: route_env
  re_extensions :: registry
  re_shared :: "shared_counter_factory option"
  re_rate_new :: "duration \<Rightarrow> 'r"
  re_surroundings :: surroundings

datatype phase = Waiting | Loading "nat option" | Publishing "nat option" route_table

text \<open>The handles the listeners read, the limiters, the modification time of the last table
  that was published, and the file: its time and text, and the times it ever had.\<close>

record 'r reload_state =
  rs_public :: route_table
  rs_machine :: "route_table option"
  rs_limiters :: "'r limiter list"
  rs_namespace :: nat
  rs_last :: "nat option"
  rs_phase :: phase
  rs_file :: "(nat \<times> string) option"
  rs_times :: "nat set"

text \<open>The checks of \<open>publish\<close>, in the order of the code.\<close>

definition check_table :: "'r reloader \<Rightarrow> probe_answer \<Rightarrow> route_table \<Rightarrow> (unit, lifecycle_error) result" where
  "check_table re answer t =
     and_then (map_err NotValid (validate_table (re_config re) t)) (\<lambda>_.
     and_then (ensure (ext_validate (re_extensions re) t)
         (MissingExtensions (ext_missing (re_extensions re) (extension_names t)))) (\<lambda>_.
     if re_shared re = None then Inr () else verify_shared_counters answer t))"

definition mtime :: "bool \<Rightarrow> 'r reload_state \<Rightarrow> nat option" where
  "mtime ok s = (if ok then map_option fst (rs_file s) else None)"

definition tick_stat :: "bool \<Rightarrow> 'r reload_state \<Rightarrow> 'r reload_state" where
  "tick_stat ok s =
     (case rs_phase s of
        Waiting \<Rightarrow>
          (let current = mtime ok s in
           if current = rs_last s then s else s \<lparr> rs_phase := Loading current \<rparr>)
      | _ \<Rightarrow> s)"

definition tick_load :: "'r reloader \<Rightarrow> bool \<Rightarrow> 'r reload_state \<Rightarrow> 'r reload_state" where
  "tick_load re ok s =
     (case rs_phase s of
        Loading current \<Rightarrow>
          (let contents = (if ok then map_option snd (rs_file s) else None) in
           case file_load (re_surroundings re) (re_rate_new re) (re_provider re) contents
                  (rs_namespace s) (rs_limiters s) of
             (Inl e, heap) \<Rightarrow> s \<lparr> rs_limiters := heap, rs_phase := Waiting \<rparr>
           | (Inr t, heap) \<Rightarrow>
               s \<lparr> rs_limiters := heap, rs_namespace := rs_namespace s + 1,
                   rs_phase := Publishing current t \<rparr>)
      | _ \<Rightarrow> s)"

definition tick_publish :: "'r reloader \<Rightarrow> probe_answer \<Rightarrow> 'r reload_state \<Rightarrow> 'r reload_state" where
  "tick_publish re answer s =
     (case rs_phase s of
        Publishing current t \<Rightarrow>
          (case check_table re answer t of
             Inl e \<Rightarrow> s \<lparr> rs_phase := Waiting \<rparr>
           | Inr _ \<Rightarrow>
               (let (public, machine) = publish_reload (rs_limiters s) (rs_namespace s)
                      (rs_namespace s + 1) t (rs_public s) (rs_machine s) in
                s \<lparr> rs_public := public, rs_machine := machine, rs_namespace := rs_namespace s + 2,
                    rs_last := current, rs_phase := Waiting \<rparr>))
      | _ \<Rightarrow> s)"

text \<open>Everything that may happen between two parts of a tick: another part, a change of the
  file, which shows as a modification time it never had, its removal, and traffic that moves
  the limiters.\<close>

inductive reload_step :: "'r reloader \<Rightarrow> 'r reload_state \<Rightarrow> 'r reload_state \<Rightarrow> bool" for re where
  stat: "reload_step re s (tick_stat ok s)"
| load: "reload_step re s (tick_load re ok s)"
| publish: "reload_step re s (tick_publish re answer s)"
| changed: "m \<notin> rs_times s \<Longrightarrow>
    reload_step re s (s \<lparr> rs_file := Some (m, text), rs_times := insert m (rs_times s) \<rparr>)"
| removed: "reload_step re s (s \<lparr> rs_file := None \<rparr>)"
| traffic: "length heap = length (rs_limiters s) \<Longrightarrow> reload_step re s (s \<lparr> rs_limiters := heap \<rparr>)"

section \<open>Boot\<close>

text \<open>The part of \<open>Runtime::run\<close> that builds the tables: load, validate, verify the store,
  check the extensions, and split the table over the two handles. A reloader is given the
  machine handle only if the internal listener is configured.\<close>

definition boot_tables ::
  "'r reloader \<Rightarrow> probe_answer \<Rightarrow> (nat \<times> string) option \<Rightarrow> (route_table, lifecycle_error) result \<Rightarrow>
   'r limiter list \<Rightarrow> ('r reload_state, lifecycle_error) result" where
  "boot_tables re answer file loaded heap =
     and_then loaded (\<lambda>t.
     and_then (map_err NotValid (validate_table (re_config re) t)) (\<lambda>_.
     and_then (if re_shared re = None then Inr () else verify_shared_counters answer t) (\<lambda>_.
     and_then (ensure (ext_validate (re_extensions re) t)
         (MissingExtensions (ext_missing (re_extensions re) (extension_names t)))) (\<lambda>_.
     let (public, machine) = partition_by_listener t in
     Inr \<lparr> rs_public = public,
           rs_machine = (if ev_internal_listen (re_config re) then Some machine else None),
           rs_limiters = heap, rs_namespace = tb_namespace t + 1, rs_last = None,
           rs_phase = Waiting, rs_file = file, rs_times = fst ` set_option file \<rparr>))))"

text \<open>The gateways of the two listeners over the tables in service.\<close>

definition listener_gateways ::
  "resolved_config \<Rightarrow> string set \<Rightarrow> (string \<Rightarrow> (identity, auth_error) result) option \<Rightarrow>
   registry \<Rightarrow> 'r reload_state \<Rightarrow> gateway \<times> gateway option" where
  "listener_gateways v upstreams verifier exts s =
     (gateway_new v (rs_public s) upstreams verifier exts,
      map_option (\<lambda>m. for_machine_tier (gateway_new v m upstreams verifier exts)) (rs_machine s))"

text \<open>\<open>server_conf\<close>, \<open>downstream_server_options\<close> and \<open>add_listener\<close>: what Pingora is told. A
  keepalive has a user timeout of zero on Linux.\<close>

record server_conf =
  sf_grace_period_seconds :: "nat option"
  sf_graceful_shutdown_timeout_seconds :: "nat option"
  sf_threads :: nat
  sf_upstream_keepalive_pool_size :: nat

definition RUNTIME_SHUTDOWN_SECS :: nat where "RUNTIME_SHUTDOWN_SECS = 1"

definition server_conf :: "gateway_config \<Rightarrow> server_conf" where
  "server_conf cfg =
     (let drain = sat_add DUR_MAX (sv_graceful_shutdown (gc_server cfg))
                    (case sv_shutdown_grace (gc_server cfg) of Some d \<Rightarrow> d | None \<Rightarrow> 0) in
      \<lparr> sf_grace_period_seconds = Some (as_secs drain),
        sf_graceful_shutdown_timeout_seconds = Some RUNTIME_SHUTDOWN_SECS,
        sf_threads = sv_threads (gc_server cfg),
        sf_upstream_keepalive_pool_size = li_upstream_pool (gc_limits cfg) \<rparr>)"

definition downstream_keepalive_limit :: "gateway_config \<Rightarrow> nat option" where
  "downstream_keepalive_limit cfg =
     (case li_keepalive_requests (gc_limits cfg) of 0 \<Rightarrow> None | Suc n \<Rightarrow> Some (Suc n))"

record 'r listener =
  ls_addr :: string
  ls_keepalive :: "(tcp_keepalive_config \<times> duration) option"
  ls_filter :: "'r limiter option"

definition add_listener :: "(duration \<Rightarrow> 'r) \<Rightarrow> string \<Rightarrow> gateway_config \<Rightarrow> 'r listener" where
  "add_listener rate_new addr cfg =
     \<lparr> ls_addr = addr,
       ls_keepalive = map_option (\<lambda>k. (k, 0)) (sv_tcp_keepalive (gc_server cfg)),
       ls_filter = map_option (connection_limiter_new rate_new) (li_connections_per_ip (gc_limits cfg)) \<rparr>"

text \<open>The whole drain is the grace period: the two settings together, in whole seconds, and
  never Pingora's own five minutes.\<close>

lemma server_conf_drain:
  assumes "sv_graceful_shutdown (gc_server cfg) = from_secs a"
    and "sv_shutdown_grace (gc_server cfg) = (if b = 0 then None else Some (from_secs b))"
    and "a + b \<le> U64_MAX"
  shows "sf_grace_period_seconds (server_conf cfg) = Some (a + b)"
proof -
  have "from_secs a + from_secs b = from_secs (a + b)" by (simp add: from_secs_def add_mult_distrib)
  moreover have "from_secs (a + b) \<le> DUR_MAX"
    using assms(3) by (simp add: from_secs_def DUR_MAX_def)
  ultimately have "min DUR_MAX (from_secs a + from_secs b) = from_secs (a + b)" by simp
  then show ?thesis
    using assms(1,2) by (cases "b = 0") (simp_all add: server_conf_def sat_add_def)
qed

section \<open>The counter synchronisation\<close>

text \<open>One tick over the limiters at the addresses \<open>addrs\<close> of both tables: the first that cannot
  reach the store ends it.\<close>

fun sync_tick ::
  "('b \<Rightarrow> publish list \<Rightarrow> (totals list, backend_error) result \<times> 'b) \<Rightarrow> int \<Rightarrow>
   nat list \<Rightarrow> 'b \<Rightarrow> 'r limiter list \<Rightarrow> 'b \<times> 'r limiter list" where
  "sync_tick reconcile now [] backend heap = (backend, heap)"
| "sync_tick reconcile now (a # addrs) backend heap =
     (case reconciled_counters (heap ! a) of
        None \<Rightarrow> sync_tick reconcile now addrs backend heap
      | Some sc \<Rightarrow>
          (let (reached, backend1, sc1) = sync_once reconcile now backend sc;
               heap1 = heap[a := (heap ! a) \<lparr> lim_counters := Shared sc1 \<rparr>] in
           if reached then sync_tick reconcile now addrs backend1 heap1 else (backend1, heap1)))"

definition reconciled_addresses :: "'r limiter list \<Rightarrow> route_table \<Rightarrow> nat list" where
  "reconciled_addresses heap t =
     filter (\<lambda>a. reconciled_counters (heap ! a) \<noteq> None) (List.map_filter rc_limiter (tb_routes t))"

definition shared_limit_sync ::
  "('b \<Rightarrow> publish list \<Rightarrow> (totals list, backend_error) result \<times> 'b) \<Rightarrow> int \<Rightarrow>
   'b \<Rightarrow> 'r reload_state \<Rightarrow> 'b \<times> 'r reload_state" where
  "shared_limit_sync reconcile now backend s =
     (let addrs = reconciled_addresses (rs_limiters s) (rs_public s)
            @ (case rs_machine s of Some m \<Rightarrow> reconciled_addresses (rs_limiters s) m | None \<Rightarrow> []);
          (backend1, heap) = sync_tick reconcile now addrs backend (rs_limiters s) in
      (backend1, s \<lparr> rs_limiters := heap \<rparr>))"

text \<open>A tick touches only the limiters it was given, and never adds or drops one.\<close>

lemma sync_tick_frame:
  "sync_tick reconcile now addrs backend heap = (backend', heap') \<Longrightarrow>
   length heap' = length heap \<and> (\<forall>a. a \<notin> set addrs \<longrightarrow> heap' ! a = heap ! a)
   \<and> (\<forall>a < length heap. lim_limit (heap' ! a) = lim_limit (heap ! a) \<and> lim_mode (heap' ! a) = lim_mode (heap ! a))"
proof (induction reconcile now addrs backend heap rule: sync_tick.induct)
  case (2 reconcile now a addrs backend heap)
  show ?case
  proof (cases "reconciled_counters (heap ! a)")
    case None
    then show ?thesis using 2 by simp
  next
    case (Some sc)
    obtain reached b1 sc1 where s: "sync_once reconcile now backend sc = (reached, b1, sc1)"
      by (metis prod_cases3)
    let ?h = "heap[a := (heap ! a) \<lparr> lim_counters := Shared sc1 \<rparr>]"
    have h: "length ?h = length heap" "\<forall>c. c \<noteq> a \<longrightarrow> ?h ! c = heap ! c" by simp_all
    have h': "lim_limit (?h ! c) = lim_limit (heap ! c) \<and> lim_mode (?h ! c) = lim_mode (heap ! c)"
        if "c < length heap" for c
      using that by (cases "c = a") simp_all
    show ?thesis
    proof (cases reached)
      case True
      then have "sync_tick reconcile now addrs b1 ?h = (backend', heap')"
        using 2(3) Some s by simp
      with 2(2) [OF Some s [symmetric] refl refl _ True] h h' show ?thesis by auto
    next
      case False
      then show ?thesis using 2(3) Some s h h' by auto
    qed
  qed
qed simp

section \<open>What the limiters do not change\<close>

text \<open>The policy of a table: everything but the addresses of its limiters and its cache
  namespace.\<close>

definition route_policy :: "route_config \<Rightarrow> route_config" where
  "route_policy r = r \<lparr> rc_limiter := None \<rparr>"

definition table_policy :: "route_table \<Rightarrow> route_table" where
  "table_policy t = t \<lparr> tb_routes := map route_policy (tb_routes t), tb_namespace := 0 \<rparr>"

lemma route_policy_simps [simp]:
  "rc_auth (route_policy r) = rc_auth r" "rc_hosts (route_policy r) = rc_hosts r"
  "rc_prefix (route_policy r) = rc_prefix r" "rc_id (route_policy r) = rc_id r"
  "rc_rate_limit (route_policy r) = rc_rate_limit r" "rc_extensions (route_policy r) = rc_extensions r"
  "rc_upstream (route_policy r) = rc_upstream r" "rc_methods (route_policy r) = rc_methods r"
  "rc_concurrency (route_policy r) = rc_concurrency r" "rc_bindings (route_policy r) = rc_bindings r"
  "rc_cache (route_policy r) = rc_cache r" "rc_cache_authenticated (route_policy r) = rc_cache_authenticated r"
  "rc_client_key (route_policy r) = rc_client_key r"
  by (simp_all add: route_policy_def)

lemma map_sort_key: "(\<And>x. g (f x) = g x) \<Longrightarrow> map f (sort_key g xs) = sort_key g (map f xs)"
proof -
  assume g: "\<And>x. g (f x) = g x"
  have "map f (insort_key g x ys) = insort_key g (f x) (map f ys)" for x ys
    by (induction ys) (simp_all add: g)
  then show ?thesis by (induction xs) (simp_all add: g)
qed

lemma route_order_policy [simp]: "route_order (route_policy r) = route_order r"
  by (simp add: route_order_def)

lemma resolve_route_policy:
  assumes "resolve_route rate_new shared r heap = (r1, e1, h1)"
    and "resolve_route rate_new shared r heap' = (r2, e2, h2)"
  shows "route_policy r1 = route_policy r2 \<and> e1 = e2"
  using assms
  by (auto simp: resolve_route_def route_policy_def Let_def split: option.splits prod.splits if_splits)

lemma resolve_routes_policy:
  "resolve_routes rate_new shared rs heap = (rs1, e1, h1) \<Longrightarrow>
   resolve_routes rate_new shared rs heap' = (rs2, e2, h2) \<Longrightarrow>
   map route_policy rs1 = map route_policy rs2 \<and> e1 = e2"
proof (induction rs arbitrary: heap heap' rs1 rs2 e1 e2 h1 h2)
  case (Cons r rs)
  then show ?case
    by (simp split: prod.splits) (metis resolve_route_policy list.simps(9))
qed simp

lemma build_with_policy:
  "table_policy (fst (build_with rate_new ns groups defaults shared heap))
     = table_policy (fst (build_with rate_new 0 groups defaults shared []))"
proof -
  obtain rs e h where a: "resolve_routes rate_new shared
      (map (\<lambda>r. derive_names (inherit_defaults defaults r)) (tiered_routes groups)) heap = (rs, e, h)"
    by (metis prod_cases3)
  obtain rs' e' h' where b: "resolve_routes rate_new shared
      (map (\<lambda>r. derive_names (inherit_defaults defaults r)) (tiered_routes groups)) [] = (rs', e', h')"
    by (metis prod_cases3)
  have "map route_policy rs = map route_policy rs' \<and> e = e'"
    by (rule resolve_routes_policy [OF a b])
  then show ?thesis by (simp add: build_with_def a b table_policy_def map_sort_key)
qed

lemma adopt_limiter_policy [simp]: "route_policy (adopt_limiter heap previous r) = route_policy r"
  by (auto simp: adopt_limiter_def route_policy_def split: option.splits)

lemma shared_store_policy [simp]: "table_policy (shared_store heap ns previous t) = table_policy t"
  by (simp add: shared_store_def table_policy_def o_def)

lemma partition_policy:
  "fst (partition_by_listener (table_policy t)) = table_policy (fst (partition_by_listener t))"
  "snd (partition_by_listener (table_policy t)) = table_policy (snd (partition_by_listener t))"
  by (simp_all add: partition_by_listener_def table_policy_def filter_map o_def)

text \<open>None of the checks reads a limiter.\<close>

lemma for_each_map: "for_each f (map g xs) = for_each (\<lambda>x. f (g x)) xs"
  by (induction xs) simp_all

lemma check_route_policy [simp]: "check_route env seen (route_policy r) = check_route env seen r"
  unfolding check_route_def route_policy_simps ..

lemma check_routes_policy [simp]:
  "check_routes env seen (map route_policy rs) = check_routes env seen rs"
  by (induction rs arbitrary: seen) simp_all

lemma conflicting_routes_policy [simp]:
  "conflicting_routes (route_policy a) (route_policy b) = conflicting_routes a b"
  by (simp add: conflicting_routes_def methods_overlap_def hosts_overlap_def)

lemma check_conflicts_policy [simp]: "check_conflicts (map route_policy rs) = check_conflicts rs"
  by (induction rs) (simp_all add: for_each_map)

lemma validate_routes_policy [simp]: "validate_routes env (map route_policy rs) = validate_routes env rs"
proof -
  have f: "filter P (map route_policy rs) = map route_policy (filter (\<lambda>r. P (route_policy r)) rs)" for P
    by (simp add: filter_map o_def)
  show ?thesis
    unfolding validate_routes_def f for_each_map check_cache_def check_client_key_def route_policy_simps
      check_routes_policy check_conflicts_policy map_is_Nil_conv ..
qed

lemma check_table_policy [simp]: "check_table re answer (table_policy t) = check_table re answer t"
proof -
  have "validate_table env (table_policy t) = validate_table env t" for env
    by (simp add: validate_table_def table_policy_def split: list.splits)
  moreover have "extension_names (table_policy t) = extension_names t"
    by (simp add: extension_names_def table_policy_def o_def)
  moreover have "verify_shared_counters answer (table_policy t) = verify_shared_counters answer t"
    by (simp add: verify_shared_counters_def table_policy_def uses_shared_def uses_exact_def
        list_ex_iff Let_def)
  ultimately show ?thesis by (simp add: check_table_def ext_validate_def)
qed

section \<open>The tables in service\<close>

text \<open>The policy a text stands for, whatever the limiters are when it is loaded.\<close>

definition file_policy :: "'r reloader \<Rightarrow> string \<Rightarrow> (route_table, lifecycle_error) result" where
  "file_policy re text =
     and_then (file_groups (re_surroundings re) (re_provider re) text) (\<lambda>groups.
       Inr (table_policy (fst (build_with (re_rate_new re) 0 groups
              (fp_defaults (re_provider re)) (fp_shared (re_provider re)) []))))"

definition serves :: "'r reload_state \<Rightarrow> route_table \<Rightarrow> bool" where
  "serves s p \<longleftrightarrow>
     table_policy (rs_public s) = table_policy (fst (partition_by_listener p))
     \<and> (\<forall>m. rs_machine s = Some m \<longrightarrow> table_policy m = table_policy (snd (partition_by_listener p)))"

lemma serves_policy [simp]: "serves s (table_policy t) = serves s t"
proof -
  have "table_policy (table_policy u) = table_policy u" for u
    by (simp add: table_policy_def route_policy_def)
  then show ?thesis by (simp add: serves_def partition_policy)
qed

lemma file_load_policy:
  assumes "file_load (re_surroundings re) (re_rate_new re) (re_provider re) (Some text) ns heap = (Inr t, heap')"
  shows "file_policy re text = Inr (table_policy t)"
  using assms
  by (auto simp: file_load_def file_policy_def build_with_policy [of _ ns _ _ _ heap, symmetric]
      split: sum.splits prod.splits)

definition phase_time :: "phase \<Rightarrow> nat option" where
  "phase_time ph = (case ph of Waiting \<Rightarrow> None | Loading c \<Rightarrow> c | Publishing c t \<Rightarrow> c)"

definition reload_inv :: "'r reloader \<Rightarrow> 'r reload_state \<Rightarrow> bool" where
  "reload_inv re s \<longleftrightarrow>
     (\<exists>p answer. check_table re answer p = Inr () \<and> serves s p)
     \<and> set_option (rs_last s) \<union> set_option (phase_time (rs_phase s)) \<union> fst ` set_option (rs_file s) \<subseteq> rs_times s
     \<and> (\<forall>m text. rs_file s = Some (m, text) \<and> rs_last s = Some m \<longrightarrow>
          (\<exists>p. file_policy re text = Inr p \<and> serves s p))
     \<and> (\<forall>m text t. rs_file s = Some (m, text) \<and> rs_phase s = Publishing (Some m) t \<longrightarrow>
          file_policy re text = Inr (table_policy t))"

lemma tick_stat_inv: "reload_inv re s \<Longrightarrow> reload_inv re (tick_stat ok s)"
  by (auto simp: reload_inv_def tick_stat_def mtime_def phase_time_def serves_def Let_def split: phase.splits)

lemma tick_load_inv: "reload_inv re s \<Longrightarrow> reload_inv re (tick_load re ok s)"
proof (cases "rs_phase s")
  case (Loading c)
  assume inv: "reload_inv re s"
  let ?contents = "if ok then map_option snd (rs_file s) else None"
  obtain r heap where l: "file_load (re_surroundings re) (re_rate_new re) (re_provider re) ?contents
      (rs_namespace s) (rs_limiters s) = (r, heap)" by fastforce
  show ?thesis
  proof (cases r)
    case (Inl e)
    then show ?thesis using inv l Loading
      by (auto simp: reload_inv_def tick_load_def phase_time_def serves_def Let_def)
  next
    case (Inr t)
    have "file_policy re doc = Inr (table_policy t)" if "rs_file s = Some (m, doc)" for m doc
      using l Inr that file_load_policy [of re doc "rs_namespace s" "rs_limiters s" t heap]
      by (auto simp: file_load_def split: if_splits)
    then show ?thesis using inv l Inr Loading
      by (auto simp: reload_inv_def tick_load_def phase_time_def serves_def Let_def)
  qed
qed (auto simp: tick_load_def)

lemma publish_serves:
  assumes "publish_reload heap n1 n2 t (rs_public s) (rs_machine s) = (p, m)"
  shows "serves (s \<lparr> rs_public := p, rs_machine := m, rs_namespace := n, rs_last := c, rs_phase := ph \<rparr>) t"
  using assms by (auto simp: publish_reload_def serves_def split: prod.splits)

lemma tick_publish_inv: "reload_inv re s \<Longrightarrow> reload_inv re (tick_publish re answer s)"
proof (cases "rs_phase s")
  case (Publishing c t)
  assume inv: "reload_inv re s"
  show ?thesis
  proof (cases "check_table re answer t")
    case (Inl e)
    then show ?thesis using inv Publishing
      by (auto simp: reload_inv_def tick_publish_def phase_time_def serves_def)
  next
    case (Inr u)
    obtain p m where pm: "publish_reload (rs_limiters s) (rs_namespace s) (rs_namespace s + 1) t
        (rs_public s) (rs_machine s) = (p, m)" by fastforce
    let ?t = "s \<lparr> rs_public := p, rs_machine := m, rs_namespace := rs_namespace s + 2,
                 rs_last := c, rs_phase := Waiting \<rparr>"
    have sv: "serves ?t t" by (rule publish_serves [OF pm])
    have st: "tick_publish re answer s = ?t"
      using Publishing Inr pm by (simp add: tick_publish_def)
    have fresh: "set_option c \<union> fst ` set_option (rs_file s) \<subseteq> rs_times s"
      using inv Publishing by (auto simp: reload_inv_def phase_time_def)
    have same: "file_policy re doc = Inr (table_policy t)" if "rs_file s = Some (m', doc)" "c = Some m'" for m' doc
      using inv Publishing that by (auto simp: reload_inv_def)
    have "\<exists>q. file_policy re doc = Inr q \<and> serves ?t q" if "rs_file s = Some (m', doc)" "c = Some m'" for m' doc
      using same [OF that] sv by simp
    moreover have "\<exists>p answer. check_table re answer p = Inr () \<and> serves ?t p"
      using Inr sv by auto
    ultimately show ?thesis using fresh unfolding st reload_inv_def by (simp add: phase_time_def)
  qed
qed (auto simp: tick_publish_def)

lemma write_inv:
  assumes "reload_inv re s" "m \<notin> rs_times s"
  shows "reload_inv re (s \<lparr> rs_file := Some (m, doc), rs_times := insert m (rs_times s) \<rparr>)"
  using assms by (auto simp: reload_inv_def serves_def phase_time_def)

lemma other_inv:
  "reload_inv re s \<Longrightarrow> reload_inv re (s \<lparr> rs_file := None \<rparr>)"
  "reload_inv re s \<Longrightarrow> reload_inv re (s \<lparr> rs_limiters := heap \<rparr>)"
  by (auto simp: reload_inv_def serves_def)

lemma reload_step_inv: "reload_step re s t \<Longrightarrow> reload_inv re s \<Longrightarrow> reload_inv re t"
  by (induction rule: reload_step.induct)
    (simp_all add: tick_stat_inv tick_load_inv tick_publish_inv write_inv other_inv)

lemma boot_inv:
  assumes "boot_tables re answer file loaded heap = Inr s"
  shows "reload_inv re s"
proof -
  obtain t where t: "loaded = Inr t" "validate_table (re_config re) t = Inr ()"
      "ext_validate (re_extensions re) t"
      "re_shared re = None \<or> verify_shared_counters answer t = Inr ()"
    and s: "s = \<lparr> rs_public = fst (partition_by_listener t),
           rs_machine = (if ev_internal_listen (re_config re) then Some (snd (partition_by_listener t)) else None),
           rs_limiters = heap, rs_namespace = tb_namespace t + 1, rs_last = None,
           rs_phase = Waiting, rs_file = file, rs_times = fst ` set_option file \<rparr>"
    using assms by (auto simp: boot_tables_def and_then_Inr_iff split: if_splits prod.splits)
  have "check_table re answer t = Inr ()" using t by (auto simp: check_table_def map_err_def ensure_def)
  moreover have "serves s t" by (simp add: s serves_def)
  ultimately show ?thesis by (auto simp: reload_inv_def s phase_time_def)
qed

interpretation reloads: invariant_system
  "\<lambda>s. \<exists>answer file loaded heap. boot_tables re answer file loaded heap = Inr s"
  "reload_step re" "reload_inv re"
  by unfold_locales (auto intro: boot_inv reload_step_inv)


lemma table_policy_routes [simp]: "tb_routes (table_policy t) = map route_policy (tb_routes t)"
  by (simp add: table_policy_def)

definition served :: "'r reload_state \<Rightarrow> route_config set" where
  "served s = set (tb_routes (rs_public s)) \<union> (\<Union>m\<in>set_option (rs_machine s). set (tb_routes m))"

lemma serves_routes:
  assumes "serves s p"
  shows "map route_policy (tb_routes (rs_public s))
      = map route_policy (filter (\<lambda>r. rc_auth r \<noteq> TierMachine) (tb_routes p))"
    and "rs_machine s = Some m \<Longrightarrow> map route_policy (tb_routes m)
      = map route_policy (filter (\<lambda>r. rc_auth r = TierMachine) (tb_routes p))"
proof -
  have "tb_routes (table_policy (rs_public s)) = tb_routes (table_policy (fst (partition_by_listener p)))"
    using assms unfolding serves_def by simp
  then show "map route_policy (tb_routes (rs_public s))
      = map route_policy (filter (\<lambda>r. rc_auth r \<noteq> TierMachine) (tb_routes p))"
    by (simp add: partition_by_listener_def)
  assume "rs_machine s = Some m"
  then have "tb_routes (table_policy m) = tb_routes (table_policy (snd (partition_by_listener p)))"
    using assms unfolding serves_def by simp
  then show "map route_policy (tb_routes m)
      = map route_policy (filter (\<lambda>r. rc_auth r = TierMachine) (tb_routes p))"
    by (simp add: partition_by_listener_def)
qed

lemma map_eq_memberE:
  assumes "map f xs = map f ys" "x \<in> set xs"
  obtains y where "y \<in> set ys" "f x = f y"
  using assms by (metis (no_types, lifting) imageE image_eqI list.set_map)

lemma served_in_policy:
  assumes "serves s p" "r \<in> served s"
  obtains r' where "r' \<in> set (tb_routes p)" "route_policy r = route_policy r'"
    "r \<in> set (tb_routes (rs_public s)) \<longrightarrow> rc_auth r \<noteq> TierMachine"
proof -
  have a: "rc_auth r = rc_auth r'" if "route_policy r = route_policy r'" for r'
    using that by (metis route_policy_simps(1))
  show thesis
  proof (cases "r \<in> set (tb_routes (rs_public s))")
    case True
    then obtain r' where "r' \<in> set (filter (\<lambda>r. rc_auth r \<noteq> TierMachine) (tb_routes p))"
      "route_policy r = route_policy r'"
      using map_eq_memberE [OF serves_routes(1) [OF assms(1)]] by metis
    with a show thesis by (intro that [of r']) auto
  next
    case False
    then obtain m where "rs_machine s = Some m" "r \<in> set (tb_routes m)"
      using assms(2) by (auto simp: served_def)
    then obtain r' where "r' \<in> set (filter (\<lambda>r. rc_auth r = TierMachine) (tb_routes p))"
      "route_policy r = route_policy r'"
      using map_eq_memberE [OF serves_routes(2) [OF assms(1)]] by metis
    with False show thesis by (intro that [of r']) auto
  qed
qed

text \<open>C21: at every moment of the process, through every reload, a route in service has passed the
  checks: its upstream exists, its bindings read a verified token, a cached route may be
  cached, a limit that is declared shared has a backend and a window it can keep, every
  extension it names is registered, and no machine route is on the public listener.\<close>

theorem served_routes_effective:
  assumes "boot_tables re booted file loaded heap = Inr s0" "(reload_step re)\<^sup>*\<^sup>* s0 s" "r \<in> served s"
  shows "rc_prefix r \<noteq> [] \<and> rc_upstream r \<in> ev_upstreams (re_config re)
    \<and> (rc_bindings r \<noteq> [] \<longrightarrow> verifies (rc_auth r))
    \<and> (rc_cache r \<longrightarrow> ev_cache (re_config re) \<and> (verifies (rc_auth r) \<longrightarrow> rc_cache_authenticated r))
    \<and> (is_machine (rc_auth r) \<longrightarrow> ev_machine (re_config re) \<and> rc_client_key r = None
         \<and> r \<notin> set (tb_routes (rs_public s)))
    \<and> (\<forall>limit. rc_rate_limit r = Some limit \<longrightarrow> rl_counter limit = CounterShared \<longrightarrow>
          ev_shared_counters (re_config re) \<noteq> None \<and> from_secs 1 \<le> rl_interval limit)
    \<and> (\<forall>n\<in>set (rc_extensions r). re_extensions re n \<noteq> None)"
proof -
  obtain p answer where p: "check_table re answer p = Inr ()" "serves s p"
    using reloads.reachable_inv [of re s0 s] assms(1,2) unfolding reload_inv_def by blast
  obtain r' where r': "r' \<in> set (tb_routes p)" "route_policy r = route_policy r'"
    and tier: "r \<in> set (tb_routes (rs_public s)) \<longrightarrow> rc_auth r \<noteq> TierMachine"
    using served_in_policy [OF p(2) assms(3)] .
  have r: "route_policy r \<in> set (tb_routes (table_policy p))" using r' by simp
  have c: "check_table re answer (table_policy p) = Inr ()" using p(1) by simp
  then have v: "validate_table (re_config re) (table_policy p) = Inr ()"
    and e: "ext_validate (re_extensions re) (table_policy p)"
    by (auto simp: check_table_def and_then_Inr_iff)
  have "\<forall>n\<in>set (rc_extensions r). re_extensions re n \<noteq> None"
  proof
    fix n assume "n \<in> set (rc_extensions r)"
    then have "n \<in> set (rc_extensions (route_policy r))" by simp
    then have "n \<in> set (extension_names (table_policy p))"
      using r unfolding extension_names_def by (auto simp del: table_policy_routes route_policy_simps)
    with e show "re_extensions re n \<noteq> None" by (auto simp: ext_validate_def ext_missing_def)
  qed
  with validated_controls_effective [OF v r] tier show ?thesis
    unfolding route_policy_simps is_machine_def by blast
qed

section \<open>A reload\<close>

definition sample_reloader :: "unit reloader" where
  "sample_reloader = \<lparr> re_provider = \<lparr> fp_path = ''routes.yml'', fp_defaults = no_defaults,
       fp_unset_fallback = None, fp_shared = None \<rparr>,
     re_config = Route_Validation.sample_env, re_extensions = Map.empty, re_shared = None, re_rate_new = (\<lambda>_. ()),
     re_surroundings = \<lparr> su_lookup = (\<lambda>_. None), su_parse = (\<lambda>doc. if doc = ''ok'' then Inr valid_groups else Inl ''no'') \<rparr> \<rparr>"

lemma sample_check: "check_table sample_reloader answer valid_table = Inr ()"
proof -
  have "ext_validate Map.empty valid_table"
    using valid_table_routes
    by (simp add: ext_validate_def ext_missing_def extension_names_def plain_route_def route_from_def
        sample_input_def flatten_def)
  then show ?thesis by (simp add: check_table_def sample_reloader_def valid_table_valid map_err_def ensure_def)
qed

definition sample_booted :: "unit reload_state" where
  "sample_booted = \<lparr> rs_public = fst (partition_by_listener valid_table),
     rs_machine = Some (snd (partition_by_listener valid_table)), rs_limiters = [],
     rs_namespace = tb_namespace valid_table + 1, rs_last = None, rs_phase = Waiting,
     rs_file = None, rs_times = {} \<rparr>"

lemma sample_boots:
  "boot_tables sample_reloader (Inr (''s'', True)) None (Inr valid_table) [] = Inr sample_booted"
  using sample_check [of "Inr (''s'', True)"]
  by (auto simp: boot_tables_def check_table_def and_then_Inr_iff sample_booted_def sample_reloader_def
      Route_Validation.sample_env_def and_then_def map_err_def split: sum.splits prod.splits)

definition sample_written :: "unit reload_state" where
  "sample_written = sample_booted \<lparr> rs_file := Some (5, ''ok''), rs_times := {5} \<rparr>"

lemma sample_writes: "(reload_step sample_reloader)\<^sup>*\<^sup>* sample_booted sample_written"
  using reload_step.changed [of 5 sample_booted sample_reloader "''ok''"]
  by (auto simp: sample_written_def sample_booted_def intro: r_into_rtranclp)

lemma sample_file_policy: "file_policy sample_reloader ''ok'' = Inr (table_policy valid_table)"
proof -
  have "interpolate_with_fallback ''ok'' (\<lambda>_. None) None
      = Inr \<lparr> ip_text = ''ok'', ip_referenced = [], ip_defaulted = [], ip_placeheld = [] \<rparr>"
    by code_simp
  then show ?thesis
    by (simp add: file_policy_def file_groups_def sample_reloader_def map_err_def valid_table_build)
qed


theorem served_routes_effective_witness:
  "plain_route ''users'' ''users'' TierPublic \<in> served sample_written \<and> ''users'' \<in> ev_upstreams Route_Validation.sample_env"
proof -
  have m: "plain_route ''users'' ''users'' TierPublic \<in> served sample_written"
    using valid_table_routes
    by (simp add: served_def sample_written_def sample_booted_def partition_by_listener_def plain_route_def)
  have "rc_upstream (plain_route ''users'' ''users'' TierPublic) \<in> ev_upstreams (re_config sample_reloader)"
    using served_routes_effective [OF sample_boots sample_writes m] by blast
  then show ?thesis using m
    by (simp add: plain_route_def route_from_def sample_input_def sample_reloader_def)
qed

end
