(* ===== verification/Pools.thy ===== *)
theory Pools
  imports Upstreams
begin

text \<open>
  How pools are built and kept current (\<open>upstream.rs\<close>, \<open>build_pool\<close>, \<open>start_balancer\<close>,
  \<open>prime\<close>, \<open>resolve_all\<close>, \<open>DnsDiscovery::discover\<close>, \<open>PoolHttpHealthCheck\<close>).

  Pingora's load balancer is a record of what the gateway sets on it. Its documented
  behaviour that is relied on: \<open>update\<close> makes what the discovery returns the members, and
  keeps the members when the discovery fails; \<open>select\<close> picks a member. The URI parser, the
  resolver, the checks that a health request can be built, and the probe are parameters.
\<close>

section \<open>Collecting results\<close>

text \<open>\<open>collect::<Result<Vec<_>>>\<close>: the first error, or every value.\<close>

fun collect_results :: "('a \<Rightarrow> ('b, 'e) result) \<Rightarrow> 'a list \<Rightarrow> ('b list, 'e) result" where
  "collect_results f [] = Inr []"
| "collect_results f (x # xs) =
     and_then (f x) (\<lambda>y. and_then (collect_results f xs) (\<lambda>ys. Inr (y # ys)))"

lemma collect_results_Inr:
  "collect_results f xs = Inr ys \<longleftrightarrow> list_all2 (\<lambda>x y. f x = Inr y) xs ys"
  by (induction xs arbitrary: ys) (auto simp: and_then_Inr_iff list_all2_Cons1)

section \<open>Discovery with its errors\<close>

text \<open>One lookup under the timeout.\<close>

datatype lookup = Addresses "string list" | LookupFailed string | LookupTimedOut

datatype refusal = Unresolved string string | TooSlow string duration | Rejected member_error

record dns_discovery =
  dd_pool :: discovery
  dd_lookup_timeout :: duration
  dd_primed :: "backend list option"

fun discover_answers ::
  "(string \<Rightarrow> lookup) \<Rightarrow> duration \<Rightarrow> nat list \<Rightarrow> nat \<Rightarrow> upstream_target list \<Rightarrow> (answer list, refusal) result" where
  "discover_answers look limit weights i [] = Inr []"
| "discover_answers look limit weights i (t # ts) =
     (case look (ut_addr t) of
        LookupFailed e \<Rightarrow> Inl (Unresolved (ut_addr t) e)
      | LookupTimedOut \<Rightarrow> Inl (TooSlow (ut_addr t) limit)
      | Addresses addrs \<Rightarrow>
          and_then (discover_answers look limit weights (Suc i) ts) (\<lambda>answers.
          Inr (\<lparr> an_index = i, an_weight = (if i < length weights then weights ! i else 1),
                 an_addrs = addrs \<rparr> # answers)))"

text \<open>\<open>discover\<close>: the set of startup at the first call, then one lookup per target. The owners
  change only when the new set is accepted.\<close>

definition discover ::
  "(string \<Rightarrow> lookup) \<Rightarrow> dns_discovery \<Rightarrow> (backend list, refusal) result \<times> dns_discovery" where
  "discover look d =
     (case dd_primed d of
        Some first \<Rightarrow> (Inr first, d \<lparr> dd_primed := None \<rparr>)
      | None \<Rightarrow>
          (case discover_answers look (dd_lookup_timeout d) (ds_weights (dd_pool d)) 0 (ds_targets (dd_pool d)) of
             Inl e \<Rightarrow> (Inl e, d)
           | Inr answers \<Rightarrow>
               (case member_set answers (ds_max_members (dd_pool d)) (Some (ds_owners (dd_pool d))) of
                  Inl e \<Rightarrow> (Inl (Rejected e), d)
                | Inr (members, owners) \<Rightarrow>
                    (Inr members, d \<lparr> dd_pool := dd_pool d \<lparr> ds_owners := owners \<rparr> \<rparr>))))"

section \<open>Health checks\<close>

record http_check =
  hk_sni :: string
  hk_tls :: bool
  hk_host :: string
  hk_path :: string
  hk_successes :: nat
  hk_failures :: nat
  hk_timeout :: duration

text \<open>\<open>buildable host path\<close>: Pingora accepts the authority as a header value and the path as a
  request target.\<close>

definition http_health_check ::
  "(string \<Rightarrow> string \<Rightarrow> bool) \<Rightarrow> health_check_config \<Rightarrow> upstream_target \<Rightarrow> string \<Rightarrow> http_check option" where
  "http_health_check buildable cfg t path =
     (if buildable (ut_addr t) path
      then Some \<lparr> hk_sni = ut_sni t, hk_tls = ut_tls t, hk_host = ut_addr t, hk_path = path,
                  hk_successes = hc_healthy_after cfg, hk_failures = hc_unhealthy_after cfg,
                  hk_timeout = hc_timeout cfg \<rparr>
      else None)"

datatype pool_health =
    HttpHealth "http_check list" nat nat
  | TcpHealth nat nat duration

datatype check_error = NoMatchingTarget | CheckFailed

text \<open>\<open>PoolHttpHealthCheck::check\<close>: the check of the target the member came from.\<close>

definition pool_http_check ::
  "(http_check \<Rightarrow> backend \<Rightarrow> bool) \<Rightarrow> http_check list \<Rightarrow> backend \<Rightarrow> (unit, check_error) result" where
  "pool_http_check probe checks b =
     (if be_index b < length checks
      then (if probe (checks ! be_index b) b then Inr () else Inl CheckFailed)
      else Inl NoMatchingTarget)"

definition health_threshold :: "pool_health \<Rightarrow> bool \<Rightarrow> nat" where
  "health_threshold h success =
     (case h of HttpHealth _ up down \<Rightarrow> if success then up else down
      | TcpHealth up down _ \<Rightarrow> if success then up else down)"

section \<open>Balancers\<close>

datatype backends_source = StaticSource "backend list" | DnsSource dns_discovery

record balancer =
  lb_strategy :: balance
  lb_source :: backends_source
  lb_members :: "backend list"
  lb_health :: "pool_health option"
  lb_health_frequency :: "duration option"
  lb_update_frequency :: "duration option"

text \<open>One \<open>update\<close> of the balancer.\<close>

definition lb_update :: "(string \<Rightarrow> lookup) \<Rightarrow> balancer \<Rightarrow> (unit, refusal) result \<times> balancer" where
  "lb_update look lb =
     (case lb_source lb of
        StaticSource ms \<Rightarrow> (Inr (), lb \<lparr> lb_members := ms \<rparr>)
      | DnsSource d \<Rightarrow>
          (case discover look d of
             (Inl e, d') \<Rightarrow> (Inl e, lb \<lparr> lb_source := DnsSource d' \<rparr>)
           | (Inr ms, d') \<Rightarrow> (Inr (), lb \<lparr> lb_source := DnsSource d', lb_members := ms \<rparr>)))"

datatype start_error =
    BadSingleTarget string target_error
  | BadPoolTarget target_error
  | NoTargets string
  | CannotResolve string string
  | BadMembers string member_error
  | BadHealthCheck string
  | DiscoveryPending string
  | DiscoveryRefused string refusal

text \<open>\<open>prime\<close> polls the update once: a static set and the primed set of startup are there at
  once; otherwise the future is pending unless \<open>ready\<close> says that the lookups were.\<close>

definition poll_once :: "bool \<Rightarrow> balancer \<Rightarrow> bool" where
  "poll_once ready lb =
     (case lb_source lb of StaticSource _ \<Rightarrow> True | DnsSource d \<Rightarrow> dd_primed d \<noteq> None \<or> ready)"

definition prime :: "bool \<Rightarrow> (string \<Rightarrow> lookup) \<Rightarrow> string \<Rightarrow> balancer \<Rightarrow> (balancer, start_error) result" where
  "prime ready look name lb =
     (if \<not> poll_once ready lb then Inl (DiscoveryPending name)
      else case lb_update look lb of
             (Inl e, _) \<Rightarrow> Inl (DiscoveryRefused name e)
           | (Inr _, lb') \<Rightarrow> Inr lb')"

text \<open>The background service, named after the upstream, exists when something is periodic.\<close>

definition start_balancer ::
  "bool \<Rightarrow> (string \<Rightarrow> lookup) \<Rightarrow> string \<Rightarrow> backends_source \<Rightarrow> pool_health option \<Rightarrow> upstream_config \<Rightarrow> balance \<Rightarrow>
   (balancer \<times> string option, start_error) result" where
  "start_balancer ready look name source health cfg strategy =
     and_then
       (prime ready look name
          \<lparr> lb_strategy = strategy, lb_source = source, lb_members = [], lb_health = health,
            lb_health_frequency = map_option hc_interval (uc_health_check cfg),
            lb_update_frequency = map_option dc_interval (uc_discovery cfg) \<rparr>) (\<lambda>lb.
     Inr (lb, if uc_health_check cfg \<noteq> None \<or> uc_discovery cfg \<noteq> None
              then Some (''health-'' @ name) else None))"

section \<open>Building pools\<close>

definition DEFAULT_MAX_MEMBERS :: nat where "DEFAULT_MAX_MEMBERS = 256"

definition DISCOVERY_LOOKUP_TIMEOUT :: duration where "DISCOVERY_LOOKUP_TIMEOUT = from_secs 5"

text \<open>What the construction takes from outside: URI parsing, the blocking resolver, and which
  health requests Pingora can build.\<close>

record pool_env =
  pe_uri_parse :: "string \<Rightarrow> uri option"
  pe_resolve :: "string \<Rightarrow> (string list, string) result"
  pe_buildable :: "string \<Rightarrow> string \<Rightarrow> bool"

fun startup_answers ::
  "pool_env \<Rightarrow> string \<Rightarrow> nat \<Rightarrow> (upstream_target \<times> target_config) list \<Rightarrow> (answer list, start_error) result" where
  "startup_answers env name i [] = Inr []"
| "startup_answers env name i ((t, c) # rest) =
     (case pe_resolve env (ut_addr t) of
        Inl e \<Rightarrow> Inl (CannotResolve name (ut_addr t))
      | Inr addrs \<Rightarrow>
          and_then (startup_answers env name (Suc i) rest) (\<lambda>answers.
          Inr (\<lparr> an_index = i, an_weight = tg_weight c, an_addrs = addrs \<rparr> # answers)))"

definition resolve_at_startup ::
  "pool_env \<Rightarrow> string \<Rightarrow> upstream_config \<Rightarrow> upstream_target list \<Rightarrow> (answer list, start_error) result" where
  "resolve_at_startup env name cfg targets = startup_answers env name 0 (zip targets (uc_targets cfg))"

definition member_limit :: "upstream_config \<Rightarrow> nat" where
  "member_limit cfg = (case uc_discovery cfg of Some d \<Rightarrow> dc_max_members d | None \<Rightarrow> DEFAULT_MAX_MEMBERS)"

definition pool_source ::
  "upstream_config \<Rightarrow> upstream_target list \<Rightarrow> backend list \<Rightarrow> (string \<rightharpoonup> nat) \<Rightarrow> backends_source" where
  "pool_source cfg targets members owners =
     (case uc_discovery cfg of
        None \<Rightarrow> StaticSource members
      | Some d \<Rightarrow> DnsSource
          \<lparr> dd_pool = \<lparr> ds_targets = targets, ds_weights = map tg_weight (uc_targets cfg),
                        ds_max_members = dc_max_members d, ds_owners = owners, ds_members = members \<rparr>,
            dd_lookup_timeout = min (dc_interval d) DISCOVERY_LOOKUP_TIMEOUT,
            dd_primed = Some members \<rparr>)"

definition pool_health_check ::
  "pool_env \<Rightarrow> string \<Rightarrow> upstream_config \<Rightarrow> upstream_target list \<Rightarrow> (pool_health option, start_error) result" where
  "pool_health_check env name cfg targets =
     (case uc_health_check cfg of
        None \<Rightarrow> Inr None
      | Some hc \<Rightarrow>
          (case hc_path hc of
             None \<Rightarrow> Inr (Some (TcpHealth (hc_healthy_after hc) (hc_unhealthy_after hc) (hc_timeout hc)))
           | Some path \<Rightarrow>
               and_then
                 (collect_results
                    (\<lambda>t. case http_health_check (pe_buildable env) hc t path of
                           None \<Rightarrow> Inl (BadHealthCheck name) | Some k \<Rightarrow> Inr k) targets) (\<lambda>checks.
               Inr (Some (HttpHealth checks (hc_healthy_after hc) (hc_unhealthy_after hc))))))"

text \<open>The pool of an upstream: its balancer and the configured targets.\<close>

definition build_pool ::
  "pool_env \<Rightarrow> bool \<Rightarrow> (string \<Rightarrow> lookup) \<Rightarrow> string \<Rightarrow> upstream_config \<Rightarrow>
   ((balancer \<times> upstream_target list) \<times> string option, start_error) result" where
  "build_pool env ready look name cfg =
     and_then (collect_results (\<lambda>t. map_err BadPoolTarget (target_parse (pe_uri_parse env) (tg_url t)))
                 (uc_targets cfg)) (\<lambda>targets.
     and_then (resolve_at_startup env name cfg targets) (\<lambda>answers.
     and_then (map_err (BadMembers name)
                 (member_set answers (member_limit cfg) None))
       (\<lambda>(members, owners).
     and_then (pool_health_check env name cfg targets) (\<lambda>health.
     and_then (start_balancer ready look name (pool_source cfg targets members owners) health cfg (uc_balance cfg))
       (\<lambda>(lb, service). Inr ((lb, targets), service))))))"

datatype built = BuiltSingle upstream_target | BuiltPool balancer "upstream_target list"

record built_upstream =
  bu_kind :: built
  bu_breaker :: "circuit_breaker option"

text \<open>What a request sees of it: the targets and the members in service.\<close>

definition kind_of :: "built \<Rightarrow> kind" where
  "kind_of k = (case k of BuiltSingle t \<Rightarrow> Single t | BuiltPool lb targets \<Rightarrow> Pool (lb_members lb) targets)"

definition upstream_new :: "instant \<Rightarrow> built \<Rightarrow> upstream_config \<Rightarrow> built_upstream" where
  "upstream_new now k cfg =
     \<lparr> bu_kind = k, bu_breaker = map_option (breaker_new now) (uc_circuit_breaker cfg) \<rparr>"

definition build_upstream ::
  "pool_env \<Rightarrow> bool \<Rightarrow> (string \<Rightarrow> lookup) \<Rightarrow> string \<Rightarrow> upstream_config \<Rightarrow> (built \<times> string option, start_error) result" where
  "build_upstream env ready look name cfg =
     (if is_pool cfg
      then and_then (build_pool env ready look name cfg) (\<lambda>((lb, targets), service).
             Inr (BuiltPool lb targets, service))
      else case uc_targets cfg of
             [] \<Rightarrow> Inl (NoTargets name)
           | t # _ \<Rightarrow> and_then (map_err (BadSingleTarget name) (target_parse (pe_uri_parse env) (tg_url t)))
                        (\<lambda>target. Inr (BuiltSingle target, None)))"

definition add_service :: "string option \<Rightarrow> string list \<Rightarrow> string list" where
  "add_service service services = (case service of Some s \<Rightarrow> services @ [s] | None \<Rightarrow> services)"

lemma set_add_service [simp]: "set (add_service service services) = set services \<union> set_option service"
  by (auto simp: add_service_def split: option.splits)

text \<open>\<open>resolve_all\<close>: the upstreams in the order the configuration's map gives them, and the
  services to register.\<close>

fun resolve_all ::
  "pool_env \<Rightarrow> bool \<Rightarrow> (string \<Rightarrow> lookup) \<Rightarrow> instant \<Rightarrow> (string \<times> upstream_config) list \<Rightarrow>
   (string \<rightharpoonup> built_upstream) \<times> string list \<Rightarrow> ((string \<rightharpoonup> built_upstream) \<times> string list, start_error) result" where
  "resolve_all env ready look now [] acc = Inr acc"
| "resolve_all env ready look now ((name, cfg) # rest) (upstreams, services) =
     and_then (build_upstream env ready look name cfg) (\<lambda>(k, service).
     resolve_all env ready look now rest
       (upstreams(name \<mapsto> upstream_new now k cfg), add_service service services))"

section \<open>Refreshes\<close>

text \<open>The abstract pool of \<open>Upstreams\<close>: what a balancer that rediscovers holds. Its update, with
  Pingora's replacement of the members, is \<open>refresh\<close>.\<close>

definition found :: "(string \<Rightarrow> lookup) \<Rightarrow> string \<Rightarrow> string list option" where
  "found look name = (case look name of Addresses as \<Rightarrow> Some as | _ \<Rightarrow> None)"

definition pool_held :: "dns_discovery \<Rightarrow> backend list \<Rightarrow> discovery" where
  "pool_held d members = dd_pool d \<lparr> ds_members := members \<rparr>"

lemma discover_answers_look_up_all:
  "(case discover_answers look limit weights i ts of Inl _ \<Rightarrow> None | Inr as \<Rightarrow> Some as) =
     look_up_all (found look) weights i ts"
proof (induction look limit weights i ts rule: discover_answers.induct)
  case (2 look limit weights i t ts)
  then show ?case
    by (cases "look (ut_addr t)"; cases "discover_answers look limit weights (Suc i) ts")
       (simp_all add: found_def [of _ "ut_addr t"] and_then_def, simp_all add: eq_commute [of "Some _"])
qed simp

text \<open>What an update does to a pool that rediscovers, and that it is a step of the abstract
  pool: every refused or failed discovery is a refresh that changes nothing.\<close>

lemma lb_update_refines:
  assumes "lb_source lb = DnsSource d" "dd_primed d = None"
  obtains d' where "lb_source (snd (lb_update look lb)) = DnsSource d'" "dd_primed d' = None"
    "pool_held d' (lb_members (snd (lb_update look lb))) = refresh (found look) (pool_held d (lb_members lb))"
proof -
  let ?p = "dd_pool d"
  let ?lookups = "discover_answers look (dd_lookup_timeout d) (ds_weights ?p) 0 (ds_targets ?p)"
  note same = discover_answers_look_up_all [of look "dd_lookup_timeout d" "ds_weights ?p" 0 "ds_targets ?p"]
  show ?thesis
  proof (cases ?lookups)
    case (Inl e)
    then have "look_up_all (found look) (ds_weights ?p) 0 (ds_targets ?p) = None" using same by simp
    then show ?thesis
      using that [of d] assms Inl by (simp add: lb_update_def discover_def refresh_def pool_held_def)
  next
    case (Inr answers)
    then have l: "look_up_all (found look) (ds_weights ?p) 0 (ds_targets ?p) = Some answers"
      using same by simp
    show ?thesis
    proof (cases "member_set answers (ds_max_members ?p) (Some (ds_owners ?p))")
      case (Inl e)
      then show ?thesis
        using that [of d] assms Inr l by (simp add: lb_update_def discover_def refresh_def pool_held_def)
    next
      case (Inr r)
      obtain members owners where "r = (members, owners)" by fastforce
      then show ?thesis
        using that [of "d \<lparr> dd_pool := ?p \<lparr> ds_owners := owners \<rparr> \<rparr>"] assms Inr l \<open>?lookups = Inr answers\<close>
        by (simp add: lb_update_def discover_def refresh_def pool_held_def)
    qed
  qed
qed

section \<open>Pools after startup\<close>

definition lb_ok :: "nat \<Rightarrow> nat \<Rightarrow> balancer \<Rightarrow> bool" where
  "lb_ok n mx lb =
     (be_index ` set (lb_members lb) = {..<n} \<and> length (lb_members lb) \<le> mx
      \<and> distinct (map be_addr (lb_members lb))
      \<and> (case lb_source lb of
           StaticSource ms \<Rightarrow> ms = lb_members lb
         | DnsSource d \<Rightarrow> dd_primed d = None \<and> pool_ok (pool_held d (lb_members lb))
             \<and> length (ds_targets (dd_pool d)) = n \<and> ds_max_members (dd_pool d) = mx))"

inductive lb_step :: "balancer \<Rightarrow> balancer \<Rightarrow> bool" where
  "lb_step lb (snd (lb_update look lb))"

lemma lb_step_ok:
  assumes "lb_ok n mx lb" "lb_step lb lb'"
  shows "lb_ok n mx lb'"
proof -
  obtain look where lb': "lb' = snd (lb_update look lb)" using assms(2) by (auto elim: lb_step.cases)
  show ?thesis
  proof (cases "lb_source lb")
    case (StaticSource ms)
    then show ?thesis using assms(1) by (simp add: lb' lb_update_def lb_ok_def)
  next
    case (DnsSource d)
    then have d: "dd_primed d = None" "pool_ok (pool_held d (lb_members lb))"
      "length (ds_targets (dd_pool d)) = n" "ds_max_members (dd_pool d) = mx"
      using assms(1) by (simp_all add: lb_ok_def)
    obtain d' where d': "lb_source lb' = DnsSource d'" "dd_primed d' = None"
      "pool_held d' (lb_members lb') = refresh (found look) (pool_held d (lb_members lb))"
      using lb_update_refines [OF DnsSource d(1), of look] lb' by metis
    have ok: "pool_ok (pool_held d' (lb_members lb'))"
      using refresh_ok [OF d(2), of "found look"] d'(3) by simp
    have "ds_targets (pool_held d' (lb_members lb')) = ds_targets (dd_pool d)"
      "ds_max_members (pool_held d' (lb_members lb')) = ds_max_members (dd_pool d)"
      unfolding d'(3) by (simp_all add: pool_held_def)
    then have st: "ds_targets (dd_pool d') = ds_targets (dd_pool d)"
      "ds_max_members (dd_pool d') = ds_max_members (dd_pool d)" by (simp_all add: pool_held_def)
    have "be_index ` set (lb_members lb') = {..<n} \<and> length (lb_members lb') \<le> mx
        \<and> distinct (map be_addr (lb_members lb'))"
      using ok st d(3,4) by (simp add: pool_held_def pool_ok_def owned_by_def)
    then show ?thesis using ok d'(1,2) st d(3,4) by (simp add: lb_ok_def)
  qed
qed

lemma lb_step_health: "lb_step\<^sup>*\<^sup>* lb lb' \<Longrightarrow> lb_health lb' = lb_health lb"
  by (induction rule: rtranclp_induct)
     (auto elim!: lb_step.cases simp: lb_update_def split: backends_source.splits prod.splits sum.splits)

interpretation balancers: invariant_system "lb_ok n mx" lb_step "lb_ok n mx" for n mx
  by unfold_locales (auto simp: lb_step_ok)

section \<open>What startup builds\<close>

lemma startup_answers_indices:
  "startup_answers env name i tcs = Inr answers \<Longrightarrow> map an_index answers = [i..<i + length tcs]"
  by (induction env name i tcs arbitrary: answers rule: startup_answers.induct)
     (auto simp: and_then_Inr_iff upt_conv_Cons simp del: upt_Suc split: sum.splits)

lemma member_set_covers:
  assumes "map an_index answers = [0..<n]" "member_set answers mx owners = Inr (members, owner)"
  shows "be_index ` set members = {..<n}"
proof -
  have i: "an_index ` set answers = {..<n}"
    using assms(1) by (metis atLeast0LessThan atLeastLessThan_upt set_map)
  show ?thesis
  proof (intro set_eqI iffI)
    fix k assume "k \<in> be_index ` set members"
    then show "k \<in> {..<n}" using member_set_Inr(5) [OF assms(2)] i by auto
  next
    fix k assume "k \<in> {..<n}"
    then obtain a where "a \<in> set answers" "an_index a = k" using i by (metis imageE)
    then show "k \<in> be_index ` set members" using member_set_Inr(4) [OF assms(2)] by force
  qed
qed

text \<open>The primed set of startup is what the first update returns, so priming cannot be pending or
  refused, whatever the resolver does in the meantime.\<close>

definition started_source ::
  "upstream_config \<Rightarrow> upstream_target list \<Rightarrow> backend list \<Rightarrow> (string \<rightharpoonup> nat) \<Rightarrow> backends_source" where
  "started_source cfg targets members owners =
     (case pool_source cfg targets members owners of
        StaticSource ms \<Rightarrow> StaticSource ms
      | DnsSource d \<Rightarrow> DnsSource (d \<lparr> dd_primed := None \<rparr>))"

lemma start_balancer_primed:
  "start_balancer ready look name (pool_source cfg targets members owners) health cfg strategy =
     Inr (\<lparr> lb_strategy = strategy, lb_source = started_source cfg targets members owners,
            lb_members = members, lb_health = health,
            lb_health_frequency = map_option hc_interval (uc_health_check cfg),
            lb_update_frequency = map_option dc_interval (uc_discovery cfg) \<rparr>,
          if uc_health_check cfg \<noteq> None \<or> uc_discovery cfg \<noteq> None then Some (''health-'' @ name) else None)"
  by (cases "uc_discovery cfg")
     (simp_all add: start_balancer_def prime_def poll_once_def pool_source_def started_source_def
        lb_update_def discover_def)

definition checks_match :: "health_check_config \<Rightarrow> string \<Rightarrow> upstream_target list \<Rightarrow> http_check list \<Rightarrow> bool" where
  "checks_match hc path targets checks =
     list_all2 (\<lambda>t k. hk_sni k = ut_sni t \<and> hk_tls k = ut_tls t \<and> hk_host k = ut_addr t
                 \<and> hk_path k = path \<and> hk_timeout k = hc_timeout hc) targets checks"

lemma pool_health_check_http:
  assumes "pool_health_check env name cfg targets = Inr health" "uc_health_check cfg = Some hc" "hc_path hc = Some path"
  obtains checks where "health = Some (HttpHealth checks (hc_healthy_after hc) (hc_unhealthy_after hc))"
    "checks_match hc path targets checks"
proof -
  obtain checks where c: "health = Some (HttpHealth checks (hc_healthy_after hc) (hc_unhealthy_after hc))"
    "list_all2 (\<lambda>t y. (case http_health_check (pe_buildable env) hc t path of
        None \<Rightarrow> Inl (BadHealthCheck name) | Some k \<Rightarrow> Inr k) = Inr y) targets checks"
    using assms by (auto simp: pool_health_check_def and_then_Inr_iff collect_results_Inr)
  have "checks_match hc path targets checks"
    unfolding checks_match_def
    by (rule list_all2_mono [OF c(2)]) (auto simp: http_health_check_def split: option.splits if_splits)
  then show ?thesis using that c(1) by blast
qed

lemma checks_of_pool:
  assumes "pool_health_check env name cfg targets = Inr health" "health = Some (HttpHealth checks up down)"
  shows "\<exists>hc path. checks_match hc path targets checks"
proof -
  obtain hc where hc: "uc_health_check cfg = Some hc" using assms by (auto simp: pool_health_check_def split: option.splits)
  then obtain path where "hc_path hc = Some path"
    using assms by (auto simp: pool_health_check_def split: option.splits)
  from pool_health_check_http [OF assms(1) hc this] obtain checks' where
    "health = Some (HttpHealth checks' (hc_healthy_after hc) (hc_unhealthy_after hc))"
    "checks_match hc path targets checks'" by blast
  then show ?thesis using assms(2) by auto
qed

lemma build_pool_Inr:
  assumes "build_pool env ready look name cfg = Inr ((lb, targets), service)"
  shows "list_all2 (\<lambda>c t. target_parse (pe_uri_parse env) (tg_url c) = Inr t) (uc_targets cfg) targets"
    and "lb_ok (length targets) (member_limit cfg) lb"
    and "pool_health_check env name cfg targets = Inr (lb_health lb)"
    and "service = (if uc_health_check cfg \<noteq> None \<or> uc_discovery cfg \<noteq> None then Some (''health-'' @ name) else None)"
proof -
  obtain answers members owners health where
    s: "list_all2 (\<lambda>c t. target_parse (pe_uri_parse env) (tg_url c) = Inr t) (uc_targets cfg) targets"
      "resolve_at_startup env name cfg targets = Inr answers"
      "member_set answers (member_limit cfg) None = Inr (members, owners)"
      "pool_health_check env name cfg targets = Inr health"
      "start_balancer ready look name (pool_source cfg targets members owners) health cfg (uc_balance cfg) = Inr (lb, service)"
    using assms
    by (clarsimp simp: build_pool_def and_then_Inr_iff collect_results_Inr simp del: start_balancer_primed)
  note b = s(5) [unfolded start_balancer_primed]
  show "list_all2 (\<lambda>c t. target_parse (pe_uri_parse env) (tg_url c) = Inr t) (uc_targets cfg) targets" by (rule s(1))
  show "pool_health_check env name cfg targets = Inr (lb_health lb)" using s(4) b by auto
  show "service = (if uc_health_check cfg \<noteq> None \<or> uc_discovery cfg \<noteq> None then Some (''health-'' @ name) else None)"
    using b by auto
  have "length (uc_targets cfg) = length targets" using s(1) by (rule list_all2_lengthD)
  then have "map an_index answers = [0..<length targets]"
    using startup_answers_indices [OF s(2) [unfolded resolve_at_startup_def]] by simp
  note m = member_set_covers [OF this s(3)] member_set_Inr(1-3) [OF s(3)]
  show "lb_ok (length targets) (member_limit cfg) lb"
    using m b
    by (auto simp: lb_ok_def pool_ok_def pool_held_def owned_by_def member_limit_def
        started_source_def pool_source_def split: option.splits)
qed

lemma resolve_all_Cons:
  assumes "resolve_all env ready look now ((n, c) # rest) (ups0, sv0) = Inr r"
  obtains k service where "build_upstream env ready look n c = Inr (k, service)"
    "resolve_all env ready look now rest (ups0(n \<mapsto> upstream_new now k c), add_service service sv0) = Inr r"
  using assms that by (auto simp: and_then_Inr_iff)

lemma resolve_all_keeps:
  assumes "resolve_all env ready look now configured (ups0, sv0) = Inr (ups, sv)"
  shows "set sv0 \<subseteq> set sv \<and> (name \<notin> fst ` set configured \<longrightarrow> ups name = ups0 name)"
  using assms
proof (induction configured arbitrary: ups0 sv0)
  case (Cons e rest)
  obtain n c where e: "e = (n, c)" by fastforce
  obtain k service where
    "resolve_all env ready look now rest (ups0(n \<mapsto> upstream_new now k c), add_service service sv0) = Inr (ups, sv)"
    by (rule resolve_all_Cons [OF Cons.prems [unfolded e]])
  from Cons.IH [OF this] show ?case by (auto simp: e)
qed simp

lemma resolve_all_entry:
  assumes "resolve_all env ready look now configured (ups0, sv0) = Inr (ups, sv)"
    and "distinct (map fst configured)" "(name, cfg) \<in> set configured"
  shows "\<exists>k service. build_upstream env ready look name cfg = Inr (k, service)
    \<and> ups name = Some (upstream_new now k cfg) \<and> set_option service \<subseteq> set sv"
  using assms
proof (induction configured arbitrary: ups0 sv0)
  case (Cons e rest)
  obtain n c where e: "e = (n, c)" by fastforce
  obtain k service where k: "build_upstream env ready look n c = Inr (k, service)"
    and r: "resolve_all env ready look now rest (ups0(n \<mapsto> upstream_new now k c), add_service service sv0) = Inr (ups, sv)"
    by (rule resolve_all_Cons [OF Cons.prems(1) [unfolded e]])
  show ?case
  proof (cases "(name, cfg) = (n, c)")
    case True
    then have "ups name = Some (upstream_new now k cfg) \<and> set_option service \<subseteq> set sv"
      using resolve_all_keeps [OF r, of name] Cons.prems(2) by (simp add: e)
    then show ?thesis using k True by auto
  next
    case False
    then show ?thesis using Cons.IH [OF r] Cons.prems(2,3) by (auto simp: e)
  qed
qed simp

section \<open>Properties\<close>

text \<open>C23: a gateway that starts has every pool it was configured with, whole, and keeps it so.
  After startup and any number of refreshes, successful or not, every target of the pool has a
  member in service, the pool is within its bound, every member comes from the configured target
  it is dialled for and with the authority of that target, and its health is checked with that target's own authority and TLS
  settings. Health checks and discovery are registered to run.\<close>

theorem started_pools_whole:
  assumes "resolve_all env ready look now configured (Map.empty, []) = Inr (ups, services)"
    and "distinct (map fst configured)" "(name, cfg) \<in> set configured" "is_pool cfg"
  shows "\<exists>lb0 targets. map_option bu_kind (ups name) = Some (BuiltPool lb0 targets)
    \<and> ((uc_health_check cfg \<noteq> None \<or> uc_discovery cfg \<noteq> None) \<longrightarrow> ''health-'' @ name \<in> set services)
    \<and> (\<forall>lb. lb_step\<^sup>*\<^sup>* lb0 lb \<longrightarrow>
         be_index ` set (lb_members lb) = {..<length (uc_targets cfg)}
         \<and> length (lb_members lb) \<le> member_limit cfg
         \<and> (\<forall>b\<in>set (lb_members lb).
              target_parse (pe_uri_parse env) (tg_url (uc_targets cfg ! be_index b)) = Inr (targets ! be_index b)
              \<and> (\<forall>pick key. pick (lb_members lb) key = Some b \<longrightarrow>
                   upstream_select pick (kind_of (BuiltPool lb targets)) key =
                     Some \<lparr> se_target = targets ! be_index b, se_addr = Some (be_addr b) \<rparr>)
              \<and> (\<forall>checks up down. lb_health lb = Some (HttpHealth checks up down) \<longrightarrow>
                   (\<exists>k. (\<forall>probe. pool_http_check probe checks b = (if probe k b then Inr () else Inl CheckFailed))
                      \<and> hk_host k = ut_addr (targets ! be_index b)
                      \<and> hk_sni k = ut_sni (targets ! be_index b)
                      \<and> hk_tls k = ut_tls (targets ! be_index b)))))"
proof -
  obtain k service where k: "build_upstream env ready look name cfg = Inr (k, service)"
    "ups name = Some (upstream_new now k cfg)" "set_option service \<subseteq> set services"
    using resolve_all_entry [OF assms(1-3)] by blast
  then obtain lb0 targets where k': "k = BuiltPool lb0 targets"
    and b: "build_pool env ready look name cfg = Inr ((lb0, targets), service)"
    using assms(4) by (auto simp: build_upstream_def and_then_Inr_iff)
  note bp = build_pool_Inr [OF b]
  have len: "length (uc_targets cfg) = length targets" using bp(1) by (rule list_all2_lengthD)
  have sv: "(uc_health_check cfg \<noteq> None \<or> uc_discovery cfg \<noteq> None) \<longrightarrow> ''health-'' @ name \<in> set services"
    using bp(4) k(3) by (auto split: if_splits)
  have kind: "map_option bu_kind (ups name) = Some (BuiltPool lb0 targets)"
    using k(2) k' by (simp add: upstream_new_def)
  have whole: "be_index ` set (lb_members lb) = {..<length (uc_targets cfg)} \<and> length (lb_members lb) \<le> member_limit cfg"
    if "lb_step\<^sup>*\<^sup>* lb0 lb" for lb
    using balancers.reachable_inv [OF bp(2) that] len by (simp add: lb_ok_def)
  have own: "target_parse (pe_uri_parse env) (tg_url (uc_targets cfg ! be_index b)) = Inr (targets ! be_index b)"
    if "lb_step\<^sup>*\<^sup>* lb0 lb" "b \<in> set (lb_members lb)" for lb b
  proof -
    have "be_index b < length (uc_targets cfg)" using whole [OF that(1)] that(2) by blast
    then show ?thesis using bp(1) len by (simp add: list_all2_conv_all_nth)
  qed
  have dial: "upstream_select pick (kind_of (BuiltPool lb targets)) key =
      Some \<lparr> se_target = targets ! be_index b, se_addr = Some (be_addr b) \<rparr>"
    if "lb_step\<^sup>*\<^sup>* lb0 lb" "b \<in> set (lb_members lb)" "pick (lb_members lb) key = Some b" for lb b pick key
  proof -
    have "be_index b < length (uc_targets cfg)" using whole [OF that(1)] that(2) by blast
    then show ?thesis using that(3) len by (simp add: upstream_select_def kind_of_def)
  qed
  have check: "\<exists>k. (\<forall>probe. pool_http_check probe checks b = (if probe k b then Inr () else Inl CheckFailed))
      \<and> hk_host k = ut_addr (targets ! be_index b) \<and> hk_sni k = ut_sni (targets ! be_index b)
      \<and> hk_tls k = ut_tls (targets ! be_index b)"
    if "lb_step\<^sup>*\<^sup>* lb0 lb" "b \<in> set (lb_members lb)" "lb_health lb = Some (HttpHealth checks up down)"
    for lb b checks up down
  proof -
    have "be_index b < length (uc_targets cfg)" using whole [OF that(1)] that(2) by blast
    then have i: "be_index b < length targets" by (simp add: len)
    have h: "lb_health lb0 = Some (HttpHealth checks up down)" using lb_step_health [OF that(1)] that(3) by simp
    obtain hc path where "checks_match hc path targets checks"
      using checks_of_pool [OF bp(3) h] by blast
    then have "be_index b < length checks \<and> hk_host (checks ! be_index b) = ut_addr (targets ! be_index b)
        \<and> hk_sni (checks ! be_index b) = ut_sni (targets ! be_index b)
        \<and> hk_tls (checks ! be_index b) = ut_tls (targets ! be_index b)"
      using i by (simp add: checks_match_def list_all2_conv_all_nth)
    then show ?thesis by (intro exI [of _ "checks ! be_index b"]) (simp add: pool_http_check_def)
  qed
  show ?thesis
  proof (rule exI [of _ lb0], rule exI [of _ targets], intro conjI allI impI ballI)
    fix lb assume lb: "lb_step\<^sup>*\<^sup>* lb0 lb"
    show "be_index ` set (lb_members lb) = {..<length (uc_targets cfg)}"
      "length (lb_members lb) \<le> member_limit cfg" using whole [OF lb] by (rule conjunct1, rule conjunct2)
  qed (rule kind, rule mp [OF sv], assumption, erule (1) own, erule (2) dial, erule (2) check)
qed

text \<open>A pool of two targets, checked over HTTP and refreshed, and a failing lookup.\<close>

definition sample_pool_env :: pool_env where
  "sample_pool_env =
     \<lparr> pe_uri_parse = (\<lambda>u. Some \<lparr> uri_scheme = Some ''https'', uri_host = Some u, uri_port = None, uri_path = ''/'' \<rparr>),
       pe_resolve = (\<lambda>a. Inr [if a = ''a:443'' then ''10.0.0.1:443'' else ''10.0.0.2:443'']),
       pe_buildable = (\<lambda>_ _. True) \<rparr>"

definition sample_pool :: upstream_config where
  "sample_pool =
     \<lparr> uc_targets = [\<lparr> tg_url = ''a'', tg_weight = 1 \<rparr>, \<lparr> tg_url = ''b'', tg_weight = 2 \<rparr>],
       uc_balance = RoundRobin, uc_hash_on = HashIp,
       uc_health_check = Some \<lparr> hc_path = Some ''/up'', hc_interval = 10, hc_timeout = 2,
                               hc_healthy_after = 1, hc_unhealthy_after = 3 \<rparr>,
       uc_circuit_breaker = None,
       uc_discovery = Some \<lparr> dc_interval = 30, dc_max_members = 4 \<rparr> \<rparr>"

definition half_lookup :: "string \<Rightarrow> lookup" where
  "half_lookup name = (if name = ''a:443'' then Addresses [''10.0.0.7:443''] else LookupTimedOut)"

lemma show_https: "show_nat 443 = ''443''"
  by code_simp

lemma sample_pool_starts:
  "\<exists>ups. resolve_all sample_pool_env False half_lookup 0 [(''users'', sample_pool)] (Map.empty, [])
     = Inr (ups, [''health-users''])"
  by (simp add: build_upstream_def is_pool_def sample_pool_def build_pool_def sample_pool_env_def
      target_parse_def resolve_at_startup_def member_set_def pool_health_check_def http_health_check_def
      start_balancer_primed add_service_def and_then_def map_err_def member_limit_def show_https)

theorem started_pools_whole_witness:
  "\<exists>ups lb0 targets. resolve_all sample_pool_env False half_lookup 0 [(''users'', sample_pool)] (Map.empty, [])
       = Inr (ups, [''health-users''])
     \<and> map_option bu_kind (ups ''users'') = Some (BuiltPool lb0 targets)
     \<and> be_index ` set (lb_members (snd (lb_update half_lookup lb0))) = {0, 1}"
proof -
  obtain ups where r: "resolve_all sample_pool_env False half_lookup 0 [(''users'', sample_pool)] (Map.empty, [])
       = Inr (ups, [''health-users''])"
    using sample_pool_starts by blast
  have "is_pool sample_pool" by (simp add: is_pool_def sample_pool_def)
  from started_pools_whole [OF r _ _ this, of "''users''"] obtain lb0 targets where
    k: "map_option bu_kind (ups ''users'') = Some (BuiltPool lb0 targets)"
    and all: "\<forall>lb. lb_step\<^sup>*\<^sup>* lb0 lb \<longrightarrow>
         be_index ` set (lb_members lb) = {..<length (uc_targets sample_pool)}"
    by auto
  have "lb_step\<^sup>*\<^sup>* lb0 (snd (lb_update half_lookup lb0))" by (blast intro: lb_step.intros)
  then have "be_index ` set (lb_members (snd (lb_update half_lookup lb0))) = {..<2}"
    using all by (simp add: sample_pool_def numeral_2_eq_2)
  moreover have "{..<2::nat} = {0, 1}" by auto
  ultimately show ?thesis using r k by auto
qed

end
