(* ===== verification/Deadlines.thy ===== *)
theory Deadlines
  imports Rust_Prelude
begin

text \<open>
  The deadlines around one HTTP exchange (\<open>downstream.rs\<close>): an absolute one for the request
  header, which ends when the first filter signals that the header was parsed, and an
  optional one for the whole exchange.

  A future is what it does when it is left alone: whether and when it notifies the signal and
  whether and when it completes. A race (\<open>tokio::select!\<close>, \<open>timeout_at\<close>) is decided by these
  times; a \<open>biased\<close> select takes the first branch that is ready. Times are measured from the
  start of the exchange, and a timer that is ready together with the future loses, since the
  future is polled first.
\<close>

section \<open>Futures and races\<close>

text \<open>The time of the header signal and of completion with its result, when they happen.\<close>

record 'a future =
  fu_header :: "instant option"
  fu_done :: "(instant \<times> 'a) option"

text \<open>How a wait ends: with a result, cut off, or not at all.\<close>

datatype 'a outcome = Finished instant 'a | Cut instant | Never

definition by_then :: "instant option \<Rightarrow> instant \<Rightarrow> bool" where
  "by_then t d = (case t of Some x \<Rightarrow> x \<le> d | None \<Rightarrow> False)"

definition left_alone :: "'a future \<Rightarrow> 'a outcome" where
  "left_alone e = (case fu_done e of Some (t, r) \<Rightarrow> Finished t r | None \<Rightarrow> Never)"

text \<open>\<open>wait_for_header\<close>: completion, the signal, and the deadline, in this order of preference.
  After the signal the future is awaited without a limit.\<close>

definition wait_for_header :: "duration \<Rightarrow> 'a future \<Rightarrow> 'a outcome" where
  "wait_for_header deadline e =
     (if by_then (map_option fst (fu_done e)) deadline then left_alone e
      else if by_then (fu_header e) deadline then left_alone e
      else Cut deadline)"

text \<open>\<open>timeout_at\<close> over the wait, itself a future: a deadline that has come loses against a
  wait that is over.\<close>

definition timeout_at :: "instant \<Rightarrow> 'a outcome \<Rightarrow> 'a outcome" where
  "timeout_at deadline o1 =
     (case o1 of
        Finished t r \<Rightarrow> if t \<le> deadline then Finished t r else Cut deadline
      | Cut t \<Rightarrow> if t \<le> deadline then Cut t else Cut deadline
      | Never \<Rightarrow> Cut deadline)"

text \<open>\<open>request_budget\<close>: the deadline is computed with \<open>checked_add\<close>, and one that cannot be
  represented ends the exchange at once. \<open>now\<close> and \<open>latest\<close> are instants of the clock.\<close>

definition request_budget :: "instant \<Rightarrow> instant \<Rightarrow> duration option \<Rightarrow> 'a outcome \<Rightarrow> 'a outcome" where
  "request_budget now latest budget o1 =
     (case budget of
        None \<Rightarrow> o1
      | Some d \<Rightarrow> if now + d \<le> latest then timeout_at d o1 else Cut 0)"

record deadline_proxy =
  dp_header_timeout :: duration
  dp_request_total :: "duration option"

definition deadline_proxy_new :: "duration \<Rightarrow> deadline_proxy" where
  "deadline_proxy_new header_timeout = \<lparr> dp_header_timeout = header_timeout, dp_request_total = None \<rparr>"

definition with_request_deadline :: "duration option \<Rightarrow> deadline_proxy \<Rightarrow> deadline_proxy" where
  "with_request_deadline deadline p = p \<lparr> dp_request_total := deadline \<rparr>"

text \<open>\<open>process_new_http\<close>: the connection to reuse, if the exchange finished and left one.\<close>

definition process_new_http ::
  "deadline_proxy \<Rightarrow> instant \<Rightarrow> instant \<Rightarrow> 'a option future \<Rightarrow> 'a option outcome" where
  "process_new_http p now latest e =
     request_budget now latest (dp_request_total p) (wait_for_header (dp_header_timeout p) e)"

definition reused :: "'a option outcome \<Rightarrow> 'a option" where
  "reused o1 = (case o1 of Finished _ r \<Rightarrow> r | _ \<Rightarrow> None)"

section \<open>What the deadlines guarantee\<close>

definition ends_by :: "instant \<Rightarrow> 'a outcome \<Rightarrow> bool" where
  "ends_by d o1 = (case o1 of Finished t _ \<Rightarrow> t \<le> d | Cut t \<Rightarrow> t \<le> d | Never \<Rightarrow> False)"

lemma request_budget_ends: "ends_by d (request_budget now latest (Some d) o1)"
  by (auto simp: request_budget_def timeout_at_def ends_by_def split: outcome.splits)

lemma budget_keeps_end: "ends_by d o1 \<Longrightarrow> ends_by d (request_budget now latest budget o1)"
  by (auto simp: request_budget_def timeout_at_def ends_by_def split: outcome.splits option.splits)

lemma headerless_ends:
  "\<not> by_then (fu_header e) deadline \<Longrightarrow> ends_by deadline (wait_for_header deadline e)"
  by (auto simp: wait_for_header_def by_then_def left_alone_def ends_by_def split: option.splits)

text \<open>C40: no client can hold an exchange open. One whose header is not parsed by the header
  deadline is over by then; with a total budget every exchange is over by the end of it,
  whatever it is doing; and an exchange that keeps both deadlines is not touched: it ends
  when and with what it would have ended alone.\<close>

theorem exchange_deadlines:
  "(\<not> by_then (fu_header e) (dp_header_timeout p) \<longrightarrow>
      ends_by (dp_header_timeout p) (process_new_http p now latest e))
   \<and> (\<forall>d. dp_request_total p = Some d \<longrightarrow> ends_by d (process_new_http p now latest e))
   \<and> (by_then (fu_header e) (dp_header_timeout p)
        \<and> (\<forall>d. dp_request_total p = Some d \<longrightarrow> now + d \<le> latest \<and> by_then (map_option fst (fu_done e)) d)
      \<longrightarrow> process_new_http p now latest e = left_alone e)"
proof (intro conjI impI allI)
  assume "\<not> by_then (fu_header e) (dp_header_timeout p)"
  then show "ends_by (dp_header_timeout p) (process_new_http p now latest e)"
    unfolding process_new_http_def by (intro budget_keeps_end headerless_ends)
next
  fix d assume "dp_request_total p = Some d"
  then show "ends_by d (process_new_http p now latest e)"
    by (simp add: process_new_http_def request_budget_ends)
next
  assume a: "by_then (fu_header e) (dp_header_timeout p)
        \<and> (\<forall>d. dp_request_total p = Some d \<longrightarrow> now + d \<le> latest \<and> by_then (map_option fst (fu_done e)) d)"
  then have "wait_for_header (dp_header_timeout p) e = left_alone e" by (simp add: wait_for_header_def)
  then show "process_new_http p now latest e = left_alone e" using a
    by (cases "dp_request_total p")
      (auto simp: process_new_http_def request_budget_def timeout_at_def left_alone_def by_then_def
        split: option.splits)
qed

definition slow_client :: "nat option future" where
  "slow_client = \<lparr> fu_header = None, fu_done = None \<rparr>"

definition streaming_client :: "nat option future" where
  "streaming_client = \<lparr> fu_header = Some 3, fu_done = Some (50, Some 7) \<rparr>"

theorem exchange_deadlines_witness:
  "ends_by 10 (process_new_http (deadline_proxy_new 10) 0 1000 slow_client)
   \<and> ends_by 40 (process_new_http (with_request_deadline (Some 40) (deadline_proxy_new 10)) 0 1000 streaming_client)
   \<and> process_new_http (deadline_proxy_new 10) 0 1000 streaming_client = Finished 50 (Some 7)"
proof -
  have a: "ends_by 10 (process_new_http (deadline_proxy_new 10) 0 1000 slow_client)"
    using exchange_deadlines [of slow_client "deadline_proxy_new 10" 0 1000]
    by (simp add: by_then_def slow_client_def deadline_proxy_new_def)
  have b: "ends_by 40 (process_new_http (with_request_deadline (Some 40) (deadline_proxy_new 10)) 0 1000 streaming_client)"
    using exchange_deadlines [of streaming_client "with_request_deadline (Some 40) (deadline_proxy_new 10)" 0 1000]
    by (simp add: with_request_deadline_def)
  have c: "process_new_http (deadline_proxy_new 10) 0 1000 streaming_client = left_alone streaming_client"
    using exchange_deadlines [of streaming_client "deadline_proxy_new 10" 0 1000]
    by (simp add: by_then_def streaming_client_def deadline_proxy_new_def)
  show ?thesis using a b c by (simp add: left_alone_def streaming_client_def)
qed

end
