(* ===== verification/Key_Sets.thy ===== *)
theory Key_Sets
  imports Auth
begin

text \<open>
  Token-signing keys, fetched and cached (\<open>auth/jwks.rs\<close>).

  The first part reads a key set off the wire, the second is the cache: every task that
  asks for a key is a small program whose steps are the stretches of code between two
  awaits or locks, and the steps of all tasks interleave. What the crates do is a parameter:
  HTTP responses, JSON decoding, building a decoding key from its components.
\<close>

section \<open>Values a token supplies\<close>

definition UNTRUSTED_QUOTE_CHARS :: nat where
  "UNTRUSTED_QUOTE_CHARS = 64"

text \<open>\<open>escape_debug\<close> is the standard library's, by character.\<close>

definition untrusted :: "(string \<Rightarrow> string) \<Rightarrow> string \<Rightarrow> string" where
  "untrusted escape_debug v =
     concat (map escape_debug (take UNTRUSTED_QUOTE_CHARS (utf8_chars v)))
     @ (if UNTRUSTED_QUOTE_CHARS < length (utf8_chars v) then ''...'' else [])"

section \<open>Fetching a key set\<close>

definition MAX_KEY_SET_BYTES :: nat where
  "MAX_KEY_SET_BYTES = 1024 * 1024"

definition MAX_KEY_TTL :: duration where
  "MAX_KEY_TTL = from_secs (24 * 60 * 60)"

definition key_set_ttl :: "duration option \<Rightarrow> duration \<Rightarrow> duration" where
  "key_set_ttl max_age min_ttl =
     max (min (case max_age of Some d \<Rightarrow> d | None \<Rightarrow> min_ttl) (max MAX_KEY_TTL min_ttl)) min_ttl"

definition max_age :: "header_map \<Rightarrow> duration option" where
  "max_age headers =
     Option.bind (header_text headers ''cache-control'') (\<lambda>cc.
       (case List.map_filter (\<lambda>part. Option.bind (strip_prefix ''max-age='' (trim part))
                               (\<lambda>v. parse_uint U64_MAX (trim v))) (split_on CHR '','' cc) of
          [] \<Rightarrow> None
        | secs # _ \<Rightarrow> Some (from_secs secs)))"

record jwk =
  jk_kty :: string
  jk_kid :: "string option"
  jk_use :: "string option"
  jk_n :: "string option"
  jk_e :: "string option"
  jk_x :: "string option"
  jk_y :: "string option"

datatype key_format = Jwks | X509Pem

record 'key key_crates =
  kc_x509_map :: "string \<Rightarrow> ((string \<times> string) list, string) result"
  kc_jwk_set :: "string \<Rightarrow> (jwk list, string) result"
  kc_rsa :: "string \<Rightarrow> string \<Rightarrow> ('key, string) result"
  kc_ec :: "string \<Rightarrow> string \<Rightarrow> ('key, string) result"
  kc_ed :: "string \<Rightarrow> ('key, string) result"
  kc_x509_key :: "string \<Rightarrow> ('key, string) result"
  kc_status_text :: "nat \<Rightarrow> string"
  kc_escape_debug :: "string \<Rightarrow> string"

type_synonym 'key key_set = "string \<rightharpoonup> 'key"

text \<open>A key that cannot be built is skipped, the rest of the set stays.\<close>

definition add_key :: "string \<Rightarrow> ('key, string) result \<Rightarrow> 'key key_set \<Rightarrow> 'key key_set" where
  "add_key kid built keys = (case built of Inr key \<Rightarrow> keys(kid \<mapsto> key) | Inl _ \<Rightarrow> keys)"

definition parse_x509_map :: "'key key_crates \<Rightarrow> string \<Rightarrow> ('key key_set, auth_error) result" where
  "parse_x509_map kc body =
     (case kc_x509_map kc body of
        Inl e \<Rightarrow> Inl (Unavailable (''certificate body was not JSON: '' @ e))
      | Inr entries \<Rightarrow>
          Inr (fold (\<lambda>(kid, pem). add_key kid (kc_x509_key kc pem)) entries Map.empty))"

definition build_jwk :: "'key key_crates \<Rightarrow> jwk \<Rightarrow> ('key, string) result" where
  "build_jwk kc k =
     (if jk_kty k = ''RSA'' then
        (case (jk_n k, jk_e k) of
           (Some n, Some e) \<Rightarrow> map_err (\<lambda>m. ''bad RSA components: '' @ m) (kc_rsa kc n e)
         | _ \<Rightarrow> Inl ''RSA key is missing `n` or `e`'')
      else if jk_kty k = ''EC'' then
        (case (jk_x k, jk_y k) of
           (Some x, Some y) \<Rightarrow> map_err (\<lambda>m. ''bad EC components: '' @ m) (kc_ec kc x y)
         | _ \<Rightarrow> Inl ''EC key is missing `x` or `y`'')
      else if jk_kty k = ''OKP'' then
        (case jk_x k of
           Some x \<Rightarrow> map_err (\<lambda>m. ''bad Ed components: '' @ m) (kc_ed kc x)
         | None \<Rightarrow> Inl ''OKP key is missing `x`'')
      else Inl (''unsupported key type `'' @ jk_kty k @ ''`''))"

definition jwk_step :: "'key key_crates \<Rightarrow> jwk \<Rightarrow> 'key key_set \<Rightarrow> 'key key_set" where
  "jwk_step kc k keys =
     (if (case jk_use k of Some u \<Rightarrow> u \<noteq> ''sig'' | None \<Rightarrow> False) then keys
      else case jk_kid k of None \<Rightarrow> keys | Some kid \<Rightarrow> add_key kid (build_jwk kc k) keys)"

definition parse_jwks :: "'key key_crates \<Rightarrow> string \<Rightarrow> ('key key_set, auth_error) result" where
  "parse_jwks kc body =
     (case kc_jwk_set kc body of
        Inl e \<Rightarrow> Inl (Unavailable (''JWKS body was not a key set: '' @ e))
      | Inr ks \<Rightarrow> Inr (fold (jwk_step kc) ks Map.empty))"

record key_response =
  kr_status :: nat
  kr_length :: "nat option"
  kr_headers :: header_map
  kr_chunks :: "(string, string) result list"

fun read_chunks :: "string \<Rightarrow> (string, string) result list \<Rightarrow> (string, auth_error) result" where
  "read_chunks raw [] = Inr raw"
| "read_chunks raw (Inl e # _) = Inl (Unavailable (''key set could not be read: '' @ e))"
| "read_chunks raw (Inr chunk # chunks) =
     (if sat_add U64_MAX (length raw) (length chunk) > MAX_KEY_SET_BYTES
      then Inl (Unavailable (''key set exceeded the '' @ show_nat MAX_KEY_SET_BYTES @ '' byte cap''))
      else read_chunks (raw @ chunk) chunks)"

definition fetch_keys ::
  "'key key_crates \<Rightarrow> key_format \<Rightarrow> duration \<Rightarrow> (key_response, string) result \<Rightarrow>
   ('key key_set \<times> duration, auth_error) result" where
  "fetch_keys kc format min_ttl sent =
     (case sent of
        Inl e \<Rightarrow> Inl (Unavailable (''certificate fetch failed: '' @ e))
      | Inr resp \<Rightarrow>
          if \<not> (200 \<le> kr_status resp \<and> kr_status resp < 300)
          then Inl (Unavailable (''certificate endpoint returned '' @ kc_status_text kc (kr_status resp)))
          else if (case kr_length resp of Some len \<Rightarrow> len > MAX_KEY_SET_BYTES | None \<Rightarrow> False)
          then Inl (Unavailable (''key set declares '' @ show_nat (the (kr_length resp)) @ '' bytes, over the ''
                 @ show_nat MAX_KEY_SET_BYTES @ '' byte cap''))
          else
            and_then (read_chunks [] (kr_chunks resp)) (\<lambda>raw.
            and_then (case format of X509Pem \<Rightarrow> parse_x509_map kc raw | Jwks \<Rightarrow> parse_jwks kc raw) (\<lambda>keys.
              if keys = Map.empty then Inl (Unavailable ''no usable signing certificates'')
              else Inr (keys, key_set_ttl (max_age (kr_headers resp)) min_ttl))))"

section \<open>The cache\<close>

record 'key cached =
  kd_keys :: "'key key_set"
  kd_expires_at :: instant

definition is_fresh :: "instant \<Rightarrow> 'key cached \<Rightarrow> bool" where
  "is_fresh now c = (kd_expires_at c > now)"

definition cached_key :: "(string \<Rightarrow> string) \<Rightarrow> 'key cached \<Rightarrow> string \<Rightarrow> ('key, auth_error) result" where
  "cached_key escape_debug c kid =
     (case kd_keys c kid of
        Some key \<Rightarrow> Inr key
      | None \<Rightarrow> Inl (AuthInvalid (''unknown signing key `'' @ untrusted escape_debug kid @ ''`'')))"

section \<open>What a fetched key set holds\<close>

definition jwk_usable :: "jwk \<Rightarrow> bool" where
  "jwk_usable k = (jk_use k = None \<or> jk_use k = Some ''sig'')"

lemma jwk_step_lookup:
  "jwk_step kc k keys kid =
     (if jwk_usable k \<and> jk_kid k = Some kid then
        (case build_jwk kc k of Inr key \<Rightarrow> Some key | Inl _ \<Rightarrow> keys kid)
      else keys kid)"
  by (auto simp: jwk_step_def jwk_usable_def add_key_def split: option.split sum.split)

lemma fold_jwk_step_sound:
  "fold (jwk_step kc) ks keys kid = Some key \<Longrightarrow>
   keys kid = Some key \<or> (\<exists>k\<in>set ks. jwk_usable k \<and> jk_kid k = Some kid \<and> build_jwk kc k = Inr key)"
proof (induction ks arbitrary: keys)
  case (Cons k ks)
  then have "jwk_step kc k keys kid = Some key \<or>
      (\<exists>k\<in>set ks. jwk_usable k \<and> jk_kid k = Some kid \<and> build_jwk kc k = Inr key)" by simp
  then show ?case by (auto simp: jwk_step_lookup split: if_splits sum.splits)
qed simp

lemma jwk_step_keeps: "keys kid \<noteq> None \<Longrightarrow> jwk_step kc k keys kid \<noteq> None"
  by (auto simp: jwk_step_lookup split: sum.split)

lemma fold_jwk_step_keeps: "keys kid \<noteq> None \<Longrightarrow> fold (jwk_step kc) ks keys kid \<noteq> None"
proof (induction ks arbitrary: keys)
  case (Cons k ks)
  then show ?case using jwk_step_keeps by (metis fold_simps(2))
qed simp

lemma fold_jwk_step_complete:
  "k \<in> set ks \<Longrightarrow> jwk_usable k \<Longrightarrow> jk_kid k = Some kid \<Longrightarrow> build_jwk kc k = Inr key \<Longrightarrow>
   fold (jwk_step kc) ks keys kid \<noteq> None"
proof (induction ks arbitrary: keys)
  case (Cons k' ks)
  show ?case
  proof (cases "k = k'")
    case True
    then have "jwk_step kc k' keys kid \<noteq> None" using Cons.prems by (simp add: jwk_step_lookup)
    then show ?thesis using fold_jwk_step_keeps by simp
  qed (use Cons in auto)
qed simp

lemma key_set_ttl_bounds:
  "min_ttl \<le> key_set_ttl m min_ttl" "key_set_ttl m min_ttl \<le> max MAX_KEY_TTL min_ttl"
  by (auto simp: key_set_ttl_def split: option.split)

lemma read_chunks_bound:
  "read_chunks raw chunks = Inr body \<Longrightarrow> length raw \<le> MAX_KEY_SET_BYTES \<Longrightarrow> length body \<le> MAX_KEY_SET_BYTES"
proof (induction raw chunks rule: read_chunks.induct)
  case (3 raw chunk chunks)
  then show ?case by (auto simp: sat_add_def MAX_KEY_SET_BYTES_def split: if_splits)
qed auto

lemma fetch_keys_Inr:
  assumes "fetch_keys kc format min_ttl sent = Inr (keys, ttl)"
  obtains resp raw where "sent = Inr resp" "200 \<le> kr_status resp" "kr_status resp < 300"
    "read_chunks [] (kr_chunks resp) = Inr raw" "length raw \<le> MAX_KEY_SET_BYTES"
    "(case format of X509Pem \<Rightarrow> parse_x509_map kc raw | Jwks \<Rightarrow> parse_jwks kc raw) = Inr keys"
    "keys \<noteq> Map.empty" "ttl = key_set_ttl (max_age (kr_headers resp)) min_ttl"
  using assms read_chunks_bound [of "[]"]
  by (auto simp: fetch_keys_def and_then_Inr_iff split: sum.splits if_splits)

text \<open>A fetched key set holds signing keys only and one bad entry spoils none of the
  others. When a JSON Web Key Set is accepted, each of its keys was built from an entry with
  that key id that is not meant for encryption, every entry that can be used has a key under
  its id, the body was within the size cap, and the time it is trusted is at least the
  configured floor and at most a day or that floor.\<close>

theorem fetched_keys_sound:
  assumes "fetch_keys kc Jwks min_ttl (Inr resp) = Inr (keys, ttl)"
  shows "\<exists>raw ks. read_chunks [] (kr_chunks resp) = Inr raw \<and> length raw \<le> MAX_KEY_SET_BYTES
    \<and> kc_jwk_set kc raw = Inr ks
    \<and> (\<forall>kid key. keys kid = Some key \<longrightarrow>
          (\<exists>k\<in>set ks. jwk_usable k \<and> jk_kid k = Some kid \<and> build_jwk kc k = Inr key))
    \<and> (\<forall>k\<in>set ks. \<forall>kid key. jwk_usable k \<longrightarrow> jk_kid k = Some kid \<longrightarrow> build_jwk kc k = Inr key \<longrightarrow>
          keys kid \<noteq> None)
    \<and> min_ttl \<le> ttl \<and> ttl \<le> max MAX_KEY_TTL min_ttl"
proof -
  obtain raw where f: "read_chunks [] (kr_chunks resp) = Inr raw" "length raw \<le> MAX_KEY_SET_BYTES"
    "parse_jwks kc raw = Inr keys" "ttl = key_set_ttl (max_age (kr_headers resp)) min_ttl"
    by (rule fetch_keys_Inr [OF assms]) auto
  from f(3) obtain ks where ks: "kc_jwk_set kc raw = Inr ks" "keys = fold (jwk_step kc) ks Map.empty"
    by (auto simp: parse_jwks_def split: sum.splits)
  have sound: "\<exists>k\<in>set ks. jwk_usable k \<and> jk_kid k = Some kid \<and> build_jwk kc k = Inr key"
    if "keys kid = Some key" for kid key
    using fold_jwk_step_sound [of kc ks Map.empty kid key] that ks(2) by simp
  have complete: "keys kid \<noteq> None"
    if "k \<in> set ks" "jwk_usable k" "jk_kid k = Some kid" "build_jwk kc k = Inr key" for k kid key
    unfolding ks(2) using that by (rule fold_jwk_step_complete)
  show ?thesis
    by (intro exI [of _ raw] exI [of _ ks] conjI allI impI ballI f(1,2) ks(1) sound)
      (use complete key_set_ttl_bounds f(4) in auto)
qed

section \<open>Witness\<close>

definition sample_jwk :: "string \<Rightarrow> string option \<Rightarrow> jwk" where
  "sample_jwk kid u = \<lparr> jk_kty = ''OKP'', jk_kid = Some kid, jk_use = u, jk_n = None, jk_e = None,
     jk_x = Some ''x'', jk_y = None \<rparr>"

definition sample_key_crates :: "string key_crates" where
  "sample_key_crates =
     \<lparr> kc_x509_map = (\<lambda>_. Inr []),
       kc_jwk_set = (\<lambda>_. Inr [sample_jwk ''k1'' None, sample_jwk ''k2'' (Some ''enc'')]),
       kc_rsa = (\<lambda>_ _. Inl ''bad''), kc_ec = (\<lambda>_ _. Inl ''bad''), kc_ed = Inr, kc_x509_key = Inl,
       kc_status_text = show_nat, kc_escape_debug = (\<lambda>c. c) \<rparr>"

definition sample_key_response :: key_response where
  "sample_key_response = \<lparr> kr_status = 200, kr_length = None, kr_headers = (\<lambda>_. []), kr_chunks = [Inr ''{'', Inr ''}''] \<rparr>"

lemma sample_fetch:
  "fetch_keys sample_key_crates Jwks 300 (Inr sample_key_response) = Inr ([''k1'' \<mapsto> ''x''], 300)"
  by (simp add: fetch_keys_def sample_key_response_def sample_key_crates_def sample_jwk_def parse_jwks_def
      jwk_step_def build_jwk_def add_key_def map_err_def sat_add_def MAX_KEY_SET_BYTES_def key_set_ttl_def
      max_age_def header_text_def header_get_def and_then_def)

theorem fetched_keys_sound_witness:
  "\<exists>raw ks. read_chunks [] (kr_chunks sample_key_response) = Inr raw \<and> length raw \<le> MAX_KEY_SET_BYTES
    \<and> kc_jwk_set sample_key_crates raw = Inr ks
    \<and> (\<forall>kid key. [''k1'' \<mapsto> ''x''] kid = Some key \<longrightarrow>
          (\<exists>k\<in>set ks. jwk_usable k \<and> jk_kid k = Some kid \<and> build_jwk sample_key_crates k = Inr key))
    \<and> (\<forall>k\<in>set ks. \<forall>kid key. jwk_usable k \<longrightarrow> jk_kid k = Some kid \<longrightarrow> build_jwk sample_key_crates k = Inr key \<longrightarrow>
          [''k1'' \<mapsto> ''x''] kid \<noteq> None)
    \<and> 300 \<le> (300::nat) \<and> 300 \<le> max MAX_KEY_TTL 300"
  by (rule fetched_keys_sound [OF sample_fetch])

end
