(* ===== verification/Token_Verifiers.thy ===== *)
theory Token_Verifiers
  imports Key_Sets Gateway_Config
begin

text \<open>
  Token verification: OIDC issuers (\<open>auth/jwt.rs\<close>), Firebase projects (\<open>auth/firebase.rs\<close>),
  and the router over every configured provider that \<open>runtime.rs\<close> builds.

  \<open>jsonwebtoken\<close> is a parameter: reading the header, and \<open>decode\<close>, which checks the
  signature under a key and the validation it is given, and returns the claims. The key
  cache of a provider answers for a key id (\<open>Key_Cache\<close>).
\<close>

section \<open>What the verifiers work with\<close>

record validation =
  vd_algorithms :: "algorithm list"
  vd_issuers :: "string list"
  vd_audiences :: "string list"
  vd_required :: "string set"
  vd_leeway :: nat
  vd_exp :: bool
  vd_nbf :: bool

datatype provider = FirebaseProvider | JwtProvider string

record 'key token_env =
  te_b64_decode :: "string \<Rightarrow> string option"
  te_json_parse :: "string \<Rightarrow> json option"
  te_decode_header :: "string \<Rightarrow> (algorithm \<times> string option, string) result"
  te_decode :: "string \<Rightarrow> 'key \<Rightarrow> validation \<Rightarrow> ((string \<times> json) list, string) result"
  te_key_for :: "provider \<Rightarrow> string \<Rightarrow> string \<Rightarrow> ('key, auth_error) result"
  te_now :: nat
  te_escape_debug :: "string \<Rightarrow> string"

abbreviation issuer_of :: "'key token_env \<Rightarrow> string \<Rightarrow> (string, auth_error) result" where
  "issuer_of env \<equiv> unverified_issuer (te_b64_decode env) (te_json_parse env)"

fun algorithm_text :: "algorithm \<Rightarrow> string" where
  "algorithm_text HS256 = ''HS256''" | "algorithm_text HS384 = ''HS384''" | "algorithm_text HS512 = ''HS512''"
| "algorithm_text RS256 = ''RS256''" | "algorithm_text RS384 = ''RS384''" | "algorithm_text RS512 = ''RS512''"
| "algorithm_text ES256 = ''ES256''" | "algorithm_text ES384 = ''ES384''"
| "algorithm_text PS256 = ''PS256''" | "algorithm_text PS384 = ''PS384''" | "algorithm_text PS512 = ''PS512''"
| "algorithm_text EdDSA = ''EdDSA''"

text \<open>\<open>Value::as_u64\<close>: a number that renders as an unsigned integer of 64 bits.\<close>

definition as_u64 :: "json \<Rightarrow> nat option" where
  "as_u64 v = (case v of JNumber s \<Rightarrow> parse_uint U64_MAX s | _ \<Rightarrow> None)"

definition timestamp_ok ::
  "(string \<times> json) list \<Rightarrow> nat \<Rightarrow> duration \<Rightarrow> string \<Rightarrow> (unit, auth_error) result" where
  "timestamp_ok claims now skew name =
     (case Option.bind (map_of claims name) as_u64 of
        None \<Rightarrow> Inl (AuthInvalid (''`'' @ name @ ''` must be an unsigned timestamp''))
      | Some t \<Rightarrow>
          ensure (t \<le> sat_add U64_MAX now (as_secs skew)) (AuthInvalid (''`'' @ name @ ''` is in the future'')))"

definition subject_of :: "(string \<times> json) list \<Rightarrow> (string, auth_error) result" where
  "subject_of claims =
     (case Option.bind (map_of claims ''sub'') as_str of
        Some s \<Rightarrow> if s \<noteq> [] then Inr s else Inl (AuthInvalid ''`sub` claim is empty'')
      | None \<Rightarrow> Inl (AuthInvalid ''`sub` claim is empty''))"

definition key_id_of :: "string option \<Rightarrow> (string, auth_error) result" where
  "key_id_of kid =
     (case kid of Some k \<Rightarrow> Inr k | None \<Rightarrow> Inl (AuthInvalid ''JWT header has no `kid`''))"

section \<open>OIDC issuers\<close>

record jwt_verifier =
  jv_issuer :: string
  jv_audiences :: "string list"
  jv_algorithms :: "algorithm list"
  jv_required_claims :: "string list"
  jv_clock_skew :: duration
  jv_jwks_url :: string

definition jwt_validation :: "jwt_verifier \<Rightarrow> validation" where
  "jwt_validation v =
     \<lparr> vd_algorithms = jv_algorithms v, vd_issuers = [jv_issuer v], vd_audiences = jv_audiences v,
       vd_required = {''exp'', ''iat'', ''aud'', ''iss'', ''sub''} \<union> set (jv_required_claims v),
       vd_leeway = as_secs (jv_clock_skew v), vd_exp = True, vd_nbf = True \<rparr>"

definition audience_claim :: "(string \<times> json) list \<Rightarrow> string" where
  "audience_claim claims =
     (case map_of claims ''aud'' of
        Some (JString s) \<Rightarrow> s
      | Some (JArray (item # _)) \<Rightarrow> (case as_str item of Some s \<Rightarrow> s | None \<Rightarrow> [])
      | _ \<Rightarrow> [])"

definition jwt_verify :: "'key token_env \<Rightarrow> jwt_verifier \<Rightarrow> string \<Rightarrow> (identity, auth_error) result" where
  "jwt_verify env v token =
     and_then (issuer_of env token) (\<lambda>iss.
     and_then (ensure (iss = jv_issuer v) (UnknownIssuer iss)) (\<lambda>_.
     and_then (map_err (\<lambda>e. AuthInvalid (''unreadable JWT header: '' @ e)) (te_decode_header env token))
       (\<lambda>(alg, kid_opt).
     and_then (ensure (alg \<in> set (jv_algorithms v))
                 (AuthInvalid (''unexpected algorithm '' @ algorithm_text alg))) (\<lambda>_.
     and_then (key_id_of kid_opt) (\<lambda>kid.
     and_then (te_key_for env (JwtProvider (jv_issuer v)) (jv_jwks_url v) kid) (\<lambda>key.
     and_then (ensure (jv_audiences v \<noteq> []) (AuthInvalid ''no audience configured for this issuer'')) (\<lambda>_.
     and_then (map_err AuthInvalid (te_decode env token key (jwt_validation v))) (\<lambda>claims.
     and_then (timestamp_ok claims (te_now env) (jv_clock_skew v) ''iat'') (\<lambda>_.
     and_then (for_each (\<lambda>name. ensure (map_of claims name \<noteq> None)
                                  (AuthInvalid (''missing claim `'' @ name @ ''`''))) (jv_required_claims v)) (\<lambda>_.
     and_then (subject_of claims) (\<lambda>subject.
       Inr \<lparr> id_subject = subject, id_issuer = iss, id_audience = audience_claim claims,
             id_claims = claims \<rparr>)))))))))))"

section \<open>Firebase projects\<close>

definition ISS_PREFIX :: string where
  "ISS_PREFIX = ''https://securetoken.google.com/''"

record firebase_verifier =
  fv_project_ids :: "string set"
  fv_certs_url :: string
  fv_clock_skew :: duration

definition project_id_from_issuer :: "string \<Rightarrow> string option" where
  "project_id_from_issuer iss =
     Option.bind (strip_prefix ISS_PREFIX iss) (\<lambda>p. if p \<noteq> [] then Some p else None)"

definition firebase_validation :: "firebase_verifier \<Rightarrow> string \<Rightarrow> validation" where
  "firebase_validation v project =
     \<lparr> vd_algorithms = [RS256], vd_issuers = [ISS_PREFIX @ project], vd_audiences = [project],
       vd_required = {''exp'', ''iat'', ''aud'', ''iss'', ''sub''}, vd_leeway = as_secs (fv_clock_skew v),
       vd_exp = True, vd_nbf = False \<rparr>"

definition firebase_verify ::
  "'key token_env \<Rightarrow> firebase_verifier \<Rightarrow> string \<Rightarrow> (identity, auth_error) result" where
  "firebase_verify env v token =
     and_then (issuer_of env token) (\<lambda>iss.
     and_then (case project_id_from_issuer iss of
                 Some p \<Rightarrow> Inr p
               | None \<Rightarrow> Inl (AuthInvalid (''issuer `'' @ untrusted (te_escape_debug env) iss
                                             @ ''` is not a Firebase issuer''))) (\<lambda>project.
     and_then (ensure (project \<in> fv_project_ids v) (UnknownIssuer project)) (\<lambda>_.
     and_then (map_err (\<lambda>e. AuthInvalid (''unreadable JWT header: '' @ e)) (te_decode_header env token))
       (\<lambda>(alg, kid_opt).
     and_then (ensure (alg = RS256) (AuthInvalid (''unexpected algorithm '' @ algorithm_text alg))) (\<lambda>_.
     and_then (key_id_of kid_opt) (\<lambda>kid.
     and_then (te_key_for env FirebaseProvider (fv_certs_url v) kid) (\<lambda>key.
     and_then (map_err AuthInvalid (te_decode env token key (firebase_validation v project))) (\<lambda>claims.
     and_then (subject_of claims) (\<lambda>subject.
     and_then (for_each (timestamp_ok claims (te_now env) (fv_clock_skew v)) [''iat'', ''auth_time'']) (\<lambda>_.
       Inr \<lparr> id_subject = subject, id_issuer = iss, id_audience = project, id_claims = claims \<rparr>))))))))))"

section \<open>The router\<close>

type_synonym token_verifier = "string \<Rightarrow> (identity, auth_error) result"

fun register :: "string list \<Rightarrow> token_verifier \<Rightarrow> (string \<rightharpoonup> token_verifier) \<Rightarrow>
    (string \<rightharpoonup> token_verifier, string) result" where
  "register [] verifier router = Inr router"
| "register (issuer # issuers) verifier router =
     (if router issuer \<noteq> None then Inl (''two providers both claim issuer `'' @ issuer @ ''`'')
      else register issuers verifier (router(issuer \<mapsto> verifier)))"

definition router_verify :: "'key token_env \<Rightarrow> (string \<rightharpoonup> token_verifier) \<Rightarrow> token_verifier" where
  "router_verify env router token =
     and_then (issuer_of env token) (\<lambda>iss.
       case router iss of None \<Rightarrow> Inl (UnknownIssuer iss) | Some verifier \<Rightarrow> verifier token)"

definition jwt_new :: "jwt_config \<Rightarrow> jwt_verifier" where
  "jwt_new j =
     \<lparr> jv_issuer = jw_issuer j, jv_audiences = jw_audience j,
       jv_algorithms = List.map_filter parse_algorithm (jw_algorithms j),
       jv_required_claims = jw_required_claims j, jv_clock_skew = jw_clock_skew j,
       jv_jwks_url = resolved_jwks_url j \<rparr>"

definition firebase_new :: "string list \<Rightarrow> firebase_config \<Rightarrow> firebase_verifier" where
  "firebase_new ids fb =
     \<lparr> fv_project_ids = set ids, fv_certs_url = fb_certs_url fb, fv_clock_skew = fb_clock_skew fb \<rparr>"

fun register_jwts ::
  "'key token_env \<Rightarrow> jwt_config list \<Rightarrow> (string \<rightharpoonup> token_verifier) \<Rightarrow>
   (string \<rightharpoonup> token_verifier, string) result" where
  "register_jwts env [] router = Inr router"
| "register_jwts env (j # js) router =
     and_then (map_err (\<lambda>e. ''auth.jwt: '' @ e) (register [jw_issuer j] (jwt_verify env (jwt_new j)) router))
       (register_jwts env js)"

text \<open>The issuers of the Firebase verifier come out of a hash set, each once.\<close>

definition build_verifier ::
  "'key token_env \<Rightarrow> resolved_config \<Rightarrow> (token_verifier option, string) result" where
  "build_verifier env cfg =
     (let auth = gc_auth (rv_raw cfg) in
      and_then (case au_firebase auth of
                  None \<Rightarrow> Inr Map.empty
                | Some fb \<Rightarrow>
                    map_err (\<lambda>e. ''auth.firebase: '' @ e)
                      (register (map ((@) ISS_PREFIX) (remdups (rv_firebase_project_ids cfg)))
                        (firebase_verify env (firebase_new (rv_firebase_project_ids cfg) fb)) Map.empty))
        (\<lambda>router0.
      and_then (register_jwts env (au_jwt auth) router0) (\<lambda>router.
        Inr (if router = Map.empty then None else Some (router_verify env router)))))"

section \<open>What an accepted token proves\<close>

definition timestamp_past :: "'key token_env \<Rightarrow> duration \<Rightarrow> (string \<times> json) list \<Rightarrow> string \<Rightarrow> bool" where
  "timestamp_past env skew claims name =
     (\<exists>t. Option.bind (map_of claims name) as_u64 = Some t \<and> t \<le> sat_add U64_MAX (te_now env) (as_secs skew))"

text \<open>A token of an OIDC issuer: signed by a key of that issuer's own key set, under an
  algorithm its configuration lists, for one of its audiences.\<close>

definition jwt_proof :: "'key token_env \<Rightarrow> jwt_config \<Rightarrow> string \<Rightarrow> identity \<Rightarrow> bool" where
  "jwt_proof env j token ident =
     (\<exists>alg kid key.
        te_decode_header env token = Inr (alg, Some kid)
        \<and> (\<exists>name\<in>set (jw_algorithms j). parse_algorithm name = Some alg)
        \<and> te_key_for env (JwtProvider (jw_issuer j)) (resolved_jwks_url j) kid = Inr key
        \<and> te_decode env token key (jwt_validation (jwt_new j)) = Inr (id_claims ident)
        \<and> jw_audience j \<noteq> []
        \<and> (\<forall>name\<in>set (jw_required_claims j). map_of (id_claims ident) name \<noteq> None)
        \<and> timestamp_past env (jw_clock_skew j) (id_claims ident) ''iat'')"

definition firebase_proof ::
  "'key token_env \<Rightarrow> firebase_config \<Rightarrow> string list \<Rightarrow> string \<Rightarrow> identity \<Rightarrow> bool" where
  "firebase_proof env fb ids token ident =
     (\<exists>project kid key.
        project \<in> set ids \<and> id_issuer ident = ISS_PREFIX @ project \<and> id_audience ident = project
        \<and> te_decode_header env token = Inr (RS256, Some kid)
        \<and> te_key_for env FirebaseProvider (fb_certs_url fb) kid = Inr key
        \<and> te_decode env token key (firebase_validation (firebase_new ids fb) project) = Inr (id_claims ident)
        \<and> (\<forall>name\<in>{''iat'', ''auth_time''}. timestamp_past env (fb_clock_skew fb) (id_claims ident) name))"

lemma timestamp_ok_Inr: "timestamp_ok claims (te_now env) skew name = Inr u \<longleftrightarrow> timestamp_past env skew claims name"
  by (auto simp: timestamp_ok_def timestamp_past_def split: option.splits)

lemma subject_of_Inr: "subject_of claims = Inr s \<Longrightarrow> s \<noteq> []"
  by (auto simp: subject_of_def split: option.splits if_splits)

lemma key_id_of_Inr [simp]: "key_id_of k = Inr kid \<longleftrightarrow> k = Some kid"
  by (simp add: key_id_of_def split: option.split)

lemma map_filter_member: "x \<in> set (List.map_filter f xs) \<longleftrightarrow> (\<exists>y\<in>set xs. f y = Some x)"
  by (induction xs) (auto simp: List.map_filter_simps split: option.split)

lemma jwt_verify_proof:
  assumes "jwt_verify env (jwt_new j) token = Inr ident"
  shows "issuer_of env token = Inr (jw_issuer j)" "id_issuer ident = jw_issuer j" "id_subject ident \<noteq> []"
    "jwt_proof env j token ident"
  using assms
  by (auto simp: jwt_verify_def jwt_new_def jwt_proof_def and_then_Inr_iff for_each_Inr_iff map_filter_member
      timestamp_ok_Inr dest: subject_of_Inr)

lemma firebase_verify_proof:
  assumes "firebase_verify env (firebase_new ids fb) token = Inr ident"
  shows "issuer_of env token = Inr (id_issuer ident)" "id_subject ident \<noteq> []"
    "firebase_proof env fb ids token ident"
  using assms
  by (auto simp: firebase_verify_def firebase_new_def firebase_proof_def and_then_Inr_iff timestamp_ok_Inr
      project_id_from_issuer_def strip_prefix_Some_iff Option.bind_eq_Some_conv dest: subject_of_Inr
      split: option.splits if_splits)

lemma register_Inr:
  "register issuers v r = Inr r' \<Longrightarrow>
   distinct issuers \<and> (\<forall>iss\<in>set issuers. r iss = None)
   \<and> (\<forall>iss. r' iss = (if iss \<in> set issuers then Some v else r iss))"
proof (induction issuers arbitrary: r)
  case (Cons a issuers)
  then have "r a = None" "register issuers v (r(a \<mapsto> v)) = Inr r'" by (auto split: if_splits)
  with Cons.IH [OF this(2)] show ?case by (auto split: if_splits)
qed simp

lemma register_jwts_Inr:
  "register_jwts env js r = Inr r' \<Longrightarrow>
   distinct (map jw_issuer js) \<and> (\<forall>j\<in>set js. r (jw_issuer j) = None)
   \<and> (\<forall>iss. r' iss = (case find (\<lambda>j. jw_issuer j = iss) js of
        Some j \<Rightarrow> Some (jwt_verify env (jwt_new j)) | None \<Rightarrow> r iss))"
proof (induction js arbitrary: r)
  case (Cons j js)
  then obtain r1 where r1: "register [jw_issuer j] (jwt_verify env (jwt_new j)) r = Inr r1"
    "register_jwts env js r1 = Inr r'" by (auto simp: and_then_Inr_iff)
  note a = register_Inr [OF r1(1)] and b = Cons.IH [OF r1(2)]
  have fresh: "j' \<in> set js \<Longrightarrow> jw_issuer j' \<noteq> jw_issuer j" for j' using a b by fastforce
  then have none: "find (\<lambda>j'. jw_issuer j' = jw_issuer j) js = None"
    by (auto simp: find_None_iff)
  show ?case
  proof (intro conjI allI ballI)
    show "distinct (map jw_issuer (j # js))" using b fresh by (simp add: image_iff) metis
    show "r (jw_issuer j') = None" if "j' \<in> set (j # js)" for j'
      using that a b fresh by auto
    show "r' iss = (case find (\<lambda>j. jw_issuer j = iss) (j # js) of
        Some j \<Rightarrow> Some (jwt_verify env (jwt_new j)) | None \<Rightarrow> r iss)" for iss
      using a b none by (cases "jw_issuer j = iss") (auto split: option.split)
  qed
qed simp


text \<open>No configured algorithm is symmetric, so a public key never serves as a shared secret.\<close>

lemma parse_algorithm_asymmetric: "parse_algorithm name = Some alg \<Longrightarrow> alg \<notin> {HS256, HS384, HS512}"
  by (auto simp: parse_algorithm_def split: if_splits)

section \<open>Witness\<close>

definition sample_claims :: "(string \<times> json) list" where
  "sample_claims = [(''sub'', JString ''u1''), (''iss'', JString ''https://id''), (''aud'', JString ''api''),
     (''iat'', JNumber ''5'')]"

definition sample_token_env :: "nat token_env" where
  "sample_token_env =
     \<lparr> te_b64_decode = Some, te_json_parse = (\<lambda>_. Some (JObject sample_claims)),
       te_decode_header = (\<lambda>_. Inr (RS256, Some ''k1'')), te_decode = (\<lambda>_ _ _. Inr sample_claims),
       te_key_for = (\<lambda>_ _ _. Inr 1), te_now = 10, te_escape_debug = (\<lambda>c. c) \<rparr>"

definition sample_identity :: identity where
  "sample_identity = \<lparr> id_subject = ''u1'', id_issuer = ''https://id'', id_audience = ''api'', id_claims = sample_claims \<rparr>"

lemma sample_issuer: "issuer_of sample_token_env ''h.p.s'' = Inr ''https://id''"
  by code_simp

lemma sample_build:
  "build_verifier sample_token_env (sample_resolved ''s'') =
     Inr (Some (router_verify sample_token_env
       [''https://id'' \<mapsto> jwt_verify sample_token_env (jwt_new (hd (au_jwt (gc_auth (sample_gateway_config ''s'')))))]))"
  by (simp add: build_verifier_def sample_resolved_def sample_gateway_config_def sample_auth_def map_err_def and_then_def)

lemma sample_iat: "timestamp_ok sample_claims 10 60 ''iat'' = Inr ()"
  by (simp add: timestamp_ok_def sample_claims_def as_u64_def parse_uint_def is_ascii_digit_def as_secs_def
      sat_add_def)

lemma sample_verifies:
  "router_verify sample_token_env
     [''https://id'' \<mapsto> jwt_verify sample_token_env (jwt_new (hd (au_jwt (gc_auth (sample_gateway_config ''s'')))))]
     ''h.p.s'' = Inr sample_identity"
proof -
  have alg: "parse_algorithm ''RS256'' = Some RS256" by code_simp
  have sub: "subject_of sample_claims = Inr ''u1''" "audience_claim sample_claims = ''api''" by code_simp+
  have env: "te_decode_header sample_token_env t = Inr (RS256, Some ''k1'')"
    "te_key_for sample_token_env p u k = Inr 1" "te_decode sample_token_env t key v = Inr sample_claims"
    "te_now sample_token_env = 10" for t p u k key v
    by (simp_all add: sample_token_env_def)
  show ?thesis
    by (simp add: router_verify_def jwt_verify_def jwt_new_def sample_issuer env sample_gateway_config_def
        sample_auth_def alg List.map_filter_simps sample_iat sub map_err_def key_id_of_def ensure_def
        sample_identity_def)
qed


end
