(* ===== verification/Request_Filter.thy ===== *)
theory Request_Filter
  imports Gateway_State
begin

text \<open>
  \<open>Gateway::request_filter\<close> (\<open>proxy.rs\<close>): everything that happens to a request before it is
  let through, one definition per step, composed in the order of the code.
\<close>

section \<open>Before anything can refuse\<close>

definition request_id_of :: "'r env \<Rightarrow> request \<Rightarrow> string" where
  "request_id_of env rq =
     (case header_text (rq_headers rq) ''x-request-id'' of
        Some v \<Rightarrow> if v \<noteq> [] then v else en_uuid env
      | None \<Rightarrow> en_uuid env)"

definition request_cookie_token :: "gateway \<Rightarrow> request \<Rightarrow> string option" where
  "request_cookie_token g rq =
     (let names = au_token_cookies (gc_auth (raw_cfg g)) in
      if names = [] then None else cookie_token (text_values (rq_headers rq) ''cookie'') names)"

definition trusted_depth :: "gateway \<Rightarrow> request \<Rightarrow> nat \<Rightarrow> nat" where
  "trusted_depth g rq configured = cfg_proxy_depth (gw_cfg g) (rq_peer rq) configured"

definition prepare :: "gateway \<Rightarrow> 'r env \<Rightarrow> request \<Rightarrow> ctx \<Rightarrow> ctx" where
  "prepare g env rq cx =
     cx \<lparr> cx_client_ip := snd (forwarded_for (rq_headers rq) (rq_peer rq)
                            (trusted_depth g rq (fw_trusted_proxies (fwd_cfg g)))),
          cx_request_id := request_id_of env rq,
          cx_client_authorized :=
            (rq_headers rq ''authorization'' \<noteq> [] \<or> request_cookie_token g rq \<noteq> None),
          cx_cors :=
            (case (rv_cors (gw_cfg g), header_text (rq_headers rq) ''origin'') of
               (Some c, Some origin) \<Rightarrow> cors_response c origin
             | _ \<Rightarrow> cx_cors cx),
          cx_attempt := (cx_attempt cx) \<lparr> rx_method := rq_method rq \<rparr>,
          cx_query := rq_query rq \<rparr>"

definition health_body :: "gateway \<Rightarrow> json" where
  "health_body g =
     JObject [(''status'', JString ''ok''),
              (''service'', JString (sv_service_name (gc_server (raw_cfg g)))),
              (''routes'', jnat (length (tb_routes (gw_table g))))]"

definition health_stage :: "gateway \<Rightarrow> 'r env \<Rightarrow> request \<Rightarrow> ('r, unit) stage" where
  "health_stage g env rq s =
     (if rq_path rq = sv_health_path (gc_server (raw_cfg g))
      then (Inl (send 200 (case en_to_vec env (health_body g) of Some b \<Rightarrow> b | None \<Rightarrow> [])),
            s \<lparr> rn_ctx := (rn_ctx s) \<lparr> cx_status := 200 \<rparr> \<rparr>)
      else (Inr (), s))"

definition size_stage :: "gateway \<Rightarrow> 'r env \<Rightarrow> request \<Rightarrow> ('r, unit) stage" where
  "size_stage g env rq =
     unless_reject env (\<not> content_length_over_limit (rq_headers rq) (li_max_body (gc_limits (raw_cfg g))))
       payload_too_large"

text \<open>The loop over \<open>reject.client_headers\<close>: the first header the client sent refuses.\<close>

definition credential_rejected :: "string \<Rightarrow> rejection" where
  "credential_rejected name =
     (forbidden ''Forbidden'' (''client_sent_'' @ name)) \<lparr> rj_event := ''gateway.credential.rejected'' \<rparr>"

definition client_sent :: "request \<Rightarrow> string \<Rightarrow> bool" where
  "client_sent rq name =
     (case header_text (rq_headers rq) name of Some v \<Rightarrow> v \<noteq> [] | None \<Rightarrow> False)"

definition reject_headers_stage :: "gateway \<Rightarrow> 'r env \<Rightarrow> request \<Rightarrow> ('r, unit) stage" where
  "reject_headers_stage g env rq =
     (if gw_serves_machine g then return_stage ()
      else case find (client_sent rq) (gc_reject_headers (raw_cfg g)) of
             Some name \<Rightarrow> reject env (credential_rejected name)
           | None \<Rightarrow> return_stage ())"

section \<open>Paths, the deny-list and routes\<close>

definition path_stage :: "gateway \<Rightarrow> 'r env \<Rightarrow> request \<Rightarrow> ('r, string) stage" where
  "path_stage g env rq =
     (case strip_base g (rq_path rq) of
        None \<Rightarrow> reject env (not_found ''gateway.route.denied'' ''outside_base_path'')
      | Some raw_sub \<Rightarrow>
          (case canonicalize_proxy_path (en_pct_decode env) raw_sub of
             None \<Rightarrow> reject env (not_found ''gateway.route.denied'' ''unsafe_path'')
           | Some path \<Rightarrow>
               bind_stage (update_ctx (\<lambda>cx. cx \<lparr> cx_path := path \<rparr>)) (\<lambda>_. return_stage path)))"

definition deny_stage :: "gateway \<Rightarrow> 'r env \<Rightarrow> string \<Rightarrow> ('r, unit) stage" where
  "deny_stage g env path =
     unless_reject env (\<not> is_denied (gw_table g) path) (not_found ''gateway.route.denied'' ''deny_list'')"

definition request_host :: "request \<Rightarrow> string option" where
  "request_host rq = header_text (rq_headers rq) ''host''"

definition preflight_headers :: "gateway \<Rightarrow> request \<Rightarrow> string \<Rightarrow> cors_headers option" where
  "preflight_headers g rq path =
     (case (rv_cors (gw_cfg g), header_text (rq_headers rq) ''origin'',
            header_text (rq_headers rq) ''access-control-request-method'') of
        (Some c, Some origin, Some requested) \<Rightarrow>
          (case match_request (gw_table g) (request_host rq) path requested of
             None \<Rightarrow> None
           | Some _ \<Rightarrow> cors_preflight c origin requested)
      | _ \<Rightarrow> None)"

definition preflight_stage :: "gateway \<Rightarrow> request \<Rightarrow> string \<Rightarrow> ('r, unit) stage" where
  "preflight_stage g rq path s =
     (case (if rq_method rq = ''OPTIONS'' then preflight_headers g rq path else None) of
        Some headers \<Rightarrow>
          (Inl (send_preflight headers),
           s \<lparr> rn_ctx := (rn_ctx s) \<lparr> cx_status := 204, cx_cors := Some headers \<rparr> \<rparr>)
      | None \<Rightarrow> (Inr (), s))"

definition route_stage :: "gateway \<Rightarrow> 'r env \<Rightarrow> request \<Rightarrow> string \<Rightarrow> ('r, route_config) stage" where
  "route_stage g env rq path =
     (case match_request (gw_table g) (request_host rq) path (rq_method rq) of
        None \<Rightarrow> reject env (not_found ''gateway.route.denied'' ''not_allowlisted'')
      | Some route \<Rightarrow>
          bind_stage (unless_reject env (rc_upstream route \<in> gw_upstreams g)
                        (unavailable ''Upstream not configured'' (''no_upstream_'' @ rc_upstream route)))
            (\<lambda>_. return_stage route))"

section \<open>Machine credentials and client keys\<close>

definition DEFAULT_MACHINE_HEADERS :: "string list" where
  "DEFAULT_MACHINE_HEADERS = [''x-internal-api-key'', ''x-api-key'']"

text \<open>The first of the configured headers that is present; its text, or nothing.\<close>

definition presented_machine_secret :: "gateway \<Rightarrow> request \<Rightarrow> string" where
  "presented_machine_secret g rq =
     (let names = (case au_machine (gc_auth (raw_cfg g)) of
                     Some m \<Rightarrow> mc_headers m | None \<Rightarrow> DEFAULT_MACHINE_HEADERS) in
      case find (\<lambda>n. rq_headers rq n \<noteq> []) names of
        None \<Rightarrow> []
      | Some n \<Rightarrow> (case header_text (rq_headers rq) n of Some v \<Rightarrow> v | None \<Rightarrow> []))"

definition machine_stage :: "gateway \<Rightarrow> 'r env \<Rightarrow> request \<Rightarrow> route_config \<Rightarrow> ('r, unit) stage" where
  "machine_stage g env rq route =
     (if rc_auth route \<noteq> TierMachine then return_stage ()
      else case rv_machine_secret (gw_cfg g) of
             None \<Rightarrow> reject env (unavailable ''Machine authentication is not configured'' ''no_machine_secret'')
           | Some expected \<Rightarrow>
               unless_reject env (presented_machine_secret g rq = expected)
                 (not_found ''gateway.machine.rejected'' ''bad_machine_credential''))"

text \<open>The bytes a header carries, whether or not they are text.\<close>

fun header_bytes :: "header_value \<Rightarrow> string" where
  "header_bytes (Text s) = s"
| "header_bytes (Opaque s) = s"

definition client_key_stage ::
  "gateway \<Rightarrow> 'r env \<Rightarrow> request \<Rightarrow> route_config \<Rightarrow> string \<Rightarrow> ('r, string option) stage" where
  "client_key_stage g env rq route path =
     (if gw_serves_machine g \<or> client_key_rule (gw_cfg g) route path \<noteq> KeyRequired
      then return_stage None
      else
        let header = (case client_key_header (gw_cfg g) of Some h \<Rightarrow> h | None \<Rightarrow> []);
            keys = (case rv_client_keys (gw_cfg g) of Some k \<Rightarrow> rk_keys k | None \<Rightarrow> []) in
        case rq_headers rq header of
          [] \<Rightarrow> reject env (missing_client_key header)
        | v # repeated \<Rightarrow>
            if header_bytes v = [] then reject env (missing_client_key header)
            else case match_key (en_sha256 env) keys (header_bytes v) of
                   Some key \<Rightarrow>
                     if repeated = [] then return_stage (Some (key_id key))
                     else reject env invalid_client_key
                 | None \<Rightarrow> reject env invalid_client_key)"

section \<open>Rate limits\<close>

definition limit_key ::
  "gateway \<Rightarrow> request \<Rightarrow> rate_limit_key \<Rightarrow> missing_key \<Rightarrow> nat \<Rightarrow> string \<Rightarrow> string option \<Rightarrow>
   (string option, key_error) result" where
  "limit_key g rq key missing trusted_proxies route_id subject =
     (let trusted = trusted_depth g rq trusted_proxies;
          forwarded = (if 0 < trusted then forwarded_for_chain (rq_headers rq) else None) in
      admission_key key missing trusted_proxies route_id subject forwarded (rq_peer rq) (rq_headers rq))"

text \<open>\<open>check_rate_limit\<close>, on the limiter at the route's address.\<close>

definition check_rate_limit ::
  "gateway \<Rightarrow> 'r env \<Rightarrow> request \<Rightarrow> rate_limit_config \<Rightarrow> nat \<Rightarrow> string \<Rightarrow> string option \<Rightarrow> ('r, unit) stage" where
  "check_rate_limit g env rq cfg addr route_id subject s =
     (case limit_key g rq (rl_key cfg) (rl_missing_key cfg) (rl_trusted_proxies cfg) route_id subject of
        Inl err \<Rightarrow> reject env (limit_key_rejection err) s
      | Inr None \<Rightarrow> (Inr (), s)
      | Inr (Some key) \<Rightarrow>
          (let (d, l) = limiter_decide (en_ask env) (en_rate_read env) (en_rate_observe env)
                          (en_source env) (en_wall env) key (en_now env) (rn_limiters s ! addr);
               s1 = s \<lparr> rn_limiters := (rn_limiters s)[addr := l] \<rparr> in
           if d_allowed d then (Inr (), s1)
           else
             let retry = max (as_secs (d_retry_after d)) 1 in
             reject env (rate_limited retry)
               (s1 \<lparr> rn_ctx := (rn_ctx s1) \<lparr> cx_retry_after := Some retry \<rparr> \<rparr>)))"

text \<open>The two passes: \<open>identity\<close> keys wait for the verified subject.\<close>

definition rate_limit_stage ::
  "gateway \<Rightarrow> 'r env \<Rightarrow> request \<Rightarrow> route_config \<Rightarrow> bool \<Rightarrow> string option \<Rightarrow> ('r, unit) stage" where
  "rate_limit_stage g env rq route identity_pass subject =
     (case (rc_rate_limit route, rc_limiter route) of
        (Some cfg, Some addr) \<Rightarrow>
          if (rl_key cfg = KeyIdentity) = identity_pass
          then check_rate_limit g env rq cfg addr (rc_id route) subject
          else return_stage ()
      | _ \<Rightarrow> return_stage ())"


section \<open>Authentication\<close>

text \<open>A rejection for each way verification can fail.\<close>

definition auth_rejection :: "'r env \<Rightarrow> auth_error \<Rightarrow> rejection" where
  "auth_rejection env e =
     (case e of
        UnknownIssuer project \<Rightarrow>
          unavailable ''Token issuer is not configured on this gateway''
            (''unknown_issuer_'' @ en_untrusted env project)
      | Unavailable detail \<Rightarrow> unavailable ''Unable to verify credentials'' detail
      | AuthInvalid detail \<Rightarrow> invalid_token detail)"

definition header_bearer :: "request \<Rightarrow> string option" where
  "header_bearer rq = Option.bind (header_text (rq_headers rq) ''authorization'') bearer_token"

text \<open>The header first; a token cookie only when there is no bearer header.\<close>

definition bearer_of :: "gateway \<Rightarrow> request \<Rightarrow> string option" where
  "bearer_of g rq =
     (case header_bearer rq of Some t \<Rightarrow> Some t | None \<Rightarrow> request_cookie_token g rq)"

definition cookie_check :: "gateway \<Rightarrow> 'r env \<Rightarrow> request \<Rightarrow> (unit, string) result" where
  "cookie_check g env rq =
     (if header_bearer rq = None \<and> request_cookie_token g rq \<noteq> None
      then case rv_cookie_protection (gw_cfg g) of
             None \<Rightarrow> Inr ()
           | Some pol \<Rightarrow> csrf_check (en_url_parse env) pol (rq_headers rq) (rq_method rq)
      else Inr ())"

definition verify_stage ::
  "gateway \<Rightarrow> 'r env \<Rightarrow> string option \<Rightarrow> auth_tier \<Rightarrow> ('r, identity option) stage" where
  "verify_stage g env bearer tier =
     (case bearer of
        None \<Rightarrow> if tier = TierOptional then return_stage None else reject env missing_bearer
      | Some token \<Rightarrow>
          (case gw_verifier g of
             None \<Rightarrow> reject env (unavailable ''Authentication is not configured'' ''no_verifier'')
           | Some verify \<Rightarrow>
               (case verify token of
                  Inr i \<Rightarrow> return_stage (Some i)
                | Inl e \<Rightarrow> reject env (auth_rejection env e))))"

definition auth_stage ::
  "gateway \<Rightarrow> 'r env \<Rightarrow> request \<Rightarrow> route_config \<Rightarrow> ('r, identity option) stage" where
  "auth_stage g env rq route =
     (if \<not> verifies (rc_auth route) then return_stage None
      else
        bind_stage (unless_reject env (length (rq_headers rq ''authorization'') \<le> 1)
                      (invalid_token ''ambiguous_authorization'')) (\<lambda>_.
        bind_stage (case cookie_check g env rq of
                      Inl reason \<Rightarrow> reject env (forbidden ''Cookie request origin is not permitted'' reason)
                    | Inr _ \<Rightarrow> return_stage ()) (\<lambda>_.
        bind_stage (update_ctx (\<lambda>cx. if bearer_of g rq = None then cx
                      else cx \<lparr> cx_credential :=
                                  Some (if header_bearer rq \<noteq> None then ''header'' else ''cookie'') \<rparr>)) (\<lambda>_.
        bind_stage (unless_reject env
                      (case bearer_of g rq of
                         None \<Rightarrow> True | Some t \<Rightarrow> length t \<le> li_max_token (gc_limits (raw_cfg g)))
                      (invalid_token ''token_too_long'')) (\<lambda>_.
        verify_stage g env (bearer_of g rq) (rc_auth route))))))"

section \<open>Ownership bindings\<close>

text \<open>A bound header must be sent once, as text.\<close>

definition single_text :: "request \<Rightarrow> string \<Rightarrow> string option" where
  "single_text rq name =
     (case rq_headers rq name of [v] \<Rightarrow> to_str v | _ \<Rightarrow> None)"

definition binding_stage ::
  "'r env \<Rightarrow> request \<Rightarrow> route_config \<Rightarrow> identity option \<Rightarrow> ('r, unit) stage" where
  "binding_stage env rq route ident =
     (if rc_bindings route = [] then return_stage ()
      else case ident of
             None \<Rightarrow> reject env (forbidden ''Forbidden'' ''bind_without_identity'')
           | Some i \<Rightarrow>
               unless_reject env
                 (list_all (\<lambda>b. permits (en_pct_decode env) b i (rq_query rq) (single_text rq))
                    (rc_bindings route))
                 (forbidden ''Forbidden'' ''binding_refused''))"

section \<open>The header plan\<close>

definition injected_pairs :: "gateway \<Rightarrow> (string \<times> string) list" where
  "injected_pairs g =
     (if gw_serves_machine g then rv_machine_injected (gw_cfg g) else rv_injected (gw_cfg g))"

text \<open>The forwarding headers are always the gateway's own.\<close>

definition machine_strip :: "(string \<times> string) list \<Rightarrow> header_plan \<Rightarrow> header_plan" where
  "machine_strip injected plan =
     fold (\<lambda>n p. if list_ex (\<lambda>(m, _). m = n) injected then p else plan_strip n p)
       [''x-api-key'', ''x-internal-api-key''] plan"

definition address_plan :: "string option \<times> string option \<Rightarrow> header_plan \<Rightarrow> header_plan" where
  "address_plan addrs plan =
     (let p1 = plan_strip ''x-real-ip'' (plan_strip ''x-forwarded-for'' plan);
          p2 = (case fst addrs of Some v \<Rightarrow> plan_set ''x-forwarded-for'' v p1 | None \<Rightarrow> p1) in
      case snd addrs of Some v \<Rightarrow> plan_set ''x-real-ip'' v p2 | None \<Rightarrow> p2)"

definition base_header_plan :: "gateway \<Rightarrow> request \<Rightarrow> header_plan" where
  "base_header_plan g rq =
     (let p1 = fold plan_strip HOP_BY_HOP plan_new;
          p2 = fold (\<lambda>(n, v). plan_set n v) (injected_pairs g) p1;
          p3 = (if gw_serves_machine g then machine_strip (injected_pairs g) p2 else p2) in
      address_plan (forwarded_for (rq_headers rq) (rq_peer rq)
                      (trusted_depth g rq (fw_trusted_proxies (fwd_cfg g)))) p3)"

definition request_trace :: "gateway \<Rightarrow> 'r env \<Rightarrow> request \<Rightarrow> trace_context option" where
  "request_trace g env rq =
     map_option (\<lambda>ratio. continue_from (en_trace_id env) (en_span_id env)
                   (header_text (rq_headers rq) ''traceparent'') (sample (en_bucket env) ratio))
       (gw_sample_ratio g)"

definition trace_plan :: "trace_context option \<Rightarrow> header_plan \<Rightarrow> header_plan" where
  "trace_plan tr plan = (case tr of Some t \<Rightarrow> plan_set ''traceparent'' (to_header t) plan | None \<Rightarrow> plan)"

fun identity_error_text :: "identity_error \<Rightarrow> string" where
  "identity_error_text (ClaimError d) = d"
| "identity_error_text (MintError d) = d"

definition identity_rejection :: "identity_error \<Rightarrow> rejection" where
  "identity_rejection e =
     (case e of
        ClaimError _ \<Rightarrow> invalid_token (''unrepresentable_identity: '' @ identity_error_text e)
      | MintError _ \<Rightarrow> unavailable ''Unable to sign caller identity''
                        (''identity_mint_failed: '' @ identity_error_text e))"

definition identity_plan ::
  "gateway \<Rightarrow> 'r env \<Rightarrow> identity option \<Rightarrow> header_plan \<Rightarrow> (header_plan, rejection) result" where
  "identity_plan g env ident plan =
     (case ident of
        None \<Rightarrow> Inr (strip_all (gc_identity (raw_cfg g)) plan)
      | Some i \<Rightarrow>
          map_err identity_rejection
            (apply_identity (en_encode_claims env) (en_sign env) (en_unix env) (gc_identity (raw_cfg g))
               (rv_identity_secret (gw_cfg g)) i plan))"

definition credential_plan :: "gateway \<Rightarrow> request \<Rightarrow> header_plan \<Rightarrow> header_plan" where
  "credential_plan g rq plan =
     (if fw_authorization (fwd_cfg g) then plan
      else
        let p1 = plan_strip ''authorization'' plan;
            names = au_token_cookies (gc_auth (raw_cfg g));
            forwarded = (fw_mode (fwd_cfg g) \<noteq> Allowlist \<or> is_forwardable g ''cookie'');
            values = text_values (rq_headers rq) ''cookie'' in
        if names \<noteq> [] \<and> forwarded \<and> values \<noteq> []
        then (case strip_cookies values names of
                Some rest \<Rightarrow> plan_set ''cookie'' rest p1
              | None \<Rightarrow> plan_strip ''cookie'' p1)
        else p1)"

definition client_key_plan :: "gateway \<Rightarrow> string option \<Rightarrow> header_plan \<Rightarrow> header_plan" where
  "client_key_plan g kid plan =
     (if gw_serves_machine g then plan
      else
        let p1 = (case client_key_header (gw_cfg g) of Some h \<Rightarrow> plan_strip h plan | None \<Rightarrow> plan) in
        case client_key_forward_as (gw_cfg g) of
          None \<Rightarrow> p1
        | Some h \<Rightarrow> (case kid of Some i \<Rightarrow> plan_set h i p1 | None \<Rightarrow> plan_strip h p1))"

definition plan_stage ::
  "gateway \<Rightarrow> 'r env \<Rightarrow> request \<Rightarrow> identity option \<Rightarrow> string option \<Rightarrow> ('r, header_plan) stage" where
  "plan_stage g env rq ident kid s =
     (let base = plan_set ''x-request-id'' (cx_request_id (rn_ctx s)) (base_header_plan g rq);
          tr = request_trace g env rq;
          s1 = s \<lparr> rn_ctx := (rn_ctx s) \<lparr> cx_trace := (case tr of Some t \<Rightarrow> Some t | None \<Rightarrow> cx_trace (rn_ctx s)) \<rparr> \<rparr> in
      case identity_plan g env ident (trace_plan tr base) of
        Inl rej \<Rightarrow> reject env rej s1
      | Inr plan \<Rightarrow> (Inr (client_key_plan g kid (credential_plan g rq plan)), s1))"

section \<open>Extensions, the concurrency key and the context\<close>

definition gateway_budgets :: "gateway \<Rightarrow> 'r env \<Rightarrow> ext_budgets" where
  "gateway_budgets g env =
     \<lparr> eb_hook = to_extension (gc_timeouts (raw_cfg g)),
       eb_chain = to_extension_chain (gc_timeouts (raw_cfg g)),
       eb_max_inflight = li_extension_inflight (gc_limits (raw_cfg g)), eb_latest = en_latest env \<rparr>"

definition extension_stage ::
  "gateway \<Rightarrow> 'r env \<Rightarrow> route_config \<Rightarrow> header_plan \<Rightarrow> ('r, header_plan) stage" where
  "extension_stage g env route plan s =
     (case run_extensions (gw_extensions g) (gateway_budgets g env) (rc_extensions route) (rn_clock s)
             (rn_admission s) plan of
        (r, plan', now', cell') \<Rightarrow>
          let s1 = s \<lparr> rn_admission := cell', rn_clock := now' \<rparr> in
          (case r of Inl rej \<Rightarrow> reject env rej s1 | Inr _ \<Rightarrow> (Inr plan', s1)))"

definition pending_of :: "route_config \<Rightarrow> concurrency_config \<Rightarrow> string \<Rightarrow> pending_slot" where
  "pending_of route cap key =
     \<lparr> ps_key = key, ps_max = cc_max cap,
       ps_per_caller = (per_caller cap \<and> strip_prefix (rc_id route) key \<noteq> Some ''|'') \<rparr>"

definition cap_stage ::
  "gateway \<Rightarrow> 'r env \<Rightarrow> request \<Rightarrow> route_config \<Rightarrow> identity option \<Rightarrow> ('r, unit) stage" where
  "cap_stage g env rq route ident =
     (case rc_concurrency route of
        None \<Rightarrow> return_stage ()
      | Some cap \<Rightarrow>
          (case limit_key g rq (concurrency_key cap) (cc_missing_key cap) (cc_trusted_proxies cap)
                  (rc_id route) (map_option id_subject ident) of
             Inl err \<Rightarrow> reject env (limit_key_rejection err)
           | Inr key \<Rightarrow>
               update_ctx (\<lambda>cx. cx \<lparr> cx_concurrency := map_option (pending_of route cap) key \<rparr>)))"

definition request_timeout :: "gateway \<Rightarrow> request \<Rightarrow> route_config \<Rightarrow> duration" where
  "request_timeout g rq route =
     (let t = gc_timeouts (raw_cfg g) in
      if rc_sse route then to_sse t
      else if is_upload_content_type (header_text (rq_headers rq) ''content-type'') then to_upload t
      else to_default t)"

definition fill_ctx ::
  "gateway \<Rightarrow> request \<Rightarrow> route_config \<Rightarrow> identity option \<Rightarrow> string option \<Rightarrow> ctx \<Rightarrow> ctx" where
  "fill_ctx g rq route ident kid cx =
     cx \<lparr> cx_subject := map_option id_subject ident, cx_client_key_id := kid,
          cx_cacheable_route := rc_cache route, cx_cache_namespace := tb_namespace (gw_table g),
          cx_attempt := (cx_attempt cx) \<lparr> rx_retry := rc_retry_policy route \<rparr>,
          cx_route_id := rc_id route, cx_upstream_name := rc_upstream route, cx_sse := rc_sse route,
          cx_upstream_path := (if rc_strip_prefix route then Some (upstream_path route (cx_path cx))
                               else cx_upstream_path cx),
          cx_timeout := request_timeout g rq route \<rparr>"

section \<open>The filter\<close>

text \<open>After the route is known: who the caller is, and whether the limits and the
  bindings let it through.\<close>

definition admit_caller ::
  "gateway \<Rightarrow> 'r env \<Rightarrow> request \<Rightarrow> string \<Rightarrow> route_config \<Rightarrow>
   ('r, identity option \<times> string option) stage" where
  "admit_caller g env rq path route =
     bind_stage (machine_stage g env rq route) (\<lambda>_.
     bind_stage (rate_limit_stage g env rq route False None) (\<lambda>_.
     bind_stage (client_key_stage g env rq route path) (\<lambda>kid.
     bind_stage (auth_stage g env rq route) (\<lambda>ident.
     bind_stage (rate_limit_stage g env rq route True (map_option id_subject ident)) (\<lambda>_.
     bind_stage (binding_stage env rq route ident) (\<lambda>_.
     return_stage (ident, kid)))))))"

definition find_route_for :: "gateway \<Rightarrow> 'r env \<Rightarrow> request \<Rightarrow> ('r, string \<times> route_config) stage" where
  "find_route_for g env rq =
     bind_stage (path_stage g env rq) (\<lambda>path.
     bind_stage (deny_stage g env path) (\<lambda>_.
     bind_stage (preflight_stage g rq path) (\<lambda>_.
     bind_stage (route_stage g env rq path) (\<lambda>route.
     return_stage (path, route)))))"

definition prepare_upstream ::
  "gateway \<Rightarrow> 'r env \<Rightarrow> request \<Rightarrow> route_config \<Rightarrow> identity option \<Rightarrow> string option \<Rightarrow> ('r, unit) stage" where
  "prepare_upstream g env rq route ident kid =
     bind_stage (plan_stage g env rq ident kid) (\<lambda>plan0.
     bind_stage (extension_stage g env route plan0) (\<lambda>plan.
     bind_stage (update_ctx (\<lambda>cx. cx \<lparr> cx_plan := plan \<rparr>)) (\<lambda>_.
     bind_stage (cap_stage g env rq route ident) (\<lambda>_.
     update_ctx (fill_ctx g rq route ident kid)))))"

definition request_filter :: "gateway \<Rightarrow> 'r env \<Rightarrow> request \<Rightarrow> ('r, unit) stage" where
  "request_filter g env rq =
     bind_stage (update_ctx (prepare g env rq)) (\<lambda>_.
     bind_stage (health_stage g env rq) (\<lambda>_.
     bind_stage (size_stage g env rq) (\<lambda>_.
     bind_stage (reject_headers_stage g env rq) (\<lambda>_.
     bind_stage (find_route_for g env rq) (\<lambda>(path, route).
     bind_stage (admit_caller g env rq path route) (\<lambda>(ident, kid).
     prepare_upstream g env rq route ident kid))))))"

end
