(* ===== verification/Exchange.thy ===== *)
theory Exchange
  imports Request_Filter
begin

text \<open>
  The filters of \<open>proxy.rs\<close> that run after a request was let through: taking the
  concurrency slot and asking the breaker, counting the body, choosing the backend, writing
  the upstream request, the response and the failures, and the report at the end.
\<close>

section \<open>What one connection may hold\<close>

record session_budgets =
  sb_read :: duration
  sb_write :: duration
  sb_drain :: duration
  sb_keepalive_secs :: nat
  sb_min_send_rate :: "nat option"

definition early_request_filter :: "gateway \<Rightarrow> session_budgets" where
  "early_request_filter g =
     (let t = gc_timeouts (raw_cfg g) in
      \<lparr> sb_read = to_downstream_read t, sb_write = to_downstream_write t, sb_drain = to_downstream_drain t,
        sb_keepalive_secs = as_secs (to_downstream_keepalive t),
        sb_min_send_rate =
          (case li_min_send_rate (gc_limits (raw_cfg g)) of
             Some r \<Rightarrow> if 0 < r then Some r else None | None \<Rightarrow> None) \<rparr>)"

text \<open>An event stream is given the wider budget at the end of the request filter.\<close>

definition stream_budgets :: "gateway \<Rightarrow> route_config \<Rightarrow> session_budgets \<Rightarrow> session_budgets" where
  "stream_budgets g route b =
     (if rc_sse route then b \<lparr> sb_write := to_sse (gc_timeouts (raw_cfg g)) \<rparr> else b)"

section \<open>Taking a slot and asking the breaker\<close>

record 'c exchange =
  xc_ctx :: ctx
  xc_inflight :: "'c in_flight"
  xc_upstreams :: "string \<rightharpoonup> upstream"
  xc_dns_next :: nat

definition circuit_cooldown :: "gateway \<Rightarrow> string \<Rightarrow> nat" where
  "circuit_cooldown g name =
     (case Option.bind (rv_upstreams (gw_cfg g) name) uc_circuit_breaker of
        Some cb \<Rightarrow> max (as_secs (bc_cooldown cb)) 1
      | None \<Rightarrow> 1)"

definition refuse ::
  "'r env \<Rightarrow> rejection \<Rightarrow> 'c exchange \<Rightarrow> (reply + unit) \<times> 'c exchange" where
  "refuse env rej x =
     (Inl (send_with_retry_after (rj_status rej) (body_bytes (en_to_vec env) rej)
             (cx_retry_after (xc_ctx x)) (cx_cors (xc_ctx x))),
      x \<lparr> xc_ctx := (xc_ctx x) \<lparr> cx_status := rj_status rej \<rparr> \<rparr>)"

text \<open>The slot first: a request refused for it never becomes a trial.\<close>

definition take_pending ::
  "('c \<Rightarrow> string \<Rightarrow> 'c \<times> int) \<Rightarrow> ('c \<Rightarrow> string \<Rightarrow> 'c) \<Rightarrow> 'r env \<Rightarrow> 'c exchange \<Rightarrow>
   (reply + unit) \<times> 'c exchange" where
  "take_pending incr decr env x =
     (case cx_concurrency (xc_ctx x) of
        None \<Rightarrow> (Inr (), x)
      | Some p \<Rightarrow>
          (case take_slot incr decr (ps_key p) (ps_max p) (ps_per_caller p) (xc_inflight x) of
             (Some held, infl) \<Rightarrow>
               (Inr (), x \<lparr> xc_inflight := infl,
                            xc_ctx := (xc_ctx x) \<lparr> cx_concurrency := None, cx_inflight := Some held \<rparr> \<rparr>)
           | (None, infl) \<Rightarrow>
               refuse env (concurrency_limited (ps_per_caller p) 1)
                 (x \<lparr> xc_inflight := infl,
                      xc_ctx := (xc_ctx x) \<lparr> cx_concurrency := None, cx_retry_after := Some 1 \<rparr> \<rparr>)))"

definition upstream_breaker :: "'c exchange \<Rightarrow> string \<Rightarrow> circuit_breaker option" where
  "upstream_breaker x name = Option.bind (xc_upstreams x name) up_breaker"

definition set_breaker :: "string \<Rightarrow> circuit_breaker \<Rightarrow> 'c exchange \<Rightarrow> 'c exchange" where
  "set_breaker name cb x =
     x \<lparr> xc_upstreams := (xc_upstreams x)
           (name := map_option (\<lambda>u. u \<lparr> up_breaker := Some cb \<rparr>) (xc_upstreams x name)) \<rparr>"

definition ask_breaker ::
  "gateway \<Rightarrow> 'r env \<Rightarrow> 'c exchange \<Rightarrow> (reply + unit) \<times> 'c exchange" where
  "ask_breaker g env x =
     (let name = cx_upstream_name (xc_ctx x) in
      case upstream_breaker x name of
        None \<Rightarrow> (Inr (), x)
      | Some cb \<Rightarrow>
          (let (ok, cb1) = allow_at (en_now env) cb; x1 = set_breaker name cb1 x in
           if ok then (Inr (), x1 \<lparr> xc_ctx := (xc_ctx x1) \<lparr> cx_breaker_upstream := Some name \<rparr> \<rparr>)
           else
             let secs = circuit_cooldown g name in
             refuse env (circuit_open secs)
               (x1 \<lparr> xc_ctx := (xc_ctx x1) \<lparr> cx_retry_after := Some secs \<rparr> \<rparr>)))"

definition proxy_upstream_filter ::
  "('c \<Rightarrow> string \<Rightarrow> 'c \<times> int) \<Rightarrow> ('c \<Rightarrow> string \<Rightarrow> 'c) \<Rightarrow> gateway \<Rightarrow> 'r env \<Rightarrow> 'c exchange \<Rightarrow>
   (reply + unit) \<times> 'c exchange" where
  "proxy_upstream_filter incr decr g env x =
     (case take_pending incr decr env x of
        (Inl rep, y) \<Rightarrow> (Inl rep, y)
      | (Inr _, y) \<Rightarrow> ask_breaker g env y)"

section \<open>The body\<close>

text \<open>An error of the exchange, as far as the gateway looks at it: its type and whether the
  upstream is its source.\<close>

datatype error_type =
    ConnectTimedout | ReadTimedout | WriteTimedout | HttpStatus nat | ConnectError | InternalError
  | OtherError string

record proxy_error =
  pe_type :: error_type
  pe_upstream :: bool

definition request_body_filter :: "gateway \<Rightarrow> nat \<Rightarrow> ctx \<Rightarrow> (ctx, proxy_error) result" where
  "request_body_filter g chunk_len cx =
     (case add_body_chunk (cx_body_bytes cx) chunk_len (li_max_body (gc_limits (raw_cfg g))) of
        Some n \<Rightarrow> Inr (cx \<lparr> cx_body_bytes := n \<rparr>)
      | None \<Rightarrow> Inl \<lparr> pe_type = HttpStatus 413, pe_upstream = False \<rparr>)"

section \<open>Choosing the backend\<close>

definition hash_key_of :: "gateway \<Rightarrow> request \<Rightarrow> ctx \<Rightarrow> string" where
  "hash_key_of g rq cx =
     (case rv_upstreams (gw_cfg g) (cx_upstream_name cx) of
        None \<Rightarrow> cx_request_id cx
      | Some u \<Rightarrow>
          if uc_balance u \<noteq> Consistent then cx_request_id cx
          else (case uc_hash_on u of
                  HashPath \<Rightarrow> cx_path cx
                | HashIdentity \<Rightarrow> (case cx_subject cx of Some s \<Rightarrow> s | None \<Rightarrow> [])
                | HashIp \<Rightarrow> (case rq_peer rq of Some ip \<Rightarrow> ip | None \<Rightarrow> [])
                | HashHeader name \<Rightarrow>
                    (case header_text (rq_headers rq) name of Some v \<Rightarrow> v | None \<Rightarrow> [])))"

record peer =
  pr_addr :: string
  pr_tls :: bool
  pr_sni :: string
  pr_connect :: duration
  pr_total_connect :: duration
  pr_read :: duration
  pr_write :: duration
  pr_idle :: duration

definition upstream_error :: proxy_error where
  "upstream_error = \<lparr> pe_type = ConnectError, pe_upstream = True \<rparr>"

text \<open>\<open>pick\<close> is the balancer, \<open>resolve_name\<close> the resolver.\<close>

definition upstream_peer ::
  "(backend list \<Rightarrow> string \<Rightarrow> backend option) \<Rightarrow> (string \<Rightarrow> (string list, proxy_error) result) \<Rightarrow>
   gateway \<Rightarrow> request \<Rightarrow> 'c exchange \<Rightarrow> (peer, proxy_error) result \<times> 'c exchange" where
  "upstream_peer pick resolve_name g rq x =
     (case xc_upstreams x (cx_upstream_name (xc_ctx x)) of
        None \<Rightarrow> (Inl \<lparr> pe_type = InternalError, pe_upstream = False \<rparr>, x)
      | Some u \<Rightarrow>
          (case upstream_select pick (up_kind u) (hash_key_of g rq (xc_ctx x)) of
             None \<Rightarrow> (Inl upstream_error, x)
           | Some sel \<Rightarrow>
               (case (case se_addr sel of Some a \<Rightarrow> Inr [a] | None \<Rightarrow> resolve_name (ut_addr (se_target sel))) of
                  Inl e \<Rightarrow> (Inl e, x)
                | Inr addrs \<Rightarrow>
                    (let cx = xc_ctx x;
                         (start, next_start) =
                           (case cx_dns_start cx of
                              Some n \<Rightarrow> (n, xc_dns_next x)
                            | None \<Rightarrow> (xc_dns_next x, (xc_dns_next x + 1) mod (U64_MAX + 1)));
                         cx1 = cx \<lparr> cx_dns_start := Some start,
                                    cx_attempt := (cx_attempt cx) \<lparr> rx_dns_candidates := length addrs \<rparr> \<rparr>;
                         x1 = x \<lparr> xc_ctx := cx1, xc_dns_next := next_start \<rparr> in
                     case choose_dns_address addrs start (rx_dns_attempts (cx_attempt cx1)) of
                       None \<Rightarrow> (Inl upstream_error, x1)
                     | Some addr \<Rightarrow>
                         (let t = gc_timeouts (raw_cfg g) in
                          (Inr \<lparr> pr_addr = addr, pr_tls = ut_tls (se_target sel),
                                 pr_sni = ut_sni (se_target sel), pr_connect = to_connect t,
                                 pr_total_connect = sat_mul DUR_MAX (to_connect t) 2,
                                 pr_read = cx_timeout cx1, pr_write = cx_timeout cx1,
                                 pr_idle = to_upstream_idle t \<rparr>,
                           x1 \<lparr> xc_ctx := cx1 \<lparr> cx_target := Some (se_target sel) \<rparr> \<rparr>))))))"

section \<open>The upstream request\<close>

definition remove_header :: "string \<Rightarrow> header_map \<Rightarrow> header_map" where
  "remove_header name h = h(name := [])"

definition put_header :: "string \<Rightarrow> string \<Rightarrow> header_map \<Rightarrow> header_map" where
  "put_header name v h = h(name := [Text v])"

text \<open>The allowlist sweep: every name that is not forwardable is removed.\<close>

definition allowlist_sweep :: "gateway \<Rightarrow> header_map \<Rightarrow> header_map" where
  "allowlist_sweep g h = (\<lambda>n. if is_forwardable g n then h n else [])"

definition apply_plan :: "header_plan \<Rightarrow> header_map \<Rightarrow> header_map" where
  "apply_plan plan h =
     fold (\<lambda>(n, v). put_header n v) (hp_set plan) (\<lambda>n. if n \<in> hp_remove plan then [] else h n)"

text \<open>\<open>uri_ok\<close> is whether \<open>http::Uri\<close> accepts the target; \<open>headers\<close> are the client's, as
  Pingora copies them.\<close>

definition upstream_request_filter ::
  "(string \<Rightarrow> bool) \<Rightarrow> ((char \<Rightarrow> bool) \<Rightarrow> string \<Rightarrow> string) \<Rightarrow> gateway \<Rightarrow> ctx \<Rightarrow> header_map \<Rightarrow>
   (string \<times> header_map, proxy_error) result" where
  "upstream_request_filter uri_ok pct_encode g cx headers =
     (case cx_target cx of
        None \<Rightarrow> Inl \<lparr> pe_type = InternalError, pe_upstream = False \<rparr>
      | Some target \<Rightarrow>
          (let uri = upstream_uri pct_encode (ut_base_path target)
                       (case cx_upstream_path cx of Some p \<Rightarrow> p | None \<Rightarrow> cx_path cx) (cx_query cx) in
           if \<not> uri_ok uri then Inl \<lparr> pe_type = InternalError, pe_upstream = False \<rparr>
           else
             let h1 = (if fw_preserve_host (fwd_cfg g) then headers
                       else put_header ''host'' (ut_addr target) headers);
                 h2 = (if fw_mode (fwd_cfg g) = Allowlist then allowlist_sweep g h1 else h1) in
             Inr (uri, apply_plan (cx_plan cx) h2)))"

section \<open>The response\<close>

definition cors_into_response :: "cors_headers \<Rightarrow> header_map \<Rightarrow> header_map" where
  "cors_into_response hs h =
     fold (\<lambda>(n, v) acc. if n = ''vary'' then acc(n := acc n @ [Text v]) else put_header n v acc) hs h"

definition response_filter :: "nat \<Rightarrow> header_map \<Rightarrow> ctx \<Rightarrow> header_map \<times> ctx" where
  "response_filter status h cx =
     (let h1 = (case cx_cors cx of Some hs \<Rightarrow> cors_into_response hs h | None \<Rightarrow> h);
          h2 = (if cx_sse cx
                then put_header ''x-accel-buffering'' ''no'' (put_header ''cache-control'' ''no-cache'' h1)
                else h1) in
      (h2, cx \<lparr> cx_status := status \<rparr>))"

definition bad_gateway :: "string \<Rightarrow> rejection" where
  "bad_gateway reason =
     rejection_new 502 (envelope 502 ''Bad Gateway'' ''Bad Gateway'' [])
       ''gateway.upstream.unreachable'' reason"

fun error_type_text :: "error_type \<Rightarrow> string" where
  "error_type_text ConnectTimedout = ''ConnectTimedout''"
| "error_type_text ReadTimedout = ''ReadTimedout''"
| "error_type_text WriteTimedout = ''WriteTimedout''"
| "error_type_text (HttpStatus _) = ''HTTPStatus''"
| "error_type_text ConnectError = ''ConnectError''"
| "error_type_text InternalError = ''InternalError''"
| "error_type_text (OtherError s) = s"

definition failure_rejection :: "error_type \<Rightarrow> rejection" where
  "failure_rejection e =
     (if e \<in> {ConnectTimedout, ReadTimedout, WriteTimedout} then gateway_timeout
      else if e = HttpStatus 413 then payload_too_large
      else bad_gateway (error_type_text e))"

text \<open>\<open>written\<close>: a response already went out, so none is sent. The connection is never
  reused afterwards.\<close>

definition fail_to_proxy :: "'r env \<Rightarrow> bool \<Rightarrow> proxy_error \<Rightarrow> ctx \<Rightarrow> reply option \<times> ctx" where
  "fail_to_proxy env written e cx =
     (let rej = failure_rejection (pe_type e) in
      (if written then None else Some (send (rj_status rej) (body_bytes (en_to_vec env) rej)),
       cx \<lparr> cx_status := rj_status rej \<rparr>))"

section \<open>The report\<close>

text \<open>The breaker's part of \<open>logging\<close>: \<open>written\<close> is the status of the response written to
  the client, if any.\<close>

definition report_breaker ::
  "instant \<Rightarrow> proxy_error option \<Rightarrow> nat \<Rightarrow> circuit_breaker \<Rightarrow> circuit_breaker" where
  "report_breaker now e status cb =
     (case e of
        Some err \<Rightarrow> if \<not> pe_upstream err then cancel cb else record_failure_at now cb
      | None \<Rightarrow> if status \<ge> 500 then record_failure_at now cb else record_success_at now cb)"

definition logging :: "instant \<Rightarrow> proxy_error option \<Rightarrow> nat option \<Rightarrow> 'c exchange \<Rightarrow> 'c exchange" where
  "logging now e written x =
     (let status = (case written of Some st \<Rightarrow> st | None \<Rightarrow> cx_status (xc_ctx x)) in
      case cx_breaker_upstream (xc_ctx x) of
        None \<Rightarrow> x
      | Some name \<Rightarrow>
          (case upstream_breaker x name of
             None \<Rightarrow> x
           | Some cb \<Rightarrow> set_breaker name (report_breaker now e status cb) x))"

text \<open>The context is dropped after the response was written, and with it the slot.\<close>

definition drop_ctx :: "('c \<Rightarrow> string \<Rightarrow> 'c) \<Rightarrow> 'c exchange \<Rightarrow> 'c exchange" where
  "drop_ctx decr x =
     (case cx_inflight (xc_ctx x) of
        None \<Rightarrow> x
      | Some sl \<Rightarrow> x \<lparr> xc_inflight := drop_slot decr sl (xc_inflight x),
                      xc_ctx := (xc_ctx x) \<lparr> cx_inflight := None \<rparr> \<rparr>)"

end
