(* ===== verification/Request_Properties.thy ===== *)
theory Request_Properties
  imports Request_Filter
begin

text \<open>
  What the request filter guarantees of a request it lets through, and of the answers it
  gives to one it refuses.
\<close>

section \<open>Requests that are let through\<close>

definition canonical_request :: "gateway \<Rightarrow> 'r env \<Rightarrow> request \<Rightarrow> string option" where
  "canonical_request g env rq =
     Option.bind (strip_base g (rq_path rq)) (canonicalize_proxy_path (en_pct_decode env))"

definition verified_by :: "gateway \<Rightarrow> request \<Rightarrow> identity \<Rightarrow> bool" where
  "verified_by g rq i =
     (case (gw_verifier g, bearer_of g rq) of
        (Some verify, Some token) \<Rightarrow> verify token = Inr i
      | _ \<Rightarrow> False)"

text \<open>The contract of the four tiers.\<close>

definition tier_honoured :: "gateway \<Rightarrow> request \<Rightarrow> route_config \<Rightarrow> identity option \<Rightarrow> bool" where
  "tier_honoured g rq route ident =
     (case rc_auth route of
        TierPublic \<Rightarrow> ident = None
      | TierOptional \<Rightarrow> (case ident of None \<Rightarrow> bearer_of g rq = None | Some i \<Rightarrow> verified_by g rq i)
      | TierRequired \<Rightarrow> (case ident of None \<Rightarrow> False | Some i \<Rightarrow> verified_by g rq i)
      | TierMachine \<Rightarrow> ident = None \<and> rv_machine_secret (gw_cfg g) = Some (presented_machine_secret g rq))"

definition bindings_honoured :: "'r env \<Rightarrow> request \<Rightarrow> route_config \<Rightarrow> identity option \<Rightarrow> bool" where
  "bindings_honoured env rq route ident =
     (rc_bindings route = [] \<or>
      (case ident of
         None \<Rightarrow> False
       | Some i \<Rightarrow> list_all (\<lambda>b. permits (en_pct_decode env) b i (rq_query rq) (single_text rq)) (rc_bindings route)))"

definition client_key_honoured :: "gateway \<Rightarrow> 'r env \<Rightarrow> request \<Rightarrow> route_config \<Rightarrow> string \<Rightarrow> string option \<Rightarrow> bool" where
  "client_key_honoured g env rq route path kid =
     (if gw_serves_machine g \<or> client_key_rule (gw_cfg g) route path \<noteq> KeyRequired then kid = None
      else \<exists>keys k v.
             rv_client_keys (gw_cfg g) = Some keys \<and> rq_headers rq (rk_header keys) = [v]
             \<and> match_key (en_sha256 env) (rk_keys keys) (header_bytes v) = Some k \<and> kid = Some (key_id k))"

definition let_through :: "gateway \<Rightarrow> 'r env \<Rightarrow> request \<Rightarrow> ctx \<Rightarrow> route_config \<Rightarrow> identity option \<Rightarrow> bool" where
  "let_through g env rq cx route ident =
     (canonical_request g env rq = Some (cx_path cx)
      \<and> \<not> is_denied (gw_table g) (cx_path cx)
      \<and> match_request (gw_table g) (request_host rq) (cx_path cx) (rq_method rq) = Some route
      \<and> rc_upstream route \<in> gw_upstreams g
      \<and> tier_honoured g rq route ident
      \<and> bindings_honoured env rq route ident
      \<and> client_key_honoured g env rq route (cx_path cx) (cx_client_key_id cx)
      \<and> cx_subject cx = map_option id_subject ident
      \<and> cx_route_id cx = rc_id route \<and> cx_upstream_name cx = rc_upstream route)"

lemma path_stage_Inr:
  "path_stage g env rq s = (Inr path, t) \<Longrightarrow>
   canonical_request g env rq = Some path \<and> cx_path (rn_ctx t) = path"
  by (auto simp: path_stage_def canonical_request_def bind_stage_Inr_iff split: option.splits)

lemma preflight_stage_Inr: "preflight_stage g rq path s = (Inr u, t) \<Longrightarrow> t = s"
  by (auto simp: preflight_stage_def split: option.splits if_splits)

lemma route_stage_Inr:
  "route_stage g env rq path s = (Inr route, t) \<Longrightarrow>
   match_request (gw_table g) (request_host rq) path (rq_method rq) = Some route
   \<and> rc_upstream route \<in> gw_upstreams g \<and> t = s"
  by (auto simp: route_stage_def bind_stage_Inr_iff split: option.splits)

lemma find_route_for_Inr:
  assumes "find_route_for g env rq s = (Inr (path, route), t)"
  shows "canonical_request g env rq = Some path \<and> cx_path (rn_ctx t) = path
    \<and> \<not> is_denied (gw_table g) path
    \<and> match_request (gw_table g) (request_host rq) path (rq_method rq) = Some route
    \<and> rc_upstream route \<in> gw_upstreams g"
  using assms
  by (auto simp: find_route_for_def bind_stage_Inr_iff deny_stage_def
      dest!: path_stage_Inr preflight_stage_Inr route_stage_Inr)

lemma machine_stage_Inr:
  "machine_stage g env rq route s = (Inr u, t) \<Longrightarrow>
   t = s \<and> (rc_auth route = TierMachine \<longrightarrow>
            rv_machine_secret (gw_cfg g) = Some (presented_machine_secret g rq))"
  by (auto simp: machine_stage_def split: if_splits option.splits)

lemma rate_limit_stage_Inr:
  "rate_limit_stage g env rq route b sub s = (Inr u, t) \<Longrightarrow> rn_ctx t = rn_ctx s"
  by (auto simp: rate_limit_stage_def check_rate_limit_def Let_def
      split: option.splits if_splits sum.splits prod.splits)

lemma client_key_stage_Inr:
  "client_key_stage g env rq route path s = (Inr kid, t) \<Longrightarrow>
   t = s \<and> client_key_honoured g env rq route path kid"
  by (auto simp: client_key_stage_def client_key_honoured_def Let_def client_key_header_def
      client_key_rule_def key_rule_def split: if_splits option.splits list.splits)

lemma verify_stage_Inr:
  "verify_stage g env bearer tier s = (Inr ident, t) \<Longrightarrow>
   t = s \<and> (case ident of
              None \<Rightarrow> tier = TierOptional \<and> bearer = None
            | Some i \<Rightarrow> (\<exists>verify token. gw_verifier g = Some verify \<and> bearer = Some token \<and> verify token = Inr i))"
  by (auto simp: verify_stage_def split: option.splits if_splits sum.splits)

lemma auth_stage_Inr:
  assumes "auth_stage g env rq route s = (Inr ident, t)"
  shows "cx_path (rn_ctx t) = cx_path (rn_ctx s) \<and>
    (if verifies (rc_auth route)
     then (case ident of
             None \<Rightarrow> rc_auth route = TierOptional \<and> bearer_of g rq = None
           | Some i \<Rightarrow> verified_by g rq i)
     else ident = None)"
  using assms
  by (auto simp: auth_stage_def bind_stage_Inr_iff verified_by_def split: if_splits sum.splits option.splits
      dest!: verify_stage_Inr)

lemma binding_stage_Inr:
  "binding_stage env rq route ident s = (Inr u, t) \<Longrightarrow> t = s \<and> bindings_honoured env rq route ident"
  by (auto simp: binding_stage_def bindings_honoured_def split: if_splits option.splits)

lemma admit_caller_Inr:
  assumes "admit_caller g env rq path route s = (Inr (ident, kid), t)"
  shows "cx_path (rn_ctx t) = cx_path (rn_ctx s) \<and> tier_honoured g rq route ident
    \<and> bindings_honoured env rq route ident \<and> client_key_honoured g env rq route path kid"
  using assms
  by (cases "rc_auth route")
    (auto simp: admit_caller_def bind_stage_Inr_iff tier_honoured_def verifies_def
      dest!: machine_stage_Inr rate_limit_stage_Inr client_key_stage_Inr auth_stage_Inr binding_stage_Inr
      split: option.splits)


lemma plan_stage_Inr:
  "plan_stage g env rq ident kid s = (Inr plan, t) \<Longrightarrow>
   cx_path (rn_ctx t) = cx_path (rn_ctx s)
   \<and> (\<exists>p0 p1. identity_plan g env ident p0 = Inr p1
          \<and> plan = client_key_plan g kid (credential_plan g rq p1))"
  by (auto simp: plan_stage_def Let_def split: sum.splits)

lemma extension_stage_Inr:
  "extension_stage g env route plan s = (Inr plan', t) \<Longrightarrow>
   rn_ctx t = rn_ctx s \<and>
   (\<exists>now' cell'. run_extensions (gw_extensions g) (gateway_budgets g env) (rc_extensions route) (rn_clock s)
       (rn_admission s) plan = (Inr (), plan', now', cell'))"
  by (auto simp: extension_stage_def Let_def split: prod.splits sum.splits)

lemma cap_stage_Inr:
  "cap_stage g env rq route ident s = (Inr u, t) \<Longrightarrow>
   cx_path (rn_ctx t) = cx_path (rn_ctx s) \<and> cx_plan (rn_ctx t) = cx_plan (rn_ctx s)"
  by (auto simp: cap_stage_def split: option.splits sum.splits)

lemma prepare_upstream_Inr:
  assumes "prepare_upstream g env rq route ident kid s = (Inr u, t)"
  shows "cx_path (rn_ctx t) = cx_path (rn_ctx s) \<and> cx_subject (rn_ctx t) = map_option id_subject ident
    \<and> cx_client_key_id (rn_ctx t) = kid \<and> cx_route_id (rn_ctx t) = rc_id route
    \<and> cx_upstream_name (rn_ctx t) = rc_upstream route"
  using assms
  by (auto simp: prepare_upstream_def bind_stage_Inr_iff fill_ctx_def
      dest!: plan_stage_Inr extension_stage_Inr cap_stage_Inr)

text \<open>The stages of a request that was let through.\<close>

lemma request_filter_Inr:
  assumes "request_filter g env rq s = (Inr u, t)"
  obtains path route ident kid s1 s2 where
    "find_route_for g env rq (s \<lparr> rn_ctx := prepare g env rq (rn_ctx s) \<rparr>) = (Inr (path, route), s1)"
    "admit_caller g env rq path route s1 = (Inr (ident, kid), s2)"
    "prepare_upstream g env rq route ident kid s2 = (Inr u, t)"
  using assms
  by (auto simp: request_filter_def bind_stage_Inr_iff health_stage_def size_stage_def reject_headers_stage_def
      split: if_splits option.splits prod.splits)

text \<open>C1: nothing reaches an upstream unauthorized. A request the filter lets through has
  a canonical path that no deny prefix covers and a route of the table that serves it on a
  configured upstream; a required route has a verified caller, a machine route the machine
  secret, a public route no identity at all; every binding holds of the verified caller,
  and where client keys are required exactly one was sent and it matched.\<close>

theorem request_filter_authorizes:
  assumes "request_filter g env rq s = (Inr u, t)"
  shows "\<exists>route ident. let_through g env rq (rn_ctx t) route ident"
proof -
  obtain path route ident kid s1 s2 where st:
    "find_route_for g env rq (s \<lparr> rn_ctx := prepare g env rq (rn_ctx s) \<rparr>) = (Inr (path, route), s1)"
    "admit_caller g env rq path route s1 = (Inr (ident, kid), s2)"
    "prepare_upstream g env rq route ident kid s2 = (Inr u, t)"
    using request_filter_Inr [OF assms] by metis
  have "let_through g env rq (rn_ctx t) route ident"
    using find_route_for_Inr [OF st(1)] admit_caller_Inr [OF st(2)] prepare_upstream_Inr [OF st(3)]
    by (simp add: let_through_def)
  then show ?thesis by blast
qed


section \<open>Refusals\<close>

text \<open>The one answer for everything the gateway will not route.\<close>

definition not_found_reply :: "'r env \<Rightarrow> ctx \<Rightarrow> reply" where
  "not_found_reply env cx =
     send_with_retry_after 404 (body_bytes (en_to_vec env) (not_found [] [])) (cx_retry_after cx) (cx_cors cx)"

definition same_face :: "ctx \<Rightarrow> ctx \<Rightarrow> bool" where
  "same_face a b = (cx_cors a = cx_cors b \<and> cx_retry_after a = cx_retry_after b)"

text \<open>A stage is even-handed when, from a context with a given face, it keeps the face or
  ends with a reply that is no 404 or the one 404 of that face.\<close>

definition even_handed :: "'r env \<Rightarrow> ('r, 'a) stage \<Rightarrow> bool" where
  "even_handed env m =
     (\<forall>s r t. m s = (r, t) \<longrightarrow>
        (case r of
           Inl rep \<Rightarrow> rp_status rep = 404 \<longrightarrow> rep = not_found_reply env (rn_ctx s)
         | Inr _ \<Rightarrow> same_face (rn_ctx s) (rn_ctx t)))"

lemma even_handed_bind:
  assumes "even_handed env m" "\<And>a. even_handed env (f a)"
  shows "even_handed env (bind_stage m f)"
  unfolding even_handed_def
proof (intro allI impI)
  fix s r t
  assume b: "bind_stage m f s = (r, t)"
  obtain q u where m: "m s = (q, u)" by fastforce
  show "case r of Inl rep \<Rightarrow> rp_status rep = 404 \<longrightarrow> rep = not_found_reply env (rn_ctx s)
      | Inr _ \<Rightarrow> same_face (rn_ctx s) (rn_ctx t)"
  proof (cases q)
    case (Inl rep)
    with b m have "r = Inl rep" "t = u" by (simp_all add: bind_stage_def)
    with assms(1) m Inl show ?thesis by (fastforce simp: even_handed_def)
  next
    case (Inr a)
    with b m have f: "f a u = (r, t)" by (simp add: bind_stage_def)
    have face: "same_face (rn_ctx s) (rn_ctx u)" using assms(1) m Inr by (fastforce simp: even_handed_def)
    then have "not_found_reply env (rn_ctx u) = not_found_reply env (rn_ctx s)"
      by (simp add: same_face_def not_found_reply_def)
    with assms(2) [of a] f face show ?thesis
      by (fastforce simp: even_handed_def same_face_def split: sum.splits)
  qed
qed

lemma even_handed_return [simp]: "even_handed env (return_stage a)"
  by (simp add: even_handed_def return_stage_def same_face_def)

lemma rj_body_not_found: "rj_body (not_found ev rs) = rj_body (not_found [] [])"
  by (rule not_found_body)

lemma even_handed_not_found [simp]: "even_handed env (reject env (not_found ev rs))"
  using rj_body_not_found [of ev rs]
  by (simp add: even_handed_def reject_def not_found_reply_def body_bytes_def)

lemma even_handed_reject: "rj_status rej \<noteq> 404 \<Longrightarrow> even_handed env (reject env rej)"
  by (simp add: even_handed_def reject_def send_with_retry_after_def Let_def)

lemma even_handed_unless [simp]:
  "even_handed env (reject env rej :: ('r, unit) stage) \<Longrightarrow> even_handed env (unless_reject env ok rej)"
  by (simp add: unless_reject_def)

lemma even_handed_update: "(\<And>cx. same_face cx (f cx)) \<Longrightarrow> even_handed env (update_ctx f)"
  by (simp add: even_handed_def update_ctx_def)


definition extensions_never_404 :: "gateway \<Rightarrow> bool" where
  "extensions_never_404 g =
     (\<forall>name hook now d plan rej. gw_extensions g name = Some hook \<longrightarrow>
        hr_outcome (hook now d plan) = Some (Inl rej) \<longrightarrow> rj_status rej \<noteq> 404)"

lemma run_hooks_not_404:
  assumes "\<And>name hook now d plan rej. reg name = Some hook \<Longrightarrow>
      hr_outcome (hook now d plan) = Some (Inl rej) \<Longrightarrow> rj_status rej \<noteq> 404"
  shows "run_hooks reg latest b d names now plan = (Inl rej, plan', now') \<Longrightarrow> rj_status rej \<noteq> 404"
proof (induction names arbitrary: now plan)
  case (Cons name names)
  then show ?case
    by (auto simp: Let_def split: option.splits if_splits sum.splits dest: assms)
qed simp

lemma run_extensions_not_404:
  assumes "extensions_never_404 g"
    "run_extensions (gw_extensions g) bud names now cell plan = (Inl rej, plan', now', cell')"
  shows "rj_status rej \<noteq> 404"
proof -
  have hooks: "run_hooks (gw_extensions g) latest b d names now plan = (Inl rej, plan', now') \<Longrightarrow>
      rj_status rej \<noteq> 404" for latest b d
    by (rule run_hooks_not_404) (use assms(1) in \<open>auto simp: extensions_never_404_def\<close>)
  show ?thesis
    using assms(2) hooks
    by (auto simp: run_extensions_def run_chain_def ext_admit_def capacity_refused_def Let_def
        split: if_splits option.splits prod.splits sum.splits)
qed

lemma even_handed_path: "even_handed env (path_stage g env rq)"
  by (auto simp: path_stage_def same_face_def intro!: even_handed_bind even_handed_update split: option.splits)

lemma even_handed_preflight: "even_handed env (preflight_stage g rq path)"
  by (auto simp: even_handed_def preflight_stage_def send_preflight_def same_face_def split: option.splits if_splits)

lemma even_handed_route: "even_handed env (route_stage g env rq path)"
  by (auto simp: route_stage_def intro!: even_handed_bind even_handed_unless even_handed_reject split: option.splits)

lemma even_handed_find_route: "even_handed env (find_route_for g env rq)"
  by (auto simp: find_route_for_def deny_stage_def
      intro!: even_handed_bind even_handed_path even_handed_preflight even_handed_route even_handed_unless)

lemma even_handed_machine: "even_handed env (machine_stage g env rq route)"
  by (auto simp: machine_stage_def intro!: even_handed_unless even_handed_reject split: option.splits)

lemma even_handed_rate_limit: "even_handed env (rate_limit_stage g env rq route b sub)"
  by (auto simp: rate_limit_stage_def check_rate_limit_def even_handed_def reject_def same_face_def Let_def
      send_with_retry_after_def return_stage_def split: option.splits sum.splits if_splits prod.splits)

lemma even_handed_client_key: "even_handed env (client_key_stage g env rq route path)"
  by (auto simp: client_key_stage_def Let_def intro!: even_handed_reject split: option.splits list.splits)

lemma even_handed_verify: "even_handed env (verify_stage g env bearer tier)"
  by (auto simp: verify_stage_def auth_rejection_def intro!: even_handed_reject
      split: option.splits sum.splits auth_error.splits)

lemma even_handed_auth: "even_handed env (auth_stage g env rq route)"
  by (auto simp: auth_stage_def same_face_def
      intro!: even_handed_bind even_handed_unless even_handed_reject even_handed_verify even_handed_update
      split: sum.splits)

lemma even_handed_binding: "even_handed env (binding_stage env rq route ident)"
  by (auto simp: binding_stage_def intro!: even_handed_unless even_handed_reject split: option.splits)

lemma even_handed_admit: "even_handed env (admit_caller g env rq path route)"
  by (auto simp: admit_caller_def intro!: even_handed_bind even_handed_machine even_handed_rate_limit
      even_handed_client_key even_handed_auth even_handed_binding)

lemma identity_plan_Inl: "identity_plan g env ident p = Inl rej \<Longrightarrow> rj_status rej \<noteq> 404"
  by (auto simp: identity_plan_def map_err_def identity_rejection_def
      split: option.splits sum.splits identity_error.splits)

lemma even_handed_plan: "even_handed env (plan_stage g env rq ident kid)"
  by (auto simp: plan_stage_def even_handed_def reject_def send_with_retry_after_def same_face_def Let_def
      dest: identity_plan_Inl split: sum.splits)

lemma even_handed_extensions:
  "extensions_never_404 g \<Longrightarrow> even_handed env (extension_stage g env route plan)"
  by (auto simp: extension_stage_def even_handed_def reject_def send_with_retry_after_def same_face_def Let_def
      dest: run_extensions_not_404 split: prod.splits sum.splits)

lemma even_handed_cap: "even_handed env (cap_stage g env rq route ident)"
  by (auto simp: cap_stage_def same_face_def intro!: even_handed_reject even_handed_update
      split: option.splits sum.splits)

lemma even_handed_prepare_upstream:
  "extensions_never_404 g \<Longrightarrow> even_handed env (prepare_upstream g env rq route ident kid)"
  by (auto simp: prepare_upstream_def same_face_def fill_ctx_def
      intro!: even_handed_bind even_handed_plan even_handed_extensions even_handed_cap even_handed_update)

lemma even_handed_health: "even_handed env (health_stage g env rq)"
  by (auto simp: even_handed_def health_stage_def send_def same_face_def)

lemma even_handed_reject_headers: "even_handed env (reject_headers_stage g env rq)"
  by (auto simp: reject_headers_stage_def credential_rejected_def intro!: even_handed_reject split: option.splits)

text \<open>A 404 of the filter is the one of the context it starts with.\<close>

lemma request_filter_404:
  assumes "extensions_never_404 g" "request_filter g env rq s = (Inl rep, t)" "rp_status rep = 404"
  shows "rep = not_found_reply env (prepare g env rq (rn_ctx s))"
proof -
  let ?rest = "bind_stage (health_stage g env rq) (\<lambda>_.
     bind_stage (size_stage g env rq) (\<lambda>_.
     bind_stage (reject_headers_stage g env rq) (\<lambda>_.
     bind_stage (find_route_for g env rq) (\<lambda>(path, route).
     bind_stage (admit_caller g env rq path route) (\<lambda>(ident, kid).
     prepare_upstream g env rq route ident kid)))))"
  have "even_handed env ?rest"
    by (auto simp: size_stage_def intro!: even_handed_bind even_handed_health even_handed_unless
        even_handed_reject even_handed_reject_headers even_handed_find_route even_handed_admit
        even_handed_prepare_upstream [OF assms(1)] split: prod.splits)
  moreover have "?rest (s \<lparr> rn_ctx := prepare g env rq (rn_ctx s) \<rparr>) = (Inl rep, t)"
    using assms(2) by (simp add: request_filter_def bind_stage_def [of "update_ctx _"] update_ctx_def)
  ultimately show ?thesis using assms(3) by (fastforce simp: even_handed_def)
qed



end
