(* ===== verification/Upstream_Headers.thy ===== *)
theory Upstream_Headers
  imports Exchange Request_Properties
begin

text \<open>
  What an upstream is told about the caller: the identity headers of the request that is
  sent are a function of the verified identity alone.
\<close>

section \<open>Identity headers do not depend on the plan before them\<close>

definition agree :: "string \<Rightarrow> header_plan \<Rightarrow> header_plan \<Rightarrow> bool" where
  "agree n p q = (map_of (hp_set p) n = map_of (hp_set q) n)"

lemma agree_set [simp]: "agree n p q \<Longrightarrow> agree n (plan_set h v p) (plan_set h v q)"
  by (simp add: agree_def)

lemma agree_strip [simp]: "agree n p q \<Longrightarrow> agree n (plan_strip h p) (plan_strip h' q)"
  by (simp add: agree_def)

lemma text_agree:
  "apply_text_header h c v p = Inr p' \<Longrightarrow> agree n p q \<Longrightarrow>
   \<exists>q'. apply_text_header h c v q = Inr q' \<and> agree n p' q'"
  by (auto simp: apply_text_header_def split: if_splits)

lemma claim_step_agree:
  "claim_header_step ident h m p = Inr p' \<Longrightarrow> agree n p q \<Longrightarrow>
   \<exists>q'. claim_header_step ident h m q = Inr q' \<and> agree n p' q'"
  by (auto simp: claim_header_step_def Let_def split: if_splits option.splits sum.splits)

lemma claim_headers_agree:
  "apply_claim_headers ident ms p = Inr p' \<Longrightarrow> agree n p q \<Longrightarrow>
   \<exists>q'. apply_claim_headers ident ms q = Inr q' \<and> agree n p' q'"
proof (induction ms arbitrary: p q)
  case (Cons m ms)
  obtain h mp where m: "m = (h, mp)" by (cases m)
  with Cons.prems(1) obtain p1 where p1: "claim_header_step ident h mp p = Inr p1"
    "apply_claim_headers ident ms p1 = Inr p'" by (auto split: sum.splits)
  from claim_step_agree [OF p1(1) Cons.prems(2)] obtain q1 where
    "claim_header_step ident h mp q = Inr q1" "agree n p1 q1" by blast
  with Cons.IH [OF p1(2)] m show ?case by auto
qed auto

lemma blob_agree:
  "agree n p q \<Longrightarrow> agree n (apply_claims_blob enc cfg ident p) (apply_claims_blob enc cfg ident q)"
  by (auto simp: apply_claims_blob_def split: option.splits)

lemma token_agree:
  "apply_token sign now cfg secret ident p = Inr p' \<Longrightarrow> agree n p q \<Longrightarrow>
   \<exists>q'. apply_token sign now cfg secret ident q = Inr q' \<and> agree n p' q'"
  by (auto simp: apply_token_def split: option.splits sum.splits)

lemma apply_identity_agree:
  assumes "apply_identity enc sign now cfg secret ident p = Inr p'" "agree n p q"
  shows "\<exists>q'. apply_identity enc sign now cfg secret ident q = Inr q' \<and> agree n p' q'"
proof -
  from assms(1) obtain p1 p2 p3 where st:
    "apply_text_header (ic_subject_header cfg) ''sub'' (id_subject ident) p = Inr p1"
    "apply_text_header (ic_issuer_header cfg) ''iss'' (id_issuer ident) p1 = Inr p2"
    "apply_claim_headers ident (ic_claims cfg) (apply_claims_blob enc cfg ident p2) = Inr p3"
    "apply_token sign now cfg secret ident p3 = Inr p'"
    by (rule apply_identity_stages)
  obtain q1 where q1: "apply_text_header (ic_subject_header cfg) ''sub'' (id_subject ident) q = Inr q1"
    "agree n p1 q1" using text_agree [OF st(1) assms(2)] by blast
  obtain q2 where q2: "apply_text_header (ic_issuer_header cfg) ''iss'' (id_issuer ident) q1 = Inr q2"
    "agree n p2 q2" using text_agree [OF st(2) q1(2)] by blast
  obtain q3 where q3: "apply_claim_headers ident (ic_claims cfg) (apply_claims_blob enc cfg ident q2) = Inr q3"
    "agree n p3 q3" using claim_headers_agree [OF st(3) blob_agree [OF q2(2)]] by blast
  obtain q' where "apply_token sign now cfg secret ident q3 = Inr q'" "agree n p' q'"
    using token_agree [OF st(4) q3(2)] by blast
  with q1 q2 q3 show ?thesis by (auto simp: apply_identity_def)
qed

section \<open>The plans of the filter\<close>

text \<open>The headers the gateway itself sets on an upstream request, the identity apart.\<close>

definition own_headers :: "gateway \<Rightarrow> string set" where
  "own_headers g =
     to_ascii_lowercase `
       ({''x-request-id'', ''traceparent'', ''x-forwarded-for'', ''x-real-ip'', ''cookie''}
        \<union> fst ` set (injected_pairs g)
        \<union> set_option (client_key_forward_as (gw_cfg g)))"

lemma fold_strip [simp]: "hp_set (fold plan_strip hs p) = hp_set p"
  by (induction hs arbitrary: p) simp_all

lemma wf_fold_strip: "plan_wf p \<Longrightarrow> plan_wf (fold plan_strip hs p)"
  by (induction hs arbitrary: p) simp_all

lemma fold_set_lookup:
  "n \<notin> to_ascii_lowercase ` set (map fst pairs) \<Longrightarrow>
   map_of (hp_set (fold (\<lambda>(k, v). plan_set k v) pairs p)) n = map_of (hp_set p) n"
  by (induction pairs arbitrary: p) (auto split: prod.splits)

lemma wf_fold_set: "plan_wf p \<Longrightarrow> plan_wf (fold (\<lambda>(k, v). plan_set k v) pairs p)"
  by (induction pairs arbitrary: p) (auto split: prod.splits)

lemma machine_strip_simps [simp]:
  "hp_set (machine_strip injected p) = hp_set p"
  "plan_wf p \<Longrightarrow> plan_wf (machine_strip injected p)"
  by (simp_all add: machine_strip_def)

lemma own_neq:
  assumes "n \<notin> own_headers g"
  shows "n \<noteq> to_ascii_lowercase ''x-request-id''" "n \<noteq> to_ascii_lowercase ''traceparent''"
    "n \<noteq> to_ascii_lowercase ''x-forwarded-for''" "n \<noteq> to_ascii_lowercase ''x-real-ip''"
    "n \<noteq> to_ascii_lowercase ''cookie''" "n \<notin> to_ascii_lowercase ` fst ` set (injected_pairs g)"
    "client_key_forward_as (gw_cfg g) = Some h \<Longrightarrow> n \<noteq> to_ascii_lowercase h"
  using assms unfolding own_headers_def by auto

text \<open>A name the gateway does not own passes over a \<open>set\<close> of one it owns.\<close>

lemma plan_set_other: "n \<noteq> to_ascii_lowercase m \<Longrightarrow> map_of (hp_set (plan_set m v p)) n = map_of (hp_set p) n"
  by (simp only: plan_set_lookup if_False)

lemma address_plan_simps:
  "n \<notin> own_headers g \<Longrightarrow> map_of (hp_set (address_plan a p)) n = map_of (hp_set p) n"
  "plan_wf p \<Longrightarrow> plan_wf (address_plan a p)"
  by (auto simp only: address_plan_def Let_def plan_set_other own_neq simp_thms plan_strip_simps plan_wf_set
      plan_wf_strip split: option.split)

lemma base_plan_lookup:
  assumes "n \<notin> own_headers g"
  shows "map_of (hp_set (base_header_plan g rq)) n = None"
  using own_neq(6) [OF assms]
  by (simp add: base_header_plan_def Let_def address_plan_simps(1) [OF assms] fold_set_lookup plan_new_def)

lemma base_plan_wf: "plan_wf (base_header_plan g rq)"
  by (simp add: base_header_plan_def Let_def address_plan_simps wf_fold_set wf_fold_strip)

lemma trace_plan_simps:
  "n \<notin> own_headers g \<Longrightarrow> map_of (hp_set (trace_plan tr p)) n = map_of (hp_set p) n"
  "plan_wf p \<Longrightarrow> plan_wf (trace_plan tr p)"
  by (auto simp only: trace_plan_def plan_set_other own_neq simp_thms plan_wf_set split: option.split)

lemma credential_plan_simps:
  "n \<notin> own_headers g \<Longrightarrow> map_of (hp_set (credential_plan g rq p)) n = map_of (hp_set p) n"
  "hp_remove p \<subseteq> hp_remove (credential_plan g rq p)"
  "plan_wf p \<Longrightarrow> plan_wf (credential_plan g rq p)"
  by (auto simp only: credential_plan_def Let_def plan_set_other own_neq simp_thms plan_strip_simps plan_set_remove
      plan_wf_set plan_wf_strip subset_insertI2 subset_insertI order_refl insert_iff if_split_eq1
      split: option.split if_split)

lemma client_key_plan_simps:
  "n \<notin> own_headers g \<Longrightarrow> map_of (hp_set (client_key_plan g kid p)) n = map_of (hp_set p) n"
  "hp_remove p \<subseteq> hp_remove (client_key_plan g kid p)"
  "plan_wf p \<Longrightarrow> plan_wf (client_key_plan g kid p)"
  by (auto simp only: client_key_plan_def Let_def plan_set_other own_neq simp_thms plan_strip_simps plan_set_remove
      plan_wf_set plan_wf_strip subset_insertI2 subset_insertI order_refl insert_iff
      split: option.split if_split)

text \<open>What the identity puts in a header: what it would put in an empty plan.\<close>

definition identity_value :: "gateway \<Rightarrow> 'r env \<Rightarrow> identity option \<Rightarrow> string \<Rightarrow> string option" where
  "identity_value g env ident n =
     (case ident of
        None \<Rightarrow> None
      | Some i \<Rightarrow>
          (case apply_identity (en_encode_claims env) (en_sign env) (en_unix env) (gc_identity (raw_cfg g))
                  (rv_identity_secret (gw_cfg g)) i plan_new of
             Inr q \<Rightarrow> map_of (hp_set q) n
           | Inl _ \<Rightarrow> None))"

lemma identity_plan_value:
  assumes "identity_plan g env ident p = Inr q" "map_of (hp_set p) n = None"
  shows "map_of (hp_set q) n = identity_value g env ident n"
proof (cases ident)
  case None
  with assms show ?thesis by (auto simp: identity_plan_def identity_value_def strip_all_simps)
next
  case (Some i)
  from assms(2) have a: "agree n p plan_new" by (simp add: agree_def plan_new_def)
  from assms(1) Some have "apply_identity (en_encode_claims env) (en_sign env) (en_unix env)
      (gc_identity (raw_cfg g)) (rv_identity_secret (gw_cfg g)) i p = Inr q"
    by (simp add: identity_plan_def)
  from apply_identity_agree [OF this a] obtain q' where
    "apply_identity (en_encode_claims env) (en_sign env) (en_unix env) (gc_identity (raw_cfg g))
       (rv_identity_secret (gw_cfg g)) i plan_new = Inr q'" "agree n q q'" by blast
  with Some show ?thesis by (simp add: identity_value_def agree_def)
qed

lemma identity_plan_removes:
  assumes "identity_plan g env ident p = Inr q" "\<And>cs. en_encode_claims env cs \<noteq> None"
  shows "identity_names (gc_identity (raw_cfg g)) \<subseteq> hp_remove q"
proof (cases ident)
  case None
  with assms show ?thesis by (auto simp: identity_plan_def strip_all_simps)
next
  case (Some i)
  with assms(1) have "apply_identity (en_encode_claims env) (en_sign env) (en_unix env)
      (gc_identity (raw_cfg g)) (rv_identity_secret (gw_cfg g)) i p = Inr q"
    by (simp add: identity_plan_def)
  from apply_identity_grows [OF this, of "\<lambda>_. True"] assms(2) show ?thesis by blast
qed

lemma identity_plan_wf: "identity_plan g env ident p = Inr q \<Longrightarrow> plan_wf p \<Longrightarrow> plan_wf q"
  by (auto simp: identity_plan_def plan_wf_strip_all dest: apply_identity_wf split: option.splits)


section \<open>The upstream request\<close>

lemma fold_put_header:
  "distinct (map fst kvs) \<Longrightarrow>
   fold (\<lambda>(k, v). put_header k v) kvs h n =
     (case map_of kvs n of Some v \<Rightarrow> [Text v] | None \<Rightarrow> h n)"
proof (induction kvs arbitrary: h)
  case (Cons kv kvs)
  obtain k v where kv: "kv = (k, v)" by (cases kv)
  have "map_of kvs k = None" using Cons.prems kv by (simp add: map_of_eq_None_iff)
  with Cons kv show ?case by (auto simp: put_header_def split: option.splits)
qed simp

lemma apply_plan_lookup:
  "plan_wf plan \<Longrightarrow>
   apply_plan plan h n =
     (case map_of (hp_set plan) n of
        Some v \<Rightarrow> [Text v]
      | None \<Rightarrow> if n \<in> hp_remove plan then [] else h n)"
  by (simp add: apply_plan_def plan_wf_def fold_put_header split: option.split)

lemma upstream_request_filter_plan:
  "upstream_request_filter uri_ok enc g cx headers = Inr (uri, h) \<Longrightarrow>
   \<exists>h0. h = apply_plan (cx_plan cx) h0"
  by (auto simp: upstream_request_filter_def Let_def split: option.splits if_splits)

text \<open>The plan of a request let through on a route without extensions.\<close>

lemma prepare_upstream_plan:
  assumes "prepare_upstream g env rq route ident kid s = (Inr u, t)" "rc_extensions route = []"
  obtains tr base p1 where
    "identity_plan g env ident (trace_plan tr (plan_set ''x-request-id'' base (base_header_plan g rq))) = Inr p1"
    "cx_plan (rn_ctx t) = client_key_plan g kid (credential_plan g rq p1)"
  using assms
  by (auto simp: prepare_upstream_def bind_stage_Inr_iff fill_ctx_def plan_stage_def Let_def
      run_extensions_def extension_stage_def cap_stage_def split: sum.splits option.splits)

lemma prepare_upstream_identity:
  assumes "prepare_upstream g env rq route ident kid s = (Inr u, t)" "rc_extensions route = []"
    and "n \<in> identity_names (gc_identity (raw_cfg g))" "n \<notin> own_headers g"
    and "\<And>cs. en_encode_claims env cs \<noteq> None"
  shows "apply_plan (cx_plan (rn_ctx t)) h n =
           (case identity_value g env ident n of Some v \<Rightarrow> [Text v] | None \<Rightarrow> [])"
proof -
  obtain tr base p1 where p1:
    "identity_plan g env ident (trace_plan tr (plan_set ''x-request-id'' base (base_header_plan g rq))) = Inr p1"
    "cx_plan (rn_ctx t) = client_key_plan g kid (credential_plan g rq p1)"
    using prepare_upstream_plan [OF assms(1,2)] by metis
  have none: "map_of (hp_set (trace_plan tr (plan_set ''x-request-id'' base (base_header_plan g rq)))) n = None"
    unfolding trace_plan_simps(1) [OF assms(4)] plan_set_other [OF own_neq(1) [OF assms(4)]]
    by (rule base_plan_lookup [OF assms(4)])
  have "plan_wf p1" by (rule identity_plan_wf [OF p1(1)]) (intro trace_plan_simps(2) plan_wf_set base_plan_wf)
  then have wf: "plan_wf (cx_plan (rn_ctx t))"
    unfolding p1(2) by (intro client_key_plan_simps(3) credential_plan_simps(3))
  have "map_of (hp_set (cx_plan (rn_ctx t))) n = identity_value g env ident n"
    unfolding p1(2) client_key_plan_simps(1) [OF assms(4)] credential_plan_simps(1) [OF assms(4)]
    by (rule identity_plan_value [OF p1(1) none])
  moreover have "n \<in> hp_remove (cx_plan (rn_ctx t))"
    using identity_plan_removes [OF p1(1) assms(5)] assms(3) credential_plan_simps(2) client_key_plan_simps(2)
    unfolding p1(2) by blast
  ultimately show ?thesis by (simp add: apply_plan_lookup [OF wf])
qed


end
