(* ===== verification/Exchange_Properties.thy ===== *)
theory Exchange_Properties
  imports Exchange
begin

text \<open>
  The exchanges of one gateway running concurrently, as a refinement of the breaker's own
  step relation, and what the upstream receives.
\<close>

section \<open>Concurrent exchanges\<close>

text \<open>Between the filters a request is its context. A request enters with the context the
  request filter left and ends when \<open>logging\<close> ran and the context is dropped.\<close>

record 'c traffic =
  tf_inflight :: "'c in_flight"
  tf_upstreams :: "string \<rightharpoonup> upstream"
  tf_live :: "ctx list"

definition exchange_of :: "'c traffic \<Rightarrow> ctx \<Rightarrow> 'c exchange" where
  "exchange_of s cx =
     \<lparr> xc_ctx = cx, xc_inflight = tf_inflight s, xc_upstreams = tf_upstreams s, xc_dns_next = 0 \<rparr>"

inductive traffic_step ::
  "('c \<Rightarrow> string \<Rightarrow> 'c \<times> int) \<Rightarrow> ('c \<Rightarrow> string \<Rightarrow> 'c) \<Rightarrow> gateway \<Rightarrow> 'c traffic \<Rightarrow> 'c traffic \<Rightarrow> bool"
  for incr decr g where
  enter:
    "cx_breaker_upstream cx = None \<Longrightarrow> cx_inflight cx = None \<Longrightarrow>
     proxy_upstream_filter incr decr g (env :: unit env) (exchange_of s cx) = (r, y) \<Longrightarrow>
     traffic_step incr decr g s
       \<lparr> tf_inflight = xc_inflight y, tf_upstreams = xc_upstreams y, tf_live = xc_ctx y # tf_live s \<rparr>"
| leave:
    "tf_live s = before @ cx # after \<Longrightarrow>
     y = drop_ctx decr (logging now e written (exchange_of s cx)) \<Longrightarrow>
     traffic_step incr decr g s
       \<lparr> tf_inflight = xc_inflight y, tf_upstreams = xc_upstreams y, tf_live = before @ after \<rparr>"

text \<open>What the breaker of one upstream sees of the traffic: its own state and the requests
  that still owe it a report.\<close>

definition owing :: "string \<Rightarrow> ctx list \<Rightarrow> nat" where
  "owing name live = length (filter (\<lambda>cx. cx_breaker_upstream cx = Some name) live)"

definition breaker_view :: "string \<Rightarrow> 'c traffic \<Rightarrow> breaker_run option" where
  "breaker_view name s =
     map_option (\<lambda>cb. \<lparr> br_breaker = cb, br_outstanding = owing name (tf_live s) \<rparr>)
       (Option.bind (tf_upstreams s name) up_breaker)"

lemma set_breaker_upstreams:
  "Option.bind (xc_upstreams (set_breaker m cb x) name) up_breaker =
     (if name = m \<and> xc_upstreams x m \<noteq> None then Some cb else Option.bind (xc_upstreams x name) up_breaker)"
  by (auto simp: set_breaker_def)

lemma set_breaker_ctx [simp]: "xc_ctx (set_breaker m cb x) = xc_ctx x"
  by (simp add: set_breaker_def)

lemma refuse_simps [simp]:
  "xc_upstreams (snd (refuse env rej x)) = xc_upstreams x"
  "cx_breaker_upstream (xc_ctx (snd (refuse env rej x))) = cx_breaker_upstream (xc_ctx x)"
  "cx_upstream_name (xc_ctx (snd (refuse env rej x))) = cx_upstream_name (xc_ctx x)"
  "refuse env rej x \<noteq> (Inr u, y)"
  by (simp_all add: refuse_def)

lemma take_pending_keeps:
  assumes "take_pending incr decr env x = (r, y)"
  shows "xc_upstreams y = xc_upstreams x"
    "cx_breaker_upstream (xc_ctx y) = cx_breaker_upstream (xc_ctx x)"
    "cx_upstream_name (xc_ctx y) = cx_upstream_name (xc_ctx x)"
  using assms by (auto simp: take_pending_def refuse_def split: option.splits prod.splits)

text \<open>The filter asks the breaker of the request's upstream at most once, and marks the
  context exactly when it was admitted.\<close>

lemma proxy_upstream_filter_cases:
  assumes "proxy_upstream_filter incr decr g env x = (r, y)" "cx_breaker_upstream (xc_ctx x) = None"
  obtains (same) "xc_upstreams y = xc_upstreams x" "cx_breaker_upstream (xc_ctx y) = None"
  | (asked) name cb ok cb' where
      "Option.bind (xc_upstreams x name) up_breaker = Some cb" "allow_at (en_now env) cb = (ok, cb')"
      "\<And>m. Option.bind (xc_upstreams y m) up_breaker =
            (if m = name then Some cb' else Option.bind (xc_upstreams x m) up_breaker)"
      "cx_breaker_upstream (xc_ctx y) = (if ok then Some name else None)"
proof (cases "take_pending incr decr env x")
  case (Pair q z)
  note keeps = take_pending_keeps [OF Pair]
  show ?thesis
  proof (cases q)
    case (Inl rep)
    with assms(1) Pair have "y = z" by (simp add: proxy_upstream_filter_def)
    with keeps assms(2) same show ?thesis by simp
  next
    case (Inr u)
    with assms(1) Pair have ask: "ask_breaker g env z = (r, y)" by (simp add: proxy_upstream_filter_def)
    let ?name = "cx_upstream_name (xc_ctx z)"
    show ?thesis
    proof (cases "upstream_breaker z ?name")
      case None
      with ask have "y = z" by (simp add: ask_breaker_def Let_def)
      with keeps assms(2) same show ?thesis by simp
    next
      case (Some cb)
      obtain ok cb' where al: "allow_at (en_now env) cb = (ok, cb')" by fastforce
      have up: "xc_upstreams z ?name \<noteq> None" using Some by (auto simp: upstream_breaker_def bind_eq_Some_conv)
      have y: "xc_upstreams y = xc_upstreams (set_breaker ?name cb' z)"
        "cx_breaker_upstream (xc_ctx y) = (if ok then Some ?name else None)"
        using ask Some al keeps(2) assms(2)
        by (auto simp: ask_breaker_def Let_def refuse_def split: if_splits)
      show ?thesis
      proof (rule asked [of ?name cb ok cb'])
        show "Option.bind (xc_upstreams x ?name) up_breaker = Some cb"
          using Some keeps(1) by (simp add: upstream_breaker_def)
        show "Option.bind (xc_upstreams y m) up_breaker =
            (if m = ?name then Some cb' else Option.bind (xc_upstreams x m) up_breaker)" for m
          using y(1) up keeps(1) by (simp add: set_breaker_upstreams)
      qed (use al y in auto)
    qed
  qed
qed

lemma drop_ctx_upstreams [simp]: "xc_upstreams (drop_ctx decr x) = xc_upstreams x"
  by (simp add: drop_ctx_def split: option.splits)

lemma logging_upstreams:
  "Option.bind (xc_upstreams (logging now e written x) m) up_breaker =
     (if cx_breaker_upstream (xc_ctx x) = Some m
      then map_option (report_breaker now e (case written of Some st \<Rightarrow> st | None \<Rightarrow> cx_status (xc_ctx x)))
             (Option.bind (xc_upstreams x m) up_breaker)
      else Option.bind (xc_upstreams x m) up_breaker)"
proof (cases "cx_breaker_upstream (xc_ctx x)")
  case None
  then show ?thesis by (simp add: logging_def)
next
  case (Some name)
  then show ?thesis
    by (auto simp: logging_def Let_def upstream_breaker_def set_breaker_upstreams split: option.splits bind_splits)
qed

lemma report_is_step:
  assumes "br_outstanding b = Suc n"
  shows "breaker_step b \<lparr> br_breaker = report_breaker now e st (br_breaker b), br_outstanding = n \<rparr>"
proof -
  have upd: "\<lparr> br_breaker = cb, br_outstanding = n \<rparr> = b \<lparr> br_breaker := cb, br_outstanding := n \<rparr>" for cb
    by (cases b) simp
  show ?thesis
    unfolding report_breaker_def upd
    using breaker_step.success [OF assms, of now] breaker_step.failure [OF assms, of now]
      breaker_step.cancelled [OF assms]
    by (cases e) simp_all
qed

lemma traffic_refines:
  assumes "traffic_step incr decr g s t" "breaker_view name s = Some b"
  shows "\<exists>b'. breaker_view name t = Some b' \<and> breaker_step\<^sup>=\<^sup>= b b'"
  using assms(1)
proof cases
  case (enter cx env r y)
  from assms(2) obtain cb where cb: "Option.bind (tf_upstreams s name) up_breaker = Some cb"
    "b = \<lparr> br_breaker = cb, br_outstanding = owing name (tf_live s) \<rparr>"
    by (auto simp: breaker_view_def)
  have x: "xc_upstreams (exchange_of s cx) = tf_upstreams s" "cx_breaker_upstream (xc_ctx (exchange_of s cx)) = None"
    using enter(2) by (simp_all add: exchange_of_def)
  show ?thesis
    using enter(4) x(2)
  proof (cases rule: proxy_upstream_filter_cases)
    case same
    then show ?thesis using enter(1) cb x by (simp add: breaker_view_def owing_def)
  next
    case (asked m cb0 ok cb')
    show ?thesis
    proof (cases "m = name")
      case True
      have al: "allow_at (en_now env) (br_breaker b) = (ok, cb')" using asked(1,2) True cb x by simp
      have t: "breaker_view name t = Some (b \<lparr> br_breaker := cb',
          br_outstanding := (if ok then Suc (br_outstanding b) else br_outstanding b) \<rparr>)"
        using enter(1) asked(3,4) True cb by (simp add: breaker_view_def owing_def)
      show ?thesis
        using t al breaker_step.admit [of "en_now env" b cb'] breaker_step.refuse [of "en_now env" b cb']
        by (cases ok) auto
    next
      case False
      then show ?thesis using enter(1) asked(3,4) cb x by (simp add: breaker_view_def owing_def)
    qed
  qed
next
  case (leave before cx after y now e written)
  from assms(2) obtain cb where cb: "Option.bind (tf_upstreams s name) up_breaker = Some cb"
    "b = \<lparr> br_breaker = cb, br_outstanding = owing name (tf_live s) \<rparr>"
    by (auto simp: breaker_view_def)
  let ?st = "case written of Some st \<Rightarrow> st | None \<Rightarrow> cx_status cx"
  show ?thesis
  proof (cases "cx_breaker_upstream cx = Some name")
    case True
    have out: "br_outstanding b = Suc (owing name (before @ after))"
      using cb True leave(2) by (simp add: owing_def)
    have "breaker_view name t = Some \<lparr> br_breaker = report_breaker now e ?st (br_breaker b),
        br_outstanding = owing name (before @ after) \<rparr>"
      using leave(1,3) cb True
      by (cases written) (simp_all add: breaker_view_def logging_upstreams exchange_of_def)
    then show ?thesis using report_is_step [OF out, of now e ?st] by auto
  next
    case False
    then have "breaker_view name t = Some b"
      using leave cb by (simp add: breaker_view_def logging_upstreams exchange_of_def owing_def)
    then show ?thesis by auto
  qed
qed


text \<open>C7: the proxy refines its breakers. Under any interleaving of requests, what an
  upstream's breaker sees of one step of the traffic, its own state together with the
  number of requests that still owe it a report, is no change or one step of the breaker's
  own machine: an admission, a refusal, or exactly one report by a request that was
  admitted.\<close>

theorem exchange_refines_breaker:
  assumes "traffic_step incr decr g s t" "breaker_view name s = Some b"
  shows "\<exists>b'. breaker_view name t = Some b' \<and> breaker_step\<^sup>=\<^sup>= b b'"
  by (rule traffic_refines [OF assms])

text \<open>So the breaker's invariant holds of the traffic: in a reachable state no upstream has
  more trials under way than it allows, nor more than there are requests to report them.\<close>

definition quiet_traffic :: "circuit_breaker_config \<Rightarrow> string \<Rightarrow> 'c traffic \<Rightarrow> bool" where
  "quiet_traffic cfg name s =
     (tf_live s = [] \<and> (\<exists>now u. tf_upstreams s name = Some u \<and> up_breaker u = Some (breaker_new now cfg)))"

lemma traffic_breaker_reachable:
  assumes "(traffic_step incr decr g)\<^sup>*\<^sup>* s t" "breaker_view name s = Some b"
  shows "\<exists>b'. breaker_view name t = Some b' \<and> breaker_step\<^sup>*\<^sup>* b b'"
  using assms(1)
proof (induction rule: rtranclp_induct)
  case base
  then show ?case using assms(2) by blast
next
  case (step t u)
  then obtain b' where b': "breaker_view name t = Some b'" "breaker_step\<^sup>*\<^sup>* b b'" by blast
  from traffic_refines [OF step(2) b'(1)] obtain b'' where
    "breaker_view name u = Some b''" "breaker_step\<^sup>=\<^sup>= b' b''" by blast
  with b'(2) show ?case by (auto intro: rtranclp.rtrancl_into_rtrancl)
qed

lemma traffic_breaker_inv:
  assumes "breaker_config_ok cfg" "quiet_traffic cfg name s" "(traffic_step incr decr g)\<^sup>*\<^sup>* s t"
  shows "\<exists>b. breaker_view name t = Some b \<and> breaker_inv cfg b"
proof -
  from assms(2) obtain now where v: "breaker_view name s =
      Some \<lparr> br_breaker = breaker_new now cfg, br_outstanding = 0 \<rparr>"
    by (auto simp: quiet_traffic_def breaker_view_def owing_def)
  then have "breaker_init cfg \<lparr> br_breaker = breaker_new now cfg, br_outstanding = 0 \<rparr>"
    using assms(1) by (auto simp: breaker_init_def)
  with traffic_breaker_reachable [OF assms(3) v] show ?thesis
    using breaker.reachable_inv by blast
qed


section \<open>Answers without the cross-origin headers\<close>

text \<open>A refusal carries the headers of the request's origin; an upstream failure does not,
  although the context holds them.\<close>

lemma insert_header_names:
  "set (map fst (insert_header n v hs)) = insert n (set (map fst hs))"
  by (auto simp: insert_header_def)

lemma failure_reply_without_cors:
  "fst (fail_to_proxy env False e cx) = Some rep \<Longrightarrow>
   set (map fst (rp_headers rep)) = {''content-type'', ''content-length''}"
  by (auto simp: fail_to_proxy_def send_def insert_header_def Let_def)

lemma fold_insert_header_names:
  "n \<in> set (map fst hs) \<union> set (map fst acc) \<Longrightarrow>
   n \<in> set (map fst (fold (\<lambda>(n, v). insert_header n v) hs acc))"
proof (induction hs arbitrary: acc)
  case (Cons h hs)
  then show ?case by (cases h) (auto simp: insert_header_names simp del: set_map)
qed simp

lemma refusal_reply_with_cors:
  assumes "(n, v) \<in> set hs"
  shows "n \<in> set (map fst (rp_headers (send_with_retry_after status body retry (Some hs))))"
proof -
  have "n \<in> set (map fst hs)" using assms by force
  then show ?thesis
    using fold_insert_header_names [of n hs]
    by (auto simp: send_with_retry_after_def Let_def insert_header_names simp del: set_map split: option.splits)
qed

end
