(* ===== verification/Request_Samples.thy ===== *)
theory Request_Samples
  imports Upstream_Headers Exchange_Properties
begin

text \<open>
  A small gateway and requests to it, evaluated: the witnesses of the request filter's
  properties.
\<close>

section \<open>A sample gateway\<close>

definition sample_verify :: "string \<Rightarrow> (identity, auth_error) result" where
  "sample_verify token =
     (if token = ''good''
      then Inr \<lparr> id_subject = ''u1'', id_issuer = ''https://id'', id_audience = ''api'', id_claims = [] \<rparr>
      else Inl (AuthInvalid ''bad signature''))"

definition sample_gateway :: "string \<Rightarrow> gateway" where
  "sample_gateway secret =
     gateway_new (sample_resolved secret) valid_table {''users'', ''ops''} (Some sample_verify) Map.empty"

definition sample_request_env :: "unit env" where
  "sample_request_env =
     \<lparr> en_pct_decode = Some, en_pct_encode = (\<lambda>_ s. s), en_sha256 = (\<lambda>s. s), en_url_parse = (\<lambda>_. None),
       en_encode_claims = (\<lambda>_. Some ''e30''), en_sign = (\<lambda>_ _. Inl ''no key''), en_to_vec = (\<lambda>_. Some ''{}''),
       en_untrusted = (\<lambda>s. s), en_ask = (\<lambda>_ _ _. Inr (decision_allow 1 0)),
       en_rate_read = (\<lambda>_ _. (0, 0, 0)), en_rate_observe = (\<lambda>r _ _. r), en_source = 0, en_wall = 0,
       en_now = 0, en_latest = 100, en_unix = 0, en_uuid = ''uuid'', en_trace_id = [], en_span_id = [],
       en_bucket = 0 \<rparr>"

definition sample_request :: "string \<Rightarrow> (string \<times> string) list \<Rightarrow> request" where
  "sample_request path headers =
     \<lparr> rq_method = ''GET'', rq_path = path, rq_query = None,
       rq_headers = (\<lambda>n. map (\<lambda>(_, v). Text v) (filter (\<lambda>(k, _). k = n) headers)),
       rq_peer = Some ''192.0.2.1'' \<rparr>"

definition fresh_run :: "unit run" where
  "fresh_run = \<lparr> rn_ctx = new_ctx, rn_limiters = [], rn_admission = None, rn_clock = 0 \<rparr>"

lemma sample_request_passes:
  "case request_filter (sample_gateway ''s3cret'') sample_request_env
          (sample_request ''/api/v1/users/me'' [(''authorization'', ''Bearer good'')]) fresh_run of
     (Inr _, t) \<Rightarrow> cx_route_id (rn_ctx t) = ''users/me'' \<and> cx_subject (rn_ctx t) = Some ''u1''
   | _ \<Rightarrow> False"
  by code_simp


theorem request_filter_authorizes_witness:
  "\<exists>t route ident. request_filter (sample_gateway ''s3cret'') sample_request_env
        (sample_request ''/api/v1/users/me'' [(''authorization'', ''Bearer good'')]) fresh_run = (Inr (), t)
     \<and> cx_route_id (rn_ctx t) = ''users/me''
     \<and> let_through (sample_gateway ''s3cret'') sample_request_env
         (sample_request ''/api/v1/users/me'' [(''authorization'', ''Bearer good'')]) (rn_ctx t) route ident"
proof -
  obtain t where t: "request_filter (sample_gateway ''s3cret'') sample_request_env
      (sample_request ''/api/v1/users/me'' [(''authorization'', ''Bearer good'')]) fresh_run = (Inr (), t)"
    "cx_route_id (rn_ctx t) = ''users/me''"
    using sample_request_passes by (auto split: prod.splits sum.splits)
  from request_filter_authorizes [OF t(1)] t show ?thesis by blast
qed

text \<open>The machine tier with an empty secret: the document resolves
  (\<open>sample_config_resolves\<close>), and a caller that presents nothing is let through.\<close>

lemma empty_machine_secret_admits_anyone:
  "resolve sample_config_env (sample_gateway_config []) = Inr (sample_resolved []) \<and>
   (case request_filter (for_machine_tier (sample_gateway [])) sample_request_env
           (sample_request ''/sync'' []) fresh_run of
      (Inr _, t) \<Rightarrow> cx_route_id (rn_ctx t) = ''sync''
    | _ \<Rightarrow> False)"
proof
  show "resolve sample_config_env (sample_gateway_config []) = Inr (sample_resolved [])"
    by (rule sample_config_resolves)
  show "case request_filter (for_machine_tier (sample_gateway [])) sample_request_env
           (sample_request ''/sync'' []) fresh_run of
      (Inr _, t) \<Rightarrow> cx_route_id (rn_ctx t) = ''sync''
    | _ \<Rightarrow> False"
    by code_simp
qed

definition refused_with :: "nat \<Rightarrow> (reply + unit) \<times> 'r run \<Rightarrow> bool" where
  "refused_with status out = (case out of (Inl rep, _) \<Rightarrow> rp_status rep = status | _ \<Rightarrow> False)"

lemma refused_withD: "refused_with status out \<Longrightarrow> \<exists>rep t. out = (Inl rep, t) \<and> rp_status rep = status"
  by (auto simp: refused_with_def split: prod.splits sum.splits)



section \<open>One exchange\<close>

definition sample_target :: upstream_target where
  "sample_target = \<lparr> ut_addr = ''users:80'', ut_tls = False, ut_sni = ''users'', ut_base_path = [] \<rparr>"

definition sample_traffic :: "(string \<Rightarrow> nat) traffic" where
  "sample_traffic =
     \<lparr> tf_inflight = inflight_new (\<lambda>_. 0),
       tf_upstreams = [''users'' \<mapsto> \<lparr> up_kind = Single sample_target,
                                    up_breaker = Some (breaker_new 0 sample_breaker_config) \<rparr>],
       tf_live = [] \<rparr>"

lemma sample_breaker_closed:
  "allow_at now (breaker_new 0 sample_breaker_config) = (True, breaker_new 0 sample_breaker_config)"
  by (simp add: allow_at_def breaker_new_def)

theorem exchange_refines_breaker_witness:
  "\<exists>t b b'. traffic_step exact_incr exact_decr (sample_gateway ''s'') sample_traffic t
     \<and> breaker_view ''users'' sample_traffic = Some b \<and> br_outstanding b = 0
     \<and> breaker_view ''users'' t = Some b' \<and> breaker_step\<^sup>=\<^sup>= b b' \<and> br_outstanding b' = 1"
proof -
  let ?cx = "new_ctx \<lparr> cx_upstream_name := ''users'' \<rparr>"
  obtain r y where p: "proxy_upstream_filter exact_incr exact_decr (sample_gateway ''s'') sample_request_env
      (exchange_of sample_traffic ?cx) = (r, y)" by fastforce
  let ?t = "\<lparr> tf_inflight = xc_inflight y, tf_upstreams = xc_upstreams y,
      tf_live = xc_ctx y # tf_live sample_traffic \<rparr>"
  have step: "traffic_step exact_incr exact_decr (sample_gateway ''s'') sample_traffic ?t"
    by (rule traffic_step.enter [OF _ _ p]) (simp_all add: new_ctx_def)
  have view: "breaker_view ''users'' sample_traffic =
      Some \<lparr> br_breaker = breaker_new 0 sample_breaker_config, br_outstanding = 0 \<rparr>"
    by (simp add: breaker_view_def sample_traffic_def owing_def)
  have "cx_breaker_upstream (xc_ctx y) = Some ''users''"
    using p by (auto simp: proxy_upstream_filter_def take_pending_def exchange_of_def new_ctx_def
        ask_breaker_def upstream_breaker_def sample_traffic_def sample_breaker_closed Let_def)
  then have one: "breaker_view ''users'' ?t = Some b' \<Longrightarrow> br_outstanding b' = 1" for b'
    by (auto simp: breaker_view_def owing_def sample_traffic_def)
  from exchange_refines_breaker [OF step view] one step view show ?thesis by fastforce
qed

text \<open>A client that claims to be another user.\<close>

abbreviation forged_request :: request where
  "forged_request \<equiv> sample_request ''/api/v1/users/me''
     [(''authorization'', ''Bearer good''), (''x-user-id'', ''root'')]"

lemma forged_request_passes:
  "case request_filter (sample_gateway ''s'') sample_request_env forged_request fresh_run of
     (Inr _, t) \<Rightarrow> cx_path (rn_ctx t) = ''users/me'' \<and> cx_subject (rn_ctx t) = Some ''u1''
   | _ \<Rightarrow> False"
  by code_simp

lemma sample_match:
  "match_request valid_table None ''users/me'' ''GET'' = Some (plain_route ''users/me'' ''users'' TierRequired)"
  by code_simp

lemma sample_identity_value:
  "id_subject i = ''u1'' \<Longrightarrow>
   identity_value (sample_gateway ''s'') sample_request_env (Some i) ''x-user-id'' = Some ''u1''"
  by (simp add: identity_value_def sample_gateway_def gateway_new_def sample_resolved_def
      sample_gateway_config_def sample_identity_section_def apply_identity_def apply_text_header_def
      is_header_safe_def apply_claims_blob_def apply_token_def plan_set_def plan_new_def ascii_lower_def
      is_ascii_upper_def Let_def)


end
