(* ===== verification/Policy_Tests.thy ===== *)
theory Policy_Tests
  imports Request_Samples
begin

text \<open>
  Offline policy tests (\<open>cli/policy.rs\<close>, \<open>cli.rs\<close>): what \<open>lagos test\<close> decides about a request
  from the resolved configuration and the route table alone, and how it compares that with
  what a test expects. Nothing is verified or counted here; the theorem of the last section
  relates the decision to the filter of the running gateway.
\<close>

section \<open>Test cases\<close>

datatype listener_kind = PublicListener | InternalListener

record test_identity =
  ti_subject :: string
  ti_claims :: "(string \<times> json) list"

text \<open>The headers of a fixture are a \<open>BTreeMap\<close>: names are distinct as written.\<close>

record test_request =
  tr_path :: string
  tr_method :: string
  tr_host :: "string option"
  tr_listener :: listener_kind
  tr_query :: "string option"
  tr_headers :: "(string \<times> string) list"
  tr_peer_ip :: "string option"
  tr_identity :: "test_identity option"

datatype result_kind = ResultRoute | ResultDenied | ResultNoRoute | ResultOutsideMount | ResultUnsafePath

datatype client_key_state = StateRequired | StateExempt | StateOff

record expected =
  xp_result :: result_kind
  xp_route :: "string option"
  xp_tier :: "string option"
  xp_upstream :: "string option"
  xp_upstream_path :: "string option"
  xp_bindings :: "bool option"
  xp_client_key :: "client_key_state option"
  xp_policy_keys :: "bool option"

record test_case =
  tc_name :: string
  tc_request :: test_request
  tc_expect :: expected

text \<open>What was decided has the fields of what is expected.\<close>

record actual =
  ac_result :: result_kind
  ac_route :: "string option"
  ac_tier :: "string option"
  ac_upstream :: "string option"
  ac_upstream_path :: "string option"
  ac_bindings :: "bool option"
  ac_client_key :: "client_key_state option"
  ac_policy_keys :: "bool option"

definition simple :: "result_kind \<Rightarrow> actual" where
  "simple k = \<lparr> ac_result = k, ac_route = None, ac_tier = None, ac_upstream = None,
     ac_upstream_path = None, ac_bindings = None, ac_client_key = None, ac_policy_keys = None \<rparr>"

fun state_of :: "client_key_rule \<Rightarrow> client_key_state" where
  "state_of KeyRequired = StateRequired"
| "state_of (KeyExempt _) = StateExempt"
| "state_of KeyOff = StateOff"

fun state_label :: "client_key_rule \<Rightarrow> string" where
  "state_label KeyRequired = ''required''"
| "state_label (KeyExempt why) = ''exempt ('' @ describe_exemption why @ '')''"
| "state_label KeyOff = ''off''"

section \<open>The decision\<close>

text \<open>\<open>strip_mount\<close> of \<open>cli.rs\<close>: the mount with the remainder.\<close>

fun strip_mount_loop :: "string list \<Rightarrow> string \<Rightarrow> (string \<times> string) option" where
  "strip_mount_loop [] p = None"
| "strip_mount_loop (base # bases) p =
     (if base = [] then Some (base, p)
      else case strip_prefix base p of
             None \<Rightarrow> strip_mount_loop bases p
           | Some rest \<Rightarrow>
               if rest = [] then Some (base, [])
               else (case strip_prefix ''/'' rest of
                       Some r \<Rightarrow> Some (base, r)
                     | None \<Rightarrow> strip_mount_loop bases p))"

definition strip_mount :: "resolved_config \<Rightarrow> string \<Rightarrow> (string \<times> string) option" where
  "strip_mount cfg request_path =
     strip_mount_loop (rv_base_paths cfg) (trim_start_matches CHR ''/'' request_path)"

definition fixture_identity :: "test_identity \<Rightarrow> identity" where
  "fixture_identity i =
     \<lparr> id_subject = ti_subject i, id_issuer = [], id_audience = [], id_claims = ti_claims i \<rparr>"

text \<open>The headers for the bindings: one value to a name in lower case, the last one wins.\<close>

definition lowered_headers :: "test_request \<Rightarrow> string \<Rightarrow> string option" where
  "lowered_headers tr name =
     map_of (rev (map (\<lambda>(n, v). (to_ascii_lowercase n, v)) (tr_headers tr))) (to_ascii_lowercase name)"

text \<open>The headers for the policy keys: a \<open>HeaderMap\<close>, which keeps every value.\<close>

definition fixture_headers :: "test_request \<Rightarrow> header_map" where
  "fixture_headers tr name =
     map (\<lambda>(n, v). Text v) (filter (\<lambda>(n, v). to_ascii_lowercase n = name) (tr_headers tr))"

definition fixture_query :: "test_request \<Rightarrow> string option" where
  "fixture_query tr = map_option (trim_start_matches CHR ''?'') (tr_query tr)"

definition decide_bindings :: "(string \<Rightarrow> string option) \<Rightarrow> route_config \<Rightarrow> test_request \<Rightarrow> bool option" where
  "decide_bindings pct_decode route tr =
     (if rc_bindings route = [] then None
      else Some (case tr_identity tr of
             None \<Rightarrow> False
           | Some i \<Rightarrow>
               list_all (\<lambda>b. permits pct_decode b (fixture_identity i) (fixture_query tr) (lowered_headers tr))
                 (rc_bindings route)))"

definition key_requirements :: "route_config \<Rightarrow> (rate_limit_key \<times> missing_key) list" where
  "key_requirements route =
     (case rc_rate_limit route of Some r \<Rightarrow> [(rl_key r, rl_missing_key r)] | None \<Rightarrow> [])
     @ (case rc_concurrency route of Some c \<Rightarrow> [(concurrency_key c, cc_missing_key c)] | None \<Rightarrow> [])"

definition decide_policy_keys :: "route_config \<Rightarrow> test_request \<Rightarrow> bool" where
  "decide_policy_keys route tr =
     list_all (\<lambda>(key, missing).
         is_ok (admission_key key missing 0 (rc_id route)
           (if verifies (rc_auth route) then map_option ti_subject (tr_identity tr) else None)
           None (tr_peer_ip tr) (fixture_headers tr)))
       (key_requirements route)"

definition decide_offline ::
  "(string \<Rightarrow> string option) \<Rightarrow> resolved_config \<Rightarrow> route_table \<Rightarrow> test_request \<Rightarrow> actual" where
  "decide_offline pct_decode cfg table tr =
     (case strip_mount cfg (tr_path tr) of
        None \<Rightarrow> simple ResultOutsideMount
      | Some (_, sub) \<Rightarrow>
          (case canonicalize_proxy_path pct_decode sub of
             None \<Rightarrow> simple ResultUnsafePath
           | Some canonical \<Rightarrow>
               if is_denied table canonical then simple ResultDenied
               else case match_request table (tr_host tr) canonical (tr_method tr) of
                      None \<Rightarrow> simple ResultNoRoute
                    | Some route \<Rightarrow>
                        \<lparr> ac_result = ResultRoute, ac_route = Some (rc_id route),
                          ac_tier = Some (tier_group (rc_auth route)), ac_upstream = Some (rc_upstream route),
                          ac_upstream_path = Some (CHR ''/'' # upstream_path route canonical),
                          ac_bindings = decide_bindings pct_decode route tr,
                          ac_client_key =
                            Some (if tr_listener tr = InternalListener then StateOff
                                  else state_of (client_key_rule cfg route canonical)),
                          ac_policy_keys = Some (decide_policy_keys route tr) \<rparr>))"

section \<open>The explanation of a request\<close>

text \<open>The result line of \<open>lagos explain\<close>: the query is cut off first, and the health path is
  answered before any route is looked at.\<close>

datatype explanation =
    ListenerUnavailable | LocalHealth | OutsideBasePath | UnsafePath | DenyListed | NotAllowlisted
  | Explained route_config

definition explain_request ::
  "(string \<Rightarrow> string option) \<Rightarrow> resolved_config \<Rightarrow> route_table \<Rightarrow> string \<Rightarrow> string \<Rightarrow> string option \<Rightarrow>
   listener_kind \<Rightarrow> explanation" where
  "explain_request pct_decode cfg table method request_path host k =
     (if k = InternalListener \<and> sv_internal_listen (gc_server (rv_raw cfg)) = None then ListenerUnavailable
      else
        let path = (case split_once CHR ''?'' request_path of Some (p, _) \<Rightarrow> p | None \<Rightarrow> request_path);
            selected = (case k of PublicListener \<Rightarrow> fst (partition_by_listener table)
                                | InternalListener \<Rightarrow> snd (partition_by_listener table)) in
        if path = sv_health_path (gc_server (rv_raw cfg)) then LocalHealth
        else case strip_mount cfg path of
               None \<Rightarrow> OutsideBasePath
             | Some (_, sub) \<Rightarrow>
                 (case canonicalize_proxy_path pct_decode sub of
                    None \<Rightarrow> UnsafePath
                  | Some canonical \<Rightarrow>
                      if is_denied selected canonical then DenyListed
                      else case match_request selected host canonical method of
                             None \<Rightarrow> NotAllowlisted
                           | Some route \<Rightarrow> Explained route))"

text \<open>A variable that is not set stands in as a host name of its own.\<close>

definition hex_digit :: "nat \<Rightarrow> char" where
  "hex_digit n = char_of (if n < 10 then 48 + n else 87 + n)"

definition unset_placeholder :: "string \<Rightarrow> string" where
  "unset_placeholder name =
     ''unset-'' @ concat (map (\<lambda>c. [hex_digit (byte c div 16), hex_digit (byte c mod 16)]) name)
     @ ''.lagos.invalid''"

lemma hex_digit_inj: "m < 16 \<Longrightarrow> n < 16 \<Longrightarrow> hex_digit m = hex_digit n \<longleftrightarrow> m = n"
  by (auto simp: hex_digit_def split: if_splits)

lemma unset_placeholder_inj: "unset_placeholder a = unset_placeholder b \<longleftrightarrow> a = b"
proof -
  let ?h = "\<lambda>c :: char. [hex_digit (byte c div 16), hex_digit (byte c mod 16)]"
  have byte: "c = d" if "?h c = ?h d" for c d
  proof -
    have lt: "byte e div 16 < 16" "byte e mod 16 < 16" for e :: char
      using byte_lt [of e] by (simp_all add: less_mult_imp_div_less)
    have "hex_digit (byte c div 16) = hex_digit (byte d div 16)"
      "hex_digit (byte c mod 16) = hex_digit (byte d mod 16)" using that by blast+
    then have "byte c div 16 = byte d div 16" "byte c mod 16 = byte d mod 16"
      using hex_digit_inj lt by blast+
    then have "byte c = byte d" by (metis mult_div_mod_eq)
    then show ?thesis by (rule of_char_eq_iff [THEN iffD1])
  qed
  have "concat (map ?h a) = concat (map ?h b) \<Longrightarrow> a = b"
  proof (induction a arbitrary: b)
    case Nil
    then show ?case by (cases b) simp_all
  next
    case (Cons c cs)
    then obtain d ds where b: "b = d # ds" by (cases b) simp_all
    with Cons.prems have "?h c = ?h d" "concat (map ?h cs) = concat (map ?h ds)" by simp_all
    with Cons.IH byte b show ?case by blast
  qed
  then show ?thesis unfolding unset_placeholder_def same_append_eq append_same_eq by blast
qed

section \<open>Running a suite\<close>

datatype case_error =
    EmptyTestName
  | BadTestPath string
  | BadFixture string
  | EmptySubject string
  | EmptyMethod string
  | RouteUnnamed string
  | FieldsWithoutRoute string
  | BadExpectedPath string
  | NoTests
  | DuplicateTest string

text \<open>The names and values the \<open>http\<close> crate accepts are parameters.\<close>

definition validate_case ::
  "(string \<Rightarrow> bool) \<Rightarrow> (string \<Rightarrow> bool) \<Rightarrow> test_case \<Rightarrow> (unit, case_error) result" where
  "validate_case name_ok value_ok c =
     (let rq = tc_request c; xp = tc_expect c; name = tc_name c in
      and_then (ensure (trim name \<noteq> []) EmptyTestName) (\<lambda>_.
      and_then (ensure (starts_with ''/'' (tr_path rq) \<and> CHR ''?'' \<notin> set (tr_path rq)) (BadTestPath name)) (\<lambda>_.
      and_then (ensure (list_all (\<lambda>(n, v). name_ok n \<and> value_ok v) (tr_headers rq)) (BadFixture name)) (\<lambda>_.
      and_then (ensure (case tr_identity rq of Some i \<Rightarrow> ti_subject i \<noteq> [] | None \<Rightarrow> True)
          (EmptySubject name)) (\<lambda>_.
      and_then (ensure (trim (tr_method rq) \<noteq> []) (EmptyMethod name)) (\<lambda>_.
      and_then
        (if xp_result xp = ResultRoute
         then ensure (case xp_route xp of Some r \<Rightarrow> r \<noteq> [] | None \<Rightarrow> False) (RouteUnnamed name)
         else ensure (xp_route xp = None \<and> xp_tier xp = None \<and> xp_upstream xp = None
                \<and> xp_upstream_path xp = None \<and> xp_bindings xp = None \<and> xp_client_key xp = None
                \<and> xp_policy_keys xp = None) (FieldsWithoutRoute name)) (\<lambda>_.
      ensure (case xp_upstream_path xp of
                Some p \<Rightarrow> starts_with ''/'' p \<and> CHR ''?'' \<notin> set p
              | None \<Rightarrow> True) (BadExpectedPath name))))))))"

datatype difference =
    DiffResult | DiffMatched | DiffRoute | DiffTier | DiffUpstream | DiffUpstreamPath
  | DiffBindings | DiffClientKey | DiffPolicyKeys

definition differs :: "'a option \<Rightarrow> 'a option \<Rightarrow> difference \<Rightarrow> difference list" where
  "differs want got d = (if want \<noteq> None \<and> want \<noteq> got then [d] else [])"

definition compare_case :: "expected \<Rightarrow> actual \<Rightarrow> difference list" where
  "compare_case xp ac =
     (if xp_result xp \<noteq> ac_result ac
      then DiffResult # (if ac_result ac = ResultRoute then [DiffMatched] else []) else [])
     @ differs (xp_route xp) (ac_route ac) DiffRoute
     @ differs (xp_tier xp) (ac_tier ac) DiffTier
     @ differs (xp_upstream xp) (ac_upstream ac) DiffUpstream
     @ differs (xp_upstream_path xp) (ac_upstream_path ac) DiffUpstreamPath
     @ differs (xp_bindings xp) (ac_bindings ac) DiffBindings
     @ differs (xp_client_key xp) (ac_client_key ac) DiffClientKey
     @ differs (xp_policy_keys xp) (ac_policy_keys ac) DiffPolicyKeys"

text \<open>The loop of \<open>test\<close>: the names that passed and failed, or the first error.\<close>

fun run_cases ::
  "(test_case \<Rightarrow> (unit, case_error) result) \<Rightarrow> (test_request \<Rightarrow> actual) \<Rightarrow> string list \<Rightarrow>
   test_case list \<Rightarrow> (nat, case_error) result" where
  "run_cases check decision seen [] = Inr 0"
| "run_cases check decision seen (c # cs) =
     and_then (check c) (\<lambda>_.
     and_then (ensure (tc_name c \<notin> set seen) (DuplicateTest (tc_name c))) (\<lambda>_.
     and_then (run_cases check decision (tc_name c # seen) cs) (\<lambda>failures.
     Inr (if compare_case (tc_expect c) (decision (tc_request c)) = [] then failures else Suc failures))))"

text \<open>The number of failures: \<open>test\<close> succeeds when it is zero.\<close>

definition run_suite ::
  "(string \<Rightarrow> bool) \<Rightarrow> (string \<Rightarrow> bool) \<Rightarrow> (string \<Rightarrow> string option) \<Rightarrow> resolved_config \<Rightarrow> route_table \<Rightarrow>
   test_case list \<Rightarrow> (nat, case_error) result" where
  "run_suite name_ok value_ok pct_decode cfg table tests =
     (if tests = [] then Inl NoTests
      else
        let (public, internal) = partition_by_listener table in
        run_cases (validate_case name_ok value_ok)
          (\<lambda>tr. decide_offline pct_decode cfg
                  (case tr_listener tr of PublicListener \<Rightarrow> public | InternalListener \<Rightarrow> internal) tr)
          [] tests)"

section \<open>Agreement with the gateway\<close>

lemma strip_mount_base: "map_option snd (strip_mount (gw_cfg g) path) = strip_base g path"
proof -
  have "map_option snd (strip_mount_loop bases p) = strip_base_loop bases p" for bases p
    by (induction bases) (auto split: option.splits list.splits)
  then show ?thesis by (simp add: strip_mount_def strip_base_def)
qed

text \<open>A fixture that describes a request: the same request line and headers, on the listener
  of the gateway.\<close>

definition describes :: "gateway \<Rightarrow> test_request \<Rightarrow> request \<Rightarrow> bool" where
  "describes g tr rq \<longleftrightarrow>
     tr_path tr = rq_path rq \<and> tr_method tr = rq_method rq \<and> tr_host tr = request_host rq
     \<and> fixture_query tr = rq_query rq \<and> fixture_headers tr = rq_headers rq
     \<and> (tr_listener tr = InternalListener) = gw_serves_machine g"

text \<open>The synthetic identity is the caller the gateway verified.\<close>

definition stands_for :: "test_request \<Rightarrow> identity option \<Rightarrow> bool" where
  "stands_for tr ident \<longleftrightarrow>
     map_option (\<lambda>i. (ti_subject i, ti_claims i)) (tr_identity tr)
       = map_option (\<lambda>i. (id_subject i, id_claims i)) ident"

lemma map_of_single:
  assumes "filter (\<lambda>(n, v). f n = k) xs = [(n, v)]"
  shows "map_of (rev (map (\<lambda>(n, v). (f n, v)) xs)) k = Some v"
proof -
  obtain us ws where xs: "xs = us @ (n, v) # ws" "f n = k"
    and ne: "filter (\<lambda>(n, v). f n = k) ws = []"
    using filter_eq_ConsD [OF assms] by auto
  have "map_of (rev (map (\<lambda>(n, v). (f n, v)) ws)) k = None"
    using ne by (auto simp: map_of_eq_None_iff filter_empty_conv)
  then show ?thesis using xs by (simp add: map_add_def)
qed

lemma single_text_lowered:
  assumes "fixture_headers tr = rq_headers rq" "single_text rq name = Some v"
  shows "lowered_headers tr name = Some v"
proof -
  have "length (fixture_headers tr name) = 1" using assms by (auto simp: single_text_def split: list.splits)
  then obtain n w where f: "filter (\<lambda>(n, v). to_ascii_lowercase n = name) (tr_headers tr) = [(n, w)]"
    by (auto simp: fixture_headers_def length_Suc_conv)
  then have "(n, w) \<in> set (filter (\<lambda>(n, v). to_ascii_lowercase n = name) (tr_headers tr))" by simp
  then have "to_ascii_lowercase name = name" by auto
  moreover have "w = v" using assms f by (simp add: single_text_def assms(1) [symmetric] fixture_headers_def)
  ultimately show ?thesis using map_of_single [OF f] by (simp add: lowered_headers_def)
qed

lemma permits_fixture:
  assumes "permits pct_decode b ident query h1" "\<And>n v. h1 n = Some v \<Longrightarrow> h2 n = Some v"
    and "id_subject ident' = id_subject ident" "id_claims ident' = id_claims ident"
  shows "permits pct_decode b ident' query h2"
proof -
  have "proven b ident' = proven b ident"
    unfolding proven_def claim_at_def assms(3,4) ..
  then show ?thesis using assms(1,2)
    by (auto simp: permits_def supplied_def split: option.splits bind_source.splits)
qed

text \<open>Off the health path, \<open>explain\<close> and the policy tests say the same, on a listener that
  exists.\<close>

definition result_of :: "explanation \<Rightarrow> result_kind option" where
  "result_of e = (case e of
     OutsideBasePath \<Rightarrow> Some ResultOutsideMount | UnsafePath \<Rightarrow> Some ResultUnsafePath
   | DenyListed \<Rightarrow> Some ResultDenied | NotAllowlisted \<Rightarrow> Some ResultNoRoute
   | Explained _ \<Rightarrow> Some ResultRoute | _ \<Rightarrow> None)"

lemma explain_agrees:
  assumes "CHR ''?'' \<notin> set (tr_path tr)" "tr_path tr \<noteq> sv_health_path (gc_server (rv_raw cfg))"
    and "tr_listener tr = InternalListener \<longrightarrow> sv_internal_listen (gc_server (rv_raw cfg)) \<noteq> None"
  shows "result_of (explain_request pct_decode cfg table (tr_method tr) (tr_path tr) (tr_host tr) (tr_listener tr))
    = Some (ac_result (decide_offline pct_decode cfg
        (case tr_listener tr of PublicListener \<Rightarrow> fst (partition_by_listener table)
                              | InternalListener \<Rightarrow> snd (partition_by_listener table)) tr))"
proof -
  have q: "split_once CHR ''?'' (tr_path tr) = None" using assms(1) by (simp add: split_once_None_iff)
  show ?thesis using assms(2,3)
    by (auto simp: explain_request_def decide_offline_def result_of_def simple_def q Let_def split: option.splits)
qed

text \<open>C13: what the policy tests refuse, the gateway refuses. For every request the gateway lets
  through, a test case that describes it is decided as the same route, tier and upstream,
  with the path the upstream receives, needs a client key exactly if the gateway took one,
  and, given the identity the gateway verified, does not fail its bindings. So a passing test
  of a refusal is a refusal in production, whatever the request carries.\<close>

theorem offline_refusals_hold:
  assumes "request_filter g env rq s = (Inr u, t)" "describes g tr rq"
  shows "\<exists>route ident a. let_through g env rq (rn_ctx t) route ident
    \<and> a = decide_offline (en_pct_decode env) (gw_cfg g) (gw_table g) tr
    \<and> ac_result a = ResultRoute \<and> ac_route a = Some (cx_route_id (rn_ctx t))
    \<and> ac_tier a = Some (tier_group (rc_auth route))
    \<and> ac_upstream a = Some (cx_upstream_name (rn_ctx t))
    \<and> ac_upstream_path a = Some (CHR ''/'' # upstream_path route (cx_path (rn_ctx t)))
    \<and> (ac_client_key a = Some StateRequired) = (cx_client_key_id (rn_ctx t) \<noteq> None)
    \<and> (stands_for tr ident \<longrightarrow> ac_bindings a \<noteq> Some False)"
proof -
  obtain path route ident kid s1 s2 where st:
    "find_route_for g env rq (s \<lparr> rn_ctx := prepare g env rq (rn_ctx s) \<rparr>) = (Inr (path, route), s1)"
    "admit_caller g env rq path route s1 = (Inr (ident, kid), s2)"
    "prepare_upstream g env rq route ident kid s2 = (Inr u, t)"
    using request_filter_Inr [OF assms(1)] by metis
  let ?cx = "rn_ctx t"
  have lt: "let_through g env rq ?cx route ident"
    using find_route_for_Inr [OF st(1)] admit_caller_Inr [OF st(2)] prepare_upstream_Inr [OF st(3)]
    by (simp add: let_through_def)
  obtain raw where raw: "strip_base g (rq_path rq) = Some raw"
    "canonicalize_proxy_path (en_pct_decode env) raw = Some (cx_path ?cx)"
    using lt by (auto simp: let_through_def canonical_request_def bind_eq_Some_conv)
  then obtain mount where mount: "strip_mount (gw_cfg g) (tr_path tr) = Some (mount, raw)"
    using assms(2) strip_mount_base [of g "tr_path tr"] by (auto simp: describes_def)
  let ?a = "decide_offline (en_pct_decode env) (gw_cfg g) (gw_table g) tr"
  have a: "?a = \<lparr> ac_result = ResultRoute, ac_route = Some (rc_id route),
      ac_tier = Some (tier_group (rc_auth route)), ac_upstream = Some (rc_upstream route),
      ac_upstream_path = Some (CHR ''/'' # upstream_path route (cx_path ?cx)),
      ac_bindings = decide_bindings (en_pct_decode env) route tr,
      ac_client_key = Some (if gw_serves_machine g then StateOff
                            else state_of (client_key_rule (gw_cfg g) route (cx_path ?cx))),
      ac_policy_keys = Some (decide_policy_keys route tr) \<rparr>"
    using mount raw lt assms(2) by (simp add: decide_offline_def let_through_def describes_def)
  have key: "(ac_client_key ?a = Some StateRequired) = (cx_client_key_id ?cx \<noteq> None)"
    using lt unfolding a
    by (cases "client_key_rule (gw_cfg g) route (cx_path ?cx)")
      (auto simp: let_through_def client_key_honoured_def)
  have bind: "ac_bindings ?a \<noteq> Some False" if st: "stands_for tr ident"
  proof (cases "rc_bindings route = []")
    case True
    then show ?thesis by (simp add: a decide_bindings_def)
  next
    case False
    then obtain i where i: "ident = Some i"
      "list_all (\<lambda>b. permits (en_pct_decode env) b i (rq_query rq) (single_text rq)) (rc_bindings route)"
      using lt by (auto simp: let_through_def bindings_honoured_def split: option.splits)
    obtain ti where ti: "tr_identity tr = Some ti" "ti_subject ti = id_subject i" "ti_claims ti = id_claims i"
      using st i(1) by (auto simp: stands_for_def)
    have h: "lowered_headers tr n = Some v" if "single_text rq n = Some v" for n v
      using single_text_lowered [OF _ that] assms(2) by (simp add: describes_def)
    have q: "fixture_query tr = rq_query rq" using assms(2) by (simp add: describes_def)
    have "permits (en_pct_decode env) b (fixture_identity ti) (fixture_query tr) (lowered_headers tr)"
      if "b \<in> set (rc_bindings route)" for b
      unfolding q
      by (rule permits_fixture [of _ _ i _ "single_text rq"])
        (use i(2) that h ti in \<open>auto simp: list_all_iff fixture_identity_def\<close>)
    then show ?thesis using ti by (simp add: a decide_bindings_def list_all_iff)
  qed
  have ids: "cx_route_id ?cx = rc_id route" "cx_upstream_name ?cx = rc_upstream route"
    using lt by (auto simp: let_through_def)
  show ?thesis
    by (rule exI [of _ route], rule exI [of _ ident], rule exI [of _ ?a])
      (use lt key bind ids in \<open>simp add: a\<close>)
qed

definition sample_fixture :: test_request where
  "sample_fixture =
     \<lparr> tr_path = ''/api/v1/users/me'', tr_method = ''GET'', tr_host = None, tr_listener = PublicListener,
       tr_query = None, tr_headers = [(''Authorization'', ''Bearer good'')], tr_peer_ip = None,
       tr_identity = Some \<lparr> ti_subject = ''u1'', ti_claims = [] \<rparr> \<rparr>"

lemma sample_fixture_describes:
  "describes (sample_gateway ''s3cret'') sample_fixture
     (sample_request ''/api/v1/users/me'' [(''authorization'', ''Bearer good'')])"
proof -
  have l: "to_ascii_lowercase ''Authorization'' = ''authorization''" by code_simp
  have "fixture_headers sample_fixture
      = rq_headers (sample_request ''/api/v1/users/me'' [(''authorization'', ''Bearer good'')])"
    unfolding fixture_headers_def sample_fixture_def sample_request_def
    by (rule ext) (simp add: l del: to_ascii_lowercase_simps)
  then show ?thesis
    by (simp add: describes_def sample_request_def sample_fixture_def request_host_def fixture_query_def
        header_text_def header_get_def sample_gateway_def gateway_new_def)
qed

theorem offline_refusals_hold_witness:
  "\<exists>t a. request_filter (sample_gateway ''s3cret'') sample_request_env
        (sample_request ''/api/v1/users/me'' [(''authorization'', ''Bearer good'')]) fresh_run = (Inr (), t)
     \<and> a = decide_offline (en_pct_decode sample_request_env)
             (gw_cfg (sample_gateway ''s3cret'')) (gw_table (sample_gateway ''s3cret'')) sample_fixture
     \<and> ac_result a = ResultRoute \<and> ac_route a = Some ''users/me''"
proof -
  obtain t where t: "request_filter (sample_gateway ''s3cret'') sample_request_env
      (sample_request ''/api/v1/users/me'' [(''authorization'', ''Bearer good'')]) fresh_run = (Inr (), t)"
    "cx_route_id (rn_ctx t) = ''users/me''"
    using sample_request_passes by (auto split: prod.splits sum.splits)
  from offline_refusals_hold [OF t(1) sample_fixture_describes] t show ?thesis by auto
qed

text \<open>Where a test and the gateway part. A header repeated in two spellings has a value for the
  offline bindings (the last one) and none for the gateway's, which asks for exactly one; and
  the health path, which the gateway answers itself, is decided like any other path.\<close>

lemma repeated_spelling_diverges:
  assumes "tr_headers tr = [(''X-Tenant'', ''a''), (''x-tenant'', ''b'')]" "rq_headers rq = fixture_headers tr"
  shows "lowered_headers tr ''x-tenant'' = Some ''b'' \<and> single_text rq ''x-tenant'' = None"
proof -
  have "to_ascii_lowercase ''X-Tenant'' = ''x-tenant''" "to_ascii_lowercase ''x-tenant'' = ''x-tenant''"
    by code_simp+
  then show ?thesis using assms
    by (simp add: lowered_headers_def single_text_def fixture_headers_def)
qed

lemma health_path_diverges:
  "explain_request Some (sample_resolved ''s'') valid_table ''GET'' ''/health'' None PublicListener = LocalHealth
   \<and> ac_result (decide_offline Some (sample_resolved ''s'') (fst (partition_by_listener valid_table))
        (sample_fixture \<lparr> tr_path := ''/health'' \<rparr>)) = ResultNoRoute"
proof
  have h: "sv_health_path (gc_server (rv_raw (sample_resolved ''s''))) = ''/health''"
    by (simp add: sample_resolved_def sample_gateway_config_def sample_server_def)
  show "explain_request Some (sample_resolved ''s'') valid_table ''GET'' ''/health'' None PublicListener = LocalHealth"
    by (simp add: explain_request_def h)
  show "ac_result (decide_offline Some (sample_resolved ''s'') (fst (partition_by_listener valid_table))
        (sample_fixture \<lparr> tr_path := ''/health'' \<rparr>)) = ResultNoRoute"
    by code_simp
qed

end
