(* ===== verification/Config_Text.thy ===== *)
theory Config_Text
  imports Rust_Prelude
begin

text \<open>
  The readings and renderings of configuration text (\<open>config/mod.rs\<close>): byte sizes, the
  suggestion of a near miss in an error message, and the position stripped from one.

  A suggestion rests on \<open>edit_distance\<close>, a dynamic program over rows; its reference is
  the least number of single-character edits that turn one name into the other.
\<close>

section \<open>Byte sizes\<close>

definition KIB :: nat where "KIB = 1024"

datatype size_error = NotASize string | UnknownUnit string

definition parse_byte_size :: "string \<Rightarrow> (nat, size_error) result" where
  "parse_byte_size s0 =
     (let s = trim s0;
          n = takeWhile is_ascii_digit s;
          rest = dropWhile is_ascii_digit s in
      if n = [] then Inl (NotASize s)
      else case parse_uint U64_MAX n of
             None \<Rightarrow> Inl (NotASize s)
           | Some v \<Rightarrow>
               (let suffix = to_ascii_lowercase (trim rest) in
                if suffix \<in> {[], ''b''} then Inr v
                else if suffix \<in> {''k'', ''kb'', ''kib''} then Inr (sat_mul U64_MAX v KIB)
                else if suffix \<in> {''m'', ''mb'', ''mib''} then Inr (sat_mul U64_MAX v (KIB * KIB))
                else if suffix \<in> {''g'', ''gb'', ''gib''} then Inr (sat_mul U64_MAX v (KIB * KIB * KIB))
                else Inl (UnknownUnit suffix)))"

text \<open>A size in a document is a number, or a string that is read as one.\<close>

datatype raw_size = RawNumber nat | RawString string

definition de_byte_size :: "raw_size \<Rightarrow> (nat, size_error) result" where
  "de_byte_size r = (case r of RawNumber n \<Rightarrow> Inr n | RawString s \<Rightarrow> parse_byte_size s)"

lemma parse_byte_size_fits: "parse_byte_size s = Inr n \<Longrightarrow> n \<le> U64_MAX"
  by (auto simp: parse_byte_size_def Let_def dest: parse_uint_bound
      split: if_splits option.splits simp add: sat_mul_def)

section \<open>Edit distance\<close>

abbreviation USIZE_MAX :: nat where "USIZE_MAX \<equiv> U64_MAX"

text \<open>\<open>slice::get(i).copied().unwrap_or(usize::MAX)\<close>.\<close>

definition get_or_max :: "nat list \<Rightarrow> nat \<Rightarrow> nat" where
  "get_or_max xs i = (if i < length xs then xs ! i else USIZE_MAX)"

definition distance_cell :: "nat list \<Rightarrow> nat list \<Rightarrow> nat \<Rightarrow> bool \<Rightarrow> nat" where
  "distance_cell prev cur j differ =
     (let substitute = get_or_max prev j;
          delete = get_or_max prev (sat_add USIZE_MAX j 1);
          insrt = get_or_max cur j;
          cost = (if differ then 1 else 0) in
      min (min (sat_add USIZE_MAX substitute cost) (sat_add USIZE_MAX delete 1))
        (sat_add USIZE_MAX insrt 1))"

text \<open>The row of the next character \<open>ca\<close>, at index \<open>i\<close> of the first string.\<close>

fun row_loop :: "'c \<Rightarrow> nat list \<Rightarrow> (nat \<times> 'c) list \<Rightarrow> nat list \<Rightarrow> nat list" where
  "row_loop ca prev [] cur = cur"
| "row_loop ca prev ((j, cb) # bs) cur =
     row_loop ca prev bs (cur @ [distance_cell prev cur j (ca \<noteq> cb)])"

fun rows_loop :: "(nat \<times> 'c) list \<Rightarrow> 'c list \<Rightarrow> nat list \<Rightarrow> nat list" where
  "rows_loop [] b prev = prev"
| "rows_loop ((i, ca) # a) b prev =
     rows_loop a b (row_loop ca prev (enumerate 0 b) [sat_add USIZE_MAX i 1])"

definition edit_distance :: "string \<Rightarrow> string \<Rightarrow> nat" where
  "edit_distance a0 b0 =
     (let b = utf8_chars b0;
          row = rows_loop (enumerate 0 (utf8_chars a0)) b [0..<Suc (length b)] in
      if row = [] then 0 else last row)"

section \<open>The reference: the fewest edits\<close>

inductive edit1 :: "'c list \<Rightarrow> 'c list \<Rightarrow> bool" where
  insert: "edit1 xs (x # xs)"
| delete: "edit1 (x # xs) xs"
| substitute: "edit1 (x # xs) (y # xs)"
| later: "edit1 xs ys \<Longrightarrow> edit1 (x # xs) (x # ys)"

definition fewest_edits :: "'c list \<Rightarrow> 'c list \<Rightarrow> nat" where
  "fewest_edits xs ys = (LEAST n. (edit1 ^^ n) xs ys)"

text \<open>The recursive distance, as a stepping stone.\<close>

fun lev :: "'c list \<Rightarrow> 'c list \<Rightarrow> nat" where
  "lev [] ys = length ys"
| "lev xs [] = length xs"
| "lev (x # xs) (y # ys) =
     min (min (lev xs ys + (if x \<noteq> y then 1 else 0)) (lev xs (y # ys) + 1)) (lev (x # xs) ys + 1)"

lemma lev_Nil2 [simp]: "lev xs [] = length xs"
  by (cases xs) auto

lemma lev_sym: "lev xs ys = lev ys xs"
  by (induction xs ys rule: lev.induct) auto

lemma lev_Cons_le: "lev (x # xs) ys \<le> lev xs ys + 1"
  by (cases ys) auto

lemma lev_Cons_le2: "lev xs (y # ys) \<le> lev xs ys + 1"
  using lev_Cons_le [of y ys xs] by (simp add: lev_sym [of xs])

lemma lev_le_Cons: "lev xs ys \<le> lev (x # xs) ys + 1"
proof (induction ys)
  case (Cons y ys)
  then show ?case using lev_Cons_le2 [of xs y ys] by auto
qed simp

lemma lev_substitute: "lev (x # xs) zs \<le> lev (y # xs) zs + 1"
  by (induction zs) auto

lemma lev_later:
  assumes "\<And>zs. lev xs zs \<le> lev ys zs + 1"
  shows "lev (x # xs) zs \<le> lev (x # ys) zs + 1"
proof (induction zs)
  case Nil
  show ?case using assms [of "[]"] by simp
next
  case (Cons z zs)
  then show ?case using assms [of zs] assms [of "z # zs"] by auto
qed

lemma lev_edit1: "edit1 xs ys \<Longrightarrow> lev xs zs \<le> lev ys zs + 1"
proof (induction arbitrary: zs rule: edit1.induct)
  case (later xs ys x)
  then show ?case by (intro lev_later) auto
qed (rule lev_le_Cons lev_Cons_le lev_substitute)+

lemma lev_le_edits: "(edit1 ^^ n) xs ys \<Longrightarrow> lev xs ys \<le> n"
proof (induction n arbitrary: xs)
  case 0
  have "lev ys ys = 0" by (induction ys) auto
  with 0 show ?case by simp
next
  case (Suc n)
  then obtain zs where "edit1 xs zs" "(edit1 ^^ n) zs ys" by (meson relpowp_Suc_D2)
  then show ?case using Suc.IH [of zs] lev_edit1 [of xs zs ys] by simp
qed

lemma edits_later: "(edit1 ^^ n) xs ys \<Longrightarrow> (edit1 ^^ n) (x # xs) (x # ys)"
proof (induction n arbitrary: ys)
  case (Suc n)
  then obtain zs where "(edit1 ^^ n) xs zs" "edit1 zs ys" by auto
  then show ?case using Suc.IH [of zs] edit1.later [of zs ys x] by (meson relpowp_Suc_I)
qed simp

lemma edits_Suc: "edit1 xs zs \<Longrightarrow> (edit1 ^^ n) zs ys \<Longrightarrow> (edit1 ^^ (n + 1)) xs ys"
  using relpowp_Suc_I2 [of edit1] by simp

lemma edits_lev: "(edit1 ^^ lev xs ys) xs ys"
proof (induction xs ys rule: lev.induct)
  case (1 ys)
  show ?case
  proof (induction ys)
    case (Cons y ys)
    then show ?case using relpowp_Suc_I [OF Cons edit1.insert] by simp
  qed simp
next
  case (2 x xs)
  have "(edit1 ^^ length zs) zs []" for zs :: "'a list"
  proof (induction zs)
    case (Cons y ys)
    then show ?case using relpowp_Suc_I2 [OF edit1.delete Cons] by simp
  qed simp
  from this [of "x # xs"] show ?case by simp
next
  case (3 x xs y ys)
  let ?s = "lev xs ys + (if x \<noteq> y then 1 else 0)"
  have s: "(edit1 ^^ ?s) (x # xs) (y # ys)"
    using edits_later [OF 3(1), of y] edits_Suc [OF edit1.substitute edits_later [OF 3(1), of y], of x]
    by (cases "x = y") auto
  have d: "(edit1 ^^ (lev xs (y # ys) + 1)) (x # xs) (y # ys)"
    by (rule edits_Suc [OF edit1.delete 3(2)])
  have i: "(edit1 ^^ (lev (x # xs) ys + 1)) (x # xs) (y # ys)"
    using relpowp_Suc_I [OF 3(3) edit1.insert] by simp
  show ?case using s d i unfolding lev.simps min_def by presburger
qed

lemma lev_fewest: "lev xs ys = fewest_edits xs ys"
  unfolding fewest_edits_def
  by (rule Least_equality [symmetric]) (auto intro: edits_lev lev_le_edits)

text \<open>The dynamic program works from the front, the recursion from the front of what is
  left: they meet because the number of edits is the same read backwards.\<close>

lemma edit1_append: "edit1 xs ys \<Longrightarrow> edit1 (us @ xs) (us @ ys)"
  by (induction us) (auto intro: edit1.later)

lemma edit1_append2: "edit1 xs ys \<Longrightarrow> edit1 (xs @ us) (ys @ us)"
  by (induction rule: edit1.induct) (auto intro: edit1.intros)

lemma edit1_rev: "edit1 xs ys \<Longrightarrow> edit1 (rev xs) (rev ys)"
proof (induction rule: edit1.induct)
  case (insert xs x)
  then show ?case using edit1_append [OF edit1.insert, of "rev xs" "[]" x] by simp
next
  case (delete x xs)
  then show ?case using edit1_append [OF edit1.delete, of "rev xs" x "[]"] by simp
next
  case (substitute x xs y)
  then show ?case using edit1_append [OF edit1.substitute, of "rev xs" x "[]" y] by simp
next
  case (later xs ys x)
  then show ?case using edit1_append2 [of _ _ "[x]"] by simp
qed

lemma edits_rev: "(edit1 ^^ n) xs ys \<Longrightarrow> (edit1 ^^ n) (rev xs) (rev ys)"
proof (induction n arbitrary: ys)
  case (Suc n)
  then obtain zs where "(edit1 ^^ n) xs zs" "edit1 zs ys" by auto
  then show ?case using Suc.IH [of zs] edit1_rev [of zs ys] by (meson relpowp_Suc_I)
qed simp

lemma lev_rev: "lev (rev xs) (rev ys) = lev xs ys"
proof (rule antisym)
  show "lev (rev xs) (rev ys) \<le> lev xs ys"
    using edits_lev edits_rev lev_le_edits by blast
  show "lev xs ys \<le> lev (rev xs) (rev ys)"
    using edits_lev [of "rev xs" "rev ys"] edits_rev [of _ "rev xs" "rev ys"] lev_le_edits by force
qed

section \<open>The rows\<close>

text \<open>Cell \<open>j\<close> of the row after the prefix \<open>a\<close> is the distance from \<open>a\<close> to the first \<open>j\<close>
  characters of \<open>b\<close>.\<close>

definition row_of :: "'c list \<Rightarrow> 'c list \<Rightarrow> nat list" where
  "row_of a b = map (\<lambda>j. lev (rev a) (rev (take j b))) [0..<Suc (length b)]"

lemma lev_le_lengths: "lev xs ys \<le> length xs + length ys"
  by (induction xs ys rule: lev.induct) auto

lemma row_of_length [simp]: "length (row_of a b) = Suc (length b)"
  by (simp add: row_of_def del: upt_Suc)

lemma row_of_ne [simp]: "row_of a b \<noteq> []"
  by (simp add: row_of_def)

lemma row_of_nth: "j \<le> length b \<Longrightarrow> row_of a b ! j = lev (rev a) (rev (take j b))"
  by (simp add: row_of_def del: upt_Suc)

lemma row_loop_enumerate:
  assumes small: "length a + length b < USIZE_MAX"
    and b: "b = b1 @ b2"
    and cur: "cur = take (Suc (length b1)) (row_of (a @ [ca]) b)"
  shows "row_loop ca (row_of a b) (enumerate (length b1) b2) cur = row_of (a @ [ca]) b"
  using b cur
proof (induction b2 arbitrary: b1 cur)
  case Nil
  then show ?case by simp
next
  case (Cons cb b2)
  let ?n = "length b1" and ?r = "row_of a b" and ?q = "row_of (a @ [ca]) b"
  have n: "Suc ?n \<le> length b" "?n \<le> length b" using Cons.prems by simp_all
  have bound: "lev (rev us) (rev (take j b)) < USIZE_MAX" if "length us \<le> Suc (length a)" "j < length b" for us j
    using lev_le_lengths [of "rev us" "rev (take j b)"] that small by (simp add: min_def split: if_splits)
  have boundr: "?r ! Suc ?n < USIZE_MAX"
    using lev_le_lengths [of "rev a" "rev (take (Suc ?n) b)"] small n
    by (simp add: row_of_nth min_def split: if_splits)
  have cl: "length cur = Suc ?n" using Cons.prems n by (simp add: min_def)
  have b1: "?r ! ?n < USIZE_MAX" "?q ! ?n < USIZE_MAX"
    using n bound [of a ?n] bound [of "a @ [ca]" ?n] by (simp_all add: row_of_nth)
  have g: "get_or_max ?r ?n = ?r ! ?n" "get_or_max ?r (sat_add USIZE_MAX ?n 1) = ?r ! Suc ?n"
    "get_or_max cur ?n = ?q ! ?n"
    using n cl small Cons.prems by (simp_all add: get_or_max_def sat_add_def)
  have t: "rev (take (Suc ?n) b) = cb # rev (take ?n b)" using Cons.prems by simp
  have cell: "distance_cell ?r cur ?n (ca \<noteq> cb) = ?q ! Suc ?n"
    using b1 boundr n t unfolding distance_cell_def g Let_def
    by (simp add: sat_add_exact row_of_nth)
  have "cur @ [?q ! Suc ?n] = take (Suc (Suc ?n)) ?q"
    using Cons.prems n by (simp add: take_Suc_conv_app_nth)
  then show ?case using Cons.IH [of "b1 @ [cb]"] Cons.prems cell by simp
qed

lemma rows_loop_enumerate:
  "length a1 + length a2 + length b < USIZE_MAX \<Longrightarrow>
   rows_loop (enumerate (length a1) a2) b (row_of a1 b) = row_of (a1 @ a2) b"
proof (induction a2 arbitrary: a1)
  case (Cons ca a2)
  have "[sat_add USIZE_MAX (length a1) 1] = take (Suc 0) (row_of (a1 @ [ca]) b)"
    using Cons.prems by (simp add: take_Suc row_of_def sat_add_exact hd_map del: upt_Suc)
  then have "row_loop ca (row_of a1 b) (enumerate 0 b) [sat_add USIZE_MAX (length a1) 1]
      = row_of (a1 @ [ca]) b"
    using row_loop_enumerate [of a1 b "[]" b _ ca] Cons.prems by simp
  then show ?case using Cons.IH [of "a1 @ [ca]"] Cons.prems by simp
qed simp

lemma row_of_Nil: "row_of [] b = [0..<Suc (length b)]"
  by (rule nth_equalityI) (auto simp: row_of_def simp del: upt_Suc)

lemma utf8_chars_length: "length (utf8_chars s) \<le> length s"
  by (induction s rule: utf8_chars.induct) auto

theorem edit_distance_correct:
  assumes "length a + length b < USIZE_MAX"
  shows "edit_distance a b = fewest_edits (utf8_chars a) (utf8_chars b)"
proof -
  let ?a = "utf8_chars a" and ?b = "utf8_chars b"
  have small: "length ?a + length ?b < USIZE_MAX"
    using assms utf8_chars_length [of a] utf8_chars_length [of b] by simp
  have "edit_distance a b = last (row_of ?a ?b)"
    using rows_loop_enumerate [of "[]" ?a ?b] small
    by (simp add: edit_distance_def row_of_Nil [symmetric] Let_def del: upt_Suc)
  also have "\<dots> = lev (rev ?a) (rev ?b)"
    by (simp add: last_conv_nth row_of_nth)
  also have "\<dots> = lev ?a ?b" by (rule lev_rev)
  also have "\<dots> = fewest_edits ?a ?b" by (rule lev_fewest)
  finally show ?thesis .
qed

section \<open>Suggestions\<close>

text \<open>\<open>Iterator::min_by_key\<close>: the first of the least elements.\<close>

fun min_by_key :: "('a \<Rightarrow> nat) \<Rightarrow> 'a list \<Rightarrow> 'a option" where
  "min_by_key f [] = None"
| "min_by_key f (x # xs) =
     (case min_by_key f xs of
        None \<Rightarrow> Some x
      | Some y \<Rightarrow> Some (if f x \<le> f y then x else y))"

definition did_you_mean :: "string \<Rightarrow> string list \<Rightarrow> string option" where
  "did_you_mean name known =
     (if length name > 64 then None
      else map_option snd (min_by_key fst
        (filter (\<lambda>(d, k). d \<le> min 3 (max (length k) (length name) div 2 + 1))
          (map (\<lambda>k. (edit_distance name k, k)) (filter (\<lambda>k. length k \<le> 64) known)))))"

definition suggestion :: "string \<Rightarrow> string list \<Rightarrow> string" where
  "suggestion name known =
     (case did_you_mean name known of
        Some k \<Rightarrow> ''. Did you mean `'' @ k @ ''`?''
      | None \<Rightarrow> [])"

text \<open>\<open>strip_position\<close>: the message up to the last occurrence of \<open>" at line "\<close>.\<close>

fun rfind :: "string \<Rightarrow> string \<Rightarrow> nat option" where
  "rfind p [] = (if p = [] then Some 0 else None)"
| "rfind p (x # xs) =
     (case rfind p xs of
        Some i \<Rightarrow> Some (Suc i)
      | None \<Rightarrow> if starts_with p (x # xs) then Some 0 else None)"

definition strip_position :: "string \<Rightarrow> string" where
  "strip_position message =
     (case rfind '' at line '' message of Some i \<Rightarrow> take i message | None \<Rightarrow> message)"

lemma min_by_key_None_iff [simp]: "min_by_key f xs = None \<longleftrightarrow> xs = []"
  by (cases xs) (auto split: option.splits)

lemma min_by_key_SomeI:
  "\<forall>y\<in>set us. f x < f y \<Longrightarrow> \<forall>y\<in>set vs. f x \<le> f y \<Longrightarrow> min_by_key f (us @ x # vs) = Some x"
proof (induction us)
  case Nil
  have "y \<in> set vs" if "min_by_key f vs = Some y" for y
    using that by (induction vs) (auto split: option.splits if_splits)
  then show ?case using Nil by (auto split: option.splits)
qed auto

lemma min_by_key_SomeD:
  "min_by_key f xs = Some x \<Longrightarrow>
     \<exists>us vs. xs = us @ x # vs \<and> (\<forall>y\<in>set us. f x < f y) \<and> (\<forall>y\<in>set vs. f x \<le> f y)"
proof (induction xs)
  case (Cons z zs)
  show ?case
  proof (cases "min_by_key f zs")
    case None
    then show ?thesis using Cons.prems by fastforce
  next
    case (Some w)
    then obtain us vs where w: "w = x \<and> f x < f z \<or> x = z \<and> f z \<le> f w" "min_by_key f zs = Some w"
      using Cons.prems by (auto split: if_splits)
    from w(1) show ?thesis
    proof
      assume x: "w = x \<and> f x < f z"
      with w(2) Cons.IH obtain us vs
        where "zs = us @ x # vs" "\<forall>y\<in>set us. f x < f y" "\<forall>y\<in>set vs. f x \<le> f y" by auto
      with x show ?thesis
        by (intro exI [of _ "z # us"] exI [of _ vs]) auto
    next
      assume x: "x = z \<and> f z \<le> f w"
      have "\<forall>y\<in>set zs. f w \<le> f y" using w(2)
        by (induction zs arbitrary: w) (fastforce split: option.splits if_splits)+
      with x show ?thesis by (intro exI [of _ "[]"] exI [of _ zs]) auto
    qed
  qed
qed simp

lemma min_by_key_pairs:
  "map_option snd (min_by_key fst (filter P (map (\<lambda>k. (f k, k)) xs)))
     = min_by_key f (filter (\<lambda>k. P (f k, k)) xs)"
proof -
  have "min_by_key fst (map (\<lambda>k. (f k, k)) ys) = map_option (\<lambda>k. (f k, k)) (min_by_key f ys)" for ys
    by (induction ys) (auto split: option.splits)
  then show ?thesis by (simp add: filter_map o_def option.map_comp option.map_ident)
qed

lemma filter_splitD:
  "filter P xs = us @ x # vs \<Longrightarrow>
     \<exists>us' vs'. xs = us' @ x # vs' \<and> filter P us' = us \<and> P x \<and> filter P vs' = vs"
proof (induction xs arbitrary: us)
  case (Cons y ys)
  show ?case
  proof (cases "P y")
    case True
    show ?thesis
    proof (cases us)
      case Nil
      then show ?thesis using Cons.prems True by (intro exI [of _ "[]"] exI [of _ ys]) auto
    next
      case us: (Cons u us1)
      with Cons.prems True have "filter P ys = us1 @ x # vs" "u = y" by auto
      then obtain us' vs' where "ys = us' @ x # vs'" "filter P us' = us1" "P x" "filter P vs' = vs"
        using Cons.IH by metis
      then show ?thesis using us True \<open>u = y\<close> by (intro exI [of _ "y # us'"] exI [of _ vs']) auto
    qed
  next
    case False
    then obtain us' vs' where "ys = us' @ x # vs'" "filter P us' = us" "P x" "filter P vs' = vs"
      using Cons.IH [of us] Cons.prems by auto
    then show ?thesis using False by (intro exI [of _ "y # us'"] exI [of _ vs']) auto
  qed
qed simp

lemma min_by_key_filter:
  "min_by_key f (filter P xs) = Some x \<longleftrightarrow>
     (\<exists>us vs. xs = us @ x # vs \<and> P x \<and> (\<forall>y\<in>set us. P y \<longrightarrow> f x < f y)
            \<and> (\<forall>y\<in>set vs. P y \<longrightarrow> f x \<le> f y))"
proof
  assume "min_by_key f (filter P xs) = Some x"
  then obtain us vs where "filter P xs = us @ x # vs"
    and m: "\<forall>y\<in>set us. f x < f y" "\<forall>y\<in>set vs. f x \<le> f y"
    using min_by_key_SomeD by metis
  then obtain us' vs' where "xs = us' @ x # vs'" "filter P us' = us" "P x" "filter P vs' = vs"
    using filter_splitD by metis
  with m show "\<exists>us vs. xs = us @ x # vs \<and> P x \<and> (\<forall>y\<in>set us. P y \<longrightarrow> f x < f y)
            \<and> (\<forall>y\<in>set vs. P y \<longrightarrow> f x \<le> f y)"
    by (intro exI [of _ us'] exI [of _ vs']) auto
next
  assume "\<exists>us vs. xs = us @ x # vs \<and> P x \<and> (\<forall>y\<in>set us. P y \<longrightarrow> f x < f y)
            \<and> (\<forall>y\<in>set vs. P y \<longrightarrow> f x \<le> f y)"
  then obtain us vs where "filter P xs = filter P us @ x # filter P vs"
    "\<forall>y\<in>set (filter P us). f x < f y" "\<forall>y\<in>set (filter P vs). f x \<le> f y" by auto
  then show "min_by_key f (filter P xs) = Some x" using min_by_key_SomeI by metis
qed

definition typo_distance :: "string \<Rightarrow> string \<Rightarrow> nat" where
  "typo_distance name k = fewest_edits (utf8_chars name) (utf8_chars k)"

text \<open>Close enough to be a typo: at most three edits, and no more than half the longer
  name and one.\<close>

definition plausible_typo :: "string \<Rightarrow> string \<Rightarrow> bool" where
  "plausible_typo name k \<longleftrightarrow>
     length k \<le> 64 \<and> typo_distance name k \<le> min 3 (max (length k) (length name) div 2 + 1)"

lemma typo_distance_small:
  "length name \<le> 64 \<Longrightarrow> length k \<le> 64 \<Longrightarrow> edit_distance name k = typo_distance name k"
  by (simp add: edit_distance_correct typo_distance_def)

lemma did_you_mean_alt:
  assumes "length name \<le> 64"
  shows "did_you_mean name known = min_by_key (typo_distance name) (filter (plausible_typo name) known)"
proof -
  let ?P = "\<lambda>(d, k). d \<le> min 3 (max (length k) (length name) div 2 + 1)"
  have "did_you_mean name known
      = min_by_key (edit_distance name) (filter (\<lambda>k. ?P (edit_distance name k, k)) (filter (\<lambda>k. length k \<le> 64) known))"
    using assms unfolding did_you_mean_def min_by_key_pairs by simp
  moreover have "filter (\<lambda>k. ?P (edit_distance name k, k)) (filter (\<lambda>k. length k \<le> 64) known)
      = filter (plausible_typo name) known"
    using assms by (induction known) (auto simp: plausible_typo_def typo_distance_small)
  moreover have "min_by_key (edit_distance name) xs = min_by_key (typo_distance name) xs"
    if "\<forall>k\<in>set xs. length k \<le> 64" for xs
    using that
  proof (induction xs)
    case (Cons x xs)
    moreover have "y \<in> set xs" if "min_by_key (typo_distance name) xs = Some y" for y
      using min_by_key_SomeD [OF that] by auto
    ultimately show ?case using assms
      by (auto simp: typo_distance_small split: option.splits)
  qed simp
  ultimately show ?thesis by (simp add: plausible_typo_def)
qed

text \<open>The name an error message suggests is the closest of the known names: it is within
  the fewest single-character edits that a typo may have, no other known name is closer, and
  of equally close names it is the first one listed.\<close>

theorem suggestion_is_closest:
  "did_you_mean name known = Some k \<longleftrightarrow>
     length name \<le> 64 \<and>
     (\<exists>us vs. known = us @ k # vs \<and> plausible_typo name k
        \<and> (\<forall>k'\<in>set us. plausible_typo name k' \<longrightarrow> typo_distance name k < typo_distance name k')
        \<and> (\<forall>k'\<in>set vs. plausible_typo name k' \<longrightarrow> typo_distance name k \<le> typo_distance name k'))"
proof (cases "length name \<le> 64")
  case True
  then show ?thesis by (simp add: did_you_mean_alt min_by_key_filter)
qed (simp add: did_you_mean_def)

lemma suggestion_is_closest_witness:
  "did_you_mean ''usr'' [''x'', ''user''] = Some ''user'' \<and> plausible_typo ''usr'' ''user''"
proof -
  have d: "typo_distance ''usr'' ''user'' = 1" "typo_distance ''usr'' ''x'' = 3"
    unfolding typo_distance_def lev_fewest [symmetric] by code_simp+
  have "did_you_mean ''usr'' [''x'', ''user''] = Some ''user''"
    by (simp add: did_you_mean_alt plausible_typo_def d)
  with suggestion_is_closest [of "''usr''" "[''x'', ''user'']" "''user''"]
  show ?thesis by blast
qed

end
