(* ===== verification/Expansion.thy ===== *)
theory Expansion
  imports Interpolate
begin

text \<open>
  The expansion of one document under two environments (\<open>config/interpolate.rs\<close>): the
  successful runs of \<open>expand_into\<close> as a relation, a simulation over it that is lifted from
  single references to lines and documents, and its two uses. An expansion that held no place
  for an unset variable is the expansion without placeholders; and what is inspected of a
  document does not depend on the values of its variables.
\<close>

section \<open>Successful expansions\<close>

inductive expands ::
  "expand_env \<Rightarrow> nat \<Rightarrow> string \<Rightarrow> string \<Rightarrow> expansion \<Rightarrow> string \<Rightarrow> expansion \<Rightarrow> bool" for env line where
  ended: "expands env line seen [] ex [] ex"
| plain: "c \<noteq> CHR ''$'' \<Longrightarrow> expands env line (seen @ [c]) cs ex out ex' \<Longrightarrow>
    expands env line seen (c # cs) ex (c # out) ex'"
| last: "expands env line seen [CHR ''$''] ex [CHR ''$''] ex"
| escape: "expands env line (seen @ ''$$'') ds ex out ex' \<Longrightarrow>
    expands env line seen (CHR ''$'' # CHR ''$'' # ds) ex (CHR ''$'' # out) ex'"
| ref: "body = takeWhile (\<lambda>x. x \<noteq> CHR 0x7D) ds \<Longrightarrow> rest = dropWhile (\<lambda>x. x \<noteq> CHR 0x7D) ds \<Longrightarrow>
    rest \<noteq> [] \<Longrightarrow> expand_reference env line (Suc (length (utf8_chars seen))) body ex = Inr (v, ex1) \<Longrightarrow>
    expands env line (seen @ [CHR ''$'', CHR 0x7B] @ body @ [CHR 0x7D]) (tl rest) ex1 out ex' \<Longrightarrow>
    expands env line seen (CHR ''$'' # CHR 0x7B # ds) ex (v @ out) ex'"
| dollar: "d \<noteq> CHR ''$'' \<Longrightarrow> d \<noteq> CHR 0x7B \<Longrightarrow> expands env line (seen @ ''$'') (d # ds) ex out ex' \<Longrightarrow>
    expands env line seen (CHR ''$'' # d # ds) ex (CHR ''$'' # out) ex'"

lemma expands_sound: "expands env line seen cs ex out ex' \<Longrightarrow> expand_into env line seen cs ex = Inr (out, ex')"
proof (induction rule: expands.induct)
  case (ref body ds rest seen ex v ex1 out ex')
  then show ?case by (simp add: expand_into_ref [OF ref.hyps(1,2)])
qed (simp_all add: expand_into_steps)

lemma expands_complete: "expand_into env line seen cs ex = Inr (out, ex') \<Longrightarrow> expands env line seen cs ex out ex'"
proof (induction "length cs" arbitrary: seen cs ex out rule: less_induct)
  case less
  note step = less.hyps
  show ?case
  proof (cases cs)
    case Nil
    then show ?thesis using less.prems by (auto intro: expands.ended)
  next
    case (Cons c cs')
    consider "c \<noteq> CHR ''$''" | "c = CHR ''$''" "cs' = []" | ds where "c = CHR ''$''" "cs' = CHR ''$'' # ds"
      | ds where "c = CHR ''$''" "cs' = CHR 0x7B # ds"
      | d ds where "c = CHR ''$''" "cs' = d # ds" "d \<noteq> CHR ''$''" "d \<noteq> CHR 0x7B"
      by (cases cs') auto
    then show ?thesis
    proof cases
      case 1
      then obtain out' where "out = c # out'" "expand_into env line (seen @ [c]) cs' ex = Inr (out', ex')"
        using less.prems Cons by (auto simp: expand_into_steps and_then_Inr_iff)
      then show ?thesis using step 1 Cons by (auto intro!: expands.plain)
    next
      case 2
      then show ?thesis using less.prems Cons by (auto simp: expand_into_steps intro: expands.last)
    next
      case (3 ds)
      then obtain out' where "out = CHR ''$'' # out'" "expand_into env line (seen @ ''$$'') ds ex = Inr (out', ex')"
        using less.prems Cons by (auto simp: expand_into_steps and_then_Inr_iff)
      then show ?thesis using step 3 Cons by (auto intro!: expands.escape)
    next
      case (4 ds)
      let ?body = "takeWhile (\<lambda>x. x \<noteq> CHR 0x7D) ds" and ?rest = "dropWhile (\<lambda>x. x \<noteq> CHR 0x7D) ds"
      have pre: "expand_into env line seen (CHR ''$'' # CHR 0x7B # ds) ex = Inr (out, ex')"
        using less.prems Cons 4 by simp
      obtain v ex1 out' where st: "?rest \<noteq> []"
        "expand_reference env line (Suc (length (utf8_chars seen))) ?body ex = Inr (v, ex1)"
        "expand_into env line (seen @ [CHR ''$'', CHR 0x7B] @ ?body @ [CHR 0x7D]) (tl ?rest) ex1 = Inr (out', ex')"
        "out = v @ out'"
        using expand_into_refD [OF pre refl refl] by (elim conjE exE) (rule that)
      have "length (tl ?rest) < length cs"
        using length_dropWhile_le [of "\<lambda>x. x \<noteq> CHR 0x7D" ds] Cons 4 by simp
      from expands.ref [OF refl refl st(1,2) step [OF this st(3)]] show ?thesis using Cons 4 st(4) by simp
    next
      case (5 d ds)
      then obtain out' where "out = CHR ''$'' # out'" "expand_into env line (seen @ ''$'') (d # ds) ex = Inr (out', ex')"
        using less.prems Cons by (auto simp: expand_into_steps and_then_Inr_iff)
      then show ?thesis using step 5 Cons by (auto intro!: expands.dollar)
    qed
  qed
qed

lemma expands_iff: "expand_into env line seen cs ex = Inr (out, ex') \<longleftrightarrow> expands env line seen cs ex out ex'"
  using expands_sound expands_complete by blast

section \<open>A simulation between expansions\<close>

text \<open>Related expansions stay related through every reference, unless the first one becomes
  \<open>bad\<close>, and then it stays bad.\<close>

locale expansion_simulation =
  fixes env1 env2 :: expand_env
    and rel :: "expansion \<Rightarrow> expansion \<Rightarrow> bool"
    and bad :: "expansion \<Rightarrow> bool"
  assumes bad_stays:
    "bad ex \<Longrightarrow> expand_reference env1 line column body ex = Inr (v, ex') \<Longrightarrow> bad ex'"
  assumes reference_related:
    "rel ex1 ex2 \<Longrightarrow> expand_reference env1 line column body ex1 = Inr (v, ex1') \<Longrightarrow>
     bad ex1' \<or> (\<exists>ex2'. expand_reference env2 line column body ex2 = Inr (v, ex2') \<and> rel ex1' ex2')"
begin

lemma bad_fragment: "expands env1 line seen cs ex out ex' \<Longrightarrow> bad ex \<Longrightarrow> bad ex'"
  by (induction rule: expands.induct) (auto dest: bad_stays)

lemma fragment_related:
  "expands env1 line seen cs ex1 out ex1' \<Longrightarrow> rel ex1 ex2 \<Longrightarrow>
   bad ex1' \<or> (\<exists>ex2'. expands env2 line seen cs ex2 out ex2' \<and> rel ex1' ex2')"
proof (induction arbitrary: ex2 rule: expands.induct)
  case (ref body ds rest seen ex v ex1 out ex')
  then consider "bad ex1" | ex3 where
    "expand_reference env2 line (Suc (length (utf8_chars seen))) body ex2 = Inr (v, ex3)" "rel ex1 ex3"
    using reference_related by blast
  then show ?case
  proof cases
    case 1
    then show ?thesis using bad_fragment [OF ref.hyps(5)] by blast
  next
    case 2
    from ref.IH [OF 2(2)] show ?thesis using expands.ref [OF ref.hyps(1-3) 2(1)] by blast
  qed
qed (blast intro: expands.intros)+

lemma bad_lines: "expand_lines env1 n block raws ex = Inr (outs, ex') \<Longrightarrow> bad ex \<Longrightarrow> bad ex'"
proof (induction raws arbitrary: n block ex outs)
  case (Cons raw raws)
  then show ?case by (auto simp: Let_def and_then_Inr_iff expands_iff split: prod.splits dest: bad_fragment)
qed simp

lemma lines_related:
  "expand_lines env1 n block raws ex1 = Inr (outs, ex1') \<Longrightarrow> rel ex1 ex2 \<Longrightarrow>
   bad ex1' \<or> (\<exists>ex2'. expand_lines env2 n block raws ex2 = Inr (outs, ex2') \<and> rel ex1' ex2')"
proof (induction raws arbitrary: n block ex1 ex2 outs)
  case (Cons raw raws)
  obtain code comment where c: "split_comment (leave_block block raw) raw = (code, comment)" by fastforce
  let ?block = "if leave_block block raw = None \<and> opens_block_scalar code then Some (indent_of raw) else leave_block block raw"
  obtain out exa outs' where s: "expands env1 n [] code ex1 out exa"
    "expand_lines env1 (Suc n) ?block raws exa = Inr (outs', ex1')" "outs = (out @ comment) # outs'"
    using Cons.prems(1) by (auto simp: c Let_def and_then_Inr_iff expands_iff)
  from fragment_related [OF s(1) Cons.prems(2)] consider "bad exa"
    | exb where "expands env2 n [] code ex2 out exb" "rel exa exb" by blast
  then show ?case
  proof cases
    case 1
    then show ?thesis using bad_lines [OF s(2)] by blast
  next
    case 2
    have "expand_lines env2 n block (raw # raws) ex2 = Inr (outs, ex2')"
      if "expand_lines env2 (Suc n) ?block raws exb = Inr (outs', ex2')" for ex2'
      using that expands_sound [OF 2(1)] s(3) by (simp add: c Let_def)
    then show ?thesis using Cons.IH [OF s(2) 2(2)] by blast
  qed
qed auto

end

section \<open>Placeholders for unset variables\<close>

definition strict :: "expand_env \<Rightarrow> expand_env" where
  "strict env = env \<lparr> ee_fallback := None \<rparr>"

lemma note_name_ne [simp]: "note_name names n \<noteq> []"
  by (metis empty_iff insert_iff list.set(1) note_name_set)

text \<open>A reference that a fallback filled is noted, and stays noted.\<close>

lemma reference_placeheld:
  assumes "expand_reference env line column body ex = Inr (v, ex')"
  shows "ex_placeheld ex \<noteq> [] \<Longrightarrow> ex_placeheld ex' \<noteq> []"
    and "ex_placeheld ex' \<noteq> [] \<or> expand_reference (strict env) line column body ex = Inr (v, ex')"
    and "ee_fallback env = None \<Longrightarrow> ex_placeheld ex' = ex_placeheld ex"
    and "ee_fallback env = None \<Longrightarrow> expand_reference (env \<lparr> ee_fallback := f \<rparr>) line column body ex = Inr (v, ex')"
  using assms
  by (auto simp: expand_reference_def choose_value_def strict_def Let_def and_then_Inr_iff
      split: prod.splits option.splits if_splits)

interpretation without_placeholders: expansion_simulation env "strict env" "(=)" "\<lambda>ex. ex_placeheld ex \<noteq> []" for env
  by unfold_locales (auto dest: reference_placeheld(1,2))

interpretation with_fallback: expansion_simulation "env \<lparr> ee_fallback := None \<rparr>" "env \<lparr> ee_fallback := f \<rparr>"
    "\<lambda>ex1 ex2. ex1 = ex2 \<and> ex_placeheld ex1 = []" "\<lambda>_. False" for env f
proof (unfold_locales, simp)
  fix ex1 ex2 line column body v ex1'
  assume r: "ex1 = ex2 \<and> ex_placeheld ex1 = []"
    "expand_reference (env \<lparr> ee_fallback := None \<rparr>) line column body ex1 = Inr (v, ex1')"
  show "False \<or> (\<exists>ex2'. expand_reference (env \<lparr> ee_fallback := f \<rparr>) line column body ex2 = Inr (v, ex2')
      \<and> ex1' = ex2' \<and> ex_placeheld ex1' = [])"
    using r reference_placeheld(3) [OF r(2)] reference_placeheld(4) [OF r(2)] by auto
qed

abbreviation fresh_expansion :: expansion where
  "fresh_expansion \<equiv> \<lparr> ex_referenced = [], ex_defaulted = [], ex_placeheld = [], ex_occurrences = [] \<rparr>"

definition document_text :: "string \<Rightarrow> string list \<Rightarrow> string" where
  "document_text text lines =
     (if ends_with [newline] text then butlast (concat (map (\<lambda>l. l @ [newline]) lines)) else join [newline] lines)"

lemma process_Inr:
  "process env doc = Inr (e, refs) \<longleftrightarrow>
     (\<exists>outs ex. expand_lines env 1 None (split_on newline doc) fresh_expansion = Inr (outs, ex)
        \<and> refs = ex_occurrences ex
        \<and> e = \<lparr> ip_text = document_text doc outs, ip_referenced = ex_referenced ex,
                ip_defaulted = ex_defaulted ex, ip_placeheld = ex_placeheld ex \<rparr>)"
  by (auto simp: process_def and_then_Inr_iff Let_def document_text_def)

text \<open>An expansion with placeholders that needed none is the strict expansion, and the other way
  round.\<close>

lemma interpolate_strict_iff:
  "interpolate_with_fallback doc lookup None = Inr e \<longleftrightarrow>
     interpolate_with_fallback doc lookup fallback = Inr e \<and> ip_placeheld e = []"
proof
  let ?env = "\<lparr> ee_lookup = lookup, ee_fallback = None, ee_prefix = None \<rparr>"
  assume "interpolate_with_fallback doc lookup None = Inr e"
  then obtain refs where "process ?env doc = Inr (e, refs)"
    by (auto simp: interpolate_with_fallback_def and_then_Inr_iff)
  then obtain outs ex where x: "expand_lines (?env \<lparr> ee_fallback := None \<rparr>) 1 None (split_on newline doc) fresh_expansion = Inr (outs, ex)"
    "e = \<lparr> ip_text = document_text doc outs, ip_referenced = ex_referenced ex,
          ip_defaulted = ex_defaulted ex, ip_placeheld = ex_placeheld ex \<rparr>"
    by (auto simp: process_Inr)
  from with_fallback.lines_related [OF x(1), of fresh_expansion fallback]
  show "interpolate_with_fallback doc lookup fallback = Inr e \<and> ip_placeheld e = []"
    using x(2) by (auto simp: interpolate_with_fallback_def and_then_Inr_iff process_Inr)
next
  let ?env = "\<lparr> ee_lookup = lookup, ee_fallback = fallback, ee_prefix = None \<rparr>"
  assume a: "interpolate_with_fallback doc lookup fallback = Inr e \<and> ip_placeheld e = []"
  then obtain refs where "process ?env doc = Inr (e, refs)"
    by (auto simp: interpolate_with_fallback_def and_then_Inr_iff)
  then obtain outs ex where x: "expand_lines ?env 1 None (split_on newline doc) fresh_expansion = Inr (outs, ex)"
    "e = \<lparr> ip_text = document_text doc outs, ip_referenced = ex_referenced ex,
          ip_defaulted = ex_defaulted ex, ip_placeheld = ex_placeheld ex \<rparr>"
    by (auto simp: process_Inr)
  from without_placeholders.lines_related [OF x(1) refl]
  show "interpolate_with_fallback doc lookup None = Inr e"
    using x(2) a by (auto simp: interpolate_with_fallback_def and_then_Inr_iff process_Inr strict_def)
qed

section \<open>Inspection\<close>

text \<open>What an inspection shows of a reference without its value.\<close>

definition same_place :: "variable_reference \<Rightarrow> variable_reference \<Rightarrow> bool" where
  "same_place r1 r2 =
     (vr_name r1 = vr_name r2 \<and> vr_line r1 = vr_line r2 \<and> vr_column r1 = vr_column r2
      \<and> vr_has_default r1 = vr_has_default r2 \<and> vr_marker r1 = vr_marker r2)"

definition same_noted :: "expansion \<Rightarrow> expansion \<Rightarrow> bool" where
  "same_noted ex1 ex2 =
     (ex_referenced ex1 = ex_referenced ex2 \<and> list_all2 same_place (ex_occurrences ex1) (ex_occurrences ex2))"

interpretation inspections: expansion_simulation
    "\<lparr> ee_lookup = lookup1, ee_fallback = None, ee_prefix = Some prefix \<rparr>"
    "\<lparr> ee_lookup = lookup2, ee_fallback = None, ee_prefix = Some prefix \<rparr>"
    same_noted "\<lambda>_. False" for lookup1 lookup2 prefix
  by unfold_locales
    (auto simp: expand_reference_def same_noted_def Let_def occurrence_def same_place_def
      list_all2_lengthD intro!: list_all2_appendI split: prod.splits if_splits)

lemma inspection_value_free:
  assumes "inspect_text doc lookup1 = Inr i1"
  obtains i2 where "inspect_text doc lookup2 = Inr i2" "is_masked i2 = is_masked i1"
    "list_all2 same_place (is_references i1) (is_references i2)"
proof -
  let ?p = "free_prefix (Suc (length doc)) doc ''lagos-vars-placeholder-''"
  let ?env = "\<lambda>lookup. \<lparr> ee_lookup = lookup, ee_fallback = None, ee_prefix = Some ?p \<rparr>"
  obtain e refs where "process (?env lookup1) doc = Inr (e, refs)" "i1 = \<lparr> is_masked = ip_text e, is_references = refs \<rparr>"
    using assms by (auto simp: inspect_text_def and_then_Inr_iff)
  then obtain outs ex where x: "expand_lines (?env lookup1) 1 None (split_on newline doc) fresh_expansion = Inr (outs, ex)"
    "i1 = \<lparr> is_masked = document_text doc outs, is_references = ex_occurrences ex \<rparr>"
    by (auto simp: process_Inr)
  have "same_noted fresh_expansion fresh_expansion" by (simp add: same_noted_def)
  from inspections.lines_related [OF x(1) this, of lookup2] obtain ex2 where
    y: "expand_lines (?env lookup2) 1 None (split_on newline doc) fresh_expansion = Inr (outs, ex2)" "same_noted ex ex2"
    by blast
  then have "inspect_text doc lookup2 = Inr \<lparr> is_masked = document_text doc outs, is_references = ex_occurrences ex2 \<rparr>"
    by (simp add: inspect_text_def process_def and_then_def document_text_def)
  from that [OF this] show thesis using x(2) y(2) by (simp add: same_noted_def)
qed

end
