(* ===== verification/Startup.thy ===== *)
theory Startup
  imports Lifecycle Pools Deadlines Token_Verifiers Policy_Tests Config_Text Expansion
begin

text \<open>
  From files to a running gateway (\<open>config/mod.rs\<close> load and parse, \<open>cli.rs\<close> load and
  validate, \<open>runtime.rs\<close> run): reading and expanding the document, resolving it, loading the
  route table, and the steps of \<open>run\<close> up to the point where the server serves.

  The file system is a map from paths to UTF-8 texts that stays as it is during one command.
  \<open>serde_yaml_ng\<close>, the parsers of the crates, the resolver, the connection to the counter
  store and its answer are parameters.
\<close>

section \<open>Paths\<close>

text \<open>\<open>Path::parent\<close> and \<open>Path::join\<close> of the standard library on Unix: separators and \<open>.\<close>
  components at the end do not count. The text is scanned from its end.\<close>

fun drop_trailing :: "string \<Rightarrow> string" where
  "drop_trailing (c # d # cs) =
     (if c = CHR ''/'' then drop_trailing (d # cs)
      else if c = CHR ''.'' \<and> d = CHR ''/'' then drop_trailing (d # cs)
      else c # d # cs)"
| "drop_trailing cs = cs"

definition path_parent :: "string \<Rightarrow> string option" where
  "path_parent path =
     (let t = drop_trailing (rev path) in
      if t = [] \<or> t = ''/'' then None
      else Some (rev (drop_trailing (dropWhile (\<lambda>c. c \<noteq> CHR ''/'') t))))"

definition is_absolute :: "string \<Rightarrow> bool" where
  "is_absolute path = starts_with ''/'' path"

definition path_join :: "string \<Rightarrow> string \<Rightarrow> string" where
  "path_join dir file =
     (if is_absolute file then file
      else if dir = [] \<or> ends_with ''/'' dir then dir @ file
      else dir @ ''/'' @ file)"

section \<open>The document\<close>

record world =
  wo_disk :: "string \<Rightarrow> string option"
  wo_lookup :: "string \<Rightarrow> string option"
  wo_parse_config :: "string \<Rightarrow> (gateway_config, (nat \<times> nat) option \<times> string) result"
  wo_parse_routes :: "string \<Rightarrow> (route_groups, string) result"
  wo_crates :: config_env
  wo_shared_feature :: bool

datatype config_failure =
    ReadFailed string
  | NotExpanded string interpolate_error
  | NotParsed string string string
  | Unsound config_error

definition from_expanded :: "world \<Rightarrow> string \<Rightarrow> interpolated \<Rightarrow> (gateway_config \<times> interpolated, config_failure) result" where
  "from_expanded w path expanded =
     (case wo_parse_config w (ip_text expanded) of
        Inl (location, message) \<Rightarrow>
          Inl (NotParsed path
                 (case location of Some (l, c) \<Rightarrow> '':'' @ show_nat l @ '':'' @ show_nat c | None \<Rightarrow> [])
                 (strip_position message))
      | Inr cfg \<Rightarrow> Inr (cfg, expanded))"

definition parse_with_fallback ::
  "world \<Rightarrow> string \<Rightarrow> string \<Rightarrow> (string \<Rightarrow> string) option \<Rightarrow> (gateway_config \<times> interpolated, config_failure) result" where
  "parse_with_fallback w path text fallback =
     and_then (map_err (NotExpanded path) (interpolate_with_fallback text (wo_lookup w) fallback))
       (from_expanded w path)"

definition resolve_route_file_against :: "string \<Rightarrow> gateway_config \<Rightarrow> gateway_config" where
  "resolve_route_file_against config_path c =
     (case gc_routes_file c of
        None \<Rightarrow> c
      | Some file \<Rightarrow>
          if is_absolute file then c
          else case path_parent config_path of
                 None \<Rightarrow> c
               | Some dir \<Rightarrow> c \<lparr> gc_routes_file := Some (path_join dir file) \<rparr>)"

definition config_load ::
  "world \<Rightarrow> string \<Rightarrow> (string \<Rightarrow> string) option \<Rightarrow> (gateway_config \<times> interpolated, config_failure) result" where
  "config_load w path fallback =
     (case wo_disk w path of
        None \<Rightarrow> Inl (ReadFailed path)
      | Some text \<Rightarrow>
          and_then (parse_with_fallback w path text fallback) (\<lambda>(cfg, expanded).
          Inr (resolve_route_file_against path cfg, expanded)))"

section \<open>The route table\<close>

definition world_surroundings :: "world \<Rightarrow> surroundings" where
  "world_surroundings w = \<lparr> su_lookup = wo_lookup w, su_parse = wo_parse_routes w \<rparr>"

text \<open>What validation reads of the resolved document.\<close>

definition validation_env :: "world \<Rightarrow> resolved_config \<Rightarrow> route_env" where
  "validation_env w v =
     \<lparr> ev_upstreams = dom (rv_upstreams v), ev_trusted_proxy_ips = rv_trusted_proxy_ips v,
       ev_shared_counters = gc_shared_counters (rv_raw v), ev_shared_feature = wo_shared_feature w,
       ev_cache = (gc_cache (rv_raw v) \<noteq> None), ev_client_keys = (rv_client_keys v \<noteq> None),
       ev_machine = (rv_machine_secret v \<noteq> None),
       ev_internal_listen = (sv_internal_listen (gc_server (rv_raw v)) \<noteq> None) \<rparr>"

definition file_provider_of ::
  "resolved_config \<Rightarrow> string \<Rightarrow> (string \<Rightarrow> string) option \<Rightarrow> shared_counter_factory option \<Rightarrow> file_provider" where
  "file_provider_of v file fallback shared =
     \<lparr> fp_path = file, fp_defaults = gc_defaults (rv_raw v), fp_unset_fallback = fallback, fp_shared = shared \<rparr>"

definition provider_load ::
  "world \<Rightarrow> (duration \<Rightarrow> 'r) \<Rightarrow> resolved_config \<Rightarrow> (string \<Rightarrow> string) option \<Rightarrow> shared_counter_factory option \<Rightarrow>
   (route_table, lifecycle_error) result \<times> 'r limiter list" where
  "provider_load w rate_new v fallback shared =
     (case gc_routes_file (rv_raw v) of
        Some file \<Rightarrow> file_load (world_surroundings w) rate_new (file_provider_of v file fallback shared)
                       (wo_disk w file) 0 []
      | None \<Rightarrow>
          (let (t, heap) = inline_load rate_new
                 \<lparr> np_groups = gc_routes (rv_raw v), np_defaults = gc_defaults (rv_raw v), np_shared = shared \<rparr> 0 [] in
           (Inr t, heap)))"

section \<open>The commands\<close>

datatype start_failure =
    BadDocument config_failure
  | RoutesDependOnUnset
  | BadRoutes lifecycle_error
  | BadUpstreams start_error
  | BadCounterStore string
  | BadProviders string
  | NotRegistered "string set"

text \<open>A route file named through a placeholder would be looked for under a name that nobody
  wrote.\<close>

definition depends_on_unset :: "gateway_config \<Rightarrow> interpolated \<Rightarrow> bool" where
  "depends_on_unset raw expanded =
     (case gc_routes_file raw of
        Some file \<Rightarrow> list_ex (\<lambda>name. contains_str (unset_placeholder name) file) (ip_placeheld expanded)
      | None \<Rightarrow> False)"

text \<open>\<open>load_with_fallback\<close> of the command line, whose tables have no counter store.\<close>

definition cli_load ::
  "world \<Rightarrow> (duration \<Rightarrow> 'r) \<Rightarrow> string \<Rightarrow> (string \<Rightarrow> string) option \<Rightarrow>
   ((resolved_config \<times> interpolated) \<times> route_table, start_failure) result" where
  "cli_load w rate_new path fallback =
     and_then (map_err BadDocument (config_load w path fallback)) (\<lambda>(raw, expanded).
     and_then (ensure (\<not> depends_on_unset raw expanded) RoutesDependOnUnset) (\<lambda>_.
     and_then (map_err (BadDocument \<circ> Unsound) (resolve (wo_crates w) raw)) (\<lambda>v.
     and_then (map_err BadRoutes (fst (provider_load w rate_new v fallback None))) (\<lambda>t.
     and_then (map_err (BadRoutes \<circ> NotValid) (validate_table (validation_env w v) t)) (\<lambda>_.
     Inr ((v, expanded), t))))))"

text \<open>\<open>placeheld_in_both\<close>: the route file is read again for the names it left unset; one that
  cannot be read is reported and adds none.\<close>

definition placeheld_in_both ::
  "world \<Rightarrow> resolved_config \<Rightarrow> interpolated \<Rightarrow> (string \<Rightarrow> string) option \<Rightarrow> string list" where
  "placeheld_in_both w v expanded fallback =
     (case (gc_routes_file (rv_raw v), fallback) of
        (Some file, Some f) \<Rightarrow>
          (case wo_disk w file of
             None \<Rightarrow> ip_placeheld expanded
           | Some text \<Rightarrow>
               (case interpolate_with_fallback text (wo_lookup w) (Some f) of
                  Inl _ \<Rightarrow> ip_placeheld expanded
                | Inr e \<Rightarrow> fold (\<lambda>name names. note_name names name) (ip_placeheld e) (ip_placeheld expanded)))
      | _ \<Rightarrow> ip_placeheld expanded)"

text \<open>\<open>validate\<close>: the names of registered extensions come from the registry, or from a list that
  needs no setup. The result is what the report is printed from.\<close>

definition validate_command ::
  "world \<Rightarrow> (duration \<Rightarrow> 'r) \<Rightarrow> string set \<Rightarrow> string \<Rightarrow> bool \<Rightarrow>
   (resolved_config \<times> route_table \<times> string list, start_failure) result" where
  "validate_command w rate_new available path allow_unset =
     (let fallback = (if allow_unset then Some unset_placeholder else None) in
      and_then (cli_load w rate_new path fallback) (\<lambda>((v, expanded), t).
      let missing = set (extension_names t) - available in
      and_then (ensure (missing = {}) (NotRegistered missing)) (\<lambda>_.
      Inr (v, t, placeheld_in_both w v expanded fallback))))"

text \<open>What \<open>run\<close> takes from outside beside the files.\<close>

record 'k boot_env =
  bt_pools :: pool_env
  bt_ready :: bool
  bt_lookup :: "string \<Rightarrow> lookup"
  bt_connect :: "shared_counters_config \<Rightarrow> (shared_counter_factory, string) result"
  bt_answer :: probe_answer
  bt_tokens :: "'k token_env"
  bt_now :: instant

definition configured_upstreams :: "resolved_config \<Rightarrow> (string \<times> upstream_config) list" where
  "configured_upstreams v =
     List.map_filter (\<lambda>(name, _). map_option (Pair name) (rv_upstreams v name)) (gc_upstreams (rv_raw v))"

text \<open>A build without the \<open>shared-limits\<close> feature has no counter store to connect to.\<close>

definition shared_counter_factory_of ::
  "world \<Rightarrow> 'k boot_env \<Rightarrow> resolved_config \<Rightarrow> (shared_counter_factory option, string) result" where
  "shared_counter_factory_of w b v =
     (case gc_shared_counters (rv_raw v) of
        None \<Rightarrow> Inr None
      | Some sc \<Rightarrow>
          if wo_shared_feature w
          then and_then (map_err (\<lambda>e. ''shared_counters: '' @ e) (bt_connect b sc)) (\<lambda>f. Inr (Some f))
          else Inr None)"

definition reloader_of ::
  "world \<Rightarrow> (duration \<Rightarrow> 'r) \<Rightarrow> registry \<Rightarrow> resolved_config \<Rightarrow> shared_counter_factory option \<Rightarrow> 'r reloader" where
  "reloader_of w rate_new exts v shared =
     \<lparr> re_provider = file_provider_of v (case gc_routes_file (rv_raw v) of Some f \<Rightarrow> f | None \<Rightarrow> []) None shared,
       re_config = validation_env w v, re_extensions = exts, re_shared = shared,
       re_rate_new = rate_new, re_surroundings = world_surroundings w \<rparr>"

record 'r running =
  rn_config :: resolved_config
  rn_upstreams :: "string \<rightharpoonup> built_upstream"
  rn_tables :: "'r reload_state"
  rn_gateways :: "gateway \<times> gateway option"
  rn_listeners :: "'r listener list"
  rn_services :: "string list"
  rn_conf :: server_conf
  rn_deadlines :: deadline_proxy
  rn_keepalive_limit :: "nat option"

text \<open>The services \<open>run\<close> registers, after those of the pools; metrics and tracing are left
  out.\<close>

definition registered_services :: "resolved_config \<Rightarrow> string list \<Rightarrow> shared_counter_factory option \<Rightarrow> string list" where
  "registered_services v health shared =
     health @ [''Lagos public proxy'']
     @ (if sv_internal_listen (gc_server (rv_raw v)) = None then [] else [''Lagos internal proxy''])
     @ (if gc_routes_file (rv_raw v) = None then [] else [''route-reloader''])
     @ (if shared = None then [] else [''shared-limit-sync''])"

definition run_gateway ::
  "world \<Rightarrow> 'k boot_env \<Rightarrow> (duration \<Rightarrow> 'r) \<Rightarrow> (nat \<times> string) option \<Rightarrow> registry \<Rightarrow> string \<Rightarrow>
   ('r running, start_failure) result" where
  "run_gateway w b rate_new stat exts path =
     and_then (map_err BadDocument (config_load w path None)) (\<lambda>(raw, _).
     and_then (map_err (BadDocument \<circ> Unsound) (resolve (wo_crates w) raw)) (\<lambda>v.
     and_then (map_err BadUpstreams
         (resolve_all (bt_pools b) (bt_ready b) (bt_lookup b) (bt_now b) (configured_upstreams v) (Map.empty, [])))
       (\<lambda>(upstreams, health).
     and_then (map_err BadCounterStore (shared_counter_factory_of w b v)) (\<lambda>shared.
     let (loaded, heap) = provider_load w rate_new v None shared in
     and_then (map_err BadRoutes (boot_tables (reloader_of w rate_new exts v shared) (bt_answer b) stat loaded heap))
       (\<lambda>tables.
     and_then (map_err BadProviders (build_verifier (bt_tokens b) v)) (\<lambda>verifier.
     Inr \<lparr> rn_config = v, rn_upstreams = upstreams, rn_tables = tables,
           rn_gateways = listener_gateways v (dom upstreams) verifier exts tables,
           rn_listeners = map (\<lambda>addr. add_listener rate_new addr raw)
             (sv_listen (gc_server raw) # (case sv_internal_listen (gc_server raw) of None \<Rightarrow> [] | Some a \<Rightarrow> [a])),
           rn_services = registered_services v health shared,
           rn_conf = server_conf raw,
           rn_deadlines = with_request_deadline (to_request_total (gc_timeouts raw))
             (deadline_proxy_new (to_downstream_read (gc_timeouts raw))),
           rn_keepalive_limit = downstream_keepalive_limit raw \<rparr>))))))"

section \<open>Checking is running\<close>

lemma resolve_raw: "resolve env c = Inr v \<Longrightarrow> rv_raw v = c"
  by (auto simp: resolve_def and_then_Inr_iff)

text \<open>The policy of a table does not depend on the counter store it is built for.\<close>

lemma resolve_route_store:
  assumes "resolve_route rate_new shared r heap = (r1, e1, h1)"
    and "resolve_route rate_new shared' r heap' = (r2, e2, h2)"
  shows "route_policy r1 = route_policy r2 \<and> e1 = e2"
  using assms
  by (auto simp: resolve_route_def route_policy_def Let_def split: option.splits prod.splits if_splits)

lemma resolve_routes_store:
  "resolve_routes rate_new shared rs heap = (rs1, e1, h1) \<Longrightarrow>
   resolve_routes rate_new shared' rs heap' = (rs2, e2, h2) \<Longrightarrow>
   map route_policy rs1 = map route_policy rs2 \<and> e1 = e2"
proof (induction rs arbitrary: heap heap' rs1 rs2 e1 e2 h1 h2)
  case (Cons r rs)
  then show ?case
    by (simp split: prod.splits) (metis resolve_route_store list.simps(9))
qed simp

lemma build_with_store:
  "table_policy (fst (build_with rate_new ns groups defaults shared heap))
     = table_policy (fst (build_with rate_new ns' groups defaults shared' heap'))"
proof -
  obtain rs e h where a: "resolve_routes rate_new shared
      (map (\<lambda>r. derive_names (inherit_defaults defaults r)) (tiered_routes groups)) heap = (rs, e, h)"
    by (metis prod_cases3)
  obtain rs' e' h' where b: "resolve_routes rate_new shared'
      (map (\<lambda>r. derive_names (inherit_defaults defaults r)) (tiered_routes groups)) heap' = (rs', e', h')"
    by (metis prod_cases3)
  have "map route_policy rs = map route_policy rs' \<and> e = e'"
    by (rule resolve_routes_store [OF a b])
  then show ?thesis by (simp add: build_with_def a b table_policy_def map_sort_key)
qed

lemma provider_load_store:
  assumes "fst (provider_load w rate_new v fallback shared) = Inr t"
  shows "\<exists>t'. fst (provider_load w rate_new v fallback shared') = Inr t' \<and> table_policy t' = table_policy t"
proof (cases "gc_routes_file (rv_raw v)")
  case None
  then show ?thesis
    using assms build_with_store [of rate_new 0 "gc_routes (rv_raw v)" "gc_defaults (rv_raw v)" shared' "[]" 0 shared "[]"]
    by (auto simp: provider_load_def inline_load_def split: prod.splits)
next
  case (Some f)
  then obtain doc groups where g: "wo_disk w f = Some doc"
    "file_groups (world_surroundings w) (file_provider_of v f fallback shared) doc = Inr groups"
    using assms by (auto simp: provider_load_def file_load_def split: option.splits sum.splits)
  then have "file_groups (world_surroundings w) (file_provider_of v f fallback shared') doc = Inr groups"
    by (simp add: file_groups_def file_provider_of_def)
  then show ?thesis
    using assms Some g build_with_store [of rate_new 0 groups "gc_defaults (rv_raw v)" shared' "[]" 0 shared "[]"]
    by (auto simp: provider_load_def file_load_def file_provider_of_def split: prod.splits)
qed

lemma checks_of_policy:
  "validate_table env (table_policy t) = validate_table env t"
  "extension_names (table_policy t) = extension_names t"
  "verify_shared_counters answer (table_policy t) = verify_shared_counters answer t"
  by (simp add: validate_table_def table_policy_def split: list.splits)
    (simp_all add: extension_names_def table_policy_def o_def verify_shared_counters_def uses_shared_def
      uses_exact_def list_ex_iff Let_def)

lemma same_policy_checks:
  assumes "table_policy t = table_policy t'"
  shows "validate_table env t = validate_table env t'" "extension_names t = extension_names t'"
    "verify_shared_counters answer t = verify_shared_counters answer t'"
  by (metis assms checks_of_policy)+

text \<open>What only \<open>run\<close> finds out: names that do not resolve, a counter store that does not answer
  as the routes need, and two token providers that claim one issuer.\<close>

definition runtime_checks :: "world \<Rightarrow> 'k boot_env \<Rightarrow> resolved_config \<Rightarrow> route_table \<Rightarrow> bool" where
  "runtime_checks w b v t =
     (is_ok (resolve_all (bt_pools b) (bt_ready b) (bt_lookup b) (bt_now b) (configured_upstreams v) (Map.empty, []))
      \<and> (case shared_counter_factory_of w b v of
           Inl _ \<Rightarrow> False
         | Inr None \<Rightarrow> True
         | Inr (Some _) \<Rightarrow> verify_shared_counters (bt_answer b) t = Inr ())
      \<and> is_ok (build_verifier (bt_tokens b) v))"

lemma validate_Inr:
  "validate_command w rate_new (dom exts) path False = Inr (v, t, names) \<longleftrightarrow>
     (\<exists>raw expanded. config_load w path None = Inr (raw, expanded) \<and> \<not> depends_on_unset raw expanded
        \<and> resolve (wo_crates w) raw = Inr v \<and> fst (provider_load w rate_new v None None) = Inr t
        \<and> validate_table (validation_env w v) t = Inr () \<and> ext_validate exts t
        \<and> names = ip_placeheld expanded)"
proof -
  have m: "set (extension_names t) \<subseteq> dom exts \<longleftrightarrow> ext_validate exts t" for t
    by (auto simp: ext_validate_def ext_missing_def)
  have p: "placeheld_in_both w v expanded None = ip_placeheld expanded" for expanded
    by (simp add: placeheld_in_both_def split: option.splits)
  show ?thesis by (auto simp: validate_command_def cli_load_def and_then_Inr_iff Let_def m p)
qed

lemma parse_with_fallback_Inr:
  "parse_with_fallback w path doc fallback = Inr (c, e) \<longleftrightarrow>
     interpolate_with_fallback doc (wo_lookup w) fallback = Inr e \<and> wo_parse_config w (ip_text e) = Inr c"
proof -
  have "from_expanded w path e' = Inr (c, e) \<longleftrightarrow> e' = e \<and> wo_parse_config w (ip_text e) = Inr c" for e'
    by (auto simp: from_expanded_def split: sum.splits)
  then show ?thesis by (auto simp: parse_with_fallback_def and_then_Inr_iff)
qed

lemma config_load_strict:
  "config_load w path None = Inr (raw, e) \<longleftrightarrow> config_load w path fallback = Inr (raw, e) \<and> ip_placeheld e = []"
  using interpolate_strict_iff [of _ "wo_lookup w" e fallback]
  by (auto simp: config_load_def and_then_Inr_iff parse_with_fallback_Inr split: option.splits)

lemma strict_needs_no_place: "config_load w path None = Inr (raw, e) \<Longrightarrow> \<not> depends_on_unset raw e"
  using config_load_strict [of w path raw e None] by (simp add: depends_on_unset_def split: option.splits)

lemma boot_tables_is_ok:
  "is_ok (boot_tables re answer file (Inr t) heap) \<longleftrightarrow>
     validate_table (re_config re) t = Inr () \<and> (re_shared re = None \<or> verify_shared_counters answer t = Inr ())
     \<and> ext_validate (re_extensions re) t"
  by (auto simp: is_ok_iff boot_tables_def and_then_Inr_iff split: prod.splits)

lemma boot_tables_serves:
  assumes "boot_tables re answer file loaded heap = Inr s"
  obtains t where "loaded = Inr t" "serves s t"
  using assms that by (auto simp: boot_tables_def and_then_Inr_iff serves_def split_beta)

lemma run_Inr:
  assumes "run_gateway w b rate_new stat exts path = Inr r"
  obtains raw e upstreams health shared t heap where
    "config_load w path None = Inr (raw, e)" "resolve (wo_crates w) raw = Inr (rn_config r)"
    "resolve_all (bt_pools b) (bt_ready b) (bt_lookup b) (bt_now b) (configured_upstreams (rn_config r)) (Map.empty, [])
       = Inr (upstreams, health)"
    "shared_counter_factory_of w b (rn_config r) = Inr shared"
    "provider_load w rate_new (rn_config r) None shared = (Inr t, heap)"
    "boot_tables (reloader_of w rate_new exts (rn_config r) shared) (bt_answer b) stat (Inr t) heap = Inr (rn_tables r)"
    "is_ok (build_verifier (bt_tokens b) (rn_config r))"
proof -
  obtain raw e v upstreams health shared loaded heap tables verifier where s:
    "config_load w path None = Inr (raw, e)" "resolve (wo_crates w) raw = Inr v"
    "resolve_all (bt_pools b) (bt_ready b) (bt_lookup b) (bt_now b) (configured_upstreams v) (Map.empty, []) = Inr (upstreams, health)"
    "shared_counter_factory_of w b v = Inr shared" "provider_load w rate_new v None shared = (loaded, heap)"
    "boot_tables (reloader_of w rate_new exts v shared) (bt_answer b) stat loaded heap = Inr tables"
    "build_verifier (bt_tokens b) v = Inr verifier" "rn_config r = v" "rn_tables r = tables"
    using assms by (auto simp: run_gateway_def and_then_Inr_iff split_beta Let_def prod_eq_iff)
  then obtain t where "loaded = Inr t" by (auto simp: boot_tables_def and_then_Inr_iff)
  then show thesis using that [OF s(1) _ _ _ _ _ _] s(2-) by (simp add: is_ok_iff)
qed

lemma run_validates:
  assumes "run_gateway w b rate_new stat exts path = Inr r"
  shows "\<exists>t names. validate_command w rate_new (dom exts) path False = Inr (rn_config r, t, names)
    \<and> runtime_checks w b (rn_config r) t \<and> serves (rn_tables r) t"
proof -
  obtain raw e upstreams health shared t heap where s:
    "config_load w path None = Inr (raw, e)" "resolve (wo_crates w) raw = Inr (rn_config r)"
    "resolve_all (bt_pools b) (bt_ready b) (bt_lookup b) (bt_now b) (configured_upstreams (rn_config r)) (Map.empty, [])
       = Inr (upstreams, health)"
    "shared_counter_factory_of w b (rn_config r) = Inr shared"
    "provider_load w rate_new (rn_config r) None shared = (Inr t, heap)"
    "boot_tables (reloader_of w rate_new exts (rn_config r) shared) (bt_answer b) stat (Inr t) heap = Inr (rn_tables r)"
    "is_ok (build_verifier (bt_tokens b) (rn_config r))"
    using run_Inr [OF assms] .
  obtain t' where t': "fst (provider_load w rate_new (rn_config r) None None) = Inr t'" "table_policy t' = table_policy t"
    using provider_load_store [of w rate_new "rn_config r" None shared t None] s(5) by auto
  note same = same_policy_checks [OF t'(2)]
  have "is_ok (boot_tables (reloader_of w rate_new exts (rn_config r) shared) (bt_answer b) stat (Inr t) heap)"
    using s(6) by (simp add: is_ok_iff)
  then have c: "validate_table (validation_env w (rn_config r)) t = Inr ()"
      "shared = None \<or> verify_shared_counters (bt_answer b) t = Inr ()" "ext_validate exts t"
    unfolding boot_tables_is_ok by (simp_all add: reloader_of_def)
  have "serves (rn_tables r) t'"
    using boot_tables_serves [OF s(6)] t'(2) serves_policy [of "rn_tables r"] by (metis Inr_inject)
  moreover have "validate_command w rate_new (dom exts) path False = Inr (rn_config r, t', ip_placeheld e)"
    using s(1,2) t'(1) c strict_needs_no_place [OF s(1)] same by (auto simp: validate_Inr ext_validate_def)
  moreover have "runtime_checks w b (rn_config r) t'"
    using s(3,4,7) c(2) same by (auto simp: runtime_checks_def split: option.splits)
  ultimately show ?thesis by blast
qed

lemma validate_runs:
  assumes "validate_command w rate_new (dom exts) path False = Inr (v, t, names)" "runtime_checks w b v t"
  shows "\<exists>r. run_gateway w b rate_new stat exts path = Inr r"
proof -
  obtain raw e where s: "config_load w path None = Inr (raw, e)" "resolve (wo_crates w) raw = Inr v"
    "fst (provider_load w rate_new v None None) = Inr t" "validate_table (validation_env w v) t = Inr ()"
    "ext_validate exts t"
    using assms(1) by (auto simp: validate_Inr)
  obtain ups shared verifier where c:
    "resolve_all (bt_pools b) (bt_ready b) (bt_lookup b) (bt_now b) (configured_upstreams v) (Map.empty, []) = Inr ups"
    "shared_counter_factory_of w b v = Inr shared" "shared = None \<or> verify_shared_counters (bt_answer b) t = Inr ()"
    "build_verifier (bt_tokens b) v = Inr verifier"
    using assms(2) by (auto simp: runtime_checks_def is_ok_iff split: sum.splits option.splits)
  obtain t' heap where t': "provider_load w rate_new v None shared = (Inr t', heap)" "table_policy t' = table_policy t"
    using provider_load_store [OF s(3), of shared] by (metis prod.collapse)
  note same = same_policy_checks [OF t'(2)]
  have "is_ok (boot_tables (reloader_of w rate_new exts v shared) (bt_answer b) stat (Inr t') heap)"
    unfolding boot_tables_is_ok using s(4,5) c(3) same by (auto simp: reloader_of_def ext_validate_def)
  then obtain tables where "boot_tables (reloader_of w rate_new exts v shared) (bt_answer b) stat (Inr t') heap = Inr tables"
    by (auto simp: is_ok_iff)
  then show ?thesis
    using s(1,2) c t'(1) by (cases ups) (simp add: run_gateway_def map_err_def and_then_def)
qed

lemma fold_note_names: "fold (\<lambda>name names. note_name names name) xs ys = [] \<longleftrightarrow> xs = [] \<and> ys = []"
proof (induction xs arbitrary: ys)
  case (Cons x xs)
  then show ?case by (metis fold_simps(2) list.distinct(1) note_name_ne)
qed simp

lemma nothing_placeheld:
  assumes "placeheld_in_both w v e (Some f) = []" "fst (provider_load w rate_new v (Some f) shared) = Inr t"
  shows "ip_placeheld e = [] \<and> fst (provider_load w rate_new v None shared) = Inr t"
proof (cases "gc_routes_file (rv_raw v)")
  case None
  then show ?thesis using assms by (simp add: placeheld_in_both_def provider_load_def split: prod.splits)
next
  case (Some path)
  let ?su = "world_surroundings w" and ?fp = "\<lambda>fallback. file_provider_of v path fallback shared"
  obtain doc groups where g: "wo_disk w path = Some doc" "file_groups ?su (?fp (Some f)) doc = Inr groups"
    using assms(2) Some by (auto simp: provider_load_def file_load_def split: option.splits sum.splits)
  then obtain ip where i: "interpolate_with_fallback doc (wo_lookup w) (Some f) = Inr ip"
    by (auto simp: file_groups_def file_provider_of_def world_surroundings_def and_then_Inr_iff)
  then have p: "ip_placeheld ip = []" "ip_placeheld e = []"
    using assms(1) Some g(1) by (simp_all add: placeheld_in_both_def fold_note_names)
  then have "interpolate_with_fallback doc (wo_lookup w) None = Inr ip"
    using i interpolate_strict_iff by blast
  then have "file_groups ?su (?fp None) doc = file_groups ?su (?fp (Some f)) doc"
    using i by (simp add: file_groups_def file_provider_of_def world_surroundings_def)
  then show ?thesis
    using assms(2) Some g p(2)
    by (simp add: provider_load_def file_load_def file_provider_of_def)
qed

text \<open>Nothing in \<open>validate\<close> looks at the issuers together: a document in which two providers claim
  one issuer passes the check and never starts.\<close>

theorem started_issuers_distinct:
  assumes "run_gateway w b rate_new stat exts path = Inr r"
  shows "distinct (map jw_issuer (au_jwt (gc_auth (rv_raw (rn_config r)))))"
proof -
  have "is_ok (build_verifier (bt_tokens b) (rn_config r))" using run_Inr [OF assms] by metis
  then obtain router0 router where
    "register_jwts (bt_tokens b) (au_jwt (gc_auth (rv_raw (rn_config r)))) router0 = Inr router"
    by (auto simp: is_ok_iff build_verifier_def Let_def and_then_Inr_iff)
  then show ?thesis using register_jwts_Inr by blast
qed

section \<open>Properties\<close>

text \<open>C15: a check predicts the start. \<open>lagos run\<close> starts exactly when \<open>lagos validate\<close> accepts the
  same files and the three things it cannot know hold (names resolve, the counter store can do
  what the routes ask, no issuer is claimed twice); and then both listeners serve the policy of
  the table that was checked, under the configuration that was checked.\<close>

theorem validate_predicts_run:
  "(is_ok (run_gateway w b rate_new stat exts path) \<longleftrightarrow>
      (\<exists>v t names. validate_command w rate_new (dom exts) path False = Inr (v, t, names) \<and> runtime_checks w b v t))
   \<and> (\<forall>r v t names. run_gateway w b rate_new stat exts path = Inr r \<and>
        validate_command w rate_new (dom exts) path False = Inr (v, t, names) \<longrightarrow>
        rn_config r = v \<and> serves (rn_tables r) t)"
proof -
  have "rn_config r = v \<and> serves (rn_tables r) t"
    if "run_gateway w b rate_new stat exts path = Inr r"
      "validate_command w rate_new (dom exts) path False = Inr (v, t, names)" for r v t names
    using run_validates [OF that(1)] that(2) by auto
  moreover have "is_ok (run_gateway w b rate_new stat exts path) \<longleftrightarrow>
      (\<exists>v t names. validate_command w rate_new (dom exts) path False = Inr (v, t, names) \<and> runtime_checks w b v t)"
    unfolding is_ok_iff using run_validates validate_runs by metis
  ultimately show ?thesis by blast
qed

text \<open>C24: a check without the production environment hides nothing. When \<open>validate --allow-unset\<close>
  accepts and lists no variable as unchecked, plain \<open>validate\<close> accepts the same document and
  table; so whatever it leaves open is on its list.\<close>

theorem unset_report_complete:
  assumes "validate_command w rate_new available path True = Inr (v, t, [])"
  shows "validate_command w rate_new available path False = Inr (v, t, [])"
proof -
  obtain raw e where s: "config_load w path (Some unset_placeholder) = Inr (raw, e)"
    "resolve (wo_crates w) raw = Inr v" "fst (provider_load w rate_new v (Some unset_placeholder) None) = Inr t"
    "validate_table (validation_env w v) t = Inr ()" "set (extension_names t) \<subseteq> available"
    "placeheld_in_both w v e (Some unset_placeholder) = []"
    using assms by (auto simp: validate_command_def cli_load_def and_then_Inr_iff Let_def)
  have p: "ip_placeheld e = []" "fst (provider_load w rate_new v None None) = Inr t"
    using nothing_placeheld [OF s(6,3)] by simp_all
  then have c: "config_load w path None = Inr (raw, e)" using config_load_strict s(1) by blast
  have "placeheld_in_both w v e None = []"
    using p(1) by (simp add: placeheld_in_both_def split: option.splits)
  then show ?thesis
    using s(2,4,5) p(2) c strict_needs_no_place [OF c]
    by (simp add: validate_command_def cli_load_def map_err_def and_then_def ensure_def)
qed

text \<open>The sample document of \<open>Gateway_Config\<close>, with its routes inline, checked and started.\<close>

definition sample_world :: world where
  "sample_world =
     \<lparr> wo_disk = [''gateway.yml'' \<mapsto> ''doc''], wo_lookup = Map.empty,
       wo_parse_config = (\<lambda>_. Inr (sample_gateway_config ''s3cret'')), wo_parse_routes = (\<lambda>_. Inl ''none''),
       wo_crates = sample_config_env, wo_shared_feature = False \<rparr>"

definition sample_boot_env :: "nat boot_env" where
  "sample_boot_env =
     \<lparr> bt_pools = sample_pool_env \<lparr> pe_uri_parse := sample_uri_parse \<rparr>, bt_ready = False,
       bt_lookup = (\<lambda>_. LookupTimedOut), bt_connect = (\<lambda>_. Inl ''refused''),
       bt_answer = Inr (''s'', True), bt_tokens = sample_token_env, bt_now = 0 \<rparr>"

lemma sample_loads:
  "config_load sample_world ''gateway.yml'' fallback =
     Inr (sample_gateway_config ''s3cret'',
          \<lparr> ip_text = ''doc'', ip_referenced = [], ip_defaulted = [], ip_placeheld = [] \<rparr>)"
proof -
  have "interpolate_with_fallback ''doc'' Map.empty None
      = Inr \<lparr> ip_text = ''doc'', ip_referenced = [], ip_defaulted = [], ip_placeheld = [] \<rparr>"
    by code_simp
  then have "interpolate_with_fallback ''doc'' Map.empty fallback
      = Inr \<lparr> ip_text = ''doc'', ip_referenced = [], ip_defaulted = [], ip_placeheld = [] \<rparr>"
    using interpolate_strict_iff by blast
  then show ?thesis
    by (simp add: config_load_def sample_world_def parse_with_fallback_def from_expanded_def map_err_def
        resolve_route_file_against_def sample_gateway_config_def)
qed

lemma sample_provider_loads:
  "provider_load sample_world (\<lambda>_. ()) (sample_resolved ''s3cret'') fallback None = (Inr valid_table, [])"
  by (simp add: provider_load_def sample_resolved_def sample_gateway_config_def inline_load_def valid_table_build)

lemma sample_table_valid: "validate_table (validation_env sample_world (sample_resolved ''s3cret'')) valid_table = Inr ()"
  using valid_table_routes
  by (simp add: validate_table_def validate_routes_def check_route_def ensure_def validation_env_def
      plain_route_def route_from_def sample_input_def flatten_def conflicting_routes_def check_cache_def
      is_machine_def verifies_def sample_resolved_def sample_gateway_config_def sample_world_def sample_server_def
      check_client_key_def)

lemma sample_table_extensions: "extension_names valid_table = []"
  using valid_table_routes
  by (simp add: extension_names_def plain_route_def route_from_def sample_input_def flatten_def)

lemma sample_validates:
  "validate_command sample_world (\<lambda>_. ()) (dom Map.empty) ''gateway.yml'' allow =
     Inr (sample_resolved ''s3cret'', valid_table, [])"
  using sample_loads sample_config_resolves [of "''s3cret''"] sample_provider_loads sample_table_valid
    sample_table_extensions
  by (simp add: validate_command_def cli_load_def map_err_def depends_on_unset_def sample_gateway_config_def
      placeheld_in_both_def sample_resolved_def ensure_def sample_world_def)

lemma sample_upstreams_resolve:
  "is_ok (resolve_all (bt_pools sample_boot_env) False look 0 (configured_upstreams (sample_resolved ''s3cret'')) (Map.empty, []))"
proof -
  have "is_ok (target_parse sample_uri_parse ''http://users'')"
    by (simp add: target_parse_def sample_uri_parse_def Let_def)
  then show ?thesis
    by (auto simp: is_ok_iff configured_upstreams_def sample_resolved_def sample_gateway_config_def
        List.map_filter_def build_upstream_def is_pool_def resolved_users_def sample_users_def map_err_def
        sample_boot_env_def)
qed

theorem validate_predicts_run_witness:
  "\<exists>r. run_gateway sample_world sample_boot_env (\<lambda>_. ()) None Map.empty ''gateway.yml'' = Inr r
     \<and> rn_config r = sample_resolved ''s3cret'' \<and> serves (rn_tables r) valid_table"
proof -
  have "runtime_checks sample_world sample_boot_env (sample_resolved ''s3cret'') valid_table"
  proof -
    have "shared_counter_factory_of sample_world sample_boot_env (sample_resolved ''s3cret'') = Inr None"
      by (simp add: shared_counter_factory_of_def sample_resolved_def sample_gateway_config_def)
    moreover have "is_ok (build_verifier sample_token_env (sample_resolved ''s3cret''))"
      by (simp add: is_ok_iff build_verifier_def sample_resolved_def sample_gateway_config_def sample_auth_def
          map_err_def and_then_def)
    ultimately show ?thesis
      using sample_upstreams_resolve by (simp add: runtime_checks_def sample_boot_env_def)
  qed
  then show ?thesis
    using validate_predicts_run [of sample_world sample_boot_env "\<lambda>_. ()" None Map.empty "''gateway.yml''"]
      sample_validates [of False] unfolding is_ok_iff by blast
qed

theorem unset_report_complete_witness:
  "validate_command sample_world (\<lambda>_. ()) {} ''gateway.yml'' False = Inr (sample_resolved ''s3cret'', valid_table, [])"
  by (rule unset_report_complete) (use sample_validates [of True] in simp)

end
