(* ===== verification/Dev_Supervisor.thy ===== *)
theory Dev_Supervisor
  imports Startup
begin

text \<open>
  The supervisor of \<open>lagos dev\<close> (\<open>cli.rs\<close>): a child that runs the gateway, replaced when the
  document changes. The child is what \<open>run\<close> makes of the files when it is spawned; edits and the
  end of a child come at any time. What it prints is left out.
\<close>

section \<open>The loop\<close>

record 'r dev =
  dv_world :: world
  dv_mtime :: "nat option"
  dv_last :: "nat option"
  dv_child :: "('r running, start_failure option) result option"
  dv_exited :: bool

text \<open>What is checked once, before the first child.\<close>

definition dev_start ::
  "(duration \<Rightarrow> 'r) \<Rightarrow> registry \<Rightarrow> string \<Rightarrow> world \<Rightarrow> nat option \<Rightarrow> ('r dev, start_failure) result" where
  "dev_start rate_new exts path w stamp =
     and_then (cli_load w rate_new path None) (\<lambda>(_, t).
     let missing = set (extension_names t) - dom exts in
     and_then (ensure (missing = {}) (NotRegistered missing)) (\<lambda>_.
     Inr \<lparr> dv_world = w, dv_mtime = stamp, dv_last = stamp, dv_child = None, dv_exited = False \<rparr>))"

definition dev_spawn ::
  "'k boot_env \<Rightarrow> (duration \<Rightarrow> 'r) \<Rightarrow> (nat \<times> string) option \<Rightarrow> registry \<Rightarrow> string \<Rightarrow> 'r dev \<Rightarrow> 'r dev" where
  "dev_spawn b rate_new stat exts path s =
     (if dv_exited s \<or> dv_child s \<noteq> None then s
      else s \<lparr> dv_child := Some (map_err Some (run_gateway (dv_world s) b rate_new stat exts path)) \<rparr>)"

text \<open>One turn of the watch: a child that is gone ends the supervisor, a changed document that
  loads replaces the child, one that does not leaves it alone.\<close>

definition dev_poll :: "(duration \<Rightarrow> 'r) \<Rightarrow> string \<Rightarrow> 'r dev \<Rightarrow> 'r dev" where
  "dev_poll rate_new path s =
     (case dv_child s of
        None \<Rightarrow> s
      | Some (Inl _) \<Rightarrow> s \<lparr> dv_exited := True \<rparr>
      | Some (Inr _) \<Rightarrow>
          if dv_exited s \<or> dv_mtime s = dv_last s then s
          else (let s1 = s \<lparr> dv_last := dv_mtime s \<rparr> in
                case cli_load (dv_world s) rate_new path None of
                  Inr _ \<Rightarrow> s1 \<lparr> dv_child := None \<rparr>
                | Inl _ \<Rightarrow> s1))"

text \<open>What a start may find outside is one of \<open>boots\<close>.\<close>

inductive dev_step ::
  "'k boot_env set \<Rightarrow> (duration \<Rightarrow> 'r) \<Rightarrow> registry \<Rightarrow> string \<Rightarrow> 'r dev \<Rightarrow> 'r dev \<Rightarrow> bool"
  for boots rate_new exts path where
  edited: "dev_step boots rate_new exts path s (s \<lparr> dv_world := w, dv_mtime := m \<rparr>)"
| spawned: "b \<in> boots \<Longrightarrow> dev_step boots rate_new exts path s (dev_spawn b rate_new stat exts path s)"
| polled: "dev_step boots rate_new exts path s (dev_poll rate_new path s)"
| died: "dv_child s = Some (Inr r) \<Longrightarrow> dev_step boots rate_new exts path s (s \<lparr> dv_child := Some (Inl None) \<rparr>)"

section \<open>What a running child serves\<close>

text \<open>In every reachable state a child that runs serves files that passed the full check.\<close>

definition dev_inv :: "(duration \<Rightarrow> 'r) \<Rightarrow> registry \<Rightarrow> string \<Rightarrow> 'r dev \<Rightarrow> bool" where
  "dev_inv rate_new exts path s =
     (\<forall>r. dv_child s = Some (Inr r) \<longrightarrow>
        (\<exists>w v t names. validate_command w rate_new (dom exts) path False = Inr (v, t, names)
           \<and> rn_config r = v \<and> serves (rn_tables r) t))"

lemma dev_start_inv: "dev_start rate_new exts path w stamp = Inr s \<Longrightarrow> dev_inv rate_new exts path s"
  by (auto simp: dev_start_def and_then_Inr_iff Let_def dev_inv_def)

lemma dev_step_inv:
  assumes "dev_step boots rate_new exts path s t" "dev_inv rate_new exts path s"
  shows "dev_inv rate_new exts path t"
  using assms
proof (cases rule: dev_step.cases)
  case (spawned b stat)
  then show ?thesis using assms(2) run_validates
    by (auto simp: dev_spawn_def dev_inv_def split: if_splits) blast
qed (auto simp: dev_inv_def dev_poll_def Let_def split: option.splits sum.splits if_splits)

interpretation supervisor: invariant_system
    "\<lambda>s. \<exists>w m. dev_start rate_new exts path w m = Inr s" "dev_step boots rate_new exts path"
    "dev_inv rate_new exts path" for boots rate_new exts path
  by unfold_locales (auto intro: dev_start_inv dev_step_inv)

text \<open>A broken edit leaves the child running, and a good one, when the network agrees, ends with
  a child that serves the new document.\<close>

lemma broken_edit_keeps_child:
  "dv_child s = Some (Inr r) \<Longrightarrow> cli_load (dv_world s) rate_new path None = Inl e \<Longrightarrow>
     dv_child (dev_poll rate_new path s) = Some (Inr r) \<and> dv_exited (dev_poll rate_new path s) = dv_exited s"
  by (simp add: dev_poll_def Let_def)

lemma good_edit_served:
  assumes "dv_child s = Some (Inr r)" "\<not> dv_exited s" "dv_mtime s \<noteq> dv_last s"
    and "validate_command (dv_world s) rate_new (dom exts) path False = Inr (v, t, names)"
    and "runtime_checks (dv_world s) b v t"
  shows "\<exists>r'. dv_child (dev_spawn b rate_new stat exts path (dev_poll rate_new path s)) = Some (Inr r')
    \<and> rn_config r' = v \<and> serves (rn_tables r') t"
proof -
  obtain e where "cli_load (dv_world s) rate_new path None = Inr ((v, e), t)"
    using assms(4) by (auto simp: validate_command_def and_then_Inr_iff Let_def)
  moreover obtain r' where "run_gateway (dv_world s) b rate_new stat exts path = Inr r'"
    using validate_runs assms(4,5) by metis
  ultimately show ?thesis
    using assms run_validates [of "dv_world s" b rate_new stat exts path r']
    by (auto simp: dev_poll_def dev_spawn_def Let_def)
qed

text \<open>What the replacement check leaves out: a document that names an extension the binary does
  not have loads, so the running child is stopped for it, its successor cannot start, and the
  supervisor ends. Only the first document is checked for its extensions.\<close>

lemma unregistered_edit_ends_dev:
  assumes "dv_child s = Some (Inr r)" "\<not> dv_exited s" "dv_mtime s \<noteq> dv_last s"
    and "cli_load (dv_world s) rate_new path None = Inr ((v, e), t)" "\<not> set (extension_names t) \<subseteq> dom exts"
  shows "dv_exited (dev_poll rate_new path (dev_spawn b rate_new stat exts path (dev_poll rate_new path s)))"
proof -
  have "\<not> is_ok (run_gateway (dv_world s) b rate_new stat exts path)"
    using run_validates assms(4,5)
    by (auto simp: is_ok_iff validate_command_def and_then_Inr_iff Let_def) fastforce
  then obtain f where "run_gateway (dv_world s) b rate_new stat exts path = Inl f"
    by (cases "run_gateway (dv_world s) b rate_new stat exts path") auto
  then show ?thesis using assms by (simp add: dev_poll_def dev_spawn_def Let_def map_err_def)
qed

end
