(* ===== verification/Effective.thy ===== *)
theory Effective
  imports Startup
begin

text \<open>
  The safe projection of a configuration (\<open>cli/effective.rs\<close>, \<open>cli/diagnostics.rs\<close>): what
  \<open>lagos config --effective\<close> prints, and that neither the strings of the documents nor the
  values of the environment get into it.

  A YAML value is \<open>serde_yaml_ng\<close>'s; parsing a text, indexing a
  value by a key and reading one as a string are parameters. Two mappings are equal here when they
  hold the same entries in the same order; a reordered one counts as changed, and is hidden.
  A duration is printed with its \<open>Debug\<close> form, also a parameter.
\<close>

section \<open>YAML values\<close>

datatype yaml =
    YNull
  | YBool bool
  | YNumber string
  | YString string
  | YSequence "yaml list"
  | YMapping "(yaml \<times> yaml) list"
  | YTagged string yaml

primrec contains_interpolation :: "inspection \<Rightarrow> yaml \<Rightarrow> bool"
  and any_interpolation :: "inspection \<Rightarrow> yaml list \<Rightarrow> bool"
  and entries_interpolation :: "inspection \<Rightarrow> (yaml \<times> yaml) list \<Rightarrow> bool"
  and entry_interpolation :: "inspection \<Rightarrow> yaml \<times> yaml \<Rightarrow> bool" where
  "contains_interpolation i (YString s) = contains_marker i s"
| "contains_interpolation i (YSequence vs) = any_interpolation i vs"
| "contains_interpolation i (YMapping m) = entries_interpolation i m"
| "contains_interpolation i (YTagged t v) = contains_interpolation i v"
| "contains_interpolation i YNull = False"
| "contains_interpolation i (YBool b) = False"
| "contains_interpolation i (YNumber n) = False"
| "any_interpolation i [] = False"
| "any_interpolation i (v # vs) = (contains_interpolation i v \<or> any_interpolation i vs)"
| "entries_interpolation i [] = False"
| "entries_interpolation i (e # m) = (entry_interpolation i e \<or> entries_interpolation i m)"
| "entry_interpolation i (k, v) = (contains_interpolation i k \<or> contains_interpolation i v)"

section \<open>Sources\<close>

record yaml_crate =
  yc_parse :: "string \<Rightarrow> yaml option"
  yc_get :: "yaml \<Rightarrow> string \<Rightarrow> yaml option"
  yc_as_str :: "yaml \<Rightarrow> string option"

record source =
  so_label :: string
  so_inspection :: inspection
  so_masked :: "yaml option"
  so_expanded :: "yaml option"

text \<open>The fixed diagnostics: the place and the kind of an error, never the text it carries.\<close>

datatype diagnostic =
    AtLine string nat string
  | CannotRead string
  | InvalidInput string
  | FailedValidation string

fun interpolation_diagnostic :: "string \<Rightarrow> interpolate_error \<Rightarrow> diagnostic" where
  "interpolation_diagnostic src (Unterminated l) = AtLine src l ''unterminated variable reference''"
| "interpolation_diagnostic src (EmptyName l) = AtLine src l ''empty variable name''"
| "interpolation_diagnostic src (BadName _ l) = AtLine src l ''invalid variable name''"
| "interpolation_diagnostic src (ControlCharacter _ l) = AtLine src l ''invalid substituted value''"
| "interpolation_diagnostic src (Unset _ l) = AtLine src l ''missing required variable''"

fun configuration_diagnostic :: "string \<Rightarrow> config_failure \<Rightarrow> diagnostic" where
  "configuration_diagnostic src (NotExpanded _ e) = interpolation_diagnostic src e"
| "configuration_diagnostic src (ReadFailed _) = CannotRead src"
| "configuration_diagnostic src (NotParsed _ _ _) = InvalidInput src"
| "configuration_diagnostic src (Unsound _) = FailedValidation src"

definition source_read ::
  "yaml_crate \<Rightarrow> string \<Rightarrow> string \<Rightarrow> (string \<Rightarrow> string option) \<Rightarrow> (source, diagnostic) result" where
  "source_read yc label doc lookup =
     and_then (map_err (interpolation_diagnostic label) (inspect_text doc lookup)) (\<lambda>i.
     and_then (map_err (interpolation_diagnostic label) (interpolate doc lookup)) (\<lambda>expanded.
     Inr \<lparr> so_label = label, so_inspection = i, so_masked = yc_parse yc (is_masked i),
           so_expanded = yc_parse yc (ip_text expanded) \<rparr>))"

section \<open>Fields\<close>

definition REDACTED :: string where "REDACTED = ''<redacted>''"

text \<open>One step down the path, in the masked document and in the expanded one. Whole structures
  and interpolated keys obscure where their children come from.\<close>

definition step_down ::
  "yaml_crate \<Rightarrow> inspection \<Rightarrow> string \<Rightarrow> yaml option \<times> yaml option \<times> bool \<Rightarrow> yaml option \<times> yaml option \<times> bool" where
  "step_down yc i part = (\<lambda>(node, expanded_node, tainted).
     let expanded_node' = Option.bind expanded_node (\<lambda>v. yc_get yc v part) in
     case node of
       None \<Rightarrow> (None, expanded_node', tainted)
     | Some (YMapping m) \<Rightarrow>
         (map_of m (YString part), expanded_node', tainted \<or> any_interpolation i (map fst m))
     | Some current \<Rightarrow> (None, expanded_node', tainted \<or> contains_interpolation i current))"

record field_view =
  fv_value :: "json option"
  fv_origin :: string
  fv_redacted :: bool

definition field :: "yaml_crate \<Rightarrow> source \<Rightarrow> string \<Rightarrow> json option \<Rightarrow> field_view" where
  "field yc s path safe =
     (let (node, expanded_node, tainted1) =
            fold (step_down yc (so_inspection s)) (split_on CHR ''.'' path)
              (so_masked s, so_expanded s, so_masked s = None \<or> so_expanded s = None);
          tainted = (tainted1 \<or> (case node of Some v \<Rightarrow> contains_interpolation (so_inspection s) v | None \<Rightarrow> False)
                     \<or> node \<noteq> expanded_node);
          redacted = (tainted \<or> safe = None) in
      \<lparr> fv_value = (if redacted then None else safe),
        fv_origin = (if node \<noteq> None \<or> tainted then so_label s @ ''.'' @ path else ''built-in''),
        fv_redacted = redacted \<rparr>)"

definition shown :: "json option \<Rightarrow> json" where
  "shown v = (case v of Some j \<Rightarrow> j | None \<Rightarrow> JString REDACTED)"

definition field_json :: "field_view \<Rightarrow> json" where
  "field_json f = JObject [(''value'', shown (fv_value f)), (''origin'', JString (fv_origin f)),
     (''redacted'', JBool (fv_redacted f))]"

definition safe_field :: "yaml_crate \<Rightarrow> source \<Rightarrow> string \<Rightarrow> json \<Rightarrow> json" where
  "safe_field yc s path v = field_json (field yc s path (Some v))"

definition hidden_field :: "yaml_crate \<Rightarrow> source \<Rightarrow> string \<Rightarrow> json" where
  "hidden_field yc s path = field_json (field yc s path None)"

fun origin_label :: "policy_origin \<Rightarrow> string" where
  "origin_label OriginRoute = ''route''"
| "origin_label OriginGlobal = ''global defaults''"
| "origin_label OriginBuiltIn = ''built-in''"

text \<open>A policy of a route: shown only if its own group in the route source is free of
  interpolation too.\<close>

definition policy_field ::
  "yaml_crate \<Rightarrow> source \<Rightarrow> source \<Rightarrow> string \<Rightarrow> string \<Rightarrow> policy_origin \<Rightarrow> json \<Rightarrow> json" where
  "policy_field yc s rs path name origin v =
     (let f = (case origin of
                 OriginRoute \<Rightarrow> field yc rs path (Some v)
               | OriginGlobal \<Rightarrow> field yc s (''defaults.'' @ name) (Some v)
               | OriginBuiltIn \<Rightarrow> \<lparr> fv_value = Some v, fv_origin = ''built-in'', fv_redacted = False \<rparr>);
          redacted = (fv_redacted (field yc rs path (Some JNull)) \<or> fv_redacted f) in
      JObject [(''value'', if redacted then JString REDACTED else shown (fv_value f)),
        (''origin'', JString (fv_origin f)), (''redacted'', JBool redacted),
        (''policy_origin'', JString (origin_label origin))])"

section \<open>The projection\<close>

definition num :: "nat \<Rightarrow> json" where "num n = JNumber (show_nat n)"

definition opt_json :: "('a \<Rightarrow> json) \<Rightarrow> 'a option \<Rightarrow> json" where
  "opt_json f x = (case x of Some v \<Rightarrow> f v | None \<Rightarrow> JNull)"

text \<open>What the projection is made with: the crate and the printed form of a duration.\<close>

record printer =
  pr_yaml :: yaml_crate
  pr_duration :: "duration \<Rightarrow> string"

definition dur :: "printer \<Rightarrow> duration \<Rightarrow> json" where
  "dur p d = JString (pr_duration p d)"

fun balance_label :: "balance \<Rightarrow> string" where
  "balance_label RoundRobin = ''round_robin''"
| "balance_label Random = ''random''"
| "balance_label Consistent = ''consistent''"

fun retry_on_label :: "retry_on \<Rightarrow> string" where
  "retry_on_label ConnectionFailure = ''connection_failure''"
| "retry_on_label TransportError = ''transport_error''"

fun key_label :: "rate_limit_key \<Rightarrow> string" where
  "key_label KeyIp = ''ip''"
| "key_label KeyIdentity = ''identity''"
| "key_label KeyRoute = ''route''"
| "key_label (KeyHeader _) = REDACTED"

fun counter_label :: "counter_kind \<Rightarrow> string" where
  "counter_label CounterExact = ''exact''"
| "counter_label CounterSketch = ''sketch''"
| "counter_label CounterShared = ''shared''"

fun mode_label :: "limit_mode \<Rightarrow> string" where
  "mode_label Approximate = ''approximate''"
| "mode_label ExactMode = ''exact''"

fun missing_label :: "missing_key \<Rightarrow> string" where
  "missing_label MissingReject = ''reject''"
| "missing_label MissingRoute = ''route''"
| "missing_label MissingIp = ''ip''"
| "missing_label MissingSkip = ''skip''"

definition KNOWN_METHODS :: "string list" where
  "KNOWN_METHODS = [''GET'', ''HEAD'', ''POST'', ''PUT'', ''PATCH'', ''DELETE'', ''OPTIONS'', ''CONNECT'', ''TRACE'']"

definition method_label :: "string \<Rightarrow> string" where
  "method_label m = (if m \<in> set KNOWN_METHODS then m else REDACTED)"

definition health_json :: "printer \<Rightarrow> health_check_config \<Rightarrow> json" where
  "health_json p h = JObject [(''path'', JString REDACTED), (''interval'', dur p (hc_interval h)),
     (''timeout'', dur p (hc_timeout h)), (''healthy_after'', num (hc_healthy_after h)),
     (''unhealthy_after'', num (hc_unhealthy_after h))]"

definition breaker_json :: "printer \<Rightarrow> circuit_breaker_config \<Rightarrow> json" where
  "breaker_json p b = JObject [(''failures'', num (bc_failures b)), (''window'', dur p (bc_window b)),
     (''cooldown'', dur p (bc_cooldown b)), (''successes_to_close'', num (bc_successes_to_close b)),
     (''max_trials'', num (bc_max_trials b))]"

definition discovery_json :: "printer \<Rightarrow> discovery_config \<Rightarrow> json" where
  "discovery_json p d = JObject [(''interval'', dur p (dc_interval d)), (''max_members'', num (dc_max_members d))]"

definition retry_json :: "retry_config \<Rightarrow> json" where
  "retry_json r = JObject [(''attempts'', num (rt_attempts r)), (''non_idempotent'', JBool (rt_non_idempotent r)),
     (''on'', JArray (map (JString \<circ> retry_on_label) (rt_on r)))]"

definition rate_json :: "printer \<Rightarrow> rate_limit_config \<Rightarrow> json" where
  "rate_json p r = JObject [(''requests'', num (rl_requests r)), (''interval'', dur p (rl_interval r)),
     (''key'', JString (key_label (rl_key r))), (''counter'', JString (counter_label (rl_counter r))),
     (''mode'', JString (mode_label (rl_mode r))), (''missing_key'', JString (missing_label (rl_missing_key r))),
     (''trusted_proxies'', num (rl_trusted_proxies r)), (''max_keys'', num (rl_max_keys r))]"

definition cap_json :: "concurrency_config \<Rightarrow> json" where
  "cap_json c = JObject [(''max'', num (cc_max c)), (''key'', JString (key_label (concurrency_key c))),
     (''missing_key'', JString (missing_label (cc_missing_key c))), (''trusted_proxies'', num (cc_trusted_proxies c))]"

text \<open>The references stand for the names of upstreams and routes, in the order of the table.\<close>

definition upstream_ids :: "gateway_config \<Rightarrow> (string \<times> string) list" where
  "upstream_ids c =
     map (\<lambda>(index, name). (name, ''upstream-'' @ show_nat (index + 1))) (enumerate 0 (map fst (gc_upstreams c)))"

definition upstream_json :: "printer \<Rightarrow> source \<Rightarrow> (string \<times> string) list \<Rightarrow> string \<times> upstream_config \<Rightarrow> json" where
  "upstream_json p s ids entry =
     (let (name, up) = entry; safe = safe_field (pr_yaml p) s ''upstreams''; hidden = hidden_field (pr_yaml p) s ''upstreams'' in
      JObject [(''reference'', opt_json JString (map_of ids name)), (''name'', hidden), (''targets'', hidden),
        (''balance'', safe (JString (balance_label (uc_balance up)))), (''hash_on'', hidden),
        (''health_check'', safe (opt_json (health_json p) (uc_health_check up))),
        (''circuit_breaker'', safe (opt_json (breaker_json p) (uc_circuit_breaker up))),
        (''discovery'', safe (opt_json (discovery_json p) (uc_discovery up))),
        (''target_count'', safe (num (length (uc_targets up))))])"

text \<open>Group provenance is conservative: a setting of a route is attributed to its whole group.\<close>

definition group_path :: "bool \<Rightarrow> route_config \<Rightarrow> string" where
  "group_path external r = (if external then tier_group (rc_auth r) else ''routes.'' @ tier_group (rc_auth r))"

definition route_json ::
  "printer \<Rightarrow> source \<Rightarrow> source \<Rightarrow> bool \<Rightarrow> (string \<times> string) list \<Rightarrow> nat \<times> route_config \<Rightarrow> json" where
  "route_json p s rs external ids entry =
     (let (index, r) = entry;
          group = tier_group (rc_auth r);
          path = group_path external r;
          safe = safe_field (pr_yaml p) rs path; hidden = hidden_field (pr_yaml p) rs path;
          policy = policy_field (pr_yaml p) s rs path in
      JObject [(''reference'', JString (''route-'' @ show_nat (index + 1))),
        (''listener'', JString (if is_machine (rc_auth r) then ''internal'' else ''public'')),
        (''group'', JString group), (''id'', hidden), (''prefix'', hidden), (''host'', hidden),
        (''upstream'', safe (opt_json JString (map_of ids (rc_upstream r)))),
        (''methods'', policy ''methods'' (po_methods (rc_origins r)) (JArray (map (JString \<circ> method_label) (rc_methods r)))),
        (''enabled'', safe (JBool (rc_enabled r))), (''sse'', safe (JBool (rc_sse r))),
        (''strip_prefix'', safe (JBool (rc_strip_prefix r))),
        (''client_key'', safe (opt_json JBool (rc_client_key r))), (''cache'', safe (JBool (rc_cache r))),
        (''retry'', policy ''retry'' (po_retry (rc_origins r)) (opt_json retry_json (rc_retry r))),
        (''rate_limit'', policy ''rate_limit'' (po_rate_limit (rc_origins r)) (opt_json (rate_json p) (rc_rate_limit r))),
        (''concurrency'', safe (opt_json cap_json (rc_concurrency r))), (''bind'', hidden),
        (''extensions'', JObject [(''value'', JString REDACTED), (''status'', JString ''unchecked''),
           (''origin'', JString (so_label rs @ ''.'' @ path))])])"

definition server_json :: "printer \<Rightarrow> source \<Rightarrow> server_config \<Rightarrow> json" where
  "server_json p s sv =
     (let safe = (\<lambda>name. safe_field (pr_yaml p) s (''server.'' @ name));
          hidden = (\<lambda>name. hidden_field (pr_yaml p) s (''server.'' @ name)) in
      JObject [(''listen'', hidden ''listen''), (''internal_listen'', hidden ''internal_listen''),
        (''mounts'', hidden ''mounts''), (''health_path'', hidden ''health_path''),
        (''service_name'', hidden ''service_name''), (''threads'', safe ''threads'' (num (sv_threads sv))),
        (''tcp_keepalive'', safe ''tcp_keepalive'' (opt_json (\<lambda>t. JObject [(''idle'', dur p (tk_idle t)),
           (''interval'', dur p (tk_interval t)), (''count'', num (tk_count t))]) (sv_tcp_keepalive sv))),
        (''shutdown_grace'', safe ''shutdown_grace'' (opt_json (dur p) (sv_shutdown_grace sv))),
        (''graceful_shutdown'', safe ''graceful_shutdown'' (dur p (sv_graceful_shutdown sv)))])"

definition timeouts_json :: "printer \<Rightarrow> source \<Rightarrow> timeouts \<Rightarrow> json" where
  "timeouts_json p s t =
     (let timeout = (\<lambda>name d. (name, safe_field (pr_yaml p) s (''timeouts.'' @ name) (dur p d))) in
      JObject [(''request_total'', safe_field (pr_yaml p) s ''timeouts.request_total'' (opt_json (dur p) (to_request_total t))),
        timeout ''extension'' (to_extension t), timeout ''extension_chain'' (to_extension_chain t),
        timeout ''connect'' (to_connect t), timeout ''default'' (to_default t), timeout ''sse'' (to_sse t),
        timeout ''upload'' (to_upload t), timeout ''upstream_idle'' (to_upstream_idle t),
        timeout ''downstream_read'' (to_downstream_read t), timeout ''downstream_write'' (to_downstream_write t),
        timeout ''downstream_drain'' (to_downstream_drain t),
        timeout ''downstream_keepalive'' (to_downstream_keepalive t)])"

definition limits_json :: "printer \<Rightarrow> source \<Rightarrow> limits \<Rightarrow> json" where
  "limits_json p s l =
     (let limit = (\<lambda>name v. (name, safe_field (pr_yaml p) s (''limits.'' @ name) v)) in
      JObject [limit ''extension_inflight'' (opt_json num (li_extension_inflight l)),
        limit ''max_body'' (num (li_max_body l)), limit ''max_token'' (num (li_max_token l)),
        limit ''keepalive_requests'' (num (li_keepalive_requests l)), limit ''upstream_pool'' (num (li_upstream_pool l)),
        limit ''connections_per_ip'' (opt_json (\<lambda>c. JObject [(''connections'', num (cl_connections c)),
          (''interval'', dur p (cl_interval c)), (''max_tracked'', num (cl_max_tracked c))]) (li_connections_per_ip l)),
        limit ''min_send_rate'' (opt_json num (li_min_send_rate l))])"

definition cache_json :: "printer \<Rightarrow> cache_config \<Rightarrow> json" where
  "cache_json p c = JObject [(''max_size'', num (ca_max_size c)), (''max_object_size'', num (ca_max_object_size c)),
     (''max_inflight_fill'', num (ca_max_inflight_fill c)), (''default_ttl'', dur p (ca_default_ttl c)),
     (''stale_while_revalidate'', dur p (ca_stale_while_revalidate c))]"

definition configuration_json ::
  "printer \<Rightarrow> resolved_config \<Rightarrow> route_table \<Rightarrow> source \<Rightarrow> source \<Rightarrow> bool \<Rightarrow> json" where
  "configuration_json p v table s rs external =
     (let c = rv_raw v; yc = pr_yaml p; ids = upstream_ids c;
          hidden = (\<lambda>name. (name, hidden_field yc s name)) in
      JObject ([hidden ''defaults'', (''server'', server_json p s (gc_server c)),
        (''timeouts'', timeouts_json p s (gc_timeouts c)), (''limits'', limits_json p s (gc_limits c)),
        (''dns'', JObject [(''cache_ttl'', safe_field yc s ''dns.cache_ttl'' (dur p (dn_cache_ttl (gc_dns c)))),
           (''max_entries'', safe_field yc s ''dns.max_entries'' (num (dn_max_entries (gc_dns c))))]),
        (''cache'', safe_field yc s ''cache'' (opt_json (cache_json p) (gc_cache c))),
        hidden ''auth'', hidden ''inject'', hidden ''identity'', hidden ''reject'', hidden ''cors'',
        hidden ''forward'', hidden ''observability'',
        (''upstreams'', JArray (map (upstream_json p s ids) (gc_upstreams c))),
        (''routes'', JArray (map (route_json p s rs external ids) (enumerate 0 (tb_routes table)))),
        (''routes_file'', hidden_field yc s ''routes.file''),
        (''deny_rules'', hidden_field yc rs (if external then ''internal'' else ''routes.internal''))]))"

definition provenance :: "source \<Rightarrow> bool" where
  "provenance s = (so_masked s \<noteq> None \<and> so_expanded s \<noteq> None)"

definition source_json :: "string \<Rightarrow> source \<Rightarrow> json" where
  "source_json label s = JObject [(''label'', JString label), (''path'', JString REDACTED),
     (''path_redacted'', JBool True), (''provenance_available'', JBool (provenance s))]"

definition project ::
  "printer \<Rightarrow> resolved_config \<Rightarrow> route_table \<Rightarrow> source \<Rightarrow> source \<Rightarrow> bool \<Rightarrow> json" where
  "project p v table s rs external =
     JObject [(''diagnostic'', JBool True), (''suitable_for_deployment'', JBool False),
       (''is_running_snapshot'', JBool False),
       (''scope'', JString ''current input files and environment for this invocation; inputs are not an atomic multi-file snapshot''),
       (''redaction'', JString ''unclassified strings and paths, credentials, URLs, extension data, and interpolated settings are hidden; route policies use conservative group provenance''),
       (''sources'', JArray (source_json ''CONFIG'' s # (if external then [source_json ''routes.file'' rs] else []))),
       (''checked'', JArray (map JString [''input parsing'', ''configuration resolution'', ''route table validation''])),
       (''unchecked'', JArray (map JString [''extension registration and configuration introspection'',
          ''credential verification'', ''listener binding'', ''DNS and upstream availability'',
          ''rate-limit state, cache, and running services''])),
       (''configuration'', configuration_json p v table s rs external)]"

section \<open>The command\<close>

text \<open>Each file is read once, and both the source projection and the resolution are made of the
  same bytes. The printed text is \<open>serde_json\<close>'s rendering of the value.\<close>

definition external_groups ::
  "world \<Rightarrow> yaml_crate \<Rightarrow> string \<Rightarrow> (source \<times> route_groups, diagnostic) result" where
  "external_groups w yc path =
     (case wo_disk w path of
        None \<Rightarrow> Inl (CannotRead ''routes.file'')
      | Some doc \<Rightarrow>
          and_then (source_read yc ''routes.file'' doc (wo_lookup w)) (\<lambda>s.
          and_then (map_err (interpolation_diagnostic ''routes.file'') (interpolate doc (wo_lookup w))) (\<lambda>expanded.
          and_then (map_err (\<lambda>_. InvalidInput ''routes.file'') (wo_parse_routes w (ip_text expanded))) (\<lambda>groups.
          Inr (s, groups)))))"

definition external_input ::
  "world \<Rightarrow> yaml_crate \<Rightarrow> resolved_config \<Rightarrow> ((source \<times> route_groups) option, diagnostic) result" where
  "external_input w yc v =
     (case gc_routes_file (rv_raw v) of
        None \<Rightarrow> Inr None
      | Some f \<Rightarrow> and_then (external_groups w yc f) (\<lambda>e. Inr (Some e)))"

definition effective_view ::
  "world \<Rightarrow> printer \<Rightarrow> (duration \<Rightarrow> 'r) \<Rightarrow> string \<Rightarrow> (json, diagnostic) result" where
  "effective_view w p rate_new path =
     (case wo_disk w path of
        None \<Rightarrow> Inl (CannotRead ''CONFIG'')
      | Some doc \<Rightarrow>
          and_then (source_read (pr_yaml p) ''CONFIG'' doc (wo_lookup w)) (\<lambda>s.
          and_then (map_err (configuration_diagnostic ''CONFIG'') (parse_with_fallback w path doc None)) (\<lambda>(raw, _).
          and_then (map_err (configuration_diagnostic ''CONFIG'' \<circ> Unsound)
              (resolve (wo_crates w) (resolve_route_file_against path raw))) (\<lambda>v.
          and_then (external_input w (pr_yaml p) v) (\<lambda>external.
          let groups = (case external of Some e \<Rightarrow> snd e | None \<Rightarrow> gc_routes (rv_raw v));
              table = fst (build_with rate_new 0 groups (gc_defaults (rv_raw v)) None []);
              rs = (case external of Some e \<Rightarrow> fst e | None \<Rightarrow> s) in
          and_then (map_err (\<lambda>_. FailedValidation ''routes'') (validate_table (validation_env w v) table)) (\<lambda>_.
          Inr (project p v table s rs (external \<noteq> None))))))))"

section \<open>What is never printed\<close>

text \<open>A predicate on every text of a JSON value.\<close>

primrec texts_ok :: "(string \<Rightarrow> bool) \<Rightarrow> json \<Rightarrow> bool"
  and all_texts :: "(string \<Rightarrow> bool) \<Rightarrow> json list \<Rightarrow> bool"
  and entry_texts :: "(string \<Rightarrow> bool) \<Rightarrow> (string \<times> json) list \<Rightarrow> bool"
  and value_texts :: "(string \<Rightarrow> bool) \<Rightarrow> string \<times> json \<Rightarrow> bool" where
  "texts_ok P (JString t) = P t"
| "texts_ok P (JArray vs) = all_texts P vs"
| "texts_ok P (JObject m) = entry_texts P m"
| "texts_ok P JNull = True"
| "texts_ok P (JBool b) = True"
| "texts_ok P (JNumber n) = True"
| "all_texts P [] = True"
| "all_texts P (v # vs) = (texts_ok P v \<and> all_texts P vs)"
| "entry_texts P [] = True"
| "entry_texts P (e # m) = (value_texts P e \<and> entry_texts P m)"
| "value_texts P (k, v) = texts_ok P v"

lemma all_texts_map [simp]: "all_texts P (map f xs) \<longleftrightarrow> (\<forall>x\<in>set xs. texts_ok P (f x))"
  by (induction xs) simp_all

text \<open>The words the code itself writes, and the paths it attributes a setting to.\<close>

definition WORDS :: "string list" where
  "WORDS = [REDACTED, ''built-in'', ''route'', ''global defaults'', ''round_robin'', ''random'', ''consistent'',
     ''connection_failure'', ''transport_error'', ''ip'', ''identity'', ''exact'', ''sketch'', ''shared'',
     ''approximate'', ''reject'', ''skip'', ''internal'', ''public'', ''optional'', ''machine'', ''authenticated'',
     ''unchecked'', ''CONFIG'', ''routes.file'',
     ''current input files and environment for this invocation; inputs are not an atomic multi-file snapshot'',
     ''unclassified strings and paths, credentials, URLs, extension data, and interpolated settings are hidden; route policies use conservative group provenance'',
     ''input parsing'', ''configuration resolution'', ''route table validation'',
     ''extension registration and configuration introspection'', ''credential verification'', ''listener binding'',
     ''DNS and upstream availability'', ''rate-limit state, cache, and running services''] @ KNOWN_METHODS"

definition GROUP_PATHS :: "string list" where
  "GROUP_PATHS = concat (map (\<lambda>g. [g, ''routes.'' @ g])
     [''public'', ''optional'', ''machine'', ''authenticated'', ''internal''])"

definition SETTINGS :: "string list" where
  "SETTINGS = [''defaults'', ''defaults.methods'', ''defaults.retry'', ''defaults.rate_limit'', ''upstreams'', ''cache'',
     ''auth'', ''inject'', ''identity'', ''reject'', ''cors'', ''forward'', ''observability'', ''routes.file'',
     ''dns.cache_ttl'', ''dns.max_entries'']
   @ map ((@) ''server.'') [''listen'', ''internal_listen'', ''mounts'', ''health_path'', ''service_name'', ''threads'',
     ''tcp_keepalive'', ''shutdown_grace'', ''graceful_shutdown'']
   @ map ((@) ''timeouts.'') [''request_total'', ''extension'', ''extension_chain'', ''connect'', ''default'', ''sse'',
     ''upload'', ''upstream_idle'', ''downstream_read'', ''downstream_write'', ''downstream_drain'', ''downstream_keepalive'']
   @ map ((@) ''limits.'') [''extension_inflight'', ''max_body'', ''max_token'', ''keepalive_requests'', ''upstream_pool'',
     ''connections_per_ip'', ''min_send_rate'']"

definition printable :: "printer \<Rightarrow> string \<Rightarrow> bool" where
  "printable p t =
     (t \<in> set WORDS \<or> t \<in> range (pr_duration p)
      \<or> (\<exists>n. t = ''upstream-'' @ show_nat n \<or> t = ''route-'' @ show_nat n)
      \<or> (\<exists>label\<in>{''CONFIG'', ''routes.file''}. \<exists>path\<in>set (SETTINGS @ GROUP_PATHS). t = label @ ''.'' @ path))"

named_theorems printed \<open>what is printable, and what is made of it\<close>

lemma printable_word: "t \<in> set WORDS \<Longrightarrow> printable p t"
  by (simp add: printable_def)

lemma printable_numbered [printed]: "printable p (''upstream-'' @ show_nat n)" "printable p (''route-'' @ show_nat n)"
  unfolding printable_def by blast+

lemma printable_duration [printed]: "printable p (pr_duration p d)"
  by (simp add: printable_def)

lemmas words_defs = WORDS_def KNOWN_METHODS_def

lemma fixed_words [printed]:
  "printable p REDACTED" "printable p ''built-in''" "printable p ''unchecked''" "printable p ''internal''"
  "printable p ''public''" "printable p ''CONFIG''" "printable p ''routes.file''"
  by (rule printable_word, simp add: words_defs)+

lemma balance_words [printed]: "printable p (balance_label b)"
  by (cases b; rule printable_word, simp add: words_defs)

lemma retry_on_words [printed]: "printable p (retry_on_label f)"
  by (cases f; rule printable_word, simp add: words_defs)

lemma counter_words [printed]: "printable p (counter_label c)"
  by (cases c; rule printable_word, simp add: words_defs)

lemma mode_words [printed]: "printable p (mode_label m)"
  by (cases m; rule printable_word, simp add: words_defs)

lemma missing_words [printed]: "printable p (missing_label k)"
  by (cases k; rule printable_word, simp add: words_defs)

lemma origin_words [printed]: "printable p (origin_label og)"
  by (cases og; rule printable_word, simp add: words_defs)

lemma key_words [printed]: "printable p (key_label k)"
  by (cases k; simp add: fixed_words; rule printable_word, simp add: words_defs)

lemma method_words [printed]: "printable p (method_label m)"
  by (simp add: method_label_def fixed_words printable_word WORDS_def)

lemma tier_words [printed]: "printable p (tier_group t)"
  by (cases t; rule printable_word, simp add: words_defs tier_group_def)

text \<open>A setting may be attributed to the paths the projection uses.\<close>

definition attributed :: "source \<Rightarrow> string \<Rightarrow> bool" where
  "attributed s path = (so_label s \<in> {''CONFIG'', ''routes.file''} \<and> path \<in> set (SETTINGS @ GROUP_PATHS))"

lemma attributed_printable [printed]: "attributed s path \<Longrightarrow> printable p (so_label s @ ''.'' @ path)"
  unfolding attributed_def printable_def by blast

lemmas attributed_printable' = attributed_printable [simplified]

lemma attributed_group [printed]:
  "so_label s \<in> {''CONFIG'', ''routes.file''} \<Longrightarrow> attributed s (tier_group t)"
  "so_label s \<in> {''CONFIG'', ''routes.file''} \<Longrightarrow> attributed s (''routes.'' @ tier_group t)"
  by (cases t; simp add: attributed_def GROUP_PATHS_def tier_group_def)+

lemma field_origin: "attributed s path \<Longrightarrow> printable p (fv_origin (field yc s path v))"
  by (simp add: field_def Let_def split_beta attributed_printable' fixed_words)

lemma field_shown:
  "texts_ok (printable p) (shown (fv_value (field yc s path None)))"
  "texts_ok (printable p) j \<Longrightarrow> texts_ok (printable p) (shown (fv_value (field yc s path (Some j))))"
  by (simp_all add: field_def shown_def Let_def split_beta fixed_words)

lemma safe_field_texts [printed]:
  "attributed s path \<Longrightarrow> texts_ok (printable p) j \<Longrightarrow> texts_ok (printable p) (safe_field yc s path j)"
  by (simp add: safe_field_def field_json_def field_origin field_shown)

lemma hidden_field_texts [printed]: "attributed s path \<Longrightarrow> texts_ok (printable p) (hidden_field yc s path)"
  by (simp add: hidden_field_def field_json_def field_origin field_shown)

lemma policy_field_texts [printed]:
  assumes "attributed rs path" "attributed s (''defaults.'' @ name)" "texts_ok (printable p) j"
  shows "texts_ok (printable p) (policy_field yc s rs path name origin j)"
  using field_origin [OF assms(1)] field_origin [OF assms(2)] field_shown(2) [OF assms(3)] assms(3) origin_words
  by (cases origin) (simp_all add: policy_field_def Let_def fixed_words shown_def [of "Some j"] del: origin_label.simps)

lemma number_texts [printed]: "texts_ok P (num n)"
  by (simp add: num_def)

lemma duration_texts [printed]: "texts_ok (printable p) (dur p d)"
  by (simp add: dur_def printable_duration)

lemma opt_texts [printed]: "(\<And>v. texts_ok P (f v)) \<Longrightarrow> texts_ok P (opt_json f x)"
  by (simp add: opt_json_def split: option.splits)

lemma policy_texts [printed]:
  "texts_ok (printable p) (health_json p h)" "texts_ok (printable p) (breaker_json p b)"
  "texts_ok (printable p) (discovery_json p d)" "texts_ok (printable p) (retry_json r)"
  "texts_ok (printable p) (rate_json p rl)" "texts_ok (printable p) (cap_json cc)" "texts_ok (printable p) (cache_json p ca)"
  by (simp_all add: health_json_def breaker_json_def discovery_json_def retry_json_def rate_json_def
      cap_json_def cache_json_def printed)

lemma upstream_ids_texts:
  "map_of (upstream_ids c) name = Some ref \<Longrightarrow> printable p ref"
  by (auto simp: upstream_ids_def printable_numbered [simplified] dest!: map_of_SomeD)

lemma ref_texts [printed]: "texts_ok (printable p) (opt_json JString (map_of (upstream_ids c) name))"
  by (auto simp: opt_json_def upstream_ids_texts split: option.splits)

lemma settings_attributed [printed]:
  assumes "so_label s \<in> {''CONFIG'', ''routes.file''}" "path \<in> set (SETTINGS @ GROUP_PATHS)"
  shows "attributed s path"
  using assms by (simp add: attributed_def)

lemma setting_paths:
  "list_all (attributed s) (SETTINGS @ GROUP_PATHS) \<longleftrightarrow> so_label s \<in> {''CONFIG'', ''routes.file''}"
  by (auto simp: list_all_iff attributed_def GROUP_PATHS_def)

text \<open>The attributed paths, one by one, as the simplifier meets them.\<close>

lemmas attributed_paths =
  setting_paths [THEN iffD2, unfolded SETTINGS_def GROUP_PATHS_def, simplified]

definition labelled :: "source \<Rightarrow> bool" where
  "labelled s = (so_label s \<in> {''CONFIG'', ''routes.file''})"

lemma upstream_texts [printed]:
  assumes "labelled s"
  shows "texts_ok (printable p) (upstream_json p s (upstream_ids c) e)"
  using assms attributed_paths [of s]
  by (cases e) (simp add: upstream_json_def Let_def labelled_def printed)

lemma server_texts [printed]:
  assumes "labelled s"
  shows "texts_ok (printable p) (server_json p s sv)"
  using assms attributed_paths [of s]
  by (simp add: server_json_def Let_def labelled_def printed)

lemma timeouts_texts [printed]:
  assumes "labelled s"
  shows "texts_ok (printable p) (timeouts_json p s t)"
  using assms attributed_paths [of s]
  by (simp add: timeouts_json_def Let_def labelled_def printed)

lemma limits_texts [printed]:
  assumes "labelled s"
  shows "texts_ok (printable p) (limits_json p s l)"
  using assms attributed_paths [of s]
  by (simp add: limits_json_def Let_def labelled_def printed)

lemma route_texts [printed]:
  assumes "labelled s" "labelled rs"
  shows "texts_ok (printable p) (route_json p s rs external (upstream_ids c) e)"
proof (cases e)
  case (Pair i r)
  have "attributed rs (group_path external r)"
    using assms(2) attributed_group [of rs] by (simp add: labelled_def group_path_def)
  then show ?thesis
    using assms(1) attributed_paths [of s]
    by (simp add: Pair route_json_def Let_def labelled_def printed printable_numbered [simplified] attributed_printable')
qed

lemma configuration_texts [printed]:
  assumes "labelled s" "labelled rs"
  shows "texts_ok (printable p) (configuration_json p v table s rs external)"
  using assms attributed_paths [of s] attributed_paths [of rs]
  by (simp add: configuration_json_def Let_def printed labelled_def)

lemma fixed_texts [printed]:
  "printable p ''current input files and environment for this invocation; inputs are not an atomic multi-file snapshot''"
  "printable p ''unclassified strings and paths, credentials, URLs, extension data, and interpolated settings are hidden; route policies use conservative group provenance''"
  "printable p ''input parsing''" "printable p ''configuration resolution''" "printable p ''route table validation''"
  "printable p ''extension registration and configuration introspection''" "printable p ''credential verification''"
  "printable p ''listener binding''" "printable p ''DNS and upstream availability''"
  "printable p ''rate-limit state, cache, and running services''"
  by (rule printable_word, simp add: WORDS_def)+

lemma project_texts:
  assumes "labelled s" "labelled rs"
  shows "texts_ok (printable p) (project p v table s rs external)"
  using assms by (simp add: project_def source_json_def printed)

lemma source_read_label: "source_read yc label doc lookup = Inr s \<Longrightarrow> so_label s = label"
  by (auto simp: source_read_def and_then_Inr_iff)

text \<open>A diagnostic names a source, a line, and one of five fixed reasons.\<close>

definition diagnostic_fixed :: "diagnostic \<Rightarrow> bool" where
  "diagnostic_fixed d =
     (case d of
        AtLine src _ reason \<Rightarrow> src \<in> {''CONFIG'', ''routes.file''} \<and>
          reason \<in> {''unterminated variable reference'', ''empty variable name'', ''invalid variable name'',
                    ''invalid substituted value'', ''missing required variable''}
      | CannotRead src \<Rightarrow> src \<in> {''CONFIG'', ''routes.file''}
      | InvalidInput src \<Rightarrow> src \<in> {''CONFIG'', ''routes.file''}
      | FailedValidation src \<Rightarrow> src \<in> {''CONFIG'', ''routes''})"

lemma diagnostics_fixed:
  "src \<in> {''CONFIG'', ''routes.file''} \<Longrightarrow> diagnostic_fixed (interpolation_diagnostic src e)"
  "diagnostic_fixed (configuration_diagnostic ''CONFIG'' f)"
proof -
  show i: "diagnostic_fixed (interpolation_diagnostic src e)" if "src \<in> {''CONFIG'', ''routes.file''}" for src e
    using that by (cases e) (auto simp: diagnostic_fixed_def)
  show "diagnostic_fixed (configuration_diagnostic ''CONFIG'' f)"
    using i by (cases f) (auto simp: diagnostic_fixed_def)
qed

lemma map_err_Inl: "map_err f r = Inl e \<longleftrightarrow> (\<exists>e'. r = Inl e' \<and> e = f e')"
  by (auto simp: map_err_def split: sum.splits)

lemma source_read_fixed:
  "source_read yc label doc lookup = Inl d \<Longrightarrow> label \<in> {''CONFIG'', ''routes.file''} \<Longrightarrow> diagnostic_fixed d"
  using diagnostics_fixed(1) by (auto simp: source_read_def and_then_Inl_iff map_err_Inl)

lemma external_groups_fixed: "external_groups w yc path = Inl d \<Longrightarrow> diagnostic_fixed d"
  by (auto simp: external_groups_def and_then_Inl_iff map_err_Inl diagnostics_fixed split: option.splits
      dest!: source_read_fixed) (simp_all add: diagnostic_fixed_def)

lemma external_groups_label: "external_groups w yc path = Inr (s, groups) \<Longrightarrow> so_label s = ''routes.file''"
  by (auto simp: external_groups_def and_then_Inr_iff split: option.splits dest!: source_read_label)

lemma external_input_label: "external_input w yc v = Inr (Some (s, groups)) \<Longrightarrow> labelled s"
  by (auto simp: external_input_def and_then_Inr_iff labelled_def split: option.splits dest!: external_groups_label)

lemma external_input_fixed: "external_input w yc v = Inl d \<Longrightarrow> diagnostic_fixed d"
  by (auto simp: external_input_def and_then_Inl_iff split: option.splits dest!: external_groups_fixed)

lemma effective_view_project:
  assumes "effective_view w p rate_new path = Inr j"
  shows "\<exists>v table s rs external. j = project p v table s rs external \<and> labelled s \<and> labelled rs"
proof -
  obtain doc s v external where s: "source_read (pr_yaml p) ''CONFIG'' doc (wo_lookup w) = Inr s"
    "external_input w (pr_yaml p) v = Inr external"
    and j: "j = project p v (fst (build_with rate_new 0
        (case external of Some e \<Rightarrow> snd e | None \<Rightarrow> gc_routes (rv_raw v)) (gc_defaults (rv_raw v)) None []))
        s (case external of Some e \<Rightarrow> fst e | None \<Rightarrow> s) (external \<noteq> None)"
    using assms by (auto simp: effective_view_def and_then_Inr_iff Let_def split: option.splits)
  have l: "labelled s" using source_read_label [OF s(1)] by (simp add: labelled_def)
  moreover have "labelled (case external of Some e \<Rightarrow> fst e | None \<Rightarrow> s)"
    using l external_input_label s(2) by (cases external) fastforce+
  ultimately show ?thesis using j by blast
qed

text \<open>C31: the effective view prints no text of the documents. Whatever the configuration, the
  route file and the environment hold, every text in the printed value is a word the program
  itself writes, the printed form of a duration, a numbered reference, or one of the fixed
  setting paths; and a failure names only a source, a line and a fixed reason.\<close>

theorem effective_prints_no_configuration_text:
  "case effective_view w p rate_new path of Inr j \<Rightarrow> texts_ok (printable p) j | Inl d \<Rightarrow> diagnostic_fixed d"
proof (cases "effective_view w p rate_new path")
  case (Inr j)
  then show ?thesis using effective_view_project [OF Inr] project_texts by auto
next
  case (Inl d)
  then have "diagnostic_fixed d"
    by (auto simp: effective_view_def and_then_Inl_iff map_err_Inl Let_def diagnostics_fixed split: option.splits
        simp del: configuration_diagnostic.simps dest!: source_read_fixed external_input_fixed)
      (simp_all add: diagnostic_fixed_def)
  then show ?thesis using Inl by simp
qed

section \<open>What the environment cannot change\<close>

definition node_at :: "yaml_crate \<Rightarrow> yaml option \<Rightarrow> string \<Rightarrow> yaml option" where
  "node_at yc doc path = fold (\<lambda>part v. Option.bind v (\<lambda>x. yc_get yc x part)) (split_on CHR ''.'' path) doc"

text \<open>The walk in the expanded document does not look at the masked one, and where the masked walk
  arrives depends on the masked document alone.\<close>

definition masked_step :: "string \<Rightarrow> yaml option \<Rightarrow> yaml option" where
  "masked_step part node = (case node of Some (YMapping m) \<Rightarrow> map_of m (YString part) | _ \<Rightarrow> None)"

lemma step_down_parts:
  "fst (step_down yc i part st) = masked_step part (fst st)"
  "fst (snd (step_down yc i part st)) = Option.bind (fst (snd st)) (\<lambda>x. yc_get yc x part)"
  by (cases st; simp add: step_down_def masked_step_def Let_def split: option.splits yaml.splits)+

lemma walk_parts:
  "fst (fold (step_down yc i) parts st) = fold masked_step parts (fst st)
   \<and> fst (snd (fold (step_down yc i) parts st)) = fold (\<lambda>part v. Option.bind v (\<lambda>x. yc_get yc x part)) parts (fst (snd st))"
  by (induction parts arbitrary: st) (simp_all add: step_down_parts)

lemma field_shownD:
  assumes "\<not> fv_redacted (field yc s path v)"
  shows "node_at yc (so_expanded s) path = fold masked_step (split_on CHR ''.'' path) (so_masked s)"
    and "\<forall>x. node_at yc (so_expanded s) path = Some x \<longrightarrow> \<not> contains_interpolation (so_inspection s) x"
    and "field yc s path v = \<lparr> fv_value = v,
           fv_origin = (if node_at yc (so_expanded s) path = None then ''built-in'' else so_label s @ ''.'' @ path),
           fv_redacted = False \<rparr>"
proof -
  let ?w = "fold (step_down yc (so_inspection s)) (split_on CHR ''.'' path)
      (so_masked s, so_expanded s, so_masked s = None \<or> so_expanded s = None)"
  obtain node expanded_node taint where w: "?w = (node, expanded_node, taint)" by (metis prod_cases3)
  have p: "node = fold masked_step (split_on CHR ''.'' path) (so_masked s)"
    "expanded_node = node_at yc (so_expanded s) path"
    using walk_parts [of yc "so_inspection s" "split_on CHR ''.'' path"
        "(so_masked s, so_expanded s, so_masked s = None \<or> so_expanded s = None)"] unfolding w
    by (simp_all add: node_at_def)
  let ?t = "taint \<or> (case node of Some x \<Rightarrow> contains_interpolation (so_inspection s) x | None \<Rightarrow> False)
      \<or> node \<noteq> expanded_node"
  have f: "field yc s path v = \<lparr> fv_value = (if ?t \<or> v = None then None else v),
      fv_origin = (if node \<noteq> None \<or> ?t then so_label s @ ''.'' @ path else ''built-in''),
      fv_redacted = (?t \<or> v = None) \<rparr>"
    unfolding field_def Let_def w by simp
  have t: "\<not> ?t" "v \<noteq> None" using assms unfolding f by simp_all
  show "node_at yc (so_expanded s) path = fold masked_step (split_on CHR ''.'' path) (so_masked s)"
    using t(1) p by simp
  show "\<forall>x. node_at yc (so_expanded s) path = Some x \<longrightarrow> \<not> contains_interpolation (so_inspection s) x"
    using t(1) p(2) by auto
  show "field yc s path v = \<lparr> fv_value = v,
           fv_origin = (if node_at yc (so_expanded s) path = None then ''built-in'' else so_label s @ ''.'' @ path),
           fv_redacted = False \<rparr>"
    unfolding f using t p(2) by auto
qed

text \<open>A value that is shown was written, not substituted. Where two environments both leave a
  setting unredacted, it shows the same value and origin in both, whatever way the value is read
  from the setting's place in the document; and nothing at that place holds a variable.\<close>

theorem shown_settings_were_written:
  assumes "source_read yc label doc lookup1 = Inr s1" "source_read yc label doc lookup2 = Inr s2"
    and "v1 = Some (decode (node_at yc (so_expanded s1) path))" "v2 = Some (decode (node_at yc (so_expanded s2) path))"
    and "\<not> fv_redacted (field yc s1 path v1)" "\<not> fv_redacted (field yc s2 path v2)"
  shows "field yc s1 path v1 = field yc s2 path v2
    \<and> (\<forall>x. node_at yc (so_expanded s1) path = Some x \<longrightarrow> \<not> contains_interpolation (so_inspection s1) x)"
proof -
  obtain i1 i2 where i: "inspect_text doc lookup1 = Inr i1" "inspect_text doc lookup2 = Inr i2"
    "so_masked s1 = yc_parse yc (is_masked i1)" "so_masked s2 = yc_parse yc (is_masked i2)"
    "so_label s1 = label" "so_label s2 = label"
    using assms(1,2) by (auto simp: source_read_def and_then_Inr_iff)
  obtain i3 where "inspect_text doc lookup2 = Inr i3" "is_masked i3 = is_masked i1"
    by (rule inspection_value_free [OF i(1)])
  then have "is_masked i1 = is_masked i2" using i(2) by simp
  then have "node_at yc (so_expanded s1) path = node_at yc (so_expanded s2) path"
    using field_shownD(1) [OF assms(5)] field_shownD(1) [OF assms(6)] i(3,4) by simp
  then show ?thesis
    using field_shownD(2,3) [OF assms(5)] field_shownD(3) [OF assms(6)] assms(3,4) i(5,6) by simp
qed

text \<open>A document with one variable: the setting beside it is shown, its own is not.\<close>

definition sample_crate :: yaml_crate where
  "sample_crate =
     \<lparr> yc_parse = (\<lambda>t. Some (YMapping [(YString ''k'', YString (drop 3 t)), (YString ''cache'', YNumber ''5'')])),
       yc_get = (\<lambda>v k. case v of YMapping m \<Rightarrow> map_of m (YString k) | _ \<Rightarrow> None),
       yc_as_str = (\<lambda>v. case v of YString s \<Rightarrow> Some s | _ \<Rightarrow> None) \<rparr>"

definition set_to :: "string \<Rightarrow> string \<Rightarrow> string option" where
  "set_to v n = (if n = ''K'' then Some v else None)"

definition sample_source :: "string \<Rightarrow> source" where
  "sample_source v =
     \<lparr> so_label = ''CONFIG'',
       so_inspection = \<lparr> is_masked = ''k: lagos-vars-placeholder-0-end'',
         is_references = [\<lparr> vr_name = ''K'', vr_line = 1, vr_column = 4, vr_has_default = False, vr_state = VSet,
                            vr_marker = ''lagos-vars-placeholder-0-end'', vr_selected = Some v \<rparr>] \<rparr>,
       so_masked = yc_parse sample_crate ''k: lagos-vars-placeholder-0-end'',
       so_expanded = yc_parse sample_crate (''k: '' @ v) \<rparr>"

lemma sample_source_reads:
  "source_read sample_crate ''CONFIG'' ''k: ${K}'' (set_to ''a'') = Inr (sample_source ''a'')"
  "source_read sample_crate ''CONFIG'' ''k: ${K}'' (set_to ''b'') = Inr (sample_source ''b'')"
  by code_simp+

lemma sample_fields:
  "\<not> fv_redacted (field sample_crate (sample_source ''a'') ''cache'' (Some JNull))"
  "\<not> fv_redacted (field sample_crate (sample_source ''b'') ''cache'' (Some JNull))"
  "fv_redacted (field sample_crate (sample_source ''a'') ''k'' (Some JNull))"
  by code_simp+

theorem shown_settings_were_written_witness:
  "field sample_crate (sample_source ''a'') ''cache'' (Some JNull) =
     field sample_crate (sample_source ''b'') ''cache'' (Some JNull)
   \<and> fv_redacted (field sample_crate (sample_source ''a'') ''k'' (Some JNull))"
  using shown_settings_were_written [OF sample_source_reads refl refl, where decode = "\<lambda>_. JNull"] sample_fields by simp

end
