(* ===== verification/Env_Inventory.thy ===== *)
theory Env_Inventory
  imports Effective
begin

text \<open>
  The inventory of the environment (\<open>cli/vars.rs\<close>, \<open>Inspection::resolve_scalar\<close> in
  \<open>config/interpolate.rs\<close>): what \<open>lagos vars\<close> prints of the variables of a document and of its
  route file, and that no value gets into it.
\<close>

section \<open>Resolving a scalar of the masked document\<close>

fun find_str :: "string \<Rightarrow> string \<Rightarrow> nat option" where
  "find_str p [] = (if p = [] then Some 0 else None)"
| "find_str p (c # cs) = (if starts_with p (c # cs) then Some 0 else map_option Suc (find_str p cs))"

text \<open>The earliest marker of the rest, the first reference among equals.\<close>

definition next_marker :: "variable_reference list \<Rightarrow> string \<Rightarrow> (nat \<times> variable_reference) option" where
  "next_marker refs rest =
     min_by_key fst (List.map_filter (\<lambda>r. map_option (\<lambda>offset. (offset, r)) (find_str (vr_marker r) rest)) refs)"

text \<open>\<open>resolve_scalar\<close>: one walk over the scalar. No marker is empty; where the code would not
  end on an empty one, this answers nothing.\<close>

function resolve_scalar :: "variable_reference list \<Rightarrow> string \<Rightarrow> string option" where
  "resolve_scalar refs rest =
     (case next_marker refs rest of
        None \<Rightarrow> Some rest
      | Some (offset, r) \<Rightarrow>
          if vr_marker r = [] \<or> length rest < offset + length (vr_marker r) then None
          else case vr_selected r of
                 None \<Rightarrow> None
               | Some v \<Rightarrow> map_option (\<lambda>out. take offset rest @ v @ out)
                             (resolve_scalar refs (drop (offset + length (vr_marker r)) rest)))"
  by pat_completeness auto
termination by (relation "measure (\<lambda>(_, rest). length rest)") (auto simp: length_greater_0_conv [symmetric] simp del: length_greater_0_conv)

declare resolve_scalar.simps [simp del]

section \<open>The report\<close>

fun state_text :: "variable_state \<Rightarrow> string" where
  "state_text VSet = ''set''"
| "state_text VDefaulted = ''defaulted''"
| "state_text VRequired = ''required (unset)''"
| "state_text VInvalid = ''invalid (control character)''"

abbreviation tab :: string where "tab \<equiv> [CHR 0x09]"

definition reference_line :: "string \<Rightarrow> variable_reference \<Rightarrow> string" where
  "reference_line src r =
     src @ '':'' @ show_nat (vr_line r) @ '':'' @ show_nat (vr_column r) @ tab @ vr_name r @ tab
     @ state_text (vr_state r) @ tab @ (if vr_has_default r then ''yes'' else ''no'') @ tab
     @ (if vr_has_default r then ''no'' else ''yes'') @ [newline]"

definition append_references :: "string \<Rightarrow> inspection \<Rightarrow> string" where
  "append_references src i = concat (map (reference_line src) (is_references i))"

datatype env_route_source = RoutesInline | RoutesFile | RoutesUnchecked string

definition marked_key :: "yaml_crate \<Rightarrow> inspection \<Rightarrow> yaml \<Rightarrow> bool" where
  "marked_key yc i k = (case yc_as_str yc k of Some s \<Rightarrow> contains_marker i s | None \<Rightarrow> False)"

definition route_source :: "yaml_crate \<Rightarrow> inspection \<Rightarrow> env_route_source" where
  "route_source yc i =
     (case yc_parse yc (is_masked i) of
        Some (YMapping toplevel) \<Rightarrow>
          if list_ex (marked_key yc i) (map fst toplevel) then RoutesUnchecked ''a variable supplies a configuration key''
          else (case map_of toplevel (YString ''routes'') of
             None \<Rightarrow> RoutesInline
           | Some (YMapping routes) \<Rightarrow>
               if list_ex (marked_key yc i) (map fst routes) then RoutesUnchecked ''a variable supplies a routes key''
               else (case map_of routes (YString ''file'') of
                  None \<Rightarrow> RoutesInline
                | Some YNull \<Rightarrow> RoutesInline
                | Some (YString name) \<Rightarrow>
                    (case resolve_scalar (is_references i) name of
                       Some _ \<Rightarrow> RoutesFile
                     | None \<Rightarrow> RoutesUnchecked ''path depends on an unset or invalid variable'')
                | Some _ \<Rightarrow> RoutesUnchecked ''file path is not a string'')
           | Some _ \<Rightarrow> RoutesUnchecked ''routes is not a literal mapping'')
      | _ \<Rightarrow> RoutesUnchecked ''cannot identify routes in the masked YAML'')"

text \<open>The name of the route file goes through the runtime's own expansion.\<close>

definition runtime_file :: "yaml_crate \<Rightarrow> (string \<Rightarrow> string option) \<Rightarrow> string \<Rightarrow> string option" where
  "runtime_file yc lookup doc =
     (case interpolate_with_fallback doc lookup (Some (\<lambda>_. ''lagos-vars-unset'')) of
        Inl _ \<Rightarrow> None
      | Inr e \<Rightarrow>
          Option.bind (yc_parse yc (ip_text e)) (\<lambda>doc0.
          Option.bind (yc_get yc doc0 ''routes'') (\<lambda>routes.
          Option.bind (yc_get yc routes ''file'') (yc_as_str yc))))"

definition line :: "string \<Rightarrow> string" where "line t = t @ [newline]"

definition closing :: string where
  "closing = line ''Values and default text are hidden. This inventory does not validate configuration.''"

definition inspect_env :: "string \<Rightarrow> (string \<Rightarrow> string option) \<Rightarrow> string \<Rightarrow> (inspection, diagnostic) result" where
  "inspect_env doc lookup src = map_err (interpolation_diagnostic src) (inspect_text doc lookup)"

definition routes_report ::
  "world \<Rightarrow> yaml_crate \<Rightarrow> string \<Rightarrow> string \<Rightarrow> inspection \<Rightarrow> (string, diagnostic) result" where
  "routes_report w yc path doc i =
     (case route_source yc i of
        RoutesInline \<Rightarrow> Inr (line ''Inventory complete (inline routes).'')
      | RoutesUnchecked reason \<Rightarrow> Inr (line (''UNCHECKED routes.file: '' @ reason @ ''; inventory incomplete.''))
      | RoutesFile \<Rightarrow>
          (case runtime_file yc (wo_lookup w) doc of
             None \<Rightarrow> Inr (line ''UNCHECKED routes.file: cannot resolve path through runtime interpolation; inventory incomplete.'')
           | Some f \<Rightarrow>
               (case wo_disk w (path_join (case path_parent path of Some dir \<Rightarrow> dir | None \<Rightarrow> ''.'') f) of
                  None \<Rightarrow> Inr (line ''UNCHECKED routes.file: cannot read file as UTF-8; inventory incomplete.'')
                | Some routes \<Rightarrow>
                    and_then (inspect_env routes (wo_lookup w) ''routes.file'') (\<lambda>r.
                    Inr (append_references ''routes.file'' r @ line ''Inventory complete (CONFIG and routes.file).'')))))"

definition vars_command :: "world \<Rightarrow> yaml_crate \<Rightarrow> string \<Rightarrow> (string, diagnostic) result" where
  "vars_command w yc path =
     (case wo_disk w path of
        None \<Rightarrow> Inl (CannotRead ''CONFIG'')
      | Some doc \<Rightarrow>
          and_then (inspect_env doc (wo_lookup w) ''CONFIG'') (\<lambda>i.
          and_then (routes_report w yc path doc i) (\<lambda>report.
          Inr (line (''SOURCE:LINE:COLUMN'' @ tab @ ''VARIABLE'' @ tab @ ''STATE'' @ tab @ ''DEFAULT'' @ tab @ ''REQUIRED'')
               @ append_references ''CONFIG'' i @ report @ closing))))"

section \<open>Values stay out of the report\<close>

text \<open>Two environments that a report may not tell apart: a variable is blank in both or in
  neither, and its value could be substituted in both or in neither.\<close>

definition usable :: "string option \<Rightarrow> bool option" where
  "usable v = map_option is_structurally_safe (nonblank v)"

definition alike :: "(string \<Rightarrow> string option) \<Rightarrow> (string \<Rightarrow> string option) \<Rightarrow> bool" where
  "alike lookup1 lookup2 = (\<forall>n. usable (lookup1 n) = usable (lookup2 n))"

definition same_report :: "variable_reference \<Rightarrow> variable_reference \<Rightarrow> bool" where
  "same_report r1 r2 =
     (same_place r1 r2 \<and> vr_state r1 = vr_state r2 \<and> (vr_selected r1 = None \<longleftrightarrow> vr_selected r2 = None))"

lemma occurrence_alike:
  assumes "usable v1 = usable v2"
  shows "same_report (occurrence name (nonblank v1) dflt l c marker) (occurrence name (nonblank v2) dflt l c marker)"
  using assms
  by (cases "nonblank v1"; cases "nonblank v2"; cases dflt)
    (simp_all add: usable_def same_report_def same_place_def occurrence_def Let_def)

definition same_seen ::
  "(string \<Rightarrow> string option) \<Rightarrow> (string \<Rightarrow> string option) \<Rightarrow> expansion \<Rightarrow> expansion \<Rightarrow> bool" where
  "same_seen lookup1 lookup2 ex1 ex2 =
     (alike lookup1 lookup2 \<and> ex_referenced ex1 = ex_referenced ex2
      \<and> list_all2 same_report (ex_occurrences ex1) (ex_occurrences ex2))"

interpretation reports: expansion_simulation
    "\<lparr> ee_lookup = lookup1, ee_fallback = None, ee_prefix = Some pre \<rparr>"
    "\<lparr> ee_lookup = lookup2, ee_fallback = None, ee_prefix = Some pre \<rparr>"
    "same_seen lookup1 lookup2" "\<lambda>_. False" for lookup1 lookup2 pre
  by unfold_locales
    (auto simp: expand_reference_def same_seen_def Let_def alike_def occurrence_alike
      list_all2_lengthD intro!: list_all2_appendI split: prod.splits if_splits)

lemma inspection_alike:
  assumes "inspect_text doc lookup1 = r1" "alike lookup1 lookup2"
  shows "(\<exists>e. r1 = Inl e) \<or> (\<exists>i1 i2. r1 = Inr i1 \<and> inspect_text doc lookup2 = Inr i2
    \<and> is_masked i1 = is_masked i2 \<and> list_all2 same_report (is_references i1) (is_references i2))"
proof (cases r1)
  case (Inr i1)
  let ?p = "free_prefix (Suc (length doc)) doc ''lagos-vars-placeholder-''"
  let ?env = "\<lambda>lookup. \<lparr> ee_lookup = lookup, ee_fallback = None, ee_prefix = Some ?p \<rparr>"
  obtain e refs where "process (?env lookup1) doc = Inr (e, refs)" "i1 = \<lparr> is_masked = ip_text e, is_references = refs \<rparr>"
    using assms(1) Inr by (auto simp: inspect_text_def and_then_Inr_iff)
  then obtain outs ex where x: "expand_lines (?env lookup1) 1 None (split_on newline doc) fresh_expansion = Inr (outs, ex)"
    "i1 = \<lparr> is_masked = document_text doc outs, is_references = ex_occurrences ex \<rparr>"
    by (auto simp: process_Inr)
  have "same_seen lookup1 lookup2 fresh_expansion fresh_expansion" using assms(2) by (simp add: same_seen_def)
  from reports.lines_related [OF x(1) this] obtain ex2 where
    y: "expand_lines (?env lookup2) 1 None (split_on newline doc) fresh_expansion = Inr (outs, ex2)"
    "same_seen lookup1 lookup2 ex ex2" by blast
  then have "inspect_text doc lookup2 = Inr \<lparr> is_masked = document_text doc outs, is_references = ex_occurrences ex2 \<rparr>"
    by (simp add: inspect_text_def process_def and_then_def document_text_def)
  then show ?thesis using Inr x(2) y(2) by (simp add: same_seen_def)
qed simp

lemma next_marker_alike:
  assumes "list_all2 same_report refs1 refs2"
  shows "rel_option (rel_prod (=) same_report) (next_marker refs1 s) (next_marker refs2 s)"
proof -
  have "list_all2 (rel_prod (=) same_report)
      (List.map_filter (\<lambda>r. map_option (\<lambda>offset. (offset, r)) (find_str (vr_marker r) s)) refs1)
      (List.map_filter (\<lambda>r. map_option (\<lambda>offset. (offset, r)) (find_str (vr_marker r) s)) refs2)"
    using assms
    by (induction rule: list_all2_induct)
      (auto simp: List.map_filter_def same_report_def same_place_def split: option.splits)
  then show ?thesis unfolding next_marker_def
    by (induction rule: list_all2_induct) (auto split: option.splits elim!: option.rel_cases)
qed

lemma resolve_scalar_alike:
  assumes "list_all2 same_report refs1 refs2"
  shows "resolve_scalar refs1 s = None \<longleftrightarrow> resolve_scalar refs2 s = None"
  using assms
proof (induction refs1 s rule: resolve_scalar.induct)
  case (1 refs1 s)
  note rel = next_marker_alike [OF "1.prems", of s]
  show ?case
  proof (cases "next_marker refs1 s")
    case None
    then have "next_marker refs2 s = None" using rel by simp
    then show ?thesis using None by (simp add: resolve_scalar.simps)
  next
    case (Some hit)
    then obtain offset r1 r2 where n: "next_marker refs1 s = Some (offset, r1)" "next_marker refs2 s = Some (offset, r2)"
      and r: "same_report r1 r2"
      using rel by (cases hit) (auto simp: option_rel_Some1 rel_prod_sel)
    have m: "vr_marker r2 = vr_marker r1" "vr_selected r1 = None \<longleftrightarrow> vr_selected r2 = None"
      using r by (simp_all add: same_report_def same_place_def)
    show ?thesis
    proof (cases "vr_marker r1 = [] \<or> length s < offset + length (vr_marker r1) \<or> vr_selected r1 = None")
      case True
      then show ?thesis using n m
        by (auto simp: resolve_scalar.simps [of refs1 s] resolve_scalar.simps [of refs2 s] split: option.splits)
    next
      case False
      then obtain v1 v2 where v: "vr_selected r1 = Some v1" "vr_selected r2 = Some v2" using m(2) by auto
      have "resolve_scalar refs1 (drop (offset + length (vr_marker r1)) s) = None \<longleftrightarrow>
          resolve_scalar refs2 (drop (offset + length (vr_marker r1)) s) = None"
        by (rule "1.IH" [OF n(1) refl _ v(1) "1.prems"]) (use False in simp)
      then show ?thesis using n m v False
        by (simp add: resolve_scalar.simps [of refs1 s] resolve_scalar.simps [of refs2 s])
    qed
  qed
qed

lemma marker_alike:
  assumes "list_all2 same_report (is_references i1) (is_references i2)"
  shows "contains_marker i1 s = contains_marker i2 s"
  using assms unfolding contains_marker_def
  by (induction rule: list_all2_induct) (auto simp: same_report_def same_place_def)

lemma lines_alike:
  assumes "list_all2 same_report (is_references i1) (is_references i2)"
  shows "append_references src i1 = append_references src i2"
  using assms unfolding append_references_def
  by (induction rule: list_all2_induct) (simp_all add: reference_line_def same_report_def same_place_def)

lemma route_source_alike:
  assumes "is_masked i1 = is_masked i2" "list_all2 same_report (is_references i1) (is_references i2)"
  shows "route_source yc i1 = route_source yc i2"
proof -
  have k: "marked_key yc i1 = marked_key yc i2"
    by (rule ext) (auto simp: marked_key_def marker_alike [OF assms(2)] split: option.splits)
  have r: "(case resolve_scalar (is_references i1) name of Some _ \<Rightarrow> a | None \<Rightarrow> b) =
      (case resolve_scalar (is_references i2) name of Some _ \<Rightarrow> a | None \<Rightarrow> b)" for name a b
    using resolve_scalar_alike [OF assms(2), of name] by (auto split: option.splits)
  show ?thesis unfolding route_source_def k r assms(1) ..
qed


text \<open>Two environments that give the variable of a document two values.\<close>

definition env_world :: "string \<Rightarrow> world" where
  "env_world v = sample_world \<lparr> wo_disk := [''g.yml'' \<mapsto> ''k: ${K}''], wo_lookup := set_to v \<rparr>"

lemma env_worlds:
  "alike (wo_lookup (env_world ''a'')) (set_to ''b'')"
  "runtime_file sample_crate lookup doc = None"
  "is_ok (vars_command (env_world ''a'') sample_crate ''g.yml'')"
  "(env_world ''a'') \<lparr> wo_lookup := set_to ''b'' \<rparr> = env_world ''b''"
proof -
  have "usable (Some ''a'') = usable (Some ''b'')" by code_simp
  then show "alike (wo_lookup (env_world ''a'')) (set_to ''b'')" by (simp add: alike_def env_world_def set_to_def)
  show "runtime_file sample_crate lookup doc = None"
    by (simp add: runtime_file_def sample_crate_def split: sum.splits)
  show "is_ok (vars_command (env_world ''a'') sample_crate ''g.yml'')" by code_simp
qed (simp add: env_world_def)


end
