(* ===== verification/Explain.thy ===== *)
theory Explain
  imports Env_Inventory
begin

text \<open>
  What \<open>lagos explain\<close>, \<open>lagos routes\<close> and \<open>lagos validate\<close> print (\<open>cli.rs\<close>,
  \<open>cli/explanation.rs\<close>), line by line: that the candidates of \<open>--why-not\<close> account for every
  route under the path, and that no credential is printed.

  The output is the list of its lines. \<open>Debug\<close> forms and Unicode upper case are
  parameters.
\<close>

section \<open>Text\<close>

record text_forms =
  tf_duration :: "duration \<Rightarrow> string"
  tf_strings :: "string list \<Rightarrow> string"
  tf_upper :: "string \<Rightarrow> string"

definition tick :: string where "tick = [CHR 0xE2, CHR 0x9C, CHR 0x93]"
definition cross :: string where "cross = [CHR 0xE2, CHR 0x9C, CHR 0x97]"
definition arrow :: string where "arrow = [CHR 0xE2, CHR 0x86, CHR 0x92]"
definition dash :: string where "dash = [CHR 0xE2, CHR 0x80, CHR 0x94]"

text \<open>Padding counts characters, the bytes that do not continue one.\<close>

definition char_count :: "string \<Rightarrow> nat" where
  "char_count s = length (filter (\<lambda>c. byte c div 64 \<noteq> 2) s)"

definition padded :: "nat \<Rightarrow> string \<Rightarrow> string" where
  "padded width s = s @ replicate (width - char_count s) CHR '' ''"

fun missing_debug :: "missing_key \<Rightarrow> string" where
  "missing_debug MissingReject = ''Reject''"
| "missing_debug MissingRoute = ''Route''"
| "missing_debug MissingIp = ''Ip''"
| "missing_debug MissingSkip = ''Skip''"

definition debug_option :: "('a \<Rightarrow> string) \<Rightarrow> 'a option \<Rightarrow> string" where
  "debug_option f x = (case x of None \<Rightarrow> ''None'' | Some v \<Rightarrow> ''Some('' @ f v @ '')'')"

definition listener_label :: "listener_kind \<Rightarrow> string" where
  "listener_label k = (case k of PublicListener \<Rightarrow> ''public'' | InternalListener \<Rightarrow> ''internal'')"

section \<open>Why a route is not the answer\<close>

definition candidate_reasons ::
  "listener_kind \<Rightarrow> bool \<Rightarrow> bool \<Rightarrow> string option \<Rightarrow> route_candidate \<Rightarrow> string list" where
  "candidate_reasons k denied wrong host c =
     (if wrong then [''belongs to '' @ (case k of PublicListener \<Rightarrow> ''internal'' | InternalListener \<Rightarrow> ''public'') @ '' listener'']
      else if denied then [''blocked by deny-list before route matching''] else [])
     @ (if ca_host_matches c then []
        else [(if host = None then ''Host header missing'' else ''host mismatch'') @ ''; requires ''
              @ join '', '' (rc_host (ca_route c))])
     @ (if ca_method_matches c then [] else [''method mismatch; allows '' @ join '', '' (rc_methods (ca_route c))])"

definition listed ::
  "route_table \<Rightarrow> route_table \<Rightarrow> string option \<Rightarrow> string \<Rightarrow> string \<Rightarrow> listener_kind \<Rightarrow> bool
   \<Rightarrow> (route_config \<times> string list) list" where
  "listed selected other host path method k denied =
     concat (map (\<lambda>(table, wrong).
         map (\<lambda>c. (ca_route c, candidate_reasons k denied wrong host c)) (prefix_candidates table host path method))
       [(selected, False), (other, True)])"

definition candidate_line :: "route_config \<times> string list \<Rightarrow> string" where
  "candidate_line entry =
     (let (r, reasons) = entry in
      ''  '' @ rc_id r @ ''  /'' @ rc_prefix r @ ''  (group: '' @ tier_group (rc_auth r) @ ''): '' @ join ''; '' reasons)"

definition candidates_lines ::
  "route_table \<Rightarrow> route_table \<Rightarrow> string option \<Rightarrow> string \<Rightarrow> string \<Rightarrow> listener_kind \<Rightarrow> bool \<Rightarrow> string list" where
  "candidates_lines selected other host path method k denied =
     (let entries = listed selected other host path method k denied in
      ['''', ''Prefix candidates'', ''''] @ map candidate_line entries
      @ (if entries = [] then [''  no enabled route has a matching canonical prefix on either listener''] else []))"

section \<open>The explanation of a route\<close>

fun auth_lines :: "auth_tier \<Rightarrow> string list" where
  "auth_lines TierPublic = [''  no token is read, even if one is sent'', ''  identity headers are stripped before proxying'']"
| "auth_lines TierOptional = [''  no token      '' @ arrow @ '' proxied anonymously'',
     ''  valid token   '' @ arrow @ '' proxied with identity'', ''  invalid token '' @ arrow @ '' 401'']"
| "auth_lines TierRequired = [''  a valid token is required; anything else is 401'']"
| "auth_lines TierMachine = [''  shared credential on the internal listener only'']"

definition cookie_lines :: "resolved_config \<Rightarrow> route_config \<Rightarrow> string list" where
  "cookie_lines v r =
     (let names = au_token_cookies (gc_auth (rv_raw v)) in
      if verifies (rc_auth r) \<and> names \<noteq> []
      then [''  the token is read from `Authorization: Bearer`, else cookie ''
            @ join '', then '' (map (\<lambda>n. ''`'' @ n @ ''`'') names)]
      else [])"

definition client_key_lines :: "resolved_config \<Rightarrow> route_config \<Rightarrow> listener_kind \<Rightarrow> string \<Rightarrow> string list" where
  "client_key_lines v r k canonical =
     (case (k, rv_client_keys v) of
        (PublicListener, Some keys) \<Rightarrow>
          [''Client key'', '''']
          @ (case client_key_rule v r canonical of
               KeyRequired \<Rightarrow>
                 [''  one of '' @ show_nat (length (rk_keys keys)) @ '' key(s) in `'' @ rk_header keys
                    @ ''`; missing or wrong '' @ arrow @ '' 401, before any token is read'',
                  ''  the key is removed before proxying'']
                 @ (case rk_forward_as keys of
                      Some h \<Rightarrow> [''  the key's id is sent upstream as `'' @ h @ ''`'']
                    | None \<Rightarrow> [])
             | KeyExempt why \<Rightarrow>
                 [''  exempt: '' @ describe_exemption why,
                  ''  no key is required; one sent anyway is removed before proxying'']
             | KeyOff \<Rightarrow> [])
          @ ['''']
      | _ \<Rightarrow> [])"

definition retry_lines :: "string \<Rightarrow> retry_config option \<Rightarrow> string list" where
  "retry_lines method retry =
     (case retry of
        None \<Rightarrow> []
      | Some rt \<Rightarrow>
          [''Retries'', '''', ''  up to '' @ show_nat (rt_attempts rt) @ '' after the first attempt'']
          @ (if rt_non_idempotent rt then [''  including POST and PATCH (non_idempotent: true)'']
             else if \<not> is_idempotent (to_ascii_uppercase method)
             then [''  a connect failure retries any method; after connecting,'',
                   ''  only idempotent methods are repeated'']
             else [])
          @ [''''])"

fun rate_key_text :: "rate_limit_key \<Rightarrow> string" where
  "rate_key_text KeyIp = ''the client address''"
| "rate_key_text KeyIdentity = ''the caller's subject''"
| "rate_key_text KeyRoute = ''this route as a whole''"
| "rate_key_text (KeyHeader h) = ''header `'' @ h @ ''`''"

definition missing_line :: "missing_key \<Rightarrow> string" where
  "missing_line m = ''  missing key: '' @ missing_debug m @ ''; malformed header keys: 400''"

definition rate_lines :: "text_forms \<Rightarrow> rate_limit_config option \<Rightarrow> string list" where
  "rate_lines f rate =
     (case rate of
        None \<Rightarrow> []
      | Some rl \<Rightarrow>
          [''Rate limit'', '''',
           ''  '' @ show_nat (rl_requests rl) @ '' requests per '' @ tf_duration f (rl_interval rl) @ '', keyed on ''
             @ rate_key_text (rl_key rl),
           missing_line (rl_missing_key rl)]
          @ (if rl_key rl = KeyIp \<and> rl_trusted_proxies rl = 0
             then [''  note: trusted_proxies is 0, so the socket peer is used '' @ dash,
                   ''        behind an ingress every client shares one bucket'']
             else [])
          @ [''''])"

fun cap_key_text :: "rate_limit_key \<Rightarrow> string" where
  "cap_key_text KeyIp = ''per client address''"
| "cap_key_text KeyIdentity = ''per caller subject''"
| "cap_key_text KeyRoute = ''for this route as a whole''"
| "cap_key_text (KeyHeader h) = ''per header `'' @ h @ ''`''"

definition cap_lines :: "concurrency_config option \<Rightarrow> string list" where
  "cap_lines cap =
     (case cap of
        None \<Rightarrow> []
      | Some c \<Rightarrow>
          [''Concurrency'', '''',
           ''  '' @ show_nat (cc_max c) @ '' requests upstream at once, '' @ cap_key_text (concurrency_key c),
           missing_line (cc_missing_key c)]
          @ (if concurrency_key c \<noteq> KeyRoute \<and> cc_missing_key c = MissingRoute
             then [''  missing-key route fallback: 503 when the shared fallback cap is full''] else [])
          @ [''  over the cap: '' @ (if concurrency_key c \<noteq> KeyRoute then ''429'' else ''503'') @ '' at once, never queued'',
             ''''])"

definition ownership_lines :: "binding list \<Rightarrow> string list" where
  "ownership_lines bs =
     (if bs = [] then []
      else [''Ownership'', '''']
           @ map (\<lambda>b. ''  '' @ describe b @ ''   (403 if missing, unprovable, or unequal)'') bs @ [''''])"

definition bool_text :: "bool \<Rightarrow> string" where
  "bool_text b = (if b then ''true'' else ''false'')"

definition csrf_lines :: "resolved_config \<Rightarrow> route_config \<Rightarrow> string list" where
  "csrf_lines v r =
     (case au_cookie_protection (gc_auth (rv_raw v)) of
        Some policy \<Rightarrow>
          if verifies (rc_auth r)
          then [''Cookie origin protection: unsafe cookie-authenticated methods require an exact trusted origin; Referer fallback: ''
                @ bool_text (cp_referer_fallback policy)]
          else []
      | None \<Rightarrow> [])"

definition extension_lines :: "text_forms \<Rightarrow> resolved_config \<Rightarrow> route_config \<Rightarrow> string list" where
  "extension_lines f v r =
     (if rc_extensions r = [] then []
      else [''Extensions'', '''',
            ''  per hook: '' @ tf_duration f (to_extension (gc_timeouts (rv_raw v))) @ ''; complete chain: ''
              @ tf_duration f (to_extension_chain (gc_timeouts (rv_raw v))) @ ''; concurrent chains: ''
              @ debug_option show_nat (li_extension_inflight (gc_limits (rv_raw v))),
            ''  cooperative timeout/capacity refusal: 503'']
           @ map (\<lambda>(i, e). ''  '' @ show_nat (i + 1) @ ''. '' @ e) (enumerate 0 (rc_extensions r)) @ [''''])"

definition target_urls :: "upstream_config \<Rightarrow> string" where
  "target_urls up = join '', '' (map tg_url (uc_targets up))"

definition upstream_lines :: "text_forms \<Rightarrow> resolved_config \<Rightarrow> route_config \<Rightarrow> string \<Rightarrow> string list" where
  "upstream_lines f v r canonical =
     [''Upstream'', '''',
      ''  '' @ rc_upstream r @ ''  ''
        @ (case rv_upstreams v (rc_upstream r) of Some up \<Rightarrow> target_urls up | None \<Rightarrow> ''<undefined>'')
        @ ''/'' @ upstream_path r canonical]
     @ (if rc_strip_prefix r then [''  prefix `/'' @ rc_prefix r @ ''` stripped before forwarding''] else [])
     @ [''  timeout '' @ tf_duration f (if rc_sse r then to_sse (gc_timeouts (rv_raw v)) else to_default (gc_timeouts (rv_raw v)))
          @ (if rc_sse r then '' (sse)'' else [])]"

definition injected_lines :: "resolved_config \<Rightarrow> listener_kind \<Rightarrow> string list" where
  "injected_lines v k =
     (let injected = (case k of PublicListener \<Rightarrow> rv_injected v | InternalListener \<Rightarrow> rv_machine_injected v) in
      if injected = [] then []
      else ['''', ''Injected headers'', ''''] @ map (\<lambda>(name, _). ''  '' @ name @ '': <redacted>'') injected)"

definition origins_lines :: "policy_origins \<Rightarrow> string list" where
  "origins_lines o' =
     [''Policy origins'', '''', ''  methods: '' @ origin_label (po_methods o'),
      ''  retry: '' @ origin_label (po_retry o'), ''  rate_limit: '' @ origin_label (po_rate_limit o'), '''']"

definition route_lines ::
  "text_forms \<Rightarrow> resolved_config \<Rightarrow> string \<Rightarrow> listener_kind \<Rightarrow> string \<Rightarrow> route_config \<Rightarrow> string list" where
  "route_lines f v method k canonical r =
     [''Route'', '''', ''  '' @ tick @ '' '' @ rc_id r @ ''  (group: '' @ tier_group (rc_auth r) @ '')'', '''']
     @ origins_lines (rc_origins r)
     @ [''Authentication'', ''''] @ auth_lines (rc_auth r) @ cookie_lines v r @ ['''']
     @ client_key_lines v r k canonical @ retry_lines method (rc_retry r) @ rate_lines f (rc_rate_limit r)
     @ cap_lines (rc_concurrency r) @ ownership_lines (rc_bindings r) @ csrf_lines v r @ extension_lines f v r
     @ upstream_lines f v r canonical @ injected_lines v k
     @ ['''', ''Result'', '''', ''  route selected (request outcome unchecked)'']"

definition head_lines :: "text_forms \<Rightarrow> string \<Rightarrow> string \<Rightarrow> string option \<Rightarrow> listener_kind \<Rightarrow> string list" where
  "head_lines f method request_path host k =
     [''Request'', '''', ''  '' @ tf_upper f method @ '' '' @ (case host of Some h \<Rightarrow> h | None \<Rightarrow> []) @ request_path, '''',
      ''Listener'', '''', ''  '' @ listener_label k, '''',
      ''Offline checks'', '''',
      ''  UNCHECKED: credentials, client-header/body checks, rate limits, ownership,'',
      ''  extensions, cache, CORS preflight, and upstream availability.'',
      ''  Results describe route selection, not a verified or proxied request.'', '''']"

definition result_lines :: "string \<Rightarrow> string list" where
  "result_lines t = ['''', ''Result'', '''', ''  '' @ t]"

text \<open>The body of \<open>explain\<close> after the request was echoed.\<close>

definition outcome_lines ::
  "text_forms \<Rightarrow> (string \<Rightarrow> string option) \<Rightarrow> resolved_config \<Rightarrow> route_table \<Rightarrow> string \<Rightarrow> string \<Rightarrow> string option
   \<Rightarrow> listener_kind \<Rightarrow> bool \<Rightarrow> string list" where
  "outcome_lines f pct_decode v table method request_path host k why_not =
     (let (public, machine) = partition_by_listener table;
          (selected, other) = (case k of PublicListener \<Rightarrow> (public, machine) | InternalListener \<Rightarrow> (machine, public));
          path = (case split_once CHR ''?'' request_path of Some (p, _) \<Rightarrow> p | None \<Rightarrow> request_path) in
      if k = InternalListener \<and> sv_internal_listen (gc_server (rv_raw v)) = None
      then tl (result_lines ''listener unavailable: server.internal_listen is not configured'')
      else if path = sv_health_path (gc_server (rv_raw v))
      then [''Health'', '''', ''  local health response; route matching and authentication are bypassed'']
           @ result_lines ''200 (local_health)''
      else case strip_mount v path of
        None \<Rightarrow> [''  '' @ cross @ '' no mount matches. Mounts are: '' @ tf_strings f (rv_base_paths v)]
                @ result_lines ''404 (outside_base_path)''
      | Some (mount, sub) \<Rightarrow>
          [''Mount'', '''', ''  '' @ tick @ '' /'' @ mount @ ''  '' @ arrow @ ''  sub-path `'' @ sub @ ''`'', '''']
          @ (case canonicalize_proxy_path pct_decode sub of
               None \<Rightarrow> [''Path'', '''', ''  '' @ cross
                   @ '' rejected as unsafe (dot-segment, backslash, control char, or stray %)'']
                 @ result_lines ''404 (unsafe_path)''
             | Some canonical \<Rightarrow>
                 (if canonical \<noteq> sub
                  then [''Path'', '''', ''  '' @ tick @ '' canonicalized to `'' @ canonical @ ''`'', ''''] else [])
                 @ (if is_denied selected canonical
                    then [''Deny-list'', '''', ''  '' @ cross @ '' matches an `internal:` prefix'']
                         @ (if why_not then candidates_lines selected other host canonical method k True else [])
                         @ result_lines (''404 (deny_list) '' @ dash @ '' refusals are 404, never 403, so the'')
                         @ [''  deny-list cannot be enumerated.'']
                    else [''Deny-list'', '''', ''  '' @ tick @ '' not denied'', '''']
                         @ (case match_request selected host canonical method of
                              None \<Rightarrow> [''Route'', '''', ''  '' @ cross @ '' no route matches'']
                                @ (if why_not then candidates_lines selected other host canonical method k False else [])
                                @ result_lines ''404 (not_allowlisted)''
                            | Some r \<Rightarrow> route_lines f v method k canonical r))))"

definition explain_lines ::
  "text_forms \<Rightarrow> (string \<Rightarrow> string option) \<Rightarrow> resolved_config \<Rightarrow> route_table \<Rightarrow> string \<Rightarrow> string \<Rightarrow> string option
   \<Rightarrow> listener_kind \<Rightarrow> bool \<Rightarrow> string list" where
  "explain_lines f pct_decode v table method request_path host k why_not =
     head_lines f method request_path host k
     @ outcome_lines f pct_decode v table method request_path host k why_not"

text \<open>The command: which file is read, and then the lines.\<close>

definition CONFIG_CANDIDATES :: "string list" where
  "CONFIG_CANDIDATES = [''gateway.yml'', ''gateway.yaml'', ''config/gateway.yml'', ''lagos/gateway.yml'', ''deploy/gateway.yml'', ''/etc/lagos/gateway.yml'']"

definition resolve_config_path :: "world \<Rightarrow> (string \<Rightarrow> bool) \<Rightarrow> string option \<Rightarrow> string option" where
  "resolve_config_path w is_file given =
     (case given of
        Some p \<Rightarrow> Some p
      | None \<Rightarrow>
          (case wo_lookup w ''GATEWAY_CONFIG'' of
             Some p \<Rightarrow> if trim p \<noteq> [] then Some p else find is_file CONFIG_CANDIDATES
           | None \<Rightarrow> find is_file CONFIG_CANDIDATES))"

definition explain_command ::
  "world \<Rightarrow> text_forms \<Rightarrow> (duration \<Rightarrow> 'r) \<Rightarrow> (string \<Rightarrow> string option) \<Rightarrow> string \<Rightarrow> string \<Rightarrow> string \<Rightarrow> string option
   \<Rightarrow> listener_kind \<Rightarrow> bool \<Rightarrow> (string list, start_failure) result" where
  "explain_command w f rate_new pct_decode path method request_path host k why_not =
     and_then (cli_load w rate_new path None) (\<lambda>((v, _), table).
     Inr (explain_lines f pct_decode v table method request_path host k why_not))"

section \<open>The listing of routes\<close>

definition some_lines :: "('a \<Rightarrow> string) \<Rightarrow> 'a option \<Rightarrow> string list" where
  "some_lines f x = (case x of Some v \<Rightarrow> [f v] | None \<Rightarrow> [])"

definition denied_lines :: "route_table \<Rightarrow> string list" where
  "denied_lines t =
     (if tb_deny_prefixes t = [] then []
      else [''DENIED (404 on the public listener, whatever else matches)'', '''']
           @ map (\<lambda>d. ''  /'' @ d) (tb_deny_prefixes t) @ [''''])"

definition keys_lines :: "resolved_config \<Rightarrow> string list" where
  "keys_lines v =
     (case rv_client_keys v of
        None \<Rightarrow> []
      | Some keys \<Rightarrow>
          [''CLIENT KEYS (required on every public-listener route unless exempt)'', '''',
           ''  header      '' @ rk_header keys]
          @ some_lines (\<lambda>h. ''  forward_as  '' @ h) (rk_forward_as keys)
          @ [''  keys        '' @ join '', '' (map key_id (rk_keys keys))]
          @ map (\<lambda>p. ''  exempt      /'' @ p) (rk_exempt keys)
          @ map (\<lambda>g. ''  exempt      group '' @ g) (rk_exempt_groups keys)
          @ [''  (routes marked no-client-key are exempt at their prefix)'', ''''])"

definition notes_of :: "text_forms \<Rightarrow> resolved_config \<Rightarrow> route_config \<Rightarrow> string list" where
  "notes_of f v r =
     (if rc_sse r then [''sse''] else [])
     @ (if rc_strip_prefix r then [''strip-prefix''] else [])
     @ (case client_key_rule v r (rc_prefix r) of KeyExempt _ \<Rightarrow> [''no-client-key''] | _ \<Rightarrow> [])
     @ (if rc_extensions r = [] then [] else [join ''+'' (rc_extensions r)])
     @ map describe (rc_bindings r)
     @ some_lines (\<lambda>rl. show_nat (rl_requests rl) @ ''/'' @ tf_duration f (rl_interval rl)) (rc_rate_limit r)
     @ some_lines (\<lambda>c. ''concurrency '' @ show_nat (cc_max c)) (rc_concurrency r)
     @ some_lines (\<lambda>rt. ''retry x'' @ show_nat (rt_attempts rt)) (rc_retry r)
     @ [''origins: methods='' @ origin_label (po_methods (rc_origins r)) @ '', retry=''
        @ origin_label (po_retry (rc_origins r)) @ '', rate_limit='' @ origin_label (po_rate_limit (rc_origins r))]"

definition listing_line :: "text_forms \<Rightarrow> resolved_config \<Rightarrow> nat \<Rightarrow> route_config \<Rightarrow> string" where
  "listing_line f v width r =
     ''  '' @ padded 14 (tier_group (rc_auth r)) @ '' ''
     @ (if rc_host r = [] then [] else join '','' (rc_host r) @ '' '')
     @ ''/'' @ padded width (rc_prefix r) @ '' '' @ arrow @ '' '' @ padded 14 (rc_upstream r) @ '' ''
     @ (if rc_methods r = [] then ''ANY'' else join '','' (rc_methods r))
     @ ''  ['' @ join '' '' (notes_of f v r) @ '']''"

definition upstream_line :: "text_forms \<Rightarrow> string \<times> upstream_config \<Rightarrow> string" where
  "upstream_line f entry =
     (let (name, up) = entry in
      ''  '' @ padded 16 name @ '' '' @ target_urls up
      @ (case uc_health_check up of
           Some h \<Rightarrow> (case hc_path h of
                        Some p \<Rightarrow> ''  [health '' @ p @ '' every '' @ tf_duration f (hc_interval h) @ '']''
                      | None \<Rightarrow> ''  [health tcp every '' @ tf_duration f (hc_interval h) @ '']'')
         | None \<Rightarrow> [])
      @ (case uc_discovery up of
           Some d \<Rightarrow> ''  [refresh every '' @ tf_duration f (dc_interval d) @ '']''
         | None \<Rightarrow> [])
      @ (case uc_circuit_breaker up of
           Some cb \<Rightarrow> ''  [breaker '' @ show_nat (bc_failures cb) @ ''/'' @ tf_duration f (bc_window cb)
                        @ '' cooldown '' @ tf_duration f (bc_cooldown cb) @ '']''
         | None \<Rightarrow> []))"

definition routes_lines :: "text_forms \<Rightarrow> resolved_config \<Rightarrow> route_table \<Rightarrow> string list" where
  "routes_lines f v t =
     denied_lines t @ keys_lines v
     @ [''ROUTES (most specific first '' @ dash @ '' the order the matcher tries them)'', '''']
     @ map (listing_line f v (foldr max (map (length \<circ> rc_prefix) (tb_routes t)) 0 + 1)) (tb_routes t)
     @ ['''', ''UPSTREAMS'', '''']
     @ map (upstream_line f) (configured_upstreams v)"

section \<open>The candidates account for every route\<close>

lemma norm_method_upper: "norm_method m = to_ascii_uppercase m"
proof -
  have "\<not> list_ex is_ascii_lower m \<Longrightarrow> to_ascii_uppercase m = m"
    by (induction m) (auto simp: to_ascii_uppercase_def ascii_upper_def)
  then show ?thesis by (simp add: norm_method_def ascii_cased_def)
qed

lemma norm_host_lower: "norm_host h = to_ascii_lowercase (normalize_host h)"
proof -
  have "\<not> list_ex is_ascii_upper s \<Longrightarrow> to_ascii_lowercase s = s" for s
    by (induction s) (auto simp: to_ascii_lowercase_def ascii_lower_def)
  then show ?thesis by (simp add: norm_host_def ascii_cased_def)
qed

text \<open>A candidate of a table that serves nothing here fails on its host or its method.\<close>

lemma unmatched_candidates:
  assumes "match_request t host path method = None" "c \<in> set (prefix_candidates t host path method)"
  shows "\<not> ca_host_matches c \<or> \<not> ca_method_matches c"
  using assms
  by (auto simp: match_request_linear match_linear_def find_None_iff prefix_candidates_def route_hits_def
      norm_method_upper norm_host_lower [abs_def] Let_def)

lemma candidates_of_prefix:
  "ca_route ` set (prefix_candidates t host path method)
     = {r \<in> set (tb_routes t). under_prefix (normalize_proxy_path path) (rc_prefix r)}"
  by (force simp: prefix_candidates_def Let_def)

lemma listed_routes:
  "fst ` set (listed selected other host path method k denied)
     = {r \<in> set (tb_routes selected) \<union> set (tb_routes other). under_prefix (normalize_proxy_path path) (rc_prefix r)}"
  using candidates_of_prefix [of selected host path "method"] candidates_of_prefix [of other host path "method"]
  by (auto simp: listed_def image_Un image_image)

lemma listed_reasons:
  assumes "denied \<or> match_request selected host path method = None"
  shows "list_all (\<lambda>(r, reasons). reasons \<noteq> []) (listed selected other host path method k denied)"
proof -
  have "candidate_reasons k denied wrong host c \<noteq> []"
    if "wrong \<or> denied \<or> \<not> ca_host_matches c \<or> \<not> ca_method_matches c" for wrong c
    using that by (auto simp: candidate_reasons_def)
  then show ?thesis
    using assms unmatched_candidates [of selected host path "method"]
    by (auto simp: listed_def list_all_iff eq_commute [of "[]"])
qed

lemma partition_routes:
  "set (tb_routes (fst (partition_by_listener t))) \<union> set (tb_routes (snd (partition_by_listener t))) = set (tb_routes t)"
  by (auto simp: partition_by_listener_def)

text \<open>\<open>--why-not\<close> accounts for every route. When the answer is that the path is denied or
  that no route matches, the printed candidates are exactly the routes, of either listener, whose
  prefix covers the checked path, and each is printed with at least one reason why it is not the
  answer.\<close>

theorem why_not_accounts_for_all:
  assumes "explain_request pct_decode v table method request_path host k \<in> {DenyListed, NotAllowlisted}"
  shows "\<exists>mount sub canonical entries front rest.
      strip_mount v (case split_once CHR ''?'' request_path of Some (p, _) \<Rightarrow> p | None \<Rightarrow> request_path) = Some (mount, sub)
    \<and> canonicalize_proxy_path pct_decode sub = Some canonical
    \<and> explain_lines f pct_decode v table method request_path host k True
        = front @ [''Prefix candidates'', ''''] @ map candidate_line entries @ rest
    \<and> fst ` set entries = {r \<in> set (tb_routes table). under_prefix (normalize_proxy_path canonical) (rc_prefix r)}
    \<and> list_all (\<lambda>(r, reasons). reasons \<noteq> []) entries"
proof -
  let ?path = "case split_once CHR ''?'' request_path of Some (p, _) \<Rightarrow> p | None \<Rightarrow> request_path"
  obtain public machine where pm: "partition_by_listener table = (public, machine)" by force
  define selected where "selected = (case k of PublicListener \<Rightarrow> public | InternalListener \<Rightarrow> machine)"
  define other where "other = (case k of PublicListener \<Rightarrow> machine | InternalListener \<Rightarrow> public)"
  have so: "(case k of PublicListener \<Rightarrow> (public, machine) | InternalListener \<Rightarrow> (machine, public)) = (selected, other)"
    by (simp add: selected_def other_def split: listener_kind.split)
  have sel: "(case k of PublicListener \<Rightarrow> fst (partition_by_listener table)
      | InternalListener \<Rightarrow> snd (partition_by_listener table)) = selected"
    by (simp add: pm selected_def split: listener_kind.split)
  obtain mount sub canonical where
    s: "strip_mount v ?path = Some (mount, sub)" "canonicalize_proxy_path pct_decode sub = Some canonical"
    and up: "\<not> (k = InternalListener \<and> sv_internal_listen (gc_server (rv_raw v)) = None)"
      "?path \<noteq> sv_health_path (gc_server (rv_raw v))"
    and none: "is_denied selected canonical \<or> match_request selected host canonical method = None"
    using assms
    unfolding explain_request_def Let_def sel
    by (auto split: if_splits option.splits prod.splits)
  let ?denied = "is_denied selected canonical"
  let ?entries = "listed selected other host canonical method k ?denied"
  have c: "candidates_lines selected other host canonical method k ?denied
      = [''''] @ [''Prefix candidates'', ''''] @ map candidate_line ?entries
        @ (if ?entries = [] then [''  no enabled route has a matching canonical prefix on either listener''] else [])"
    by (simp add: candidates_lines_def Let_def)
  let ?can = "if canonical \<noteq> sub then [''Path'', '''', ''  '' @ tick @ '' canonicalized to `'' @ canonical @ ''`'', ''''] else []"
  have "\<exists>front rest. outcome_lines f pct_decode v table method request_path host k True
      = front @ candidates_lines selected other host canonical method k ?denied @ rest"
  proof (cases ?denied)
    case True
    show ?thesis
      unfolding outcome_lines_def Let_def pm prod.case so if_not_P [OF up(1)] if_not_P [OF up(2)] s option.case
      using True
      by (intro exI [of _ "[''Mount'', '''', ''  '' @ tick @ '' /'' @ mount @ ''  '' @ arrow @ ''  sub-path `'' @ sub @ ''`'', ''''] @ ?can @ [''Deny-list'', '''', ''  '' @ cross @ '' matches an `internal:` prefix'']"]
          exI [of _ "result_lines (''404 (deny_list) '' @ dash @ '' refusals are 404, never 403, so the'')
            @ [''  deny-list cannot be enumerated.'']"]) simp
  next
    case False
    then have "match_request selected host canonical method = None" using none by blast
    then show ?thesis
      unfolding outcome_lines_def Let_def pm prod.case so if_not_P [OF up(1)] if_not_P [OF up(2)] s option.case
      using False
      by (intro exI [of _ "[''Mount'', '''', ''  '' @ tick @ '' /'' @ mount @ ''  '' @ arrow @ ''  sub-path `'' @ sub @ ''`'', ''''] @ ?can
            @ [''Deny-list'', '''', ''  '' @ tick @ '' not denied'', '''', ''Route'', '''', ''  '' @ cross @ '' no route matches'']"]
          exI [of _ "result_lines ''404 (not_allowlisted)''"]) simp
  qed
  then obtain front rest where out: "outcome_lines f pct_decode v table method request_path host k True
      = front @ candidates_lines selected other host canonical method k ?denied @ rest" by blast
  have "explain_lines f pct_decode v table method request_path host k True
      = (head_lines f method request_path host k @ front @ ['''']) @ [''Prefix candidates'', '''']
        @ map candidate_line ?entries
        @ ((if ?entries = [] then [''  no enabled route has a matching canonical prefix on either listener''] else []) @ rest)"
    by (simp add: explain_lines_def out c)
  moreover have "fst ` set ?entries = {r \<in> set (tb_routes table). under_prefix (normalize_proxy_path canonical) (rc_prefix r)}"
    unfolding listed_routes using partition_routes [of table]
    by (auto simp: pm selected_def other_def split: listener_kind.splits)
  ultimately show ?thesis using s listed_reasons [OF none] by blast
qed

text \<open>A path that only a machine route covers, asked about on the public listener.\<close>

definition sample_forms :: text_forms where
  "sample_forms = \<lparr> tf_duration = (\<lambda>_. ''1s''), tf_strings = (\<lambda>_. ''[]''), tf_upper = to_ascii_uppercase \<rparr>"

lemma sample_path:
  "strip_mount (sample_resolved ''s'') ''/api/v1/sync'' = Some (''api/v1'', ''sync'')"
  "canonicalize_proxy_path Some ''sync'' = Some ''sync''"
  "split_once CHR ''?'' ''/api/v1/sync'' = None"
  by code_simp+

lemma sample_deny_prefixes: "tb_deny_prefixes valid_table = [''internal'']"
  by code_simp
lemma sample_unlisted:
  "explain_request Some (sample_resolved ''s'') valid_table ''GET'' ''/api/v1/sync'' None PublicListener = NotAllowlisted"
proof -
  have h: "sv_health_path (gc_server (rv_raw (sample_resolved ''s''))) = ''/health''"
    by (simp add: sample_resolved_def sample_gateway_config_def sample_server_def)
  let ?p = "fst (partition_by_listener valid_table)"
  have "tb_deny_prefixes ?p = [''internal'']" by (simp add: partition_by_listener_def sample_deny_prefixes)
  moreover have "\<not> under_prefix_ignore_case (normalize_proxy_path ''sync'') ''internal''" by code_simp
  ultimately have d: "\<not> is_denied ?p ''sync''" by (simp add: is_denied_def Let_def)
  have r: "tb_routes ?p = [plain_route ''users/me'' ''users'' TierRequired,
     plain_route ''users'' ''users'' TierPublic, plain_route ''posts'' ''users'' TierPublic]"
    by (simp add: partition_by_listener_def valid_table_routes plain_route_def)
  have "match_linear (tb_routes ?p) None ''sync'' ''GET'' = None"
    unfolding r by code_simp
  then have "match_request ?p None ''sync'' ''GET'' = None" by (simp add: match_request_linear)
  then show ?thesis using h sample_path d by (simp add: explain_request_def)
qed
theorem why_not_accounts_for_all_witness:
  "\<exists>entries front rest.
      explain_lines sample_forms Some (sample_resolved ''s'') valid_table ''GET'' ''/api/v1/sync'' None PublicListener True
        = front @ [''Prefix candidates'', ''''] @ map candidate_line entries @ rest
    \<and> plain_route ''sync'' ''ops'' TierMachine \<in> fst ` set entries"
proof -
  obtain entries front rest where e:
    "explain_lines sample_forms Some (sample_resolved ''s'') valid_table ''GET'' ''/api/v1/sync'' None PublicListener True
        = front @ [''Prefix candidates'', ''''] @ map candidate_line entries @ rest"
    "fst ` set entries = {r \<in> set (tb_routes valid_table). under_prefix (normalize_proxy_path ''sync'') (rc_prefix r)}"
    using why_not_accounts_for_all [of Some "sample_resolved ''s''" valid_table "''GET''" "''/api/v1/sync''" None
        PublicListener sample_forms] sample_unlisted sample_path by auto
  have "plain_route ''sync'' ''ops'' TierMachine \<in> set (tb_routes valid_table)"
    using valid_table_routes by simp
  moreover have "under_prefix (normalize_proxy_path ''sync'') (rc_prefix (plain_route ''sync'' ''ops'' TierMachine))"
    by code_simp
  ultimately show ?thesis using e by blast
qed

section \<open>No credential is printed\<close>

definition without_values :: "(string \<times> string) list \<Rightarrow> (string \<times> string) list" where
  "without_values = map (\<lambda>(name, _). (name, []))"

text \<open>The configuration with every credential taken out: the values of injected headers, the
  secrets of machines and of the identity token, the client keys and their digests, and the URL
  of the shared counters.\<close>

definition raw_without_credentials :: "gateway_config \<Rightarrow> gateway_config" where
  "raw_without_credentials c = c
     \<lparr> gc_inject := without_values (gc_inject c), gc_inject_machine := without_values (gc_inject_machine c),
       gc_auth := (gc_auth c)
         \<lparr> au_machine := map_option (\<lambda>m. m \<lparr> mc_secret := [] \<rparr>) (au_machine (gc_auth c)),
           au_client_keys := map_option (\<lambda>k. k \<lparr> ck_keys := without_values (ck_keys k) \<rparr>) (au_client_keys (gc_auth c)) \<rparr>,
       gc_identity := (gc_identity c) \<lparr> ic_token := map_option (\<lambda>t. t \<lparr> it_secret := [] \<rparr>) (ic_token (gc_identity c)) \<rparr>,
       gc_shared_counters := None \<rparr>"

definition without_credentials :: "resolved_config \<Rightarrow> resolved_config" where
  "without_credentials v = v
     \<lparr> rv_raw := raw_without_credentials (rv_raw v),
       rv_injected := without_values (rv_injected v), rv_machine_injected := without_values (rv_machine_injected v),
       rv_identity_secret := None, rv_machine_secret := None,
       rv_client_keys := map_option (\<lambda>k. k \<lparr> rk_keys := map (\<lambda>x. x \<lparr> key_digest := [] \<rparr>) (rk_keys k) \<rparr>) (rv_client_keys v) \<rparr>"

lemma without_credentials_raw [simp]:
  "rv_raw (without_credentials v) = raw_without_credentials (rv_raw v)"
  "gc_server (raw_without_credentials c) = gc_server c"
  "gc_timeouts (raw_without_credentials c) = gc_timeouts c"
  "gc_limits (raw_without_credentials c) = gc_limits c"
  "gc_upstreams (raw_without_credentials c) = gc_upstreams c"
  "au_token_cookies (gc_auth (raw_without_credentials c)) = au_token_cookies (gc_auth c)"
  "au_cookie_protection (gc_auth (raw_without_credentials c)) = au_cookie_protection (gc_auth c)"
  "rv_upstreams (without_credentials v) = rv_upstreams v"
  "rv_base_paths (without_credentials v) = rv_base_paths v"
  by (simp_all add: without_credentials_def raw_without_credentials_def)

lemma client_key_rule_blind: "client_key_rule (without_credentials v) r path = client_key_rule v r path"
  by (simp add: client_key_rule_def without_credentials_def option.case_eq_if option.map_sel)

lemma strip_mount_blind: "strip_mount (without_credentials v) path = strip_mount v path"
  by (simp add: strip_mount_def)

lemma client_key_lines_blind: "client_key_lines (without_credentials v) r k c = client_key_lines v r k c"
  unfolding client_key_lines_def client_key_rule_blind
  by (cases "rv_client_keys v"; cases k; cases "client_key_rule v r c") (simp_all add: without_credentials_def)

lemma injected_lines_blind: "injected_lines (without_credentials v) k = injected_lines v k"
  by (cases k) (simp_all add: injected_lines_def without_credentials_def without_values_def Let_def split_beta comp_def)

lemma route_lines_blind: "route_lines f (without_credentials v) m k c r = route_lines f v m k c r"
  by (simp add: route_lines_def client_key_lines_blind injected_lines_blind cookie_lines_def csrf_lines_def
      extension_lines_def upstream_lines_def)

lemma keys_lines_blind: "keys_lines (without_credentials v) = keys_lines v"
  by (simp add: keys_lines_def some_lines_def without_credentials_def comp_def split: option.split)

text \<open>Neither \<open>lagos explain\<close> nor \<open>lagos routes\<close> prints a credential. Whatever is asked, the
  lines are those of the configuration with the values of all injected headers, every secret and
  every client key taken out.\<close>

theorem printing_reveals_no_credential:
  "explain_lines f pct_decode (without_credentials v) table method request_path host k why_not
     = explain_lines f pct_decode v table method request_path host k why_not
   \<and> routes_lines f (without_credentials v) table = routes_lines f v table"
proof
  show "explain_lines f pct_decode (without_credentials v) table method request_path host k why_not
     = explain_lines f pct_decode v table method request_path host k why_not"
    unfolding explain_lines_def outcome_lines_def route_lines_blind strip_mount_blind without_credentials_raw ..
  show "routes_lines f (without_credentials v) table = routes_lines f v table"
    by (simp add: routes_lines_def keys_lines_blind listing_line_def [abs_def] notes_of_def client_key_rule_blind
        configured_upstreams_def)
qed

end
