(* ===== verification/Starter.thy ===== *)
theory Starter
  imports Startup
begin

text \<open>
  \<open>lagos init\<close> (\<open>cli.rs\<close>): the starter files it writes, and that it never replaces what is
  already there unless it is told to.

  The templates, the version the binary was built with and whether the system lets the program
  create a file are parameters. The disk is a map from names to files and folders.
\<close>

section \<open>Templates\<close>

datatype disk_node = Regular string | Folder

type_synonym files = "string \<rightharpoonup> disk_node"

record build_info =
  bi_version :: string
  bi_schema_release :: "string option"
  bi_starter :: string
  bi_docker_starter :: string
  bi_dockerfile :: string
  bi_extension_starter :: string
  bi_extension_dockerfile :: string
  bi_extension_manifest :: string
  bi_extension_source :: string

text \<open>\<open>str::replace\<close> of a non-empty pattern, from left to right.\<close>

fun replaced :: "string \<Rightarrow> string \<Rightarrow> nat \<Rightarrow> string \<Rightarrow> string" where
  "replaced pat by skip [] = []"
| "replaced pat by (Suc skip) (c # cs) = replaced pat by skip cs"
| "replaced pat by 0 (c # cs) =
     (if starts_with pat (c # cs) then by @ replaced pat by (length pat - 1) cs else c # replaced pat by 0 cs)"

definition with_version :: "build_info \<Rightarrow> string \<Rightarrow> string" where
  "with_version b t = replaced ''{{LAGOS_VERSION}}'' (bi_version b) 0 t"

datatype init_error =
    DockerPath
  | BadSchemaReference
  | AlreadyExists string
  | IsDirectory string
  | ExtNotDirectory
  | Refused string

definition editor_schema_reference :: "build_info \<Rightarrow> string option \<Rightarrow> string option \<Rightarrow> (string option, init_error) result" where
  "editor_schema_reference b given release =
     (case given of
        Some reference \<Rightarrow>
          if trim reference = [] \<or> list_ex is_control (utf8_chars reference) then Inl BadSchemaReference
          else Inr (Some (trim reference))
      | None \<Rightarrow>
          Inr (if release = Some (bi_version b)
               then Some (''https://raw.githubusercontent.com/lagos-sh/lagos/v'' @ bi_version b
                          @ ''/schemas/gateway.schema.json'')
               else None))"

definition gateway_text :: "build_info \<Rightarrow> bool \<Rightarrow> bool \<Rightarrow> string option \<Rightarrow> string" where
  "gateway_text b docker extensions reference =
     (let starter = (if extensions then bi_extension_starter b
                     else if docker then bi_docker_starter b else bi_starter b) in
      case reference of
        Some r \<Rightarrow> ''# yaml-language-server: $schema='' @ r @ [newline] @ starter
      | None \<Rightarrow> starter)"

definition starter_files :: "build_info \<Rightarrow> string \<Rightarrow> bool \<Rightarrow> bool \<Rightarrow> string \<Rightarrow> (string \<times> string) list" where
  "starter_files b path docker extensions doc =
     (if extensions
      then [(path, doc), (''Dockerfile'', with_version b (bi_extension_dockerfile b)),
            (''ext/Cargo.toml'', bi_extension_manifest b), (''ext/src/lib.rs'', bi_extension_source b)]
      else if docker then [(path, doc), (''Dockerfile'', with_version b (bi_dockerfile b))]
      else [(path, doc)])"

section \<open>Writing them\<close>

definition check_destination :: "files \<Rightarrow> bool \<Rightarrow> string \<times> string \<Rightarrow> (unit, init_error) result" where
  "check_destination fs force entry =
     (let d = fst entry in
      if fs d \<noteq> None \<and> \<not> force then Inl (AlreadyExists d)
      else if fs d = Some Folder then Inl (IsDirectory d)
      else Inr ())"

text \<open>\<open>create_dir_all\<close> of the extension's source folder, and the writes, one after the other; the
  first that the system refuses ends them.\<close>

definition make_folders :: "(files \<Rightarrow> string \<Rightarrow> bool) \<Rightarrow> files \<Rightarrow> (unit, init_error) result \<times> files" where
  "make_folders allows fs =
     (case fs ''ext/src'' of
        Some Folder \<Rightarrow> (Inr (), fs)
      | Some (Regular _) \<Rightarrow> (Inl (Refused ''ext/src''), fs)
      | None \<Rightarrow>
          if \<not> allows fs ''ext'' then (Inl (Refused ''ext''), fs)
          else (let fs1 = fs(''ext'' \<mapsto> Folder) in
                if allows fs1 ''ext/src'' then (Inr (), fs1(''ext/src'' \<mapsto> Folder))
                else (Inl (Refused ''ext/src''), fs1)))"

fun write_files :: "(files \<Rightarrow> string \<Rightarrow> bool) \<Rightarrow> (string \<times> string) list \<Rightarrow> files \<Rightarrow> (unit, init_error) result \<times> files" where
  "write_files allows [] fs = (Inr (), fs)"
| "write_files allows ((d, contents) # rest) fs =
     (if allows fs d then write_files allows rest (fs(d \<mapsto> Regular contents)) else (Inl (Refused d), fs))"

definition init_checks ::
  "build_info \<Rightarrow> files \<Rightarrow> string \<Rightarrow> bool \<Rightarrow> bool \<Rightarrow> bool \<Rightarrow> string option
   \<Rightarrow> ((string \<times> string) list, init_error) result" where
  "init_checks b fs path force docker extensions schema =
     and_then (ensure (\<not> (docker \<and> path \<noteq> ''gateway.yml'')) DockerPath) (\<lambda>_.
     and_then (editor_schema_reference b schema (bi_schema_release b)) (\<lambda>reference.
     let entries = starter_files b path docker extensions (gateway_text b docker extensions reference) in
     and_then (for_each (check_destination fs force) entries) (\<lambda>_.
     and_then (ensure (\<not> (extensions \<and> fs ''ext'' \<noteq> None \<and> fs ''ext'' \<noteq> Some Folder)) ExtNotDirectory) (\<lambda>_.
     Inr entries))))"

definition init_starter ::
  "(files \<Rightarrow> string \<Rightarrow> bool) \<Rightarrow> build_info \<Rightarrow> files \<Rightarrow> string \<Rightarrow> bool \<Rightarrow> bool \<Rightarrow> bool \<Rightarrow> string option
   \<Rightarrow> (unit, init_error) result \<times> files" where
  "init_starter allows b fs path force docker extensions schema =
     (case init_checks b fs path force docker extensions schema of
        Inl e \<Rightarrow> (Inl e, fs)
      | Inr entries \<Rightarrow>
          (case if extensions then make_folders allows fs else (Inr (), fs) of
             (Inl e, fs1) \<Rightarrow> (Inl e, fs1)
           | (Inr _, fs1) \<Rightarrow> write_files allows entries fs1))"

section \<open>What was there stays there\<close>

lemma write_files_others:
  "write_files allows entries fs = (r, fs') \<Longrightarrow> p \<notin> fst ` set entries \<Longrightarrow> fs' p = fs p"
  by (induction entries arbitrary: fs) (auto split: if_splits)

lemma make_folders_keeps:
  assumes "make_folders allows fs = (r, fs')" "fs ''ext'' = None \<or> fs ''ext'' = Some Folder" "fs p = Some n"
  shows "fs' p = Some n"
  using assms
  by (cases "p = ''ext''"; cases "p = ''ext/src''")
    (auto simp: make_folders_def Let_def split: option.splits disk_node.splits if_splits)

lemma init_checks_Inr:
  assumes "init_checks b fs path force docker extensions schema = Inr entries"
  shows "d \<in> fst ` set entries \<Longrightarrow> fs d \<noteq> Some Folder \<and> (\<not> force \<longrightarrow> fs d = None)"
    and "extensions \<Longrightarrow> fs ''ext'' = None \<or> fs ''ext'' = Some Folder"
  using assms
  by (auto simp: init_checks_def and_then_Inr_iff Let_def for_each_Inr_iff check_destination_def split: if_splits)

text \<open>\<open>init\<close> replaces nothing. Without \<open>--force\<close> every file and folder that was there is
  still there, with its contents, however the command ends and wherever the system stops it; with
  it, folders are still kept.\<close>

theorem init_replaces_nothing:
  assumes "init_starter allows b fs path force docker extensions schema = (r, fs')"
    and "fs p = Some n" "\<not> force \<or> n = Folder"
  shows "fs' p = Some n"
proof (cases "init_checks b fs path force docker extensions schema")
  case (Inr entries)
  note checked = init_checks_Inr [OF Inr]
  have fresh: "p \<notin> fst ` set entries" using checked(1) [of p] assms(2,3) by auto
  obtain r1 fs1 where m: "(if extensions then make_folders allows fs else (Inr (), fs)) = (r1, fs1)" by force
  have "fs1 p = Some n"
    using m make_folders_keeps [OF _ checked(2) assms(2)] assms(2) by (cases extensions) simp_all
  moreover have "fs' p = fs1 p"
    using assms(1) write_files_others [OF _ fresh] by (auto simp: init_starter_def Inr m split: sum.splits)
  ultimately show ?thesis by simp
qed (use assms in \<open>simp add: init_starter_def\<close>)

text \<open>The line that names the schema cannot carry a second line into the document.\<close>

lemma schema_reference_one_line:
  assumes "editor_schema_reference b given release = Inr (Some reference)"
    and "newline \<notin> set (bi_version b)" "\<And>g. given = Some g \<Longrightarrow> is_utf8 g"
  shows "newline \<notin> set reference"
proof (cases given)
  case None
  then show ?thesis using assms(1,2) by (auto simp: editor_schema_reference_def split: if_splits)
next
  case (Some g)
  then have "is_structurally_safe g" "reference = trim g"
    using assms(1) by (auto simp: editor_schema_reference_def is_structurally_safe_def split: if_splits)
  moreover have "newline \<notin> set g"
    using safe_no_newline [OF calculation(1)] utf8_chars_wf assms(3) [OF Some] by blast
  ultimately show ?thesis using trim_chars [of g] by blast
qed

definition sample_build :: build_info where
  "sample_build =
     \<lparr> bi_version = ''1.2.3'', bi_schema_release = None, bi_starter = ''server:'', bi_docker_starter = ''server:'',
       bi_dockerfile = ''FROM lagos:{{LAGOS_VERSION}}'', bi_extension_starter = ''server:'',
       bi_extension_dockerfile = ''FROM lagos:{{LAGOS_VERSION}}'', bi_extension_manifest = ''[package]'',
       bi_extension_source = ''//'' \<rparr>"

text \<open>A Dockerfile is kept, and the gateway beside it is not written either.\<close>

theorem init_replaces_nothing_witness:
  "\<exists>fs'. init_starter (\<lambda>_ _. True) sample_build [''Dockerfile'' \<mapsto> Regular ''mine''] ''gateway.yml'' False True False None
      = (Inl (AlreadyExists ''Dockerfile''), fs')
    \<and> fs' ''Dockerfile'' = Some (Regular ''mine'') \<and> fs' ''gateway.yml'' = None"
proof -
  let ?fs = "[''Dockerfile'' \<mapsto> Regular ''mine'']"
  have i: "init_starter (\<lambda>_ _. True) sample_build ?fs ''gateway.yml'' False True False None
      = (Inl (AlreadyExists ''Dockerfile''), ?fs)"
    by (simp add: init_starter_def init_checks_def ensure_def editor_schema_reference_def sample_build_def
        starter_files_def check_destination_def Let_def)
  then show ?thesis using init_replaces_nothing [OF i, of "''Dockerfile''" "Regular ''mine''"] by auto
qed

end
