(* ===== verification/Resp_Backend.thy ===== *)
theory Resp_Backend
  imports Lifecycle
begin

text \<open>
  The RESP client of the shared counters (\<open>ratelimit/resp.rs\<close>): who answers, how a command
  fails, and the exact check. The reconciliation over hashes is in \<open>Shared_Counters\<close>. What
  the server replies, and how the \<open>redis\<close> crate classifies an error, are parameters.
\<close>

section \<open>The server\<close>

datatype vendor = Recached | OtherVendor string

fun vendor_name :: "vendor \<Rightarrow> string" where
  "vendor_name Recached = ''Recached''"
| "vendor_name (OtherVendor name) = (if name = [] then ''an unidentified RESP server'' else name)"

text \<open>\<open>str::lines\<close>: the pieces between newlines, without a carriage return at their end and
  without an empty last one.\<close>

definition text_lines :: "string \<Rightarrow> string list" where
  "text_lines s =
     (let ps = split_on CHR 0x0A s;
          qs = (if last ps = [] then butlast ps else ps) in
      map (\<lambda>l. case strip_suffix [CHR 0x0D] l of Some r \<Rightarrow> r | None \<Rightarrow> l) qs)"

fun vendor_loop :: "string list \<Rightarrow> string \<Rightarrow> vendor" where
  "vendor_loop [] name = OtherVendor name"
| "vendor_loop (l # ls) name =
     (case split_once CHR '':'' (trim l) of
        None \<Rightarrow> vendor_loop ls name
      | Some (field, v) \<Rightarrow>
          if field = ''recached_version'' then Recached
          else if field = ''server_name'' \<and> eq_ignore_ascii_case v ''recached'' then Recached
          else if field = ''server_name'' then vendor_loop ls v
          else vendor_loop ls name)"

definition vendor_from_info :: "string \<Rightarrow> vendor" where
  "vendor_from_info info = vendor_loop (text_lines info) []"

section \<open>Commands\<close>

text \<open>How a command spawned on the backend's runtime ends.\<close>

datatype 'a command_end = Answered 'a | Failed string | OutOfTime | WorkerFailed string

definition on_backend :: "duration \<Rightarrow> 'a command_end \<Rightarrow> ('a, backend_error) result" where
  "on_backend patience e =
     (case e of
        Answered v \<Rightarrow> Inr v
      | Failed category \<Rightarrow> Inl (BackendUnavailable category)
      | OutOfTime \<Rightarrow> Inl (BackendTimeout patience)
      | WorkerFailed why \<Rightarrow> Inl (BackendUnavailable (''worker failed: '' @ why)))"

definition vendor_of :: "duration \<Rightarrow> string command_end \<Rightarrow> (vendor, backend_error) result" where
  "vendor_of patience info = and_then (on_backend patience info) (\<lambda>s. Inr (vendor_from_info s))"

definition resp_probe :: "duration \<Rightarrow> string command_end \<Rightarrow> probe_answer" where
  "resp_probe patience info =
     and_then (vendor_of patience info) (\<lambda>v. Inr (vendor_name v, v = Recached))"

text \<open>The replies are 64-bit signed integers.\<close>

definition u64_of :: "int \<Rightarrow> nat" where
  "u64_of i = (if 0 \<le> i then nat i else 0)"

definition div_ceil :: "nat \<Rightarrow> nat \<Rightarrow> nat" where
  "div_ceil a b = (if a mod b = 0 then a div b else a div b + 1)"

definition resp_check_exact ::
  "duration \<Rightarrow> (string \<Rightarrow> nat \<Rightarrow> nat \<Rightarrow> int list command_end) \<Rightarrow> string \<Rightarrow> nat \<Rightarrow> duration \<Rightarrow>
   (decision, backend_error) result" where
  "resp_check_exact patience rlcheck key limit interval =
     (if interval = 0 \<or> interval mod NANOS \<noteq> 0
      then Inl (BackendProtocol ''RLCHECK requires an interval in whole seconds'')
      else
        and_then (on_backend patience (rlcheck key limit (as_secs interval))) (\<lambda>reply.
          case reply of
            allowed # remaining # retry_ms # _ \<Rightarrow>
              if allowed = 1 then Inr (decision_allow limit (u64_of remaining))
              else Inr (decision_refuse limit (from_secs (div_ceil (u64_of retry_ms) 1000)))
          | _ \<Rightarrow> Inl (BackendProtocol (''RLCHECK returned '' @ show_nat (length reply) @ '' values, expected 3''))))"

section \<open>What the answers mean\<close>

text \<open>A server is Recached by what it says of itself, never by the version of Redis it reports
  for compatibility.\<close>

definition says_recached :: "string \<Rightarrow> bool" where
  "says_recached l \<longleftrightarrow>
     (case split_once CHR '':'' (trim l) of
        None \<Rightarrow> False
      | Some (field, v) \<Rightarrow>
          field = ''recached_version'' \<or> field = ''server_name'' \<and> eq_ignore_ascii_case v ''recached'')"

lemma vendor_loop_iff: "vendor_loop ls name = Recached \<longleftrightarrow> list_ex says_recached ls"
  by (induction ls name rule: vendor_loop.induct) (auto simp: says_recached_def split: option.splits)

theorem exact_needs_recached:
  assumes "verify_shared_counters (resp_probe patience info) t = Inr ()" "r \<in> set (tb_routes t)" "uses_exact r"
  shows "\<exists>s. info = Answered s \<and> list_ex says_recached (text_lines s)"
proof -
  have "uses_shared r" using assms(3) by (auto simp: uses_exact_def uses_shared_def split: option.splits)
  then have "list_ex uses_shared (tb_routes t)" "list_ex uses_exact (tb_routes t)"
    using assms(2,3) by (auto simp: list_ex_iff)
  then obtain server where "resp_probe patience info = Inr (server, True)"
    using assms(1) by (auto simp: verify_shared_counters_def Let_def split: sum.splits prod.splits)
  then show ?thesis
    by (cases info)
      (auto simp: resp_probe_def vendor_of_def on_backend_def and_then_Inr_iff vendor_from_info_def vendor_loop_iff)
qed

lemma div_ceil_ge: "0 < b \<Longrightarrow> a \<le> div_ceil a b * b"
proof -
  assume b: "0 < b"
  have e: "a div b * b + a mod b = a" by simp
  show ?thesis
  proof (cases "a mod b = 0")
    case True
    then show ?thesis using e by (simp add: div_ceil_def)
  next
    case False
    have "a mod b < b" using b by simp
    then have "a \<le> a div b * b + b" using e by linarith
    then show ?thesis using False by (simp add: div_ceil_def algebra_simps)
  qed
qed

lemma div_ceil_least: "0 < b \<Longrightarrow> a \<le> k * b \<Longrightarrow> div_ceil a b \<le> k"
proof -
  assume b: "0 < b" and k: "a \<le> k * b"
  have e: "a = a div b * b + a mod b" by simp
  show ?thesis
  proof (cases "a mod b = 0")
    case True
    have "a div b \<le> k * b div b" using k by (rule div_le_mono)
    then show ?thesis using True b by (simp add: div_ceil_def)
  next
    case False
    then have "a div b * b < k * b" using e k by linarith
    then show ?thesis using False by (simp add: div_ceil_def)
  qed
qed

text \<open>A refusal never sends the caller back too early: the wait is the store's, in whole
  seconds, rounded up, at least one, and no longer than that.\<close>

theorem exact_refusal_waits:
  assumes "resp_check_exact patience rlcheck key limit interval = Inr d" "\<not> d_allowed d"
  shows "\<exists>allowed remaining retry_ms rest.
    rlcheck key limit (as_secs interval) = Answered (allowed # remaining # retry_ms # rest) \<and> allowed \<noteq> 1
    \<and> from_secs (as_secs interval) = interval
    \<and> d_retry_after d = from_secs (max 1 (LEAST s. u64_of retry_ms \<le> s * 1000))"
proof -
  have w: "interval mod NANOS = 0"
    using assms(1) by (auto simp: resp_check_exact_def split: if_splits)
  then have i: "from_secs (as_secs interval) = interval"
    using div_mult_mod_eq [of interval NANOS] by (simp add: from_secs_def as_secs_def)
  obtain reply where r: "rlcheck key limit (as_secs interval) = Answered reply"
    using assms(1) by (cases "rlcheck key limit (as_secs interval)")
      (auto simp: resp_check_exact_def on_backend_def split: if_splits)
  then obtain a b c rest where l: "reply = a # b # c # rest"
    using assms(1) by (auto simp: resp_check_exact_def on_backend_def split: if_splits list.splits)
  have least: "div_ceil (u64_of c) 1000 = (LEAST s. u64_of c \<le> s * 1000)"
    by (rule Least_equality [symmetric]) (simp_all add: div_ceil_ge div_ceil_least)
  have "a \<noteq> 1 \<and> d = decision_refuse limit (from_secs (div_ceil (u64_of c) 1000))"
    using assms r l by (auto simp: resp_check_exact_def on_backend_def decision_allow_def split: if_splits)
  moreover have "max (from_secs n) (from_secs 1) = from_secs (max 1 n)" for n
    by (simp add: from_secs_def max_def)
  ultimately show ?thesis using r l i least by (auto simp: decision_refuse_def)
qed

end
