(* ===== verification/Policy_Diff.thy ===== *)
theory Policy_Diff
  imports Policy_Tests "HOL-Library.List_Lexorder"
begin

text \<open>
  \<open>lagos diff\<close> (\<open>cli/policy.rs\<close>): the changes of the route surface between two configurations,
  and what it means when there are none.

  The code compares renderings (\<open>format!("{:?}")\<close>) of the values of a field; a derived
  rendering of these types determines the value, so the values themselves are compared
  here. A change is a constructor with what the line of output names; the order is the
  code's (\<open>BTreeMap\<close>s and \<open>BTreeSet\<close>s iterate in the order of the bytes).
\<close>

section \<open>The changes\<close>

datatype change =
    RouteAdded string string string string
  | RouteRemoved string string string string
  | FieldChanged string string
  | DenyRemoved string | DenyAdded string
  | TokenCookiesChanged
  | KeyHeaderChanged | KeyForwardAsChanged
  | KeyRemoved string | KeyAdded string
  | ExemptRemoved string | ExemptAdded string
  | ExemptGroupRemoved string | ExemptGroupAdded string
  | CookieProtectionChanged
  | MountsChanged
  | UpstreamAdded string | UpstreamRemoved string | UpstreamChanged string

definition field_changes :: "resolved_config \<Rightarrow> resolved_config \<Rightarrow> route_config \<Rightarrow> route_config \<Rightarrow> string list" where
  "field_changes c1 c2 a b = map fst (filter snd
     [(''bindings'', rc_bind a \<noteq> rc_bind b),
      (''cache'', rc_cache a \<noteq> rc_cache b),
      (''cache_authenticated'', rc_cache_authenticated a \<noteq> rc_cache_authenticated b),
      (''client_key'', state_label (client_key_rule c1 a (rc_prefix a))
                         \<noteq> state_label (client_key_rule c2 b (rc_prefix b))),
      (''concurrency'', rc_concurrency a \<noteq> rc_concurrency b),
      (''extensions'', rc_extensions a \<noteq> rc_extensions b),
      (''hosts'', rc_host a \<noteq> rc_host b),
      (''methods'', rc_methods a \<noteq> rc_methods b),
      (''methods_origin'', po_methods (rc_origins a) \<noteq> po_methods (rc_origins b)),
      (''prefix'', rc_prefix a \<noteq> rc_prefix b),
      (''rate_limit'', rc_rate_limit a \<noteq> rc_rate_limit b),
      (''rate_limit_origin'', po_rate_limit (rc_origins a) \<noteq> po_rate_limit (rc_origins b)),
      (''retry'', rc_retry a \<noteq> rc_retry b),
      (''retry_origin'', po_retry (rc_origins a) \<noteq> po_retry (rc_origins b)),
      (''sse'', rc_sse a \<noteq> rc_sse b),
      (''strip_prefix'', rc_strip_prefix a \<noteq> rc_strip_prefix b),
      (''tier'', tier_group (rc_auth a) \<noteq> tier_group (rc_auth b)),
      (''upstream'', rc_upstream a \<noteq> rc_upstream b)])"

definition ordered :: "string list \<Rightarrow> string list" where
  "ordered xs = sort (remdups xs)"

definition difference_of :: "string list \<Rightarrow> string list \<Rightarrow> string list" where
  "difference_of a b = ordered (filter (\<lambda>x. x \<notin> set b) a)"

definition diff_route ::
  "resolved_config \<Rightarrow> resolved_config \<Rightarrow> route_config list \<Rightarrow> route_config list \<Rightarrow> string \<Rightarrow> change list" where
  "diff_route c1 c2 old new name =
     (case (by_id old name, by_id new name) of
        (None, Some r) \<Rightarrow> [RouteAdded name (tier_group (rc_auth r)) (rc_prefix r) (rc_upstream r)]
      | (Some r, None) \<Rightarrow> [RouteRemoved name (tier_group (rc_auth r)) (rc_prefix r) (rc_upstream r)]
      | (Some a, Some b) \<Rightarrow> map (FieldChanged name) (field_changes c1 c2 a b)
      | (None, None) \<Rightarrow> [])"

definition diff_routes ::
  "resolved_config \<Rightarrow> resolved_config \<Rightarrow> route_config list \<Rightarrow> route_config list \<Rightarrow> change list" where
  "diff_routes c1 c2 old new =
     concat (map (diff_route c1 c2 old new) (ordered (map rc_id old @ map rc_id new)))"

definition key_ids :: "resolved_config \<Rightarrow> string list" where
  "key_ids v = (case rv_client_keys v of Some k \<Rightarrow> map key_id (rk_keys k) | None \<Rightarrow> [])"

definition exempt_prefixes :: "resolved_config \<Rightarrow> string list" where
  "exempt_prefixes v = (case rv_client_keys v of Some k \<Rightarrow> rk_exempt k | None \<Rightarrow> [])"

definition exempt_groups_of :: "resolved_config \<Rightarrow> string list" where
  "exempt_groups_of v = (case rv_client_keys v of Some k \<Rightarrow> rk_exempt_groups k | None \<Rightarrow> [])"

definition diff_upstream :: "(string \<times> upstream_config) list \<Rightarrow> (string \<times> upstream_config) list \<Rightarrow> string \<Rightarrow> change list" where
  "diff_upstream old new name =
     (case (map_of old name, map_of new name) of
        (None, Some _) \<Rightarrow> [UpstreamAdded name]
      | (Some _, None) \<Rightarrow> [UpstreamRemoved name]
      | (Some a, Some b) \<Rightarrow> if a \<noteq> b then [UpstreamChanged name] else []
      | (None, None) \<Rightarrow> [])"

definition when_changed :: "'a \<Rightarrow> 'a \<Rightarrow> change \<Rightarrow> change list" where
  "when_changed a b c = (if a \<noteq> b then [c] else [])"

definition diff_configs ::
  "resolved_config \<Rightarrow> route_table \<Rightarrow> resolved_config \<Rightarrow> route_table \<Rightarrow> change list" where
  "diff_configs c1 t1 c2 t2 =
     diff_routes c1 c2 (tb_routes t1) (tb_routes t2)
     @ map DenyRemoved (difference_of (tb_deny_prefixes t1) (tb_deny_prefixes t2))
     @ map DenyAdded (difference_of (tb_deny_prefixes t2) (tb_deny_prefixes t1))
     @ when_changed (au_token_cookies (gc_auth (rv_raw c1))) (au_token_cookies (gc_auth (rv_raw c2)))
         TokenCookiesChanged
     @ when_changed (client_key_header c1) (client_key_header c2) KeyHeaderChanged
     @ when_changed (client_key_forward_as c1) (client_key_forward_as c2) KeyForwardAsChanged
     @ map KeyRemoved (difference_of (key_ids c1) (key_ids c2))
     @ map KeyAdded (difference_of (key_ids c2) (key_ids c1))
     @ map ExemptRemoved (difference_of (exempt_prefixes c1) (exempt_prefixes c2))
     @ map ExemptAdded (difference_of (exempt_prefixes c2) (exempt_prefixes c1))
     @ map ExemptGroupRemoved (difference_of (exempt_groups_of c1) (exempt_groups_of c2))
     @ map ExemptGroupAdded (difference_of (exempt_groups_of c2) (exempt_groups_of c1))
     @ when_changed (au_cookie_protection (gc_auth (rv_raw c1)))
         (au_cookie_protection (gc_auth (rv_raw c2))) CookieProtectionChanged
     @ when_changed (rv_base_paths c1) (rv_base_paths c2) MountsChanged
     @ concat (map (diff_upstream (gc_upstreams (rv_raw c1)) (gc_upstreams (rv_raw c2)))
         (ordered (map fst (gc_upstreams (rv_raw c1)) @ map fst (gc_upstreams (rv_raw c2)))))"

section \<open>Routes with the same surface\<close>

definition same_surface :: "resolved_config \<Rightarrow> resolved_config \<Rightarrow> route_config \<Rightarrow> route_config \<Rightarrow> bool" where
  "same_surface c1 c2 a b \<longleftrightarrow> rc_id a = rc_id b \<and> field_changes c1 c2 a b = []"

lemma tier_group_inj [simp]: "tier_group a = tier_group b \<longleftrightarrow> a = b"
  by (cases a; cases b) (simp_all add: tier_group_def)

lemma same_surfaceD:
  assumes "same_surface c1 c2 a b"
  shows "rc_id a = rc_id b" "rc_bind a = rc_bind b" "rc_concurrency a = rc_concurrency b"
    "rc_host a = rc_host b" "rc_methods a = rc_methods b" "rc_prefix a = rc_prefix b"
    "rc_rate_limit a = rc_rate_limit b" "rc_strip_prefix a = rc_strip_prefix b"
    "rc_auth a = rc_auth b" "rc_upstream a = rc_upstream b"
    "state_label (client_key_rule c1 a (rc_prefix a)) = state_label (client_key_rule c2 b (rc_prefix b))"
  using assms unfolding same_surface_def field_changes_def map_is_Nil_conv filter_empty_conv
  by simp_all metis

text \<open>What a built route derives from what is written: its host patterns and bindings.\<close>

definition unresolved :: "route_config \<Rightarrow> bool" where
  "unresolved r \<longleftrightarrow> rc_hosts r = [] \<and> rc_bindings r = []"

definition parsed_groups :: "route_groups \<Rightarrow> bool" where
  "parsed_groups g \<longleftrightarrow>
     list_all unresolved (rg_machine g @ rg_public g @ rg_optional g @ rg_authenticated g)"

definition derived_from_text :: "route_config \<Rightarrow> bool" where
  "derived_from_text r \<longleftrightarrow>
     rc_hosts r = fst (parse_hosts [] (rc_host r)) \<and> rc_bindings r = fst (parse_bindings [] (rc_bind r))"

lemma parse_hosts_rid: "fst (parse_hosts rid hs) = fst (parse_hosts [] hs)"
  by (induction hs) (auto simp: Let_def split: prod.splits sum.splits)

lemma parse_bindings_rid: "fst (parse_bindings rid bs) = fst (parse_bindings [] bs)"
  by (induction rid bs rule: parse_bindings.induct) (auto simp: Let_def split: prod.splits sum.splits)

lemma resolve_route_derived:
  assumes "resolve_route rate_new shared r heap = (r1, e, h)" "unresolved r"
  shows "derived_from_text r1"
proof -
  obtain hosts e1 where h: "parse_hosts (rc_id r) (rc_host r) = (hosts, e1)" by fastforce
  obtain bs e4 where b: "parse_bindings (rc_id r) (rc_bind r) = (bs, e4)" by fastforce
  have "fst (parse_hosts [] (rc_host r)) = hosts" "fst (parse_bindings [] (rc_bind r)) = bs"
    using h b parse_hosts_rid [of "rc_id r" "rc_host r"] parse_bindings_rid [of "rc_id r" "rc_bind r"] by simp_all
  then show ?thesis using assms h b
    by (auto simp: resolve_route_def derived_from_text_def unresolved_def Let_def split: prod.splits)
qed

lemma resolve_routes_derived:
  "resolve_routes rate_new shared rs heap = (rs1, e, h) \<Longrightarrow> \<forall>r\<in>set rs. unresolved r \<Longrightarrow>
   \<forall>r\<in>set rs1. derived_from_text r"
proof (induction rs arbitrary: heap rs1 e h)
  case (Cons r rs)
  then show ?case by (auto split: prod.splits dest: resolve_route_derived)
qed simp

lemma unresolved_derive: "unresolved r \<Longrightarrow> unresolved (derive_names (inherit_defaults d r))"
  by (auto simp: unresolved_def derive_names_def inherit_defaults_def Let_def split: option.splits)

lemma built_derived:
  assumes "build_with rate_new ns g d shared heap = (t, heap')" "parsed_groups g" "r \<in> set (tb_routes t)"
  shows "derived_from_text r"
proof -
  obtain rs es where rs: "resolve_routes rate_new shared
       (map (\<lambda>r. derive_names (inherit_defaults d r)) (tiered_routes g)) heap = (rs, es, heap')"
    "tb_routes t = sort_key route_order rs"
    using build_with_routes [OF assms(1)] by metis
  have "\<forall>r\<in>set (map (\<lambda>r. derive_names (inherit_defaults d r)) (tiered_routes g)). unresolved r"
    using assms(2) unresolved_derive
    by (fastforce simp: tiered_routes_def parsed_groups_def list_all_iff unresolved_def)
  from resolve_routes_derived [OF rs(1) this] show ?thesis using rs(2) assms(3) by simp
qed

lemma same_surface_hits:
  assumes "same_surface c1 c2 a b" "derived_from_text a" "derived_from_text b"
  shows "route_hits p m h a = route_hits p m h b" "route_order a = route_order b"
    "rc_bindings a = rc_bindings b"
proof -
  note d = same_surfaceD [OF assms(1)]
  have h: "rc_hosts a = rc_hosts b" and b: "rc_bindings a = rc_bindings b"
    using d assms(2,3) by (simp_all add: derived_from_text_def)
  show "route_hits p m h a = route_hits p m h b"
    unfolding route_hits_def matches_method_def matches_host_def d h ..
  show "route_order a = route_order b" "rc_bindings a = rc_bindings b"
    using d h b by (simp_all add: route_order_def)
qed

text \<open>Two listeners whose routes pair up serve a request by routes that pair up.\<close>

lemma paired_match:
  assumes pair: "\<And>a. a \<in> set l1 \<Longrightarrow> \<exists>b\<in>set l2. same_surface c1 c2 a b"
    "\<And>b. b \<in> set l2 \<Longrightarrow> \<exists>a\<in>set l1. same_surface c1 c2 a b"
    and der: "\<And>r. r \<in> set l1 \<union> set l2 \<Longrightarrow> derived_from_text r"
    and sorted: "sorted (map route_order l1)" "sorted (map route_order l2)"
    and uniq: "\<And>b b'. b \<in> set l2 \<Longrightarrow> b' \<in> set l2 \<Longrightarrow> route_hits p m h b \<Longrightarrow> route_hits p m h b' \<Longrightarrow>
          route_order b = route_order b' \<Longrightarrow> b = b'"
  shows "rel_option (same_surface c1 c2) (find (route_hits p m h) l1) (find (route_hits p m h) l2)"
proof (cases "find (route_hits p m h) l1")
  case None
  then have n: "\<forall>a\<in>set l1. \<not> route_hits p m h a" by (simp add: find_map_None_iff)
  have "\<not> route_hits p m h b" if "b \<in> set l2" for b
  proof -
    obtain a where a: "a \<in> set l1" "same_surface c1 c2 a b" using pair(2) [OF \<open>b \<in> set l2\<close>] by blast
    then show ?thesis using same_surface_hits(1) [OF a(2), of p m h] der a(1) that n by auto
  qed
  then have "find (route_hits p m h) l2 = None" by (simp add: find_map_None_iff)
  with None show ?thesis by simp
next
  case (Some a)
  note a = find_SomeD [OF Some]
  obtain b where b: "b \<in> set l2" "same_surface c1 c2 a b" using pair(1) a by blast
  have hb: "route_hits p m h b" "route_order a = route_order b"
    using same_surface_hits [OF b(2)] der a b(1) by auto
  then obtain b' where f: "find (route_hits p m h) l2 = Some b'"
    using b(1) by (metis find_map_None_iff not_None_eq)
  note b' = find_SomeD [OF f]
  obtain a' where a': "a' \<in> set l1" "same_surface c1 c2 a' b'" using pair(2) b' by blast
  have ha': "route_hits p m h a'" "route_order a' = route_order b'"
    using same_surface_hits [OF a'(2)] der a'(1) b' by auto
  have "route_order a \<le> route_order a'" "route_order b' \<le> route_order b"
    using find_sorted_least [OF sorted(1) Some a'(1) ha'(1)] find_sorted_least [OF sorted(2) f b(1) hb(1)]
    by blast+
  then have "route_order b' = route_order b" using hb(2) ha'(2) by simp
  then have "b' = b" using uniq b' b(1) hb(1) by blast
  then show ?thesis using Some f b(2) by simp
qed

lemma ordered_set [simp]: "set (ordered xs) = set xs"
  by (simp add: ordered_def)

lemma difference_of_Nil [simp]: "difference_of a b = [] \<longleftrightarrow> set a \<subseteq> set b"
proof -
  have "difference_of a b = [] \<longleftrightarrow> set (difference_of a b) = {}" by simp
  also have "\<dots> \<longleftrightarrow> set a \<subseteq> set b" by (auto simp: difference_of_def)
  finally show ?thesis .
qed

lemma by_id_distinct:
  "distinct (map rc_id rs) \<Longrightarrow> r \<in> set rs \<Longrightarrow> by_id rs (rc_id r) = Some r"
  unfolding by_id_def
proof (induction rs rule: rev_induct)
  case (snoc x xs)
  then show ?case by (auto simp: image_iff)
qed simp

lemma by_id_SomeD: "by_id rs n = Some r \<Longrightarrow> r \<in> set rs \<and> rc_id r = n"
  unfolding by_id_def by (auto dest: find_SomeD)

lemma diff_routes_pair:
  assumes "diff_routes c1 c2 old new = []" "distinct (map rc_id old)" "distinct (map rc_id new)"
  shows "a \<in> set old \<Longrightarrow> \<exists>b\<in>set new. same_surface c1 c2 a b"
    and "b \<in> set new \<Longrightarrow> \<exists>a\<in>set old. same_surface c1 c2 a b"
proof -
  have e: "diff_route c1 c2 old new n = []" if "n \<in> rc_id ` set old \<union> rc_id ` set new" for n
    using assms(1) that by (auto simp: diff_routes_def concat_eq_Nil_conv)
  show "\<exists>b\<in>set new. same_surface c1 c2 a b" if "a \<in> set old"
  proof -
    have o: "by_id old (rc_id a) = Some a" by (rule by_id_distinct [OF assms(2) that])
    with e [of "rc_id a"] that obtain b where b: "by_id new (rc_id a) = Some b"
      by (auto simp: diff_route_def split: option.splits)
    then show ?thesis using o e [of "rc_id a"] that by_id_SomeD [OF b]
      by (intro bexI [of _ b]) (auto simp: diff_route_def same_surface_def)
  qed
  show "\<exists>a\<in>set old. same_surface c1 c2 a b" if "b \<in> set new"
  proof -
    have n: "by_id new (rc_id b) = Some b" by (rule by_id_distinct [OF assms(3) that])
    with e [of "rc_id b"] that obtain a where a: "by_id old (rc_id b) = Some a"
      by (auto simp: diff_route_def split: option.splits)
    then show ?thesis using n e [of "rc_id b"] that by_id_SomeD [OF a]
      by (intro bexI [of _ a]) (auto simp: diff_route_def same_surface_def)
  qed
qed

section \<open>Client keys\<close>

lemma state_label_cases:
  "state_label (KeyExempt ExemptRoute) = state_label r \<Longrightarrow> r = KeyExempt ExemptRoute"
  by (cases r) (auto simp: describe_exemption_def split: key_exemption.splits)

lemma client_key_rule_alt:
  "client_key_rule v route path =
     key_rule (client_key_header v) (exempt_prefixes v) (exempt_groups_of v) route path"
  by (auto simp: client_key_rule_def client_key_header_def exempt_prefixes_def exempt_groups_of_def
      split: option.splits)

lemma key_rule_state:
  assumes "set e1 = set e2" "set g1 = set g2" "rc_auth a = rc_auth b" "rc_prefix a = rc_prefix b"
    and "state_label (key_rule header e1 g1 a (rc_prefix a)) = state_label (key_rule header e2 g2 b (rc_prefix b))"
  shows "state_of (key_rule header e1 g1 a path) = state_of (key_rule header e2 g2 b path)"
proof (cases "header = None \<or> is_machine (rc_auth a)")
  case True
  then show ?thesis using assms(3) by (simp add: key_rule_def)
next
  case False
  have r: "key_rule header e g r p = KeyExempt ExemptRoute \<longleftrightarrow> rc_client_key r = Some False"
    if "rc_auth r = rc_auth a" for e g r p
    using False that by (auto simp: key_rule_def Let_def split: option.splits)
  have "rc_client_key a = Some False \<longleftrightarrow> rc_client_key b = Some False"
    using r [of a e1 g1 "rc_prefix a"] r [of b e2 g2 "rc_prefix b"] assms(3,5) state_label_cases by metis
  moreover have "(find (\<lambda>p. under_prefix q p) e1 = None) = (find (\<lambda>p. under_prefix q p) e2 = None)" for q
    using assms(1) by (simp add: find_None_iff)
  moreover have "list_ex (\<lambda>g. g = tier_group (rc_auth a)) g1 = list_ex (\<lambda>g. g = tier_group (rc_auth b)) g2"
    using assms(2,3) by (simp add: list_ex_iff)
  ultimately show ?thesis using False assms(3)
    by (simp add: key_rule_def Let_def split: option.splits) (metis option.distinct(1))
qed

section \<open>No change, no other decision\<close>

definition listener_table :: "listener_kind \<Rightarrow> route_table \<Rightarrow> route_table" where
  "listener_table k t =
     (case k of PublicListener \<Rightarrow> fst (partition_by_listener t)
              | InternalListener \<Rightarrow> snd (partition_by_listener t))"

text \<open>What the theorem asks of one side: a table built from a parsed document that is valid.\<close>

definition checked_table :: "route_table \<Rightarrow> bool" where
  "checked_table t \<longleftrightarrow>
     (\<forall>r\<in>set (tb_routes t). derived_from_text r) \<and> sorted (map route_order (tb_routes t))
     \<and> check_conflicts (tb_routes t) = Inr () \<and> distinct (map rc_id (tb_routes t))"

lemma checked_tableI:
  assumes "build_with rate_new ns g d shared heap = (t, heap')" "parsed_groups g" "validate_table env t = Inr ()"
  shows "checked_table t"
  unfolding checked_table_def
  using built_derived [OF assms(1,2)] build_with_sorted [OF assms(1)] validate_table_Inr(2,3) [OF assms(3)]
    check_routes_Inr
  by fastforce

lemma listener_table_routes:
  "tb_routes (listener_table k t)
     = filter (\<lambda>r. (rc_auth r = TierMachine) = (k = InternalListener)) (tb_routes t)"
  by (cases k) (simp_all add: listener_table_def partition_by_listener_def)

lemma listener_table_denied:
  "set (tb_deny_prefixes t1) = set (tb_deny_prefixes t2) \<Longrightarrow>
   is_denied (listener_table k t1) p = is_denied (listener_table k t2) p"
  by (cases k) (simp_all add: listener_table_def partition_by_listener_def is_denied_def list_ex_iff Let_def)

lemma paired_listeners:
  assumes "checked_table t1" "checked_table t2" "diff_routes c1 c2 (tb_routes t1) (tb_routes t2) = []"
  shows "rel_option (\<lambda>a b. same_surface c1 c2 a b \<and> derived_from_text a \<and> derived_from_text b)
     (match_request (listener_table k t1) host path m) (match_request (listener_table k t2) host path m)"
proof -
  let ?l1 = "tb_routes (listener_table k t1)" and ?l2 = "tb_routes (listener_table k t2)"
  let ?p = "normalize_proxy_path path" and ?m = "norm_method m" and ?h = "map_option norm_host host"
  have dist: "distinct (map rc_id (tb_routes t1))" "distinct (map rc_id (tb_routes t2))"
    using assms(1,2) by (simp_all add: checked_table_def)
  have der: "derived_from_text r" if "r \<in> set ?l1 \<union> set ?l2" for r
    using that assms(1,2) by (auto simp: checked_table_def listener_table_routes)
  have sorted: "sorted (map route_order ?l1)" "sorted (map route_order ?l2)"
    using assms(1,2) by (simp_all add: checked_table_def listener_table_routes sorted_map sorted_wrt_filter)
  have pair1: "\<exists>b\<in>set ?l2. same_surface c1 c2 a b" if "a \<in> set ?l1" for a
  proof -
    have a: "a \<in> set (tb_routes t1)" using that by (simp add: listener_table_routes)
    obtain b where b: "b \<in> set (tb_routes t2)" "same_surface c1 c2 a b"
      using diff_routes_pair(1) [OF assms(3) dist a] by blast
    then show ?thesis using that same_surfaceD(9) [OF b(2)]
      by (intro bexI [of _ b]) (simp_all add: listener_table_routes)
  qed
  have pair2: "\<exists>a\<in>set ?l1. same_surface c1 c2 a b" if "b \<in> set ?l2" for b
  proof -
    have b: "b \<in> set (tb_routes t2)" using that by (simp add: listener_table_routes)
    obtain a where a: "a \<in> set (tb_routes t1)" "same_surface c1 c2 a b"
      using diff_routes_pair(2) [OF assms(3) dist b] by blast
    then show ?thesis using that same_surfaceD(9) [OF a(2)]
      by (intro bexI [of _ a]) (simp_all add: listener_table_routes)
  qed
  have uniq: "b = b'" if "b \<in> set ?l2" "b' \<in> set ?l2" "route_hits ?p ?m ?h b" "route_hits ?p ?m ?h b'"
      "route_order b = route_order b'" for b b'
    using that check_conflicts_unique [of "tb_routes t2" "()" b b' ?p ?m ?h] assms(2)
    by (simp add: checked_table_def listener_table_routes is_machine_def)
  have r: "rel_option (same_surface c1 c2) (find (route_hits ?p ?m ?h) ?l1) (find (route_hits ?p ?m ?h) ?l2)"
    using paired_match [OF pair1 pair2 der sorted uniq] .
  have "match_request (listener_table k t) host path m = find (route_hits ?p ?m ?h) (tb_routes (listener_table k t))" for t
    by (simp add: match_request_def table.first_hit)
  then show ?thesis
    using r der by (auto simp: rel_option_iff dest!: find_SomeD split: option.splits)
qed

text \<open>C14: a silent diff changes no decision. When \<open>lagos diff\<close> reports nothing between two valid
  configurations, every request is decided alike by both, on either listener: the same
  refusals, the same route, tier, upstream and upstream path, the same need of a client key,
  and the same outcome of the bindings and the policy keys for any synthetic caller.\<close>

theorem silent_diff_same_decisions:
  assumes "build_with rn1 ns1 g1 d1 sh1 h1 = (t1, h1')" "parsed_groups g1" "validate_table env1 t1 = Inr ()"
    and "build_with rn2 ns2 g2 d2 sh2 h2 = (t2, h2')" "parsed_groups g2" "validate_table env2 t2 = Inr ()"
    and "diff_configs c1 t1 c2 t2 = []"
  shows "decide_offline pct_decode c1 (listener_table (tr_listener tr) t1) tr
       = decide_offline pct_decode c2 (listener_table (tr_listener tr) t2) tr"
proof -
  let ?k = "tr_listener tr"
  have d: "diff_routes c1 c2 (tb_routes t1) (tb_routes t2) = []"
    "set (tb_deny_prefixes t1) = set (tb_deny_prefixes t2)" "rv_base_paths c1 = rv_base_paths c2"
    "client_key_header c1 = client_key_header c2" "set (exempt_prefixes c1) = set (exempt_prefixes c2)"
    "set (exempt_groups_of c1) = set (exempt_groups_of c2)"
    using assms(7) by (auto simp: diff_configs_def when_changed_def split: if_splits)
  have mount: "strip_mount c1 p = strip_mount c2 p" for p by (simp add: strip_mount_def d(3))
  have denied: "is_denied (listener_table ?k t1) p = is_denied (listener_table ?k t2) p" for p
    by (rule listener_table_denied [OF d(2)])
  note match = paired_listeners [OF checked_tableI [OF assms(1-3)] checked_tableI [OF assms(4-6)] d(1)]
  have same: "decide_bindings pct_decode a tr = decide_bindings pct_decode b tr"
    "decide_policy_keys a tr = decide_policy_keys b tr"
    "state_of (client_key_rule c1 a q) = state_of (client_key_rule c2 b q)"
    "upstream_path a q = upstream_path b q"
    if "same_surface c1 c2 a b" "derived_from_text a" "derived_from_text b" for a b q
  proof -
    note s = same_surfaceD [OF that(1)] and h = same_surface_hits(3) [OF that]
    show "decide_bindings pct_decode a tr = decide_bindings pct_decode b tr"
      unfolding decide_bindings_def h ..
    show "decide_policy_keys a tr = decide_policy_keys b tr"
      unfolding decide_policy_keys_def key_requirements_def s ..
    show "upstream_path a q = upstream_path b q" by (simp add: upstream_path_def s)
    show "state_of (client_key_rule c1 a q) = state_of (client_key_rule c2 b q)"
      using s(11) unfolding client_key_rule_alt d(4)
      by (intro key_rule_state d(5,6) s(9,6)) simp
  qed
  show ?thesis
  proof (cases "strip_mount c2 (tr_path tr)")
    case None
    then show ?thesis by (simp add: decide_offline_def mount)
  next
    case (Some ms)
    obtain mount' sub where ms: "ms = (mount', sub)" by (cases ms)
    show ?thesis
    proof (cases "canonicalize_proxy_path pct_decode sub")
      case None
      then show ?thesis using Some ms by (simp add: decide_offline_def mount)
    next
      case (Some path)
      show ?thesis
        using match [of ?k "tr_host tr" path "tr_method tr"] Some \<open>strip_mount c2 (tr_path tr) = Some ms\<close> ms same
        by (auto simp: decide_offline_def mount denied rel_option_iff same_surfaceD split: option.splits)
    qed
  qed
qed

lemma sample_secrets_silent:
  "diff_configs (sample_resolved a) valid_table (sample_resolved b) valid_table = []"
proof -
  have keys: "rv_client_keys (sample_resolved s) = None"
    "au_token_cookies (gc_auth (rv_raw (sample_resolved s))) = [''session'']"
    "au_cookie_protection (gc_auth (rv_raw (sample_resolved s))) = None" for s
    by (simp_all add: sample_resolved_def sample_gateway_config_def sample_auth_def)
  have same: "rv_base_paths (sample_resolved a) = rv_base_paths (sample_resolved b)"
    "gc_upstreams (rv_raw (sample_resolved a)) = gc_upstreams (rv_raw (sample_resolved b))"
    by (simp_all add: sample_resolved_def sample_gateway_config_def)
  have rule: "client_key_rule (sample_resolved s) r p = key_rule None [] [] r p" for s r p
    by (simp add: client_key_rule_def keys)
  have "diff_route (sample_resolved a) (sample_resolved b) rs rs n = []" for rs n
    by (simp add: diff_route_def field_changes_def rule split: option.splits)
  moreover have "diff_upstream us us n = []" for us n
    by (simp add: diff_upstream_def split: option.splits)
  ultimately show ?thesis
    by (simp add: diff_configs_def diff_routes_def when_changed_def keys same client_key_header_def
        client_key_forward_as_def key_ids_def exempt_prefixes_def exempt_groups_of_def)
qed

lemma valid_groups_parsed: "parsed_groups valid_groups"
  by (simp add: parsed_groups_def valid_groups_def unresolved_def route_from_def)

theorem silent_diff_same_decisions_witness:
  "diff_configs (sample_resolved ''old'') valid_table (sample_resolved ''new'') valid_table = []
   \<and> decide_offline Some (sample_resolved ''old'') (listener_table PublicListener valid_table) sample_fixture
     = decide_offline Some (sample_resolved ''new'') (listener_table PublicListener valid_table) sample_fixture"
  using silent_diff_same_decisions [OF valid_table_build valid_groups_parsed valid_table_valid
      valid_table_build valid_groups_parsed valid_table_valid sample_secrets_silent, of Some _ sample_fixture]
    sample_secrets_silent
  by (simp add: sample_fixture_def)

end
