(* ===== verification/Cache_Storage.thy ===== *)
theory Cache_Storage
  imports Gateway_Config
begin

text \<open>
  The bounded cache storage (\<open>cache/storage.rs\<close>) and the cache built on it
  (\<open>cache/mod.rs\<close>).

  Bodies are byte strings. A key is the binary hash of the request's cache key, an
  arbitrary type here, and \<open>moka\<close> is the map from keys to entries: what it evicts, and
  when, is its own choice, so eviction is a step that may remove any entry at any time.
  The serialization of \<open>CacheMeta\<close> is Pingora's, a parameter. Every operation makes at
  most one access to the shared fill counter and is otherwise local to its fill, so the
  operations of concurrent fills interleave as whole steps.
\<close>

section \<open>Entries\<close>

record entry =
  ey_internal :: string
  ey_header :: string
  ey_body :: string

text \<open>The sizes of \<open>HashBinary\<close> (16 bytes) and of \<open>Entry\<close> (two \<open>Vec\<close>s and a \<open>Bytes\<close>).\<close>

abbreviation HASH_BINARY_SIZE :: nat where "HASH_BINARY_SIZE \<equiv> 16"
abbreviation ENTRY_SIZE :: nat where "ENTRY_SIZE \<equiv> 80"

definition weight :: "entry \<Rightarrow> nat" where
  "weight e =
     min U32_MAX
       (sat_add U64_MAX
         (sat_add U64_MAX
           (sat_add U64_MAX (sat_add U64_MAX (length (ey_body e)) (length (ey_internal e)))
             (length (ey_header e)))
           HASH_BINARY_SIZE)
         ENTRY_SIZE)"

lemma weight_exact:
  "length (ey_body e) + length (ey_internal e) + length (ey_header e) + 96 \<le> U32_MAX \<Longrightarrow>
   weight e = length (ey_body e) + length (ey_internal e) + length (ey_header e) + 96"
  by (simp add: weight_def sat_add_def)

record 'k memory_storage =
  st_entries :: "'k \<rightharpoonup> entry"
  st_max_bytes :: nat
  st_max_object_bytes :: nat
  st_filling :: nat
  st_max_fill_bytes :: nat

definition storage_new :: "nat \<Rightarrow> nat \<Rightarrow> 'k memory_storage" where
  "storage_new max_bytes max_object_bytes =
     \<lparr> st_entries = Map.empty, st_max_bytes = max_bytes, st_max_object_bytes = max_object_bytes,
       st_filling = 0, st_max_fill_bytes = U64_MAX \<rparr>"

definition with_fill_budget :: "nat \<Rightarrow> 'k memory_storage \<Rightarrow> 'k memory_storage" where
  "with_fill_budget max_fill_bytes st = st \<lparr> st_max_fill_bytes := max_fill_bytes \<rparr>"

text \<open>\<open>checked_add\<close>, then the cap; the counter is unchanged by a refusal.\<close>

definition reserve :: "nat \<Rightarrow> 'k memory_storage \<Rightarrow> bool \<times> 'k memory_storage" where
  "reserve bytes st =
     (let total = st_filling st + bytes in
      if total \<le> U64_MAX \<and> total \<le> st_max_fill_bytes st
      then (True, st \<lparr> st_filling := total \<rparr>) else (False, st))"

text \<open>\<open>fetch_sub\<close> wraps around.\<close>

definition release :: "nat \<Rightarrow> 'k memory_storage \<Rightarrow> 'k memory_storage" where
  "release bytes st =
     (if 0 < bytes
      then st \<lparr> st_filling := (st_filling st + (U64_MAX + 1) - bytes mod (U64_MAX + 1)) mod (U64_MAX + 1) \<rparr>
      else st)"

section \<open>Hits\<close>

record hit =
  ht_body :: string
  ht_read :: nat
  ht_end :: nat

definition READ_CHUNK :: nat where
  "READ_CHUNK = 32 * 1024"

definition hit_new :: "entry \<Rightarrow> hit" where
  "hit_new e = \<lparr> ht_body = ey_body e, ht_read = 0, ht_end = length (ey_body e) \<rparr>"

definition read_body :: "hit \<Rightarrow> string option \<times> hit" where
  "read_body h =
     (if ht_read h \<ge> ht_end h then (None, h)
      else let stop = min (ht_end h) (sat_add U64_MAX (ht_read h) READ_CHUNK) in
           (Some (take (stop - ht_read h) (drop (ht_read h) (ht_body h))), h \<lparr> ht_read := stop \<rparr>))"

definition seek :: "nat \<Rightarrow> nat option \<Rightarrow> hit \<Rightarrow> hit" where
  "seek start fin h =
     (let len = length (ht_body h);
          read = min start len in
      h \<lparr> ht_read := read,
          ht_end := max (min (case fin of Some e \<Rightarrow> e | None \<Rightarrow> len) len) read \<rparr>)"

definition cache_lookup ::
  "(string \<Rightarrow> string \<Rightarrow> ('m, 'x) result) \<Rightarrow> 'k \<Rightarrow> 'k memory_storage \<Rightarrow>
   (('m \<times> hit) option, 'x) result" where
  "cache_lookup deserialize key st =
     (case st_entries st key of
        None \<Rightarrow> Inr None
      | Some e \<Rightarrow>
          and_then (deserialize (ey_internal e) (ey_header e)) (\<lambda>meta. Inr (Some (meta, hit_new e))))"

section \<open>Misses\<close>

record 'k miss =
  ms_key :: 'k
  ms_internal :: string
  ms_header :: string
  ms_body :: string
  ms_too_large :: bool

definition get_miss_handler ::
  "('m \<Rightarrow> (string \<times> string, 'x) result) \<Rightarrow> 'k \<Rightarrow> 'm \<Rightarrow> ('k miss, 'x) result" where
  "get_miss_handler serialize key meta =
     and_then (serialize meta) (\<lambda>(internal, header).
       Inr \<lparr> ms_key = key, ms_internal = internal, ms_header = header, ms_body = [],
             ms_too_large = False \<rparr>)"

definition abandon :: "'k miss \<Rightarrow> 'k memory_storage \<Rightarrow> 'k miss \<times> 'k memory_storage" where
  "abandon m st =
     (m \<lparr> ms_too_large := True, ms_body := [] \<rparr>, release (length (ms_body m)) st)"

definition drop_miss :: "'k miss \<Rightarrow> 'k memory_storage \<Rightarrow> 'k memory_storage" where
  "drop_miss m st = release (length (ms_body m)) st"

definition write_body :: "string \<Rightarrow> 'k miss \<Rightarrow> 'k memory_storage \<Rightarrow> 'k miss \<times> 'k memory_storage" where
  "write_body data m st =
     (if ms_too_large m then (m, st)
      else if sat_add U64_MAX (length (ms_body m)) (length data) > st_max_object_bytes st then abandon m st
      else case reserve (length data) st of
             (False, st1) \<Rightarrow> abandon m st1
           | (True, st1) \<Rightarrow> (m \<lparr> ms_body := ms_body m @ data \<rparr>, st1))"

datatype fill_error = CacheObjectTooLarge

text \<open>\<open>finish\<close> consumes the handler. The body has been moved out by then, so the drop
  that follows releases nothing.\<close>

definition finish_miss ::
  "'k miss \<Rightarrow> 'k memory_storage \<Rightarrow> (nat, fill_error) result \<times> 'k memory_storage" where
  "finish_miss m st =
     (if ms_too_large m then (Inl CacheObjectTooLarge, drop_miss m st)
      else
        let st1 = release (length (ms_body m)) st;
            e = \<lparr> ey_internal = ms_internal m, ey_header = ms_header m, ey_body = ms_body m \<rparr> in
        (Inr (weight e), st1 \<lparr> st_entries := (st_entries st1)(ms_key m \<mapsto> e) \<rparr>))"

datatype purge_outcome = Purged | NotFound

definition cache_purge :: "'k \<Rightarrow> 'k memory_storage \<Rightarrow> purge_outcome \<times> 'k memory_storage" where
  "cache_purge key st =
     (if st_entries st key \<noteq> None
      then (Purged, st \<lparr> st_entries := (st_entries st)(key := None) \<rparr>) else (NotFound, st))"

definition update_meta ::
  "('m \<Rightarrow> (string \<times> string, 'x) result) \<Rightarrow> 'k \<Rightarrow> 'm \<Rightarrow> 'k memory_storage \<Rightarrow>
   (bool, 'x) result \<times> 'k memory_storage" where
  "update_meta serialize key meta st =
     (case st_entries st key of
        None \<Rightarrow> (Inr False, st)
      | Some existing \<Rightarrow>
          (case serialize meta of
             Inl e \<Rightarrow> (Inl e, st)
           | Inr (internal, header) \<Rightarrow>
               (Inr True, st \<lparr> st_entries := (st_entries st)(key \<mapsto>
                  \<lparr> ey_internal = internal, ey_header = header, ey_body = ey_body existing \<rparr>) \<rparr>)))"

section \<open>The cache\<close>

text \<open>\<open>ttl\<close> is the set-once global: the configured time to live, once a cache was built.\<close>

definition default_freshness :: "duration option \<Rightarrow> nat \<Rightarrow> duration option" where
  "default_freshness ttl status =
     (if 200 \<le> status \<and> status \<le> 299 \<or> status = 301 \<or> status = 308
      then Some (case ttl of Some d \<Rightarrow> d | None \<Rightarrow> from_secs 60) else None)"

record meta_defaults =
  md_fresh :: "nat \<Rightarrow> duration option"
  md_stale_while_revalidate :: nat
  md_stale_if_error :: nat

record 'k cache =
  ch_storage :: "'k memory_storage"
  ch_eviction_capacity :: nat
  ch_lock_timeout :: duration
  ch_defaults :: meta_defaults
  ch_max_object_bytes :: nat

text \<open>A pointer has 64 bits, so \<open>usize::try_from\<close> of a \<open>u64\<close> never fails. The first cache
  built sets the global.\<close>

definition cache_new :: "cache_config \<Rightarrow> duration option \<Rightarrow> 'k cache \<times> duration option" where
  "cache_new cfg ttl =
     (let max_object = min U64_MAX (ca_max_object_size cfg);
          max_fill = min U64_MAX (ca_max_inflight_fill cfg);
          ttl1 = (case ttl of None \<Rightarrow> Some (ca_default_ttl cfg) | Some d \<Rightarrow> Some d);
          swr = min U32_MAX (as_secs (ca_stale_while_revalidate cfg)) in
      (\<lparr> ch_storage = with_fill_budget max_fill (storage_new (ca_max_size cfg) max_object),
         ch_eviction_capacity = min U64_MAX (ca_max_size cfg),
         ch_lock_timeout = from_secs 2,
         ch_defaults = \<lparr> md_fresh = default_freshness ttl1, md_stale_while_revalidate = swr,
                         md_stale_if_error = 0 \<rparr>,
         ch_max_object_bytes = max_object \<rparr>, ttl1))"

section \<open>Reading a hit\<close>

text \<open>The reader's loop: chunks until \<open>None\<close>.\<close>

partial_function (option) drain :: "hit \<Rightarrow> string list option" where
  "drain h =
     (case read_body h of
        (None, _) \<Rightarrow> Some []
      | (Some chunk, h') \<Rightarrow> Option.bind (drain h') (\<lambda>chunks. Some (chunk # chunks)))"

text \<open>The bytes a hit still has to deliver, and the bound every buffer in memory satisfies.\<close>

definition hit_rest :: "hit \<Rightarrow> string" where
  "hit_rest h = take (ht_end h - ht_read h) (drop (ht_read h) (ht_body h))"

definition hit_wf :: "hit \<Rightarrow> bool" where
  "hit_wf h = (ht_end h \<le> length (ht_body h) \<and> length (ht_body h) \<le> U64_MAX)"

lemma hit_wf_new: "length (ey_body e) \<le> U64_MAX \<Longrightarrow> hit_wf (hit_new e)"
  by (simp add: hit_wf_def hit_new_def)

lemma hit_rest_new [simp]: "hit_rest (hit_new e) = ey_body e"
  by (simp add: hit_rest_def hit_new_def)

lemma hit_wf_seek: "hit_wf h \<Longrightarrow> hit_wf (seek start fin h)"
  by (simp add: hit_wf_def seek_def Let_def)

lemma hit_rest_seek:
  "hit_rest (seek start fin h) =
     (case fin of None \<Rightarrow> drop start (ht_body h) | Some e \<Rightarrow> take (e - start) (drop start (ht_body h)))"
  by (cases "start \<le> length (ht_body h)")
    (auto simp: hit_rest_def seek_def Let_def min_def max_def split: option.splits)

lemma read_body_step:
  assumes "hit_wf h"
  shows "case read_body h of
      (None, h') \<Rightarrow> h' = h \<and> hit_rest h = []
    | (Some chunk, h') \<Rightarrow> hit_wf h' \<and> hit_rest h = chunk @ hit_rest h' \<and> chunk \<noteq> []
        \<and> length chunk \<le> READ_CHUNK"
proof (cases "ht_read h \<ge> ht_end h")
  case True
  then show ?thesis by (simp add: read_body_def hit_rest_def)
next
  case False
  define stop where "stop = min (ht_end h) (ht_read h + READ_CHUNK)"
  have s: "min (ht_end h) (sat_add U64_MAX (ht_read h) READ_CHUNK) = stop"
    using assms by (auto simp: stop_def sat_add_def hit_wf_def min_def)
  have b: "ht_read h < stop" "stop \<le> ht_end h" "stop - ht_read h \<le> READ_CHUNK"
    using False by (auto simp: stop_def READ_CHUNK_def)
  have "hit_rest h = take (stop - ht_read h) (drop (ht_read h) (ht_body h))
      @ take (ht_end h - stop) (drop stop (ht_body h))"
  proof -
    have e: "ht_end h - ht_read h = (stop - ht_read h) + (ht_end h - stop)" using b by simp
    show ?thesis unfolding hit_rest_def e take_add using b by simp
  qed
  then show ?thesis using False assms b
    by (simp add: read_body_def s hit_wf_def hit_rest_def Let_def)
qed

lemma drain_total:
  "hit_wf h \<Longrightarrow>
   \<exists>chunks. drain h = Some chunks \<and> concat chunks = hit_rest h
     \<and> (\<forall>c\<in>set chunks. 0 < length c \<and> length c \<le> READ_CHUNK)"
proof (induction "length (hit_rest h)" arbitrary: h rule: less_induct)
  case less
  obtain r h' where r: "read_body h = (r, h')" by (cases "read_body h")
  show ?case
  proof (cases r)
    case None
    then have "drain h = Some []" using r by (simp add: drain.simps)
    then show ?thesis using read_body_step [OF less.prems] r None by simp
  next
    case (Some chunk)
    note st = read_body_step [OF less.prems, unfolded r Some prod.case option.case]
    then have "length (hit_rest h') < length (hit_rest h)" by simp
    from less.hyps [OF this] st obtain chunks where "drain h' = Some chunks"
      "concat chunks = hit_rest h'" "\<forall>c\<in>set chunks. 0 < length c \<and> length c \<le> READ_CHUNK" by blast
    then show ?thesis using st r Some by (subst drain.simps) auto
  qed
qed

section \<open>Fills under any interleaving\<close>

text \<open>A fill is its handler with, for the statement only, the chunks it was given;
  \<open>cr_published\<close> collects what finished fills had received in full.\<close>

record 'k cache_run =
  cr_store :: "'k memory_storage"
  cr_fills :: "('k miss \<times> string list) list"
  cr_published :: "('k \<times> string) set"

inductive cache_step ::
  "('m \<Rightarrow> (string \<times> string, 'x) result) \<Rightarrow> 'k cache_run \<Rightarrow> 'k cache_run \<Rightarrow> bool"
  for serialize where
  opened: "get_miss_handler serialize key meta = Inr m \<Longrightarrow>
     cache_step serialize s (s \<lparr> cr_fills := (m, []) # cr_fills s \<rparr>)"
| wrote: "cr_fills s = before @ (m, chunks) # after \<Longrightarrow>
     write_body data m (cr_store s) = (m', st) \<Longrightarrow>
     cache_step serialize s
       (s \<lparr> cr_store := st, cr_fills := before @ (m', chunks @ [data]) # after \<rparr>)"
| finished: "cr_fills s = before @ (m, chunks) # after \<Longrightarrow>
     finish_miss m (cr_store s) = (Inr sz, st) \<Longrightarrow>
     cache_step serialize s
       (s \<lparr> cr_store := st, cr_fills := before @ after,
            cr_published := insert (ms_key m, concat chunks) (cr_published s) \<rparr>)"
| failed: "cr_fills s = before @ (m, chunks) # after \<Longrightarrow>
     finish_miss m (cr_store s) = (Inl e, st) \<Longrightarrow>
     cache_step serialize s (s \<lparr> cr_store := st, cr_fills := before @ after \<rparr>)"
| dropped: "cr_fills s = before @ (m, chunks) # after \<Longrightarrow>
     cache_step serialize s
       (s \<lparr> cr_store := drop_miss m (cr_store s), cr_fills := before @ after \<rparr>)"
| purged: "cache_purge key (cr_store s) = (r, st) \<Longrightarrow>
     cache_step serialize s (s \<lparr> cr_store := st \<rparr>)"
| updated: "update_meta serialize key meta (cr_store s) = (r, st) \<Longrightarrow>
     cache_step serialize s (s \<lparr> cr_store := st \<rparr>)"
| evicted: "cache_step serialize s
     (s \<lparr> cr_store := (cr_store s) \<lparr> st_entries := (st_entries (cr_store s))(key := None) \<rparr> \<rparr>)"

definition cache_init :: "'k memory_storage \<Rightarrow> 'k cache_run \<Rightarrow> bool" where
  "cache_init st s = (s = \<lparr> cr_store = st, cr_fills = [], cr_published = {} \<rparr>)"

definition fill_ok :: "nat \<Rightarrow> 'k miss \<times> string list \<Rightarrow> bool" where
  "fill_ok max_object f =
     (ms_body (fst f) = (if ms_too_large (fst f) then [] else concat (snd f))
      \<and> length (ms_body (fst f)) \<le> max_object)"

definition buffered :: "'k cache_run \<Rightarrow> nat" where
  "buffered s = sum_list (map (\<lambda>f. length (ms_body (fst f))) (cr_fills s))"

definition stored_ok :: "'k memory_storage \<Rightarrow> ('k \<times> string) set \<Rightarrow> bool" where
  "stored_ok st published =
     (\<forall>k e. st_entries st k = Some e \<longrightarrow>
        length (ey_body e) \<le> st_max_object_bytes st \<and> (k, ey_body e) \<in> published)"

definition cache_inv :: "nat \<Rightarrow> nat \<Rightarrow> 'k cache_run \<Rightarrow> bool" where
  "cache_inv max_object max_fill s =
     (st_max_object_bytes (cr_store s) = max_object \<and> st_max_fill_bytes (cr_store s) = max_fill
      \<and> st_filling (cr_store s) = buffered s \<and> buffered s \<le> max_fill \<and> buffered s \<le> U64_MAX
      \<and> (\<forall>f\<in>set (cr_fills s). fill_ok max_object f)
      \<and> stored_ok (cr_store s) (cr_published s))"

lemma release_back:
  "st_filling st = n + b \<Longrightarrow> n + b \<le> U64_MAX \<Longrightarrow> release b st = st \<lparr> st_filling := n \<rparr>"
  by (simp add: release_def)

lemma write_body_cases:
  assumes "write_body data m st = (m', st')" "st_filling st = n + length (ms_body m)"
    "n + length (ms_body m) \<le> U64_MAX" "length (ms_body m) \<le> st_max_object_bytes st"
  obtains (ignored) "ms_too_large m" "m' = m" "st' = st"
  | (abandoned) "m' = m \<lparr> ms_too_large := True, ms_body := [] \<rparr>" "st' = st \<lparr> st_filling := n \<rparr>"
  | (kept) "\<not> ms_too_large m" "m' = m \<lparr> ms_body := ms_body m @ data \<rparr>"
      "st' = st \<lparr> st_filling := n + length (ms_body m @ data) \<rparr>"
      "length (ms_body m @ data) \<le> st_max_object_bytes st"
      "n + length (ms_body m @ data) \<le> st_max_fill_bytes st"
      "n + length (ms_body m @ data) \<le> U64_MAX"
  using assms(1) release_back [OF assms(2,3)] assms(2-4)
  by (auto simp: write_body_def abandon_def reserve_def Let_def sat_add_def min_def add.assoc
      split: if_splits)

lemma write_body_fits:
  assumes "\<not> ms_too_large m" "length (ms_body m) + length data \<le> st_max_object_bytes st"
    "st_max_object_bytes st \<le> U64_MAX" "st_filling st + length data \<le> st_max_fill_bytes st"
    "st_max_fill_bytes st \<le> U64_MAX"
  shows "write_body data m st =
    (m \<lparr> ms_body := ms_body m @ data \<rparr>, st \<lparr> st_filling := st_filling st + length data \<rparr>)"
  using assms by (simp add: write_body_def reserve_def sat_add_def Let_def)

lemma write_body_over_budget:
  assumes "\<not> ms_too_large m" "st_max_fill_bytes st < st_filling st + length data"
    "length (ms_body m) \<le> st_filling st" "st_filling st \<le> U64_MAX"
  shows "write_body data m st =
    (m \<lparr> ms_too_large := True, ms_body := [] \<rparr>, st \<lparr> st_filling := st_filling st - length (ms_body m) \<rparr>)"
  using assms release_back [of st "st_filling st - length (ms_body m)" "length (ms_body m)"]
  by (auto simp: write_body_def reserve_def abandon_def Let_def)

lemma buffered_split:
  "cr_fills s = before @ f # after \<Longrightarrow>
   buffered s = (\<Sum>g\<leftarrow>before @ after. length (ms_body (fst g))) + length (ms_body (fst f))"
  by (simp add: buffered_def)

lemma stored_ok_mono:
  "stored_ok st P \<Longrightarrow> st_entries st' \<subseteq>\<^sub>m st_entries st \<Longrightarrow>
   st_max_object_bytes st' = st_max_object_bytes st \<Longrightarrow> stored_ok st' P"
  by (force simp: stored_ok_def map_le_def dom_def)

lemma stored_ok_filling [simp]: "stored_ok (st \<lparr> st_filling := n \<rparr>) P = stored_ok st P"
  by (simp add: stored_ok_def)

lemma cache_inv_init:
  assumes "cache_init (with_fill_budget max_fill (storage_new n max_object)) s"
  shows "cache_inv max_object max_fill s"
  using assms
  by (simp add: cache_init_def cache_inv_def with_fill_budget_def storage_new_def buffered_def stored_ok_def)

lemma cache_inv_step:
  assumes "cache_inv max_object max_fill s" "cache_step serialize s t"
  shows "cache_inv max_object max_fill t"
  using assms(2)
proof cases
  case (wrote before m chunks after data m' st)
  let ?n = "\<Sum>g\<leftarrow>before @ after. length (ms_body (fst g))"
  have b: "st_filling (cr_store s) = ?n + length (ms_body m)" "?n + length (ms_body m) \<le> U64_MAX"
    "length (ms_body m) \<le> st_max_object_bytes (cr_store s)"
    "fill_ok max_object (m, chunks)"
    using assms(1) buffered_split [OF wrote(2)] wrote(2)
    by (auto simp: cache_inv_def fill_ok_def)
  show ?thesis
    using wrote(3) b(1,2,3)
  proof (cases rule: write_body_cases)
    case ignored
    then have "fill_ok max_object (m', chunks @ [data])" using b(4) by (simp add: fill_ok_def)
    with ignored show ?thesis using assms(1) wrote(1,2)
      by (simp add: cache_inv_def buffered_def)
  next
    case abandoned
    then have "fill_ok max_object (m', chunks @ [data])" by (simp add: fill_ok_def)
    with abandoned show ?thesis using assms(1) wrote(1,2)
      by (simp add: cache_inv_def buffered_def)
  next
    case kept
    then have "fill_ok max_object (m', chunks @ [data])"
      using b(4) assms(1) by (simp add: fill_ok_def cache_inv_def)
    with kept show ?thesis using assms(1) wrote(1,2)
      by (simp add: cache_inv_def buffered_def)
  qed
next
  case (finished before m chunks after sz st)
  let ?n = "\<Sum>g\<leftarrow>before @ after. length (ms_body (fst g))"
  have b: "st_filling (cr_store s) = ?n + length (ms_body m)" "?n + length (ms_body m) \<le> U64_MAX"
    "fill_ok max_object (m, chunks)"
    using assms(1) buffered_split [OF finished(2)] finished(2) by (auto simp: cache_inv_def)
  have m: "\<not> ms_too_large m" "st = (cr_store s) \<lparr> st_filling := ?n,
      st_entries := (st_entries (cr_store s))(ms_key m \<mapsto>
        \<lparr> ey_internal = ms_internal m, ey_header = ms_header m, ey_body = ms_body m \<rparr>) \<rparr>"
    using finished(3) release_back [OF b(1,2)] by (auto simp: finish_miss_def Let_def split: if_splits)
  have "ms_body m = concat chunks" "length (ms_body m) \<le> max_object"
    using b(3) m(1) by (auto simp: fill_ok_def)
  then show ?thesis using assms(1) finished(1,2) b(1,2) m
    by (auto simp: cache_inv_def buffered_def stored_ok_def)
next
  case (failed before m chunks after e st)
  let ?n = "\<Sum>g\<leftarrow>before @ after. length (ms_body (fst g))"
  have b: "fill_ok max_object (m, chunks)" using assms(1) failed(2) by (auto simp: cache_inv_def)
  have "ms_body m = []" "st = cr_store s"
    using failed(3) b by (auto simp: finish_miss_def drop_miss_def release_def fill_ok_def Let_def split: if_splits)
  then show ?thesis using assms(1) failed(1,2)
    by (auto simp: cache_inv_def buffered_def)
next
  case (dropped before m chunks after)
  let ?n = "\<Sum>g\<leftarrow>before @ after. length (ms_body (fst g))"
  have b: "st_filling (cr_store s) = ?n + length (ms_body m)" "?n + length (ms_body m) \<le> U64_MAX"
    using assms(1) buffered_split [OF dropped(2)] by (auto simp: cache_inv_def)
  show ?thesis using assms(1) dropped(1,2) release_back [OF b]
    by (auto simp: cache_inv_def buffered_def drop_miss_def)
qed (use assms(1) in \<open>auto simp: cache_inv_def buffered_def fill_ok_def get_miss_handler_def
      and_then_def cache_purge_def update_meta_def stored_ok_def split: if_splits option.splits sum.splits\<close>)

interpretation cache_fills: invariant_system
    "cache_init (with_fill_budget max_fill (storage_new n max_object))"
    "cache_step serialize" "cache_inv max_object max_fill" for n max_object max_fill serialize
  by unfold_locales (auto intro: cache_inv_init cache_inv_step)

section \<open>Properties\<close>

text \<open>C17: the cache never holds more than it may, and never a torn body. Whatever fills,
  finishes, purges, metadata updates and evictions interleave, the bytes all unfinished
  fills buffer together are exactly what the shared counter says and at most the fill
  budget, no fill buffers more than one object may have, and every stored body is the whole
  body some finished fill of that key received, within the object cap.\<close>

theorem cache_fills_bounded:
  assumes "cache_init (with_fill_budget max_fill (storage_new n max_object)) s"
    and "(cache_step serialize)\<^sup>*\<^sup>* s t"
  shows "st_filling (cr_store t) = buffered t \<and> buffered t \<le> max_fill
    \<and> (\<forall>f\<in>set (cr_fills t). length (ms_body (fst f)) \<le> max_object)
    \<and> (\<forall>k e. st_entries (cr_store t) k = Some e \<longrightarrow>
          length (ey_body e) \<le> max_object \<and> (k, ey_body e) \<in> cr_published t)"
  using cache_fills.reachable_inv [OF assms]
  by (auto simp: cache_inv_def stored_ok_def fill_ok_def)

text \<open>What the fill of a handler over a list of chunks ends as.\<close>

definition fill_all :: "string list \<Rightarrow> 'k miss \<Rightarrow> 'k memory_storage \<Rightarrow> 'k miss \<times> 'k memory_storage" where
  "fill_all chunks m st = fold (\<lambda>data (m, st). write_body data m st) chunks (m, st)"

lemma fill_all_simps [simp]:
  "fill_all [] m st = (m, st)"
  "fill_all (c # cs) m st = (case write_body c m st of (m', st') \<Rightarrow> fill_all cs m' st')"
  by (simp_all add: fill_all_def split: prod.split)

lemma fill_all_kept:
  "fill_all chunks m st = (m', st') \<Longrightarrow> \<not> ms_too_large m' \<Longrightarrow>
   \<not> ms_too_large m \<and> ms_body m' = ms_body m @ concat chunks \<and> ms_key m' = ms_key m
   \<and> ms_internal m' = ms_internal m \<and> ms_header m' = ms_header m
   \<and> (length (ms_body m) \<le> st_filling st \<longrightarrow> st_filling st \<le> U64_MAX \<longrightarrow> length (ms_body m') \<le> U64_MAX)"
proof (induction chunks arbitrary: m st)
  case (Cons c cs)
  obtain m1 st1 where w: "write_body c m st = (m1, st1)" by (cases "write_body c m st")
  with Cons.prems have "fill_all cs m1 st1 = (m', st')" by simp
  note IH = Cons.IH [OF this Cons.prems(2)]
  have "\<not> ms_too_large m \<and> m1 = m \<lparr> ms_body := ms_body m @ c \<rparr>
      \<and> st_filling st1 = st_filling st + length c \<and> st_filling st1 \<le> U64_MAX"
    using w IH by (auto simp: write_body_def abandon_def reserve_def Let_def split: if_splits)
  with IH show ?case by auto
qed auto

text \<open>C36: what was stored is what is served. When a fill finishes well, a lookup of its key
  finds the metadata it was opened with, and reading the hit, whole or from any sought range,
  ends and delivers exactly the bytes of the chunks that were written, in pieces of at most
  \<open>READ_CHUNK\<close>.\<close>

theorem cache_serves_what_was_stored:
  assumes "get_miss_handler serialize key meta = Inr m"
    and "fill_all chunks m st = (m', st1)" "finish_miss m' st1 = (Inr sz, st2)"
    and "st_filling st \<le> U64_MAX"
    and "\<And>i h. serialize meta = Inr (i, h) \<Longrightarrow> deserialize i h = Inr meta"
  shows "\<exists>h pieces ranged. cache_lookup deserialize key st2 = Inr (Some (meta, h))
    \<and> drain h = Some pieces \<and> concat pieces = concat chunks
    \<and> drain (seek start (Some fin) h) = Some ranged
    \<and> concat ranged = take (fin - start) (drop start (concat chunks))
    \<and> (\<forall>c\<in>set (pieces @ ranged). length c \<le> READ_CHUNK)"
proof -
  obtain i hd where sr: "serialize meta = Inr (i, hd)" and m: "ms_key m = key" "ms_internal m = i"
    "ms_header m = hd" "ms_body m = []"
    using assms(1) by (auto simp: get_miss_handler_def and_then_def split: sum.splits)
  have ok: "\<not> ms_too_large m'" using assms(3) by (auto simp: finish_miss_def)
  define e where "e = \<lparr> ey_internal = i, ey_header = hd, ey_body = concat chunks \<rparr>"
  from fill_all_kept [OF assms(2) ok] m assms(4)
  have k: "ms_body m' = concat chunks" "ms_key m' = key" "ms_internal m' = i" "ms_header m' = hd"
    "length (concat chunks) \<le> U64_MAX" by auto
  have "st_entries st2 key = Some e"
    using assms(3) ok k by (auto simp: finish_miss_def e_def Let_def)
  then have look: "cache_lookup deserialize key st2 = Inr (Some (meta, hit_new e))"
    using assms(5) [OF sr] by (simp add: cache_lookup_def e_def and_then_def)
  have wf: "hit_wf (hit_new e)" by (rule hit_wf_new) (use k(5) in \<open>simp add: e_def\<close>)
  obtain pieces where "drain (hit_new e) = Some pieces" "concat pieces = concat chunks"
    "\<forall>c\<in>set pieces. length c \<le> READ_CHUNK"
    using drain_total [OF wf] by (auto simp: e_def)
  moreover obtain ranged where "drain (seek start (Some fin) (hit_new e)) = Some ranged"
    "concat ranged = take (fin - start) (drop start (concat chunks))"
    "\<forall>c\<in>set ranged. length c \<le> READ_CHUNK"
    using drain_total [OF hit_wf_seek [OF wf, of start "Some fin"]]
    by (auto simp: e_def hit_rest_seek hit_new_def)
  ultimately show ?thesis using look by (auto intro!: exI)
qed

section \<open>Witnesses\<close>

definition sample_serialize :: "string \<Rightarrow> (string \<times> string, unit) result" where
  "sample_serialize meta = Inr (meta, ''h'')"

definition sample_storage :: "nat memory_storage" where
  "sample_storage = with_fill_budget 6 (storage_new 100 4)"

definition sample_miss :: "nat \<Rightarrow> nat miss" where
  "sample_miss k = \<lparr> ms_key = k, ms_internal = ''m'', ms_header = ''h'', ms_body = [], ms_too_large = False \<rparr>"

definition sample_filled :: "nat miss" where
  "sample_filled = \<lparr> ms_key = 7, ms_internal = ''m'', ms_header = ''h'', ms_body = ''abcd'', ms_too_large = False \<rparr>"

definition sample_stored :: "nat memory_storage" where
  "sample_stored = snd (finish_miss sample_filled (sample_storage \<lparr> st_filling := 4 \<rparr>))"

lemma sample_fill:
  "fill_all [''ab'', ''cd''] (sample_miss 7) sample_storage =
     (sample_filled, sample_storage \<lparr> st_filling := 4 \<rparr>)"
  by (simp add: sample_filled_def sample_miss_def sample_storage_def with_fill_budget_def storage_new_def
      write_body_fits)

lemma sample_weight:
  "weight \<lparr> ey_internal = ''m'', ey_header = ''h'', ey_body = ''abcd'' \<rparr> = 102"
  by (simp add: weight_exact)

lemma sample_finish:
  "finish_miss sample_filled (sample_storage \<lparr> st_filling := 4 \<rparr>) = (Inr 102, sample_stored)"
proof -
  have "fst (finish_miss sample_filled st) = Inr 102" for st
    unfolding finish_miss_def sample_filled_def miss.simps if_False Let_def sample_weight fst_conv ..
  then show ?thesis by (simp add: sample_stored_def prod_eq_iff)
qed

lemma cache_serves_what_was_stored_witness:
  "\<exists>h pieces ranged. cache_lookup (\<lambda>i _. Inr i :: (string, unit) result) 7 sample_stored = Inr (Some (''m'', h))
    \<and> drain h = Some pieces \<and> concat pieces = concat [''ab'', ''cd'']
    \<and> drain (seek 1 (Some 3) h) = Some ranged
    \<and> concat ranged = take (3 - 1) (drop 1 (concat [''ab'', ''cd'']))
    \<and> list_all (\<lambda>c. length c \<le> READ_CHUNK) (pieces @ ranged)"
  unfolding list_all_iff
proof (rule cache_serves_what_was_stored [where serialize = sample_serialize and meta = "''m''",
      OF _ sample_fill sample_finish])
  show "get_miss_handler sample_serialize 7 ''m'' = Inr (sample_miss 7)"
    by (simp add: get_miss_handler_def sample_serialize_def sample_miss_def and_then_def)
  show "st_filling sample_storage \<le> U64_MAX"
    by (simp add: sample_storage_def with_fill_budget_def storage_new_def)
qed (simp add: sample_serialize_def)

text \<open>Two fills share a budget of six bytes: the second is abandoned, the first is stored.\<close>

definition sample_run :: "nat cache_run" where
  "sample_run = \<lparr> cr_store = sample_storage, cr_fills = [], cr_published = {} \<rparr>"

definition sample_run_end :: "nat cache_run" where
  "sample_run_end =
     (let (m, st) = write_body ''abc'' (sample_miss 7) sample_storage;
          (m2, st2) = write_body ''defg'' (sample_miss 8) st in
      \<lparr> cr_store = st2, cr_fills = [(m2, [''defg'']), (m, [''abc''])], cr_published = {} \<rparr>)"

lemma sample_run_steps: "(cache_step sample_serialize)\<^sup>*\<^sup>* sample_run sample_run_end"
proof -
  let ?s1 = "sample_run \<lparr> cr_fills := [(sample_miss 7, [])] \<rparr>"
  let ?w = "write_body ''abc'' (sample_miss 7) sample_storage"
  let ?s2 = "?s1 \<lparr> cr_store := snd ?w, cr_fills := [] @ (fst ?w, [] @ [''abc'']) # [] \<rparr>"
  let ?s3 = "?s2 \<lparr> cr_fills := (sample_miss 8, []) # cr_fills ?s2 \<rparr>"
  let ?v = "write_body ''defg'' (sample_miss 8) (snd ?w)"
  let ?s4 = "?s3 \<lparr> cr_store := snd ?v, cr_fills := [] @ (fst ?v, [] @ [''defg'']) # cr_fills ?s2 \<rparr>"
  have h: "get_miss_handler sample_serialize k ''m'' = Inr (sample_miss k)" for k
    by (simp add: get_miss_handler_def sample_serialize_def sample_miss_def and_then_def)
  have "cache_step sample_serialize sample_run ?s1"
    using cache_step.opened [OF h, of sample_run] by (simp add: sample_run_def)
  moreover have "cache_step sample_serialize ?s1 ?s2"
    by (rule cache_step.wrote) (simp_all add: sample_run_def)
  moreover have "cache_step sample_serialize ?s2 ?s3" by (rule cache_step.opened [OF h])
  moreover have "cache_step sample_serialize ?s3 ?s4"
    by (rule cache_step.wrote) (simp_all add: sample_run_def)
  moreover have "?s4 = sample_run_end"
    by (simp add: sample_run_end_def sample_run_def Let_def split: prod.split)
  ultimately show ?thesis by (metis (no_types, lifting) rtranclp.simps)
qed

lemma cache_fills_bounded_witness:
  "st_filling (cr_store sample_run_end) = buffered sample_run_end \<and> buffered sample_run_end \<le> 6
    \<and> list_all (\<lambda>f. length (ms_body (fst f)) \<le> 4) (cr_fills sample_run_end)"
proof -
  have "cache_init (with_fill_budget 6 (storage_new 100 4)) sample_run"
    by (simp add: cache_init_def sample_run_def sample_storage_def)
  from cache_fills_bounded [OF this sample_run_steps] show ?thesis by (simp add: list_all_iff)
qed

lemma sample_run_end_eval:
  "map (\<lambda>f. ms_too_large (fst f)) (cr_fills sample_run_end) = [True, False]" "buffered sample_run_end = 3"
  by (simp_all add: sample_run_end_def sample_miss_def sample_storage_def with_fill_budget_def storage_new_def
      write_body_fits write_body_over_budget buffered_def)

end
