(* ===== verification/Cache_Policy.thy ===== *)
theory Cache_Policy
  imports Cache_Storage Upstream_Headers Route_Validation
begin

text \<open>
  What may be shared between callers, and under which key (\<open>cache/policy.rs\<close>), and the
  cache filters of the proxy (\<open>proxy.rs\<close>).

  Pingora's parts are parameters: the parser of \<open>Cache-Control\<close>, its storability rules, and
  the hash over the varied headers, \<open>finalize\<close>. The \<open>BTreeMap\<close> it collects them in is a map
  from names to framed values.
\<close>

section \<open>Framing\<close>

text \<open>\<open>usize::to_be_bytes\<close>: eight bytes, most significant first.\<close>

definition to_be_bytes :: "nat \<Rightarrow> string" where
  "to_be_bytes n = map (\<lambda>i. char_of (n div 256 ^ (7 - i) mod 256)) [0..<8]"

definition frame :: "string \<Rightarrow> string \<Rightarrow> string" where
  "frame out value = out @ to_be_bytes (length value) @ value"

record pingora_key =
  pk_primary :: string
  pk_tag :: string

definition policy_key :: "string list \<Rightarrow> string \<Rightarrow> pingora_key" where
  "policy_key parts tag = \<lparr> pk_primary = fold (\<lambda>part primary. frame primary part) parts [], pk_tag = tag \<rparr>"

lemma length_to_be_bytes [simp]: "length (to_be_bytes n) = 8"
  by (simp add: to_be_bytes_def)

text \<open>The value of a string of digits to the base 256.\<close>

definition be_value :: "string \<Rightarrow> nat" where
  "be_value s = fold (\<lambda>c n. 256 * n + byte c) s 0"

lemma be_value_to_be_bytes:
  assumes "n \<le> U64_MAX"
  shows "be_value (to_be_bytes n) = n"
proof -
  have d: "m = 256 * (m div 256) + m mod 256" for m :: nat by simp
  have "[0..<8] = [0, 1, 2, 3, 4, 5, 6, 7 :: nat]" by (simp add: upt_rec)
  moreover have "n div 256 ^ 7 < 256" using assms by (simp add: less_mult_imp_div_less)
  ultimately show ?thesis
    using d [of n] d [of "n div 256"] d [of "n div 256 ^ 2"] d [of "n div 256 ^ 3"] d [of "n div 256 ^ 4"]
      d [of "n div 256 ^ 5"] d [of "n div 256 ^ 6"]
    by (simp add: be_value_def to_be_bytes_def div_mult2_eq [symmetric])
qed

lemma to_be_bytes_inj: "m \<le> U64_MAX \<Longrightarrow> n \<le> U64_MAX \<Longrightarrow> to_be_bytes m = to_be_bytes n \<Longrightarrow> m = n"
  by (metis be_value_to_be_bytes)

lemma frame_unique:
  assumes "frame [] a @ x = frame [] b @ y" "length a \<le> U64_MAX" "length b \<le> U64_MAX"
  shows "a = b \<and> x = y"
proof -
  from assms(1) have "to_be_bytes (length a) = to_be_bytes (length b)" "a @ x = b @ y"
    by (simp_all add: frame_def append_eq_append_conv)
  with to_be_bytes_inj assms(2,3) have "length a = length b" by blast
  with \<open>a @ x = b @ y\<close> show ?thesis by (simp add: append_eq_append_conv)
qed

definition frames :: "string list \<Rightarrow> string" where
  "frames vs = concat (map (frame []) vs)"

lemma fold_frame: "fold (\<lambda>v out. frame out v) vs out = out @ frames vs"
  by (induction vs arbitrary: out) (simp_all add: frames_def frame_def)

lemma fold_frame_map: "fold (\<lambda>v out. frame out (f v)) vs out = out @ frames (map f vs)"
  by (induction vs arbitrary: out) (simp_all add: frames_def frame_def)

lemma frames_inject:
  "\<forall>v\<in>set vs \<union> set ws. length v \<le> U64_MAX \<Longrightarrow> frames vs = frames ws \<longleftrightarrow> vs = ws"
proof (induction vs arbitrary: ws)
  case Nil
  then show ?case by (cases ws) (simp_all add: frames_def frame_def to_be_bytes_def)
next
  case (Cons v vs)
  show ?case
  proof (cases ws)
    case Nil
    then show ?thesis by (simp add: frames_def frame_def to_be_bytes_def)
  next
    case (Cons w ws')
    then show ?thesis using Cons.IH [of ws'] Cons.prems frame_unique [of v "frames vs" w "frames ws'"]
      by (auto simp: frames_def)
  qed
qed

section \<open>Which responses may be shared\<close>

text \<open>The readings of Pingora's \<open>CacheControl\<close> that the policy uses.\<close>

record cache_control =
  cq_private :: bool
  cq_no_store :: bool
  cq_allow_authorized :: bool

fun value_bytes :: "header_value \<Rightarrow> string" where
  "value_bytes (Text s) = s"
| "value_bytes (Opaque s) = s"

definition vary_names :: "(string \<Rightarrow> bool) \<Rightarrow> string \<Rightarrow> string set option" where
  "vary_names is_header_name value =
     (let names = filter (\<lambda>s. s \<noteq> []) (map trim (split_on CHR '','' value)) in
      if list_ex (\<lambda>n. n = ''*'') names \<or> \<not> list_all is_header_name names then None
      else Some (to_ascii_lowercase ` set names))"

fun vary_loop :: "(string \<Rightarrow> bool) \<Rightarrow> header_value list \<Rightarrow> string set \<Rightarrow> string set option" where
  "vary_loop is_header_name [] names = Some names"
| "vary_loop is_header_name (v # vs) names =
     Option.bind (to_str v) (\<lambda>s. Option.bind (vary_names is_header_name s)
       (\<lambda>more_names. vary_loop is_header_name vs (names \<union> more_names)))"

definition vary_fields :: "(string \<Rightarrow> bool) \<Rightarrow> header_map \<Rightarrow> string set option" where
  "vary_fields is_header_name resp = vary_loop is_header_name (resp ''vary'') {}"

definition eligible ::
  "(header_map \<Rightarrow> cache_control option) \<Rightarrow> (string \<Rightarrow> bool) \<Rightarrow> header_map \<Rightarrow> bool \<Rightarrow> bool" where
  "eligible cache_control is_header_name resp authorized =
     (if resp ''set-cookie'' \<noteq> [] \<or> vary_fields is_header_name resp = None then False
      else
        (let cc = cache_control resp in
         if (case cc of Some c \<Rightarrow> cq_private c \<or> cq_no_store c | None \<Rightarrow> False) then False
         else \<not> authorized \<or> (case cc of Some c \<Rightarrow> cq_allow_authorized c | None \<Rightarrow> False)))"

section \<open>The variance\<close>

definition variance_value ::
  "(string \<Rightarrow> bool) \<Rightarrow> header_map \<Rightarrow> header_plan \<Rightarrow> string \<Rightarrow> string" where
  "variance_value forwardable req plan name =
     (case find (\<lambda>(n, _). n = name) (hp_set plan) of
        Some (_, value) \<Rightarrow> frame [] value
      | None \<Rightarrow>
          if name \<notin> hp_remove plan \<and> forwardable name
          then fold (\<lambda>v out. frame out (value_bytes v)) (req name) [] else [])"

definition variance ::
  "((string \<rightharpoonup> string) \<Rightarrow> 'h option) \<Rightarrow> (string \<Rightarrow> bool) \<Rightarrow> (string \<Rightarrow> bool) \<Rightarrow>
   header_map \<Rightarrow> header_map \<Rightarrow> header_plan \<Rightarrow> 'h option" where
  "variance finalize is_header_name forwardable resp req plan =
     (case vary_fields is_header_name resp of
        None \<Rightarrow> None
      | Some varied \<Rightarrow>
          finalize (\<lambda>n. if n \<in> varied then Some (variance_value forwardable req plan n) else None))"

section \<open>The filters\<close>

text \<open>What \<open>session.cache.enable\<close> is given, when the filter turns the cache on.\<close>

record 'k cache_enabled =
  cn_storage :: "'k memory_storage"
  cn_max_file_size :: nat

definition request_cache_filter ::
  "'k cache option \<Rightarrow> request \<Rightarrow> ctx \<Rightarrow> 'k cache_enabled option" where
  "request_cache_filter cache_opt rq cx =
     (case cache_opt of
        None \<Rightarrow> None
      | Some c \<Rightarrow>
          if \<not> cx_cacheable_route cx then None
          else if rq_method rq \<notin> {''GET'', ''HEAD''} \<or> cx_sse cx \<or> rq_headers rq ''cookie'' \<noteq> [] then None
          else Some \<lparr> cn_storage = ch_storage c, cn_max_file_size = ch_max_object_bytes c \<rparr>)"

definition path_and_query :: "request \<Rightarrow> string" where
  "path_and_query rq = rq_path rq @ (case rq_query rq of Some q \<Rightarrow> ''?'' @ q | None \<Rightarrow> [])"

definition cache_host :: "request \<Rightarrow> string" where
  "cache_host rq =
     to_ascii_lowercase (case header_text (rq_headers rq) ''host'' of Some h \<Rightarrow> h | None \<Rightarrow> [])"

definition cache_key_parts :: "(nat \<Rightarrow> string) \<Rightarrow> request \<Rightarrow> ctx \<Rightarrow> string list" where
  "cache_key_parts uuid_text rq cx =
     [uuid_text (cx_cache_namespace cx), cx_route_id cx, cx_upstream_name cx, cache_host rq,
      rq_method rq, path_and_query rq]"

definition cache_key_callback :: "(nat \<Rightarrow> string) \<Rightarrow> request \<Rightarrow> ctx \<Rightarrow> pingora_key" where
  "cache_key_callback uuid_text rq cx =
     policy_key (cache_key_parts uuid_text rq cx) (cx_route_id cx)"

definition cache_vary_filter ::
  "((string \<rightharpoonup> string) \<Rightarrow> 'h option) \<Rightarrow> (string \<Rightarrow> bool) \<Rightarrow> gateway \<Rightarrow> header_map \<Rightarrow> ctx \<Rightarrow> header_map \<Rightarrow>
   'h option" where
  "cache_vary_filter finalize is_header_name g resp cx req =
     variance finalize is_header_name
       (\<lambda>name. fw_mode (fwd_cfg g) = Passthrough \<or> is_forwardable g name) resp req (cx_plan cx)"

datatype forced_freshness = ForceMiss

definition cache_hit_filter ::
  "(header_map \<Rightarrow> cache_control option) \<Rightarrow> (string \<Rightarrow> bool) \<Rightarrow> header_map \<Rightarrow> ctx \<Rightarrow>
   forced_freshness option" where
  "cache_hit_filter cache_control is_header_name resp cx =
     (if \<not> eligible cache_control is_header_name resp (cx_client_authorized cx)
      then Some ForceMiss else None)"

datatype 'm resp_cacheable = Uncacheable string | Cacheable 'm

text \<open>\<open>resp_cacheable\<close> is Pingora's reading of RFC 9111.\<close>

definition response_cache_filter ::
  "(header_map \<Rightarrow> cache_control option) \<Rightarrow> (string \<Rightarrow> bool) \<Rightarrow>
   (cache_control option \<Rightarrow> header_map \<Rightarrow> bool \<Rightarrow> meta_defaults \<Rightarrow> 'm resp_cacheable) \<Rightarrow>
   'k cache option \<Rightarrow> header_map \<Rightarrow> ctx \<Rightarrow> 'm resp_cacheable" where
  "response_cache_filter cache_control is_header_name resp_cacheable cache_opt resp cx =
     (case cache_opt of
        None \<Rightarrow> Uncacheable ''cache not configured''
      | Some c \<Rightarrow>
          if \<not> eligible cache_control is_header_name resp (cx_client_authorized cx)
          then Uncacheable ''response cannot be shared''
          else resp_cacheable (cache_control resp) resp (cx_client_authorized cx) (ch_defaults c))"

section \<open>Properties\<close>

lemma find_map_of: "find (\<lambda>(n, _). n = name) kvs = map_option (\<lambda>v. (name, v)) (map_of kvs name)"
  by (induction kvs) (auto split: prod.split)

text \<open>The variance hashes what the upstream is sent.\<close>

lemma variance_value_upstream:
  assumes "upstream_request_filter uri_ok enc g cx headers = Inr (uri, h)" "plan_wf (cx_plan cx)"
    and "n \<noteq> ''host'' \<or> fw_preserve_host (fwd_cfg g)"
  shows "variance_value (\<lambda>name. fw_mode (fwd_cfg g) = Passthrough \<or> is_forwardable g name)
           headers (cx_plan cx) n = frames (map value_bytes (h n))"
proof -
  from assms(1) obtain h1 where
    h: "h = apply_plan (cx_plan cx) (if fw_mode (fwd_cfg g) = Allowlist then allowlist_sweep g h1 else h1)"
    and "h1 = headers \<or> \<not> fw_preserve_host (fwd_cfg g) \<and> (\<exists>v. h1 = headers(''host'' := v))"
    by (auto simp: upstream_request_filter_def put_header_def Let_def split: option.splits if_splits)
  then have h1: "h1 n = headers n" using assms(3) by auto
  have "fw_mode (fwd_cfg g) = Allowlist \<or> fw_mode (fwd_cfg g) = Passthrough"
    by (cases "fw_mode (fwd_cfg g)") auto
  then show ?thesis using h1
    by (cases "map_of (hp_set (cx_plan cx)) n")
      (auto simp: variance_value_def find_map_of h apply_plan_lookup [OF assms(2)] allowlist_sweep_def
        fold_frame_map frames_def comp_def)
qed


text \<open>What is stored or served to several callers comes from a request without application
  cookies, sets none, is not private, and answers an authorized caller only when the
  upstream said that such answers may be shared.\<close>

lemma cache_shares_only_public:
  assumes "request_cache_filter cache_opt rq cx = Some e"
    and "response_cache_filter cc name_ok rfc cache_opt resp cx = Cacheable m
         \<or> cache_hit_filter cc name_ok resp cx = None"
  shows "cx_cacheable_route cx" "rq_method rq \<in> {''GET'', ''HEAD''}" "rq_headers rq ''cookie'' = []"
    "resp ''set-cookie'' = []" "vary_fields name_ok resp \<noteq> None"
    "cc resp = Some c \<Longrightarrow> \<not> cq_private c \<and> \<not> cq_no_store c"
    "cx_client_authorized cx \<Longrightarrow> \<exists>c. cc resp = Some c \<and> cq_allow_authorized c"
proof -
  from assms(1) show "cx_cacheable_route cx" "rq_method rq \<in> {''GET'', ''HEAD''}" "rq_headers rq ''cookie'' = []"
    by (auto simp: request_cache_filter_def split: option.splits if_splits)
  from assms have "eligible cc name_ok resp (cx_client_authorized cx)"
    by (auto simp: request_cache_filter_def response_cache_filter_def cache_hit_filter_def
        split: option.splits if_splits)
  then show "resp ''set-cookie'' = []" "vary_fields name_ok resp \<noteq> None"
    "cc resp = Some c \<Longrightarrow> \<not> cq_private c \<and> \<not> cq_no_store c"
    "cx_client_authorized cx \<Longrightarrow> \<exists>c. cc resp = Some c \<and> cq_allow_authorized c"
    by (auto simp: eligible_def Let_def split: if_splits option.splits)
qed

section \<open>Witnesses\<close>

definition cache_gateway :: gateway where
  "cache_gateway = gateway_new (sample_resolved ''s'') valid_table {} None Map.empty"

definition cache_request :: "string \<Rightarrow> request" where
  "cache_request tag =
     \<lparr> rq_method = ''GET'', rq_path = ''/users'', rq_query = Some ''page=1'',
       rq_headers = (\<lambda>_. [])(''accept'' := [Text ''text/html'', Text ''image/png''], ''x-tag'' := [Text tag]),
       rq_peer = None \<rparr>"

definition cache_ctx :: ctx where
  "cache_ctx = new_ctx \<lparr> cx_route_id := ''users'', cx_upstream_name := ''users'',
     cx_target := Some \<lparr> ut_addr = ''10.0.0.1:80'', ut_tls = False, ut_sni = [], ut_base_path = [] \<rparr> \<rparr>"

definition cache_vary_response :: header_map where
  "cache_vary_response = (\<lambda>_. [])(''vary'' := [Text ''Accept''])"

abbreviation cache_upstream :: "string \<Rightarrow> (string \<times> header_map, proxy_error) result" where
  "cache_upstream tag \<equiv>
     upstream_request_filter (\<lambda>_. True) (\<lambda>_ s. s) cache_gateway cache_ctx (rq_headers (cache_request tag))"

lemma cache_vary_sample: "vary_fields (\<lambda>_. True) cache_vary_response = Some {''accept''}"
  by code_simp

lemma cache_sample_plan: "plan_wf (cx_plan cache_ctx)" "cx_plan cache_ctx = plan_new"
  by (simp_all add: cache_ctx_def new_ctx_def)

lemma cache_sample_variance:
  "cache_vary_filter Some (\<lambda>_. True) cache_gateway cache_vary_response cache_ctx (rq_headers (cache_request tag))
     = Some [''accept'' \<mapsto> frames [''text/html'', ''image/png'']]"
proof -
  have "is_forwardable cache_gateway ''accept''" by code_simp
  then show ?thesis
    by (auto simp: cache_vary_filter_def variance_def cache_vary_sample variance_value_def cache_sample_plan
        plan_new_def cache_request_def frames_def frame_def fun_eq_iff)
qed


end
