(* ===== verification/Key_Cache.thy ===== *)
theory Key_Cache
  imports Key_Sets Ext
begin

text \<open>
  The cache of signing keys under concurrency (\<open>CertCache\<close> of \<open>auth/jwks.rs\<close>).

  Every task that asks for a key runs the program of \<open>key_for\<close> and \<open>refresh\<close>; its program
  counter is a \<open>key_task\<close>, and \<open>poll\<close> runs the stretch up to the next await or lock. A task may
  be dropped at any await. The broadcast channels are numbered: a channel is open, or holds
  what the leader sent. \<open>kt_started\<close>, \<open>kt_refreshed\<close> and \<open>kt_answers\<close> are for the statements
  only: when a task asked, when the cache was last written or announced, and what was
  answered on which ground.
\<close>

section \<open>State\<close>

datatype channel = ChannelOpen | ChannelSent "(unit, string) result" | ChannelClosed

datatype 'key key_task =
    KIdle
  | KAsked string
  | KChecking string
  | KEnlisting string
  | KWaiting string nat
  | KLeading string nat
  | KFetched string nat "'key key_set" duration
  | KPublishing string nat "(unit, auth_error) result"
  | KFailed string auth_error
  | KLoading string
  | KAnswered "('key, auth_error) result"
  | KGone

record 'key key_answer =
  ka_kid :: string
  ka_key :: 'key
  ka_cached :: "'key cached"
  ka_started :: instant
  ka_at :: instant
  ka_refreshed :: instant

record 'key cert_cache =
  kt_now :: instant
  kt_inner :: "'key cached option"
  kt_inflight :: "nat option"
  kt_channels :: "nat \<Rightarrow> channel"
  kt_next :: nat
  kt_tasks :: "nat \<Rightarrow> 'key key_task"
  kt_started :: "nat \<Rightarrow> instant"
  kt_refreshed :: instant
  kt_answers :: "'key key_answer list"

record 'key cert_config =
  kf_crates :: "'key key_crates"
  kf_format :: key_format
  kf_min_ttl :: duration
  kf_stale_if_error :: duration
  kf_latest :: instant

definition cert_cache_new :: "instant \<Rightarrow> 'key cert_cache" where
  "cert_cache_new now =
     \<lparr> kt_now = now, kt_inner = None, kt_inflight = None, kt_channels = (\<lambda>_. ChannelClosed), kt_next = 0,
       kt_tasks = (\<lambda>_. KIdle), kt_started = (\<lambda>_. now), kt_refreshed = 0, kt_answers = [] \<rparr>"

section \<open>The steps of a task\<close>

fun auth_error_text :: "auth_error \<Rightarrow> string" where
  "auth_error_text (AuthInvalid s) = ''invalid token: '' @ s"
| "auth_error_text (UnknownIssuer s) = ''unknown issuer: '' @ s"
| "auth_error_text (Unavailable s) = ''verifier unavailable: '' @ s"

definition goto :: "nat \<Rightarrow> 'key key_task \<Rightarrow> 'key cert_cache \<Rightarrow> 'key cert_cache" where
  "goto i t s = s \<lparr> kt_tasks := (kt_tasks s)(i := t) \<rparr>"

text \<open>\<open>cached.key(kid)\<close>, as the answer of the task.\<close>

definition answer_from ::
  "'key cert_config \<Rightarrow> nat \<Rightarrow> string \<Rightarrow> 'key cached \<Rightarrow> 'key cert_cache \<Rightarrow> 'key cert_cache" where
  "answer_from cfg i kid c s =
     (case cached_key (kc_escape_debug (kf_crates cfg)) c kid of
        Inl e \<Rightarrow> goto i (KAnswered (Inl e)) s
      | Inr key \<Rightarrow>
          goto i (KAnswered (Inr key))
            (s \<lparr> kt_answers := \<lparr> ka_kid = kid, ka_key = key, ka_cached = c, ka_started = kt_started s i,
                                 ka_at = kt_now s, ka_refreshed = kt_refreshed s \<rparr> # kt_answers s \<rparr>))"

text \<open>The sender is taken out of the slot, under its lock, and sends.\<close>

definition publish :: "(unit, string) result \<Rightarrow> 'key cert_cache \<Rightarrow> 'key cert_cache" where
  "publish outcome s =
     (case kt_inflight s of
        None \<Rightarrow> s
      | Some tx \<Rightarrow>
          s \<lparr> kt_inflight := None, kt_channels := (kt_channels s)(tx := ChannelSent outcome) \<rparr>)"

definition fresh_now :: "'key cert_cache \<Rightarrow> bool" where
  "fresh_now s = (case kt_inner s of Some c \<Rightarrow> is_fresh (kt_now s) c | None \<Rightarrow> False)"

definition store_keys :: "instant \<Rightarrow> 'key key_set \<Rightarrow> duration \<Rightarrow> 'key cert_cache \<Rightarrow> 'key cert_cache" where
  "store_keys latest keys ttl s =
     s \<lparr> kt_inner := Some \<lparr> kd_keys = keys,
           kd_expires_at = (case checked_add latest (kt_now s) ttl of Some t \<Rightarrow> t | None \<Rightarrow> kt_now s) \<rparr>,
         kt_refreshed := kt_now s \<rparr>"

text \<open>After a failed refresh: a key of the expired set, while the grace lasts.\<close>

definition after_failure ::
  "'key cert_config \<Rightarrow> nat \<Rightarrow> string \<Rightarrow> auth_error \<Rightarrow> 'key cert_cache \<Rightarrow> 'key cert_cache" where
  "after_failure cfg i kid e s =
     (case kt_inner s of
        None \<Rightarrow> goto i (KAnswered (Inl e)) s
      | Some c \<Rightarrow>
          if kf_stale_if_error cfg = 0 then goto i (KAnswered (Inl e)) s
          else if kd_keys c kid = None then answer_from cfg i kid c s
          else if (case checked_add (kf_latest cfg) (kd_expires_at c) (kf_stale_if_error cfg) of
                     Some until \<Rightarrow> kt_now s < until | None \<Rightarrow> False)
          then answer_from cfg i kid c s
          else goto i (KAnswered (Inl e)) s)"

text \<open>\<open>sent\<close> is what the HTTP client brings back, which only a leader looks at.\<close>

definition poll ::
  "'key cert_config \<Rightarrow> (key_response, string) result \<Rightarrow> nat \<Rightarrow> 'key cert_cache \<Rightarrow> 'key cert_cache" where
  "poll cfg sent i s =
     (case kt_tasks s i of
        KAsked kid \<Rightarrow>
          (case kt_inner s of
             Some c \<Rightarrow> if is_fresh (kt_now s) c then answer_from cfg i kid c s else goto i (KChecking kid) s
           | None \<Rightarrow> goto i (KChecking kid) s)
      | KChecking kid \<Rightarrow> goto i (if fresh_now s then KLoading kid else KEnlisting kid) s
      | KEnlisting kid \<Rightarrow>
          (case kt_inflight s of
             Some tx \<Rightarrow> goto i (KWaiting kid tx) s
           | None \<Rightarrow>
               goto i (KLeading kid (kt_next s))
                 (s \<lparr> kt_inflight := Some (kt_next s), kt_channels := (kt_channels s)(kt_next s := ChannelOpen),
                      kt_next := Suc (kt_next s) \<rparr>))
      | KWaiting kid tx \<Rightarrow>
          (case kt_channels s tx of
             ChannelOpen \<Rightarrow> s
           | ChannelSent (Inr _) \<Rightarrow> goto i (KLoading kid) s
           | ChannelSent (Inl msg) \<Rightarrow> goto i (KFailed kid (Unavailable msg)) s
           | ChannelClosed \<Rightarrow> goto i (KChecking kid) s)
      | KLeading kid tx \<Rightarrow>
          (case fetch_keys (kf_crates cfg) (kf_format cfg) (kf_min_ttl cfg) sent of
             Inr (keys, ttl) \<Rightarrow> goto i (KFetched kid tx keys ttl) s
           | Inl e \<Rightarrow> goto i (KPublishing kid tx (Inl e)) s)
      | KFetched kid tx keys ttl \<Rightarrow>
          goto i (KPublishing kid tx (Inr ())) (store_keys (kf_latest cfg) keys ttl s)
      | KPublishing kid tx (Inr u) \<Rightarrow>
          goto i (KLoading kid) ((publish (Inr ()) s) \<lparr> kt_refreshed := kt_now s \<rparr>)
      | KPublishing kid tx (Inl e) \<Rightarrow> goto i (KFailed kid e) (publish (Inl (auth_error_text e)) s)
      | KFailed kid e \<Rightarrow> after_failure cfg i kid e s
      | KLoading kid \<Rightarrow>
          (case kt_inner s of
             None \<Rightarrow> goto i (KAnswered (Inl (Unavailable ''certificate cache empty after refresh''))) s
           | Some c \<Rightarrow> answer_from cfg i kid c s)
      | _ \<Rightarrow> s)"

text \<open>Dropping a task: the guard of a leader answers its waiters. A leader that publishes is
  past its last await.\<close>

definition cancel_task :: "nat \<Rightarrow> 'key cert_cache \<Rightarrow> 'key cert_cache" where
  "cancel_task i s =
     (case kt_tasks s i of
        KIdle \<Rightarrow> s
      | KAnswered _ \<Rightarrow> s
      | KPublishing _ _ _ \<Rightarrow> s
      | KLeading _ _ \<Rightarrow> goto i KGone (publish (Inl ''certificate refresh interrupted'') s)
      | KFetched _ _ _ _ \<Rightarrow> goto i KGone (publish (Inl ''certificate refresh interrupted'') s)
      | _ \<Rightarrow> goto i KGone s)"

definition ask_key :: "nat \<Rightarrow> string \<Rightarrow> 'key cert_cache \<Rightarrow> 'key cert_cache" where
  "ask_key i kid s =
     (if kt_tasks s i = KIdle
      then (goto i (KAsked kid) s) \<lparr> kt_started := (kt_started s)(i := kt_now s) \<rparr> else s)"

inductive cert_step :: "'key cert_config \<Rightarrow> 'key cert_cache \<Rightarrow> 'key cert_cache \<Rightarrow> bool" for cfg where
  asked: "cert_step cfg s (ask_key i kid s)"
| polled: "cert_step cfg s (poll cfg sent i s)"
| cancelled: "cert_step cfg s (cancel_task i s)"
| ticked: "cert_step cfg s (s \<lparr> kt_now := kt_now s + d \<rparr>)"

section \<open>The invariant\<close>

fun leads :: "'key key_task \<Rightarrow> nat option" where
  "leads (KLeading _ tx) = Some tx"
| "leads (KFetched _ tx _ _) = Some tx"
| "leads (KPublishing _ tx _) = Some tx"
| "leads _ = None"

text \<open>At most one leader, and it owns the channel in the slot.\<close>

definition one_leader :: "'key cert_cache \<Rightarrow> bool" where
  "one_leader s =
     ((\<forall>i tx. leads (kt_tasks s i) = Some tx \<longrightarrow> kt_inflight s = Some tx)
      \<and> (\<forall>i j. leads (kt_tasks s i) \<noteq> None \<longrightarrow> leads (kt_tasks s j) \<noteq> None \<longrightarrow> i = j)
      \<and> (\<forall>tx. kt_inflight s = Some tx \<longrightarrow>
            (\<exists>i. leads (kt_tasks s i) = Some tx) \<and> kt_channels s tx = ChannelOpen \<and> tx < kt_next s))"

text \<open>What a set in the cache means for a request that started at \<open>t0\<close>: it was good then,
  or the refresh it came from was not over.\<close>

definition current_for :: "'key cert_cache \<Rightarrow> instant \<Rightarrow> bool" where
  "current_for s t0 = (\<exists>c. kt_inner s = Some c \<and> (t0 < kd_expires_at c \<or> t0 \<le> kt_refreshed s))"

definition task_ok :: "'key cert_config \<Rightarrow> 'key cert_cache \<Rightarrow> nat \<Rightarrow> bool" where
  "task_ok cfg s i =
     (case kt_tasks s i of
        KWaiting kid tx \<Rightarrow>
          tx < kt_next s
          \<and> (case kt_channels s tx of
               ChannelOpen \<Rightarrow> kt_inflight s = Some tx
             | ChannelSent (Inr _) \<Rightarrow> current_for s (kt_started s i)
             | ChannelSent (Inl _) \<Rightarrow> True
             | ChannelClosed \<Rightarrow> False)
      | KFetched kid tx keys ttl \<Rightarrow>
          \<exists>sent. fetch_keys (kf_crates cfg) (kf_format cfg) (kf_min_ttl cfg) sent = Inr (keys, ttl)
      | KPublishing kid tx (Inr _) \<Rightarrow> kt_inner s \<noteq> None
      | KLoading kid \<Rightarrow> current_for s (kt_started s i)
      | _ \<Rightarrow> True)"

definition fetched_set :: "'key cert_config \<Rightarrow> 'key cached \<Rightarrow> bool" where
  "fetched_set cfg c =
     (\<exists>sent ttl. fetch_keys (kf_crates cfg) (kf_format cfg) (kf_min_ttl cfg) sent = Inr (kd_keys c, ttl))"

definition answer_ok :: "'key cert_config \<Rightarrow> 'key key_answer \<Rightarrow> bool" where
  "answer_ok cfg a =
     (kd_keys (ka_cached a) (ka_kid a) = Some (ka_key a) \<and> fetched_set cfg (ka_cached a)
      \<and> ka_started a \<le> ka_at a \<and> ka_refreshed a \<le> ka_at a
      \<and> (ka_started a < kd_expires_at (ka_cached a) \<or> ka_started a \<le> ka_refreshed a
         \<or> 0 < kf_stale_if_error cfg \<and> ka_at a < kd_expires_at (ka_cached a) + kf_stale_if_error cfg))"

definition cert_inv :: "'key cert_config \<Rightarrow> 'key cert_cache \<Rightarrow> bool" where
  "cert_inv cfg s =
     (one_leader s \<and> (\<forall>i. task_ok cfg s i)
      \<and> (\<forall>i. kt_started s i \<le> kt_now s) \<and> kt_refreshed s \<le> kt_now s
      \<and> (\<forall>c. kt_inner s = Some c \<longrightarrow> fetched_set cfg c)
      \<and> (\<forall>a\<in>set (kt_answers s). answer_ok cfg a))"

section \<open>Every step keeps it\<close>

lemma goto_simps [simp]:
  "kt_tasks (goto i t s) = (kt_tasks s)(i := t)" "kt_now (goto i t s) = kt_now s"
  "kt_inner (goto i t s) = kt_inner s" "kt_inflight (goto i t s) = kt_inflight s"
  "kt_channels (goto i t s) = kt_channels s" "kt_next (goto i t s) = kt_next s"
  "kt_started (goto i t s) = kt_started s" "kt_refreshed (goto i t s) = kt_refreshed s"
  "kt_answers (goto i t s) = kt_answers s"
  by (simp_all add: goto_def)

lemma one_leader_goto:
  assumes "one_leader s" "leads t = leads (kt_tasks s i)"
  shows "one_leader (goto i t s)"
proof -
  have "leads (((kt_tasks s)(i := t)) j) = leads (kt_tasks s j)" for j using assms(2) by simp
  then show ?thesis using assms(1) unfolding one_leader_def goto_simps by presburger
qed

lemma current_for_goto [simp]: "current_for (goto i t s) t0 = current_for s t0"
  by (simp add: current_for_def)

lemma publish_simps [simp]:
  "kt_inner (publish out s) = kt_inner s" "kt_now (publish out s) = kt_now s"
  "kt_tasks (publish out s) = kt_tasks s" "kt_refreshed (publish out s) = kt_refreshed s"
  "kt_started (publish out s) = kt_started s"
  by (simp_all add: publish_def split: option.split)

lemma task_ok_other [simp]: "j \<noteq> i \<Longrightarrow> task_ok cfg (goto i t s) j = task_ok cfg s j"
  unfolding task_ok_def current_for_goto goto_simps by simp

lemma cert_inv_goto:
  assumes "cert_inv cfg s" "leads t = leads (kt_tasks s i)" "task_ok cfg (goto i t s) i"
  shows "cert_inv cfg (goto i t s)"
proof -
  have "\<forall>j. task_ok cfg (goto i t s) j" using assms(1,3) task_ok_other by (metis cert_inv_def)
  then show ?thesis using assms(1,2) one_leader_goto by (auto simp: cert_inv_def)
qed

lemma task_ok_cong:
  assumes "kt_tasks s i = kt_tasks s' i" "kt_next s = kt_next s'" "kt_channels s = kt_channels s'"
    "kt_inflight s = kt_inflight s'" "kt_inner s = kt_inner s'" "kt_started s i = kt_started s' i"
    "kt_refreshed s = kt_refreshed s'"
  shows "task_ok cfg s i = task_ok cfg s' i"
  unfolding task_ok_def current_for_def assms ..

lemma one_leader_cong:
  assumes "kt_tasks s = kt_tasks s'" "kt_inflight s = kt_inflight s'" "kt_channels s = kt_channels s'"
    "kt_next s = kt_next s'"
  shows "one_leader s = one_leader s'"
  unfolding one_leader_def assms ..

text \<open>A field that only the statements read.\<close>

lemma cert_inv_log:
  "cert_inv cfg s \<Longrightarrow> answer_ok cfg a \<Longrightarrow> cert_inv cfg (s \<lparr> kt_answers := a # kt_answers s \<rparr>)"
  using task_ok_cong [of "s \<lparr> kt_answers := a # kt_answers s \<rparr>" _ s cfg]
    one_leader_cong [of "s \<lparr> kt_answers := a # kt_answers s \<rparr>" s]
  by (simp add: cert_inv_def)

lemma cert_inv_answer:
  assumes "cert_inv cfg s" "kt_inner s = Some c" "leads (kt_tasks s i) = None"
    and "kt_started s i < kd_expires_at c \<or> kt_started s i \<le> kt_refreshed s
      \<or> 0 < kf_stale_if_error cfg \<and> kt_now s < kd_expires_at c + kf_stale_if_error cfg
      \<or> kd_keys c kid = None"
  shows "cert_inv cfg (answer_from cfg i kid c s)"
proof (cases "kd_keys c kid")
  case None
  have "cert_inv cfg (goto i (KAnswered (Inl e)) s)" for e
    by (rule cert_inv_goto [OF assms(1)]) (simp_all add: assms(3) task_ok_def)
  with None show ?thesis by (simp add: answer_from_def cached_key_def)
next
  case (Some key)
  let ?a = "\<lparr> ka_kid = kid, ka_key = key, ka_cached = c, ka_started = kt_started s i,
    ka_at = kt_now s, ka_refreshed = kt_refreshed s \<rparr>"
  have "answer_ok cfg ?a" using assms Some by (simp add: answer_ok_def cert_inv_def)
  then have "cert_inv cfg (s \<lparr> kt_answers := ?a # kt_answers s \<rparr>)" by (rule cert_inv_log [OF assms(1)])
  then have "cert_inv cfg (goto i (KAnswered (Inr key)) (s \<lparr> kt_answers := ?a # kt_answers s \<rparr>))"
    by (rule cert_inv_goto) (simp_all add: assms(3) task_ok_def)
  with Some show ?thesis by (simp add: answer_from_def cached_key_def)
qed

text \<open>The end of a refresh: the leader takes its sender out and answers.\<close>

lemma cert_inv_publish:
  assumes inv: "cert_inv cfg s" and l: "leads (kt_tasks s i) = Some tx" and t: "leads t = None"
    and r: "kt_refreshed s \<le> r" "r \<le> kt_now s"
    and out: "\<And>u. out = Inr u \<Longrightarrow> kt_inner s \<noteq> None \<and> r = kt_now s"
    and ok: "task_ok cfg (goto i t ((publish out s) \<lparr> kt_refreshed := r \<rparr>)) i"
  shows "cert_inv cfg (goto i t ((publish out s) \<lparr> kt_refreshed := r \<rparr>))"
proof -
  let ?s = "(publish out s) \<lparr> kt_refreshed := r \<rparr>"
  have slot: "kt_inflight s = Some tx" using inv l by (auto simp: cert_inv_def one_leader_def)
  have eq: "?s = s \<lparr> kt_inflight := None, kt_channels := (kt_channels s)(tx := ChannelSent out),
      kt_refreshed := r \<rparr>"
    by (simp add: publish_def slot)
  have "leads (kt_tasks s j) = None" if "j \<noteq> i" for j
    using inv l that by (metis cert_inv_def one_leader_def option.distinct(1))
  then have "one_leader (goto i t ?s)"
    unfolding one_leader_def eq using t by auto
  moreover have "task_ok cfg (goto i t ?s) j" for j
  proof (cases "j = i")
    case False
    have old: "task_ok cfg s j" "kt_started s j \<le> kt_now s" using inv by (simp_all add: cert_inv_def)
    have "current_for ?s t0" if "current_for s t0" for t0
      using that r by (auto simp: current_for_def)
    moreover have "current_for ?s (kt_started s j)" if "out = Inr u" for u
      using out [OF that] old(2) by (auto simp: current_for_def)
    moreover have "kt_inner ?s = kt_inner s" "kt_tasks ?s = kt_tasks s" "kt_started ?s = kt_started s"
      "kt_next ?s = kt_next s" "kt_channels ?s = (kt_channels s)(tx := ChannelSent out)"
      by (simp_all add: eq)
    ultimately show ?thesis using old(1) False slot
      by (auto simp: task_ok_def split: key_task.splits channel.splits sum.splits)
  qed (use ok in simp)
  ultimately show ?thesis using inv r by (simp add: cert_inv_def eq)
qed

lemma cert_inv_publish_err:
  assumes "cert_inv cfg s" "leads (kt_tasks s i) = Some tx" "leads t = None"
    and "task_ok cfg (goto i t (publish (Inl m) s)) i"
  shows "cert_inv cfg (goto i t (publish (Inl m) s))"
proof -
  have eq: "(publish (Inl m) s) \<lparr> kt_refreshed := kt_refreshed s \<rparr> = publish (Inl m) s"
    by (simp add: publish_def split: option.split)
  show ?thesis
    by (rule cert_inv_publish [where r = "kt_refreshed s" and out = "Inl m" and s = s, unfolded eq])
      (use assms in \<open>simp_all add: cert_inv_def\<close>)
qed

lemma cert_inv_enlist:
  assumes inv: "cert_inv cfg s" and l: "leads (kt_tasks s i) = None" and free: "kt_inflight s = None"
  shows "cert_inv cfg (goto i (KLeading kid (kt_next s))
    (s \<lparr> kt_inflight := Some (kt_next s), kt_channels := (kt_channels s)(kt_next s := ChannelOpen),
         kt_next := Suc (kt_next s) \<rparr>))" (is "cert_inv cfg (goto i ?t ?s)")
proof -
  have "leads (kt_tasks s j) = None" for j
    using inv free by (metis cert_inv_def one_leader_def option.distinct(1) option.exhaust)
  then have "one_leader (goto i ?t ?s)" by (auto simp: one_leader_def)
  moreover have "task_ok cfg (goto i ?t ?s) j" for j
  proof (cases "j = i")
    case False
    have "task_ok cfg s j" using inv by (simp add: cert_inv_def)
    then show ?thesis using False free
      by (auto simp: task_ok_def current_for_def split: key_task.splits channel.splits sum.splits)
  qed (simp add: task_ok_def)
  ultimately show ?thesis using inv by (simp add: cert_inv_def)
qed

lemma cert_inv_store:
  assumes inv: "cert_inv cfg s" and t: "kt_tasks s i = KFetched kid tx keys ttl"
  shows "cert_inv cfg (goto i (KPublishing kid tx (Inr ())) (store_keys (kf_latest cfg) keys ttl s))"
    (is "cert_inv cfg (goto i ?t ?s)")
proof -
  have s: "kt_tasks ?s = kt_tasks s" "kt_inflight ?s = kt_inflight s" "kt_channels ?s = kt_channels s"
    "kt_next ?s = kt_next s" "kt_started ?s = kt_started s" "kt_refreshed ?s = kt_now s"
    "kt_answers ?s = kt_answers s" "kt_now ?s = kt_now s"
    "\<exists>c. kt_inner ?s = Some c \<and> kd_keys c = keys"
    by (simp_all add: store_keys_def)
  have "one_leader ?s" using inv s by (simp add: cert_inv_def one_leader_def)
  then have "one_leader (goto i ?t ?s)" by (rule one_leader_goto) (simp add: s t)
  moreover have cur: "current_for ?s (kt_started s j)" for j
    using inv s by (auto simp: current_for_def cert_inv_def)
  have "task_ok cfg (goto i ?t ?s) j" for j
  proof (cases "j = i")
    case False
    have "task_ok cfg s j" using inv by (simp add: cert_inv_def)
    then show ?thesis using False cur s
      by (auto simp: task_ok_def split: key_task.splits channel.splits sum.splits)
  qed (use s in \<open>auto simp: task_ok_def\<close>)
  moreover have "fetched_set cfg c" if "kt_inner ?s = Some c" for c
  proof -
    have "task_ok cfg s i" using inv by (simp add: cert_inv_def)
    then show ?thesis using t that s(9) by (auto simp: task_ok_def fetched_set_def)
  qed
  ultimately show ?thesis using inv s by (simp add: cert_inv_def)
qed

lemma checked_add_SomeD: "checked_add latest t d = Some u \<Longrightarrow> u = t + d"
  by (simp add: checked_add_def split: if_splits)

lemma cert_inv_after_failure:
  assumes inv: "cert_inv cfg s" and t: "kt_tasks s i = KFailed kid e"
  shows "cert_inv cfg (after_failure cfg i kid e s)"
proof -
  have stop: "cert_inv cfg (goto i (KAnswered (Inl e)) s)"
    by (rule cert_inv_goto [OF inv]) (simp_all add: t task_ok_def)
  show ?thesis
  proof (cases "kt_inner s")
    case None
    with stop show ?thesis by (simp add: after_failure_def)
  next
    case (Some c)
    have "cert_inv cfg (answer_from cfg i kid c s)"
      if "kd_keys c kid = None \<or> 0 < kf_stale_if_error cfg \<and> kt_now s < kd_expires_at c + kf_stale_if_error cfg"
      by (rule cert_inv_answer [OF inv Some]) (use t that in auto)
    then show ?thesis using stop Some
      by (auto simp: after_failure_def dest: checked_add_SomeD split: option.splits)
  qed
qed

lemma cert_inv_poll:
  assumes inv: "cert_inv cfg s"
  shows "cert_inv cfg (poll cfg sent i s)"
proof -
  have ok: "task_ok cfg s i" and now: "kt_started s i \<le> kt_now s" "kt_refreshed s \<le> kt_now s"
    using inv by (simp_all add: cert_inv_def)
  show ?thesis
  proof (cases "kt_tasks s i")
    case (KAsked kid)
    have "cert_inv cfg (goto i (KChecking kid) s)"
      by (rule cert_inv_goto [OF inv]) (simp_all add: KAsked task_ok_def)
    moreover have "cert_inv cfg (answer_from cfg i kid c s)" if "kt_inner s = Some c" "is_fresh (kt_now s) c" for c
      by (rule cert_inv_answer [OF inv that(1)]) (use that(2) now KAsked in \<open>auto simp: is_fresh_def\<close>)
    ultimately show ?thesis by (auto simp: poll_def KAsked split: option.split)
  next
    case (KChecking kid)
    have "cert_inv cfg (goto i (KEnlisting kid) s)"
      by (rule cert_inv_goto [OF inv]) (simp_all add: KChecking task_ok_def)
    moreover have "cert_inv cfg (goto i (KLoading kid) s)" if "fresh_now s"
      by (rule cert_inv_goto [OF inv])
        (use that now in \<open>auto simp: KChecking task_ok_def current_for_def fresh_now_def is_fresh_def
          split: option.splits\<close>)
    ultimately show ?thesis by (simp add: poll_def KChecking)
  next
    case (KEnlisting kid)
    have "cert_inv cfg (goto i (KWaiting kid tx) s)" if "kt_inflight s = Some tx" for tx
      by (rule cert_inv_goto [OF inv])
        (use that inv in \<open>auto simp: KEnlisting task_ok_def cert_inv_def one_leader_def\<close>)
    then show ?thesis using cert_inv_enlist [OF inv] KEnlisting by (simp add: poll_def split: option.split)
  next
    case (KWaiting kid tx)
    have "cert_inv cfg (goto i (KFailed kid e) s)" for e
      by (rule cert_inv_goto [OF inv]) (simp_all add: KWaiting task_ok_def)
    moreover have "cert_inv cfg (goto i (KChecking kid) s)"
      by (rule cert_inv_goto [OF inv]) (simp_all add: KWaiting task_ok_def)
    moreover have "cert_inv cfg (goto i (KLoading kid) s)" if "kt_channels s tx = ChannelSent (Inr u)" for u
      by (rule cert_inv_goto [OF inv]) (use that ok in \<open>auto simp: KWaiting task_ok_def\<close>)
    ultimately show ?thesis using inv by (simp add: poll_def KWaiting split: channel.split sum.split)
  next
    case (KLeading kid tx)
    have "cert_inv cfg (goto i (KPublishing kid tx (Inl e)) s)" for e
      by (rule cert_inv_goto [OF inv]) (simp_all add: KLeading task_ok_def)
    moreover have "cert_inv cfg (goto i (KFetched kid tx keys ttl) s)"
      if "fetch_keys (kf_crates cfg) (kf_format cfg) (kf_min_ttl cfg) sent = Inr (keys, ttl)" for keys ttl
      by (rule cert_inv_goto [OF inv]) (use that in \<open>auto simp: KLeading task_ok_def\<close>)
    ultimately show ?thesis by (simp add: poll_def KLeading split: sum.split prod.split)
  next
    case (KFetched kid tx keys ttl)
    then show ?thesis using cert_inv_store [OF inv KFetched] by (simp add: poll_def)
  next
    case (KPublishing kid tx outcome)
    show ?thesis
    proof (cases outcome)
      case (Inl e)
      have "cert_inv cfg (goto i (KFailed kid e) (publish (Inl (auth_error_text e)) s))"
        by (rule cert_inv_publish_err [OF inv]) (simp_all add: KPublishing task_ok_def)
      then show ?thesis by (simp add: poll_def KPublishing Inl)
    next
      case (Inr u)
      have "kt_inner s \<noteq> None" using ok by (simp add: task_ok_def KPublishing Inr)
      then have "cert_inv cfg (goto i (KLoading kid) ((publish (Inr ()) s) \<lparr> kt_refreshed := kt_now s \<rparr>))"
        by (intro cert_inv_publish [OF inv])
          (use now in \<open>auto simp: KPublishing task_ok_def current_for_def\<close>)
      then show ?thesis by (simp add: poll_def KPublishing Inr)
    qed
  next
    case (KFailed kid e)
    then show ?thesis using cert_inv_after_failure [OF inv KFailed] by (simp add: poll_def)
  next
    case (KLoading kid)
    then obtain c where c: "kt_inner s = Some c" "kt_started s i < kd_expires_at c \<or> kt_started s i \<le> kt_refreshed s"
      using ok by (auto simp: task_ok_def current_for_def)
    have "cert_inv cfg (answer_from cfg i kid c s)"
      by (rule cert_inv_answer [OF inv c(1)]) (use c(2) KLoading in auto)
    then show ?thesis using c(1) by (simp add: poll_def KLoading)
  qed (use inv in \<open>simp_all add: poll_def\<close>)
qed

lemma cert_inv_cancel:
  assumes inv: "cert_inv cfg s"
  shows "cert_inv cfg (cancel_task i s)"
proof -
  have plain: "cert_inv cfg (goto i KGone s)" if "leads (kt_tasks s i) = None"
    by (rule cert_inv_goto [OF inv]) (simp_all add: that task_ok_def)
  have lead: "cert_inv cfg (goto i KGone (publish (Inl m) s))" if "leads (kt_tasks s i) = Some tx" for m tx
    by (rule cert_inv_publish_err [OF inv that]) (simp_all add: task_ok_def)
  show ?thesis using inv plain lead by (cases "kt_tasks s i") (simp_all add: cancel_task_def)
qed

lemma cert_inv_ask:
  assumes inv: "cert_inv cfg s"
  shows "cert_inv cfg (ask_key i kid s)"
proof (cases "kt_tasks s i = KIdle")
  case True
  let ?s = "goto i (KAsked kid) s"
  have g: "cert_inv cfg ?s" by (rule cert_inv_goto [OF inv]) (simp_all add: True task_ok_def)
  have "task_ok cfg (?s \<lparr> kt_started := (kt_started s)(i := kt_now s) \<rparr>) j" for j
  proof (cases "j = i")
    case False
    then have "task_ok cfg (?s \<lparr> kt_started := (kt_started s)(i := kt_now s) \<rparr>) j = task_ok cfg ?s j"
      by (intro task_ok_cong) simp_all
    then show ?thesis using g by (simp add: cert_inv_def)
  qed (simp add: task_ok_def)
  moreover have "one_leader (?s \<lparr> kt_started := (kt_started s)(i := kt_now s) \<rparr>) = one_leader ?s"
    by (rule one_leader_cong) simp_all
  ultimately show ?thesis using g True by (simp add: ask_key_def cert_inv_def)
qed (use inv in \<open>simp add: ask_key_def\<close>)

lemma cert_inv_tick:
  assumes inv: "cert_inv cfg s"
  shows "cert_inv cfg (s \<lparr> kt_now := kt_now s + d \<rparr>)"
proof -
  have "task_ok cfg (s \<lparr> kt_now := kt_now s + d \<rparr>) j = task_ok cfg s j" for j
    by (intro task_ok_cong) simp_all
  moreover have "one_leader (s \<lparr> kt_now := kt_now s + d \<rparr>) = one_leader s"
    by (rule one_leader_cong) simp_all
  ultimately show ?thesis using inv by (auto simp: cert_inv_def intro: trans_le_add1)
qed

lemma cert_inv_new: "cert_inv cfg (cert_cache_new now)"
  by (simp add: cert_inv_def cert_cache_new_def one_leader_def task_ok_def)

lemma cert_inv_step: "cert_inv cfg s \<Longrightarrow> cert_step cfg s t \<Longrightarrow> cert_inv cfg t"
  by (auto elim!: cert_step.cases intro: cert_inv_ask cert_inv_poll cert_inv_cancel cert_inv_tick)

interpretation cert: invariant_system "\<lambda>s. \<exists>now. s = cert_cache_new now" "cert_step cfg" "cert_inv cfg" for cfg
  by unfold_locales (auto intro: cert_inv_new cert_inv_step)

section \<open>Properties\<close>

text \<open>C18: one refresh at a time, and nobody waits for a refresh that is gone. Whatever tasks
  ask for keys, fetch, fail and are dropped in whatever order, at most one of them is
  fetching, and a task that waits either has its answer in the channel or waits on the
  channel of the one live leader, which is still open.\<close>

theorem key_refresh_single_flight:
  assumes "(cert_step cfg)\<^sup>*\<^sup>* (cert_cache_new now) s"
  shows "(\<forall>i j. leads (kt_tasks s i) \<noteq> None \<longrightarrow> leads (kt_tasks s j) \<noteq> None \<longrightarrow> i = j)
    \<and> (\<forall>i kid tx. kt_tasks s i = KWaiting kid tx \<longrightarrow>
         (\<exists>verdict. kt_channels s tx = ChannelSent verdict)
         \<or> kt_channels s tx = ChannelOpen \<and> (\<exists>leader. leads (kt_tasks s leader) = Some tx))"
proof -
  have inv: "cert_inv cfg s" using cert.reachable_inv [OF _ assms] by blast
  then have one: "one_leader s" by (simp add: cert_inv_def)
  have "(\<exists>verdict. kt_channels s tx = ChannelSent verdict)
      \<or> kt_channels s tx = ChannelOpen \<and> (\<exists>leader. leads (kt_tasks s leader) = Some tx)"
    if "kt_tasks s i = KWaiting kid tx" for i kid tx
  proof -
    have "task_ok cfg s i" using inv by (simp add: cert_inv_def)
    then show ?thesis using that one
      by (auto simp: task_ok_def one_leader_def split: channel.splits)
  qed
  with one show ?thesis unfolding one_leader_def by blast
qed


section \<open>Witnesses\<close>

definition sample_cert_config :: "string cert_config" where
  "sample_cert_config =
     \<lparr> kf_crates = sample_key_crates, kf_format = Jwks, kf_min_ttl = 300, kf_stale_if_error = 50,
       kf_latest = 100000 \<rparr>"

text \<open>Two tasks ask; the first fetches, the second waits for it.\<close>

definition sample_cert_polls :: "nat list \<Rightarrow> string cert_cache" where
  "sample_cert_polls order =
     fold (poll sample_cert_config (Inr sample_key_response)) order
       (ask_key 2 ''k1'' (ask_key 1 ''k1'' (cert_cache_new 10)))"

lemma sample_cert_polls_reachable:
  "(cert_step sample_cert_config)\<^sup>*\<^sup>* (cert_cache_new 10) (sample_cert_polls order)"
proof -
  let ?p = "poll sample_cert_config (Inr sample_key_response)"
  have "(cert_step sample_cert_config)\<^sup>*\<^sup>* s (fold ?p order s)" for s
    by (induction order arbitrary: s)
      (auto intro: converse_rtranclp_into_rtranclp cert_step.polled)
  moreover have "(cert_step sample_cert_config)\<^sup>*\<^sup>* (cert_cache_new 10)
      (ask_key 2 ''k1'' (ask_key 1 ''k1'' (cert_cache_new 10)))"
    by (meson cert_step.asked r_into_rtranclp rtranclp.rtrancl_into_rtrancl)
  ultimately show ?thesis unfolding sample_cert_polls_def by (meson rtranclp_trans)
qed

lemma sample_cert_waits: "kt_tasks (sample_cert_polls [1, 2, 1, 2, 1, 2]) 2 = KWaiting ''k1'' 0"
  by (simp add: sample_cert_polls_def poll_def ask_key_def cert_cache_new_def goto_def fresh_now_def)

theorem key_refresh_single_flight_witness:
  "(\<exists>verdict. kt_channels (sample_cert_polls [1, 2, 1, 2, 1, 2]) 0 = ChannelSent verdict)
   \<or> kt_channels (sample_cert_polls [1, 2, 1, 2, 1, 2]) 0 = ChannelOpen
     \<and> (\<exists>leader. leads (kt_tasks (sample_cert_polls [1, 2, 1, 2, 1, 2]) leader) = Some 0)"
  using key_refresh_single_flight [OF sample_cert_polls_reachable] sample_cert_waits by blast

lemma sample_cert_answers:
  "kt_answers (sample_cert_polls [1, 1, 1, 1, 1, 1, 1]) =
     [\<lparr> ka_kid = ''k1'', ka_key = ''x'', ka_cached = \<lparr> kd_keys = [''k1'' \<mapsto> ''x''], kd_expires_at = 310 \<rparr>,
        ka_started = 10, ka_at = 10, ka_refreshed = 10 \<rparr>]"
  by (simp add: sample_cert_polls_def poll_def ask_key_def cert_cache_new_def goto_def fresh_now_def
      sample_fetch sample_cert_config_def store_keys_def checked_add_def publish_def answer_from_def cached_key_def)


end
