(* ===== verification/Spec2Isabelle.thy ===== *)
theory Spec2Isabelle
  imports Config_Defaults Dev_Supervisor Explain Starter Resp_Backend Lifecycle Policy_Diff Config_Text
    Interpolate Cache_Policy Key_Cache Token_Verifiers Request_Samples Ext Shared_Url Gateway_Config Paths
    Breaker Concurrency Ratelimit Limiter Identity_Headers Binding Retry Route_Index
    Route_Validation Rejection Cors Csrf Trace_Context Upstreams
begin

text \<open>
  Lagos, an HTTP API gateway built on Pingora: its request-handling core, its configuration and
  its command line (\<open>src/crates/lagos-core/src\<close>) as HOL definitions, with the theorems that
  make them correct. Paths below are relative to that directory.

  \<^bold>\<open>The program.\<close> One process serves a public listener and, optionally, an internal one. A
  document (\<open>gateway.yml\<close>) is expanded, parsed and resolved into a configuration; a table of
  routes is built from it or from a route file, validated and split over the two listeners;
  upstreams are resolved to pools. For each request Pingora calls the gateway's filters in order.
  The request filter decides: mount, path, deny-list, route, machine credential, client key, rate
  limit, identity, ownership, headers, extensions, concurrency. The later filters take the slot,
  ask the breaker, use the cache, choose a member of the pool, rewrite the request, answer
  failures and report the outcome. Beside the requests run the route reloader, the refresh of
  signing keys, the refreshes of the pools and the exchange of shared counters. The commands
  \<open>validate\<close>, \<open>test\<close>, \<open>diff\<close>, \<open>explain\<close>, \<open>routes\<close>, \<open>vars\<close> and \<open>config --effective\<close>
  answer questions about a configuration without serving.

  \<^bold>\<open>How it is modelled.\<close> A \<open>str\<close> is its list of UTF-8 bytes, \<open>Instant\<close> and \<open>Duration\<close> are
  nanoseconds, saturating and checked arithmetic is written out, an \<open>f64\<close> is a rational together
  with the rounding function of \<open>Rust_F64\<close>, a \<open>Result\<close> is a sum with the error on the left, and
  \<open>?\<close> is \<open>and_then\<close>. Records and datatypes have the fields and constructors of the source. A
  filter is a \<open>stage\<close>, a function from the running request to a reply or a value and the running
  request again. Limiters are shared by reference and live in a heap, a list addressed by number.
  What runs concurrently is an inductive step relation over these operations, whose invariants
  are proved through the locale \<open>invariant_system\<close> of \<open>Rust_Prelude\<close>. Third-party crates
  (percent-encoding, http, base64, sha2, serde, jsonwebtoken, pingora, moka, redis) and what comes
  from outside (clock, random ids, DNS answers, files, environment) are parameters; where the code
  relies on their behaviour, it is a named hypothesis or the law of a locale, and a witness or an
  interpretation shows that it can hold.

  \<^bold>\<open>The theories.\<close>

  \<^item> \<open>Rust_Prelude\<close>: results, strings, ASCII case, splitting, saturating arithmetic, folds that stop
    at an error, the locale of step systems with an invariant. \<open>Rust_F64\<close>: rounding to nearest even,
    with the interface the limiter needs as a locale.

  \<^item> \<open>Paths\<close> (\<open>path.rs\<close>): canonicalization and re-encoding of paths; a canonical path is safe and
    stable, and what is sent upstream decodes to what was checked. At most three decodings are
    tried, as in the code.

  \<^item> \<open>Breaker\<close> (\<open>breaker.rs\<close>), \<open>Retry\<close> (\<open>retry.rs\<close>), \<open>Concurrency\<close> (\<open>concurrency.rs\<close>): the circuit
    breaker under any interleaving of requests, the retry policy with its bound, slots in flight
    and the cap that holds under any interleaving.

  \<^item> \<open>Headers\<close> (\<open>headers.rs\<close>), \<open>Auth\<close> (\<open>auth/mod.rs\<close>), \<open>Binding\<close> (\<open>binding.rs\<close>),
    \<open>Identity_Headers\<close> (\<open>identity.rs\<close>), \<open>Trace_Context\<close> (\<open>trace.rs\<close>), \<open>Rejection\<close> (\<open>error.rs\<close>),
    \<open>Cors\<close> (\<open>cors.rs\<close>), \<open>Csrf\<close> (\<open>csrf.rs\<close>): the header plan and the client address, bearer and
    cookie tokens and claims, ownership bindings, the headers that describe the caller, the trace
    header, the gateway's own replies, cross-origin headers, and the origin check for cookies.

  \<^item> \<open>Ratelimit\<close>, \<open>Limiter\<close> (\<open>ratelimit/mod.rs\<close>), \<open>Shared_Counters\<close>, \<open>Shared_Url\<close>
    (\<open>ratelimit/shared.rs\<close>), \<open>Resp_Backend\<close> (\<open>ratelimit/resp.rs\<close>): the sliding window in \<open>f64\<close>
    arithmetic and its quota, the limiter over its backends, counters shared between replicas with
    their passes and bounds (the server is the locale \<open>resp_server\<close>, interpreted on a map of
    hashes), the URL of the server and its redaction, and the commands and answers of the client.

  \<^item> \<open>Routes\<close> (\<open>routes/mod.rs\<close>), \<open>Route_Index\<close> (\<open>routes/index.rs\<close>), \<open>Route_Validation\<close> and
    \<open>Client_Keys\<close> (\<open>config/mod.rs\<close>): building, matching, splitting and reloading of tables; the
    segment trie, equal to the linear scan through the locale \<open>route_matcher\<close>; every check of a
    table; client keys and their exemptions.

  \<^item> \<open>Config_Text\<close>, \<open>Gateway_Config\<close>, \<open>Config_Defaults\<close> (\<open>config/mod.rs\<close>), \<open>Interpolate\<close>, \<open>Expansion\<close>
    (\<open>config/interpolate.rs\<close>): byte sizes and the edit distance behind suggestions, equal to the
    fewest edits; the document and its resolution, with what a resolved document guarantees; the
    values filled in for what is left out, which never make a document invalid; the
    expansion of \<open>${VAR}\<close>, and the simulation between two expansions of one document (locale
    \<open>expansion_simulation\<close>, interpreted for placeholders, fallbacks and inspections).

  \<^item> \<open>Upstreams\<close>, \<open>Pools\<close> (\<open>upstream.rs\<close>, \<open>dns.rs\<close>): targets, members, selection, discovery; how
    pools are built, primed and refreshed, and that they stay whole.

  \<^item> \<open>Key_Sets\<close>, \<open>Key_Cache\<close> (\<open>auth/jwks.rs\<close>), \<open>Token_Verifiers\<close> (\<open>auth/jwt.rs\<close>,
    \<open>auth/firebase.rs\<close>, \<open>auth/mod.rs\<close>): reading key sets; the cache with its single-flight refresh,
    stale grace and cancellation as interleaved tasks; the verifiers and their router.

  \<^item> \<open>Ext\<close> (\<open>ext.rs\<close>): the registry, the chain of hooks with its deadlines, the admission budget.
    \<open>Deadlines\<close> (\<open>downstream.rs\<close>): the deadlines around one exchange as races of future times.

  \<^item> \<open>Cache_Storage\<close> (\<open>cache/storage.rs\<close>, \<open>cache/mod.rs\<close>), \<open>Cache_Policy\<close> (\<open>cache/policy.rs\<close> and
    the cache filters of \<open>proxy.rs\<close>): the storage with its two budgets under any interleaving of
    fills, and what may be served to whom.

  \<^item> \<open>Gateway_State\<close>, \<open>Request_Filter\<close>, \<open>Exchange\<close> (\<open>proxy.rs\<close>): the gateway and the request
    context, the request filter stage by stage, the filters after it. \<open>Request_Properties\<close>,
    \<open>Exchange_Properties\<close> and \<open>Upstream_Headers\<close> prove what holds of them together: what a request
    that is let through has passed, that refusals look alike, that concurrent exchanges refine the
    breaker's own machine, that identity headers come from the verified identity alone.
    \<open>Request_Samples\<close> evaluates a small gateway for the witnesses.

  \<^item> \<open>Lifecycle\<close> (\<open>runtime.rs\<close>, \<open>routes/file.rs\<close>), \<open>Startup\<close> (\<open>config/mod.rs\<close>, \<open>cli.rs\<close>,
    \<open>runtime.rs\<close>): the tables at boot, the reloader under any interleaving, the counter
    synchronisation, server settings; loading, \<open>validate\<close> and \<open>run\<close>, and that the first predicts
    the second.

  \<^item> \<open>Policy_Tests\<close>, \<open>Policy_Diff\<close> (\<open>cli/policy.rs\<close>), \<open>Explain\<close> (\<open>cli.rs\<close>,
    \<open>cli/explanation.rs\<close>), \<open>Effective\<close> (\<open>cli/effective.rs\<close>, \<open>cli/diagnostics.rs\<close>), \<open>Env_Inventory\<close>
    (\<open>cli/vars.rs\<close>), \<open>Starter\<close> (\<open>cli.rs\<close>, \<open>init\<close>): the offline commands; that offline decisions
    agree with the gateway, that a silent diff means equal decisions, that \<open>--why-not\<close> accounts for
    every route, that nothing secret is printed, and that \<open>init\<close> replaces nothing.
    \<open>Dev_Supervisor\<close> (\<open>cli.rs\<close>): the loop of \<open>lagos dev\<close>, whose running child always serves
    checked files.

  \<^bold>\<open>Bounds and fuel.\<close> No definition runs out of fuel silently. Loops are structural or come with a
  termination measure; reading a cache hit is a partial function, and the theorem about it shows
  that it ends. The search for a prefix the document does not contain is bounded by the document's
  length, which \<open>free_prefix_absent\<close> shows to be enough. The decodings of a path, the groups of
  an address and the retries have the bounds the code has.

  \<^bold>\<open>Findings.\<close> Where the code does something else than it means to, a lemma next to the definition
  proves the behaviour and the manifest names it: among them a late success that counts as a
  trial, unreported trials that block a breaker, an empty machine secret, a redaction that can be
  led past a password, comments the expansion takes for text, and an edit that ends \<open>lagos dev\<close>.

  \<^bold>\<open>Not modelled.\<close> Logging, metrics (\<open>metrics.rs\<close>), tracing export (\<open>otel.rs\<close>, \<open>telemetry.rs\<close>) and
  the narration of \<open>lagos dev\<close> only observe; they change no state a decision reads. The JSON schema
  of the document (\<open>config/schema.rs\<close>) is derived from the types by a third-party crate and used by
  editors only. The deserializers are generated by serde, so the model starts at the parsed
  document; the readings the repository writes itself (byte sizes, keys, selectors, target lists,
  defaults) are modelled. Argument parsing is declared with clap. Pingora's connection handling,
  the load balancer's algorithms, the moka map, TLS and sockets are libraries, represented by what
  the gateway asks of them. Tests, benchmarks and templates are not part of the program.
\<close>

end
